(* ===== verification/Prelude.thy ===== *)
theory Prelude
  imports Complex_Main
begin

section \<open>Shared vocabulary of the development\<close>

text \<open>
  What every component theory uses: the result type of an operation that may
  raise (\<open>Inl\<close> the exception, \<open>Inr\<close> the value), the rows of a database table as a
  finite association by primary key, the two list facts about ledgers that the
  money components share, and the \<^theory_text>\<open>named_theorems\<close> collections into
  which the components put their one-step preservation facts.
\<close>

named_theorems step_simps
  \<open>unfoldings of the operations of a component, one handler at a time\<close>

named_theorems step_keeps
  \<open>an operation of a component keeps the invariant of that component\<close>

type_synonym pk = nat

text \<open>A table maps a primary key to a row; \<open>objects.get(pk=k)\<close> is \<open>t k\<close>.\<close>

type_synonym 'r table = "pk \<Rightarrow> 'r option"

text \<open>
  \<open>objects.filter(...)\<close>: the keys of the rows that satisfy a condition, in key
  order, where \<open>n\<close> is the next free key.
\<close>

definition rows_where :: "nat \<Rightarrow> 'r table \<Rightarrow> ('r \<Rightarrow> bool) \<Rightarrow> pk list" where
  "rows_where n t P = filter (\<lambda>k. case t k of None \<Rightarrow> False | Some r \<Rightarrow> P r) [0..<n]"

lemma set_rows_where: "set (rows_where n t P) = {k. k < n \<and> (\<exists>r. t k = Some r \<and> P r)}"
  by (auto simp: rows_where_def split: option.splits)

lemma distinct_rows_where [simp]: "distinct (rows_where n t P)"
  by (simp add: rows_where_def)

lemma rows_where_empty: "rows_where n t P = [] \<longleftrightarrow> (\<forall>k < n. \<forall>r. t k = Some r \<longrightarrow> \<not> P r)"
  by (auto simp: rows_where_def filter_empty_conv split: option.splits)

definition update_row :: "pk \<Rightarrow> ('r \<Rightarrow> 'r) \<Rightarrow> 'r table \<Rightarrow> 'r table" where
  "update_row k f t = (case t k of None \<Rightarrow> t | Some r \<Rightarrow> t(k \<mapsto> f r))"

lemma update_row_simps [simp]:
  "t k = Some r \<Longrightarrow> update_row k f t = t(k \<mapsto> f r)"
  "t k = None \<Longrightarrow> update_row k f t = t"
  by (simp_all add: update_row_def)

lemma update_row_apply: "update_row k f t j = (if j = k then map_option f (t k) else t j)"
  by (simp add: update_row_def split: option.splits)

abbreviation isOk :: "'e + 'a \<Rightarrow> bool" where
  "isOk r \<equiv> \<not> isl r"

text \<open>
  Python's \<open>value or default\<close> on a nullable number: \<open>None\<close> and zero are both falsy.
\<close>

definition or_num :: "'a::zero option \<Rightarrow> 'a \<Rightarrow> 'a" where
  "or_num v d = (case v of None \<Rightarrow> d | Some x \<Rightarrow> if x = 0 then d else x)"

lemma or_num_simps [simp]:
  "or_num None d = d"
  "or_num (Some 0) d = d"
  "x \<noteq> 0 \<Longrightarrow> or_num (Some x) d = x"
  by (simp_all add: or_num_def)

text \<open>
  Rows appended to a ledger that belong to another owner do not change the
  owner's total; a row of the owner adds its amount.
\<close>

lemma sum_list_filter_snoc:
  "sum_list (map f (filter P (xs @ [x])))
     = sum_list (map f (filter P xs)) + (if P x then f x else (0::'a::comm_monoid_add))"
  by simp

lemma sum_list_nonneg_map:
  "(\<And>x. x \<in> set xs \<Longrightarrow> 0 \<le> f x) \<Longrightarrow> 0 \<le> sum_list (map f xs :: 'a::ordered_comm_monoid_add list)"
  by (induction xs) (auto intro: add_nonneg_nonneg)

lemma find_snoc:
  "find P (xs @ [x]) = (case find P xs of None \<Rightarrow> if P x then Some x else None | Some y \<Rightarrow> Some y)"
  by (induction xs) auto

text \<open>Case analysis on a result, as \<open>try\<close>/\<open>except\<close> does.\<close>

lemma sum_case_Inl_iff:
  "(case r of Inl e \<Rightarrow> Inl (g e) | Inr a \<Rightarrow> Inr (h a)) = Inl y \<longleftrightarrow> (\<exists>e. r = Inl e \<and> y = g e)"
  by (cases r) auto

subsection \<open>Decimal text\<close>

text \<open>\<open>str(n)\<close> of a non-negative integer; distinct numbers have distinct texts.\<close>

fun dec :: "nat \<Rightarrow> string" where
  "dec n = (if n < 10 then [char_of (48 + n)] else dec (n div 10) @ [char_of (48 + n mod 10)])"

declare dec.simps [simp del]

definition undec :: "string \<Rightarrow> nat" where
  "undec s = foldl (\<lambda>a c. 10 * a + (of_char c - 48)) 0 s"

lemma undec_dec: "undec (dec n) = n"
proof (induction n rule: dec.induct)
  case (1 n)
  show ?case
  proof (cases "n < 10")
    case False
    have "(48 + n mod 10) mod 256 = 48 + n mod 10" by simp
    with 1 False show ?thesis by (subst dec.simps) (simp add: undec_def)
  qed (subst dec.simps, simp add: undec_def)
qed

lemma dec_inject [simp]: "dec m = dec n \<longleftrightarrow> m = n"
  by (metis undec_dec)

lemma dec_digit: "c \<in> set (dec n) \<Longrightarrow> (48 :: nat) \<le> of_char c \<and> (of_char c :: nat) \<le> 57"
proof (induction n rule: dec.induct)
  case (1 n)
  then show ?case
  proof (cases "n < 10")
    case True
    with 1(2) have "c = char_of (48 + n)" by (subst (asm) dec.simps) simp
    with True show ?thesis by simp
  next
    case False
    have "(48 + n mod 10) mod 256 = 48 + n mod 10" by simp
    with 1 False show ?thesis by (subst (asm) dec.simps[of n]) auto
  qed
qed

lemma dec_no_sep: "(of_char c :: nat) < 48 \<or> 57 < (of_char c :: nat) \<Longrightarrow> c \<notin> set (dec n)"
  using dec_digit[of c n] by auto

text \<open>A separator that does not occur on the left splits a text in one way only.\<close>

lemma split_at_sep:
  "c \<notin> set xs \<Longrightarrow> c \<notin> set ys \<Longrightarrow> xs @ c # us = ys @ c # vs \<longleftrightarrow> xs = ys \<and> us = vs"
proof (induction xs arbitrary: ys)
  case Nil
  then show ?case by (cases ys) auto
next
  case (Cons x xs)
  then show ?case by (cases ys) auto
qed

subsection \<open>Text\<close>

text \<open>\<open>str.upper\<close> on the ASCII letters.\<close>

definition upper :: "string \<Rightarrow> string" where
  "upper s = map (\<lambda>c. let n = of_char c :: nat in if 97 \<le> n \<and> n \<le> 122 then char_of (n - 32) else c) s"

definition lower :: "string \<Rightarrow> string" where
  "lower s = map (\<lambda>c. let n = of_char c :: nat in if 65 \<le> n \<and> n \<le> 90 then char_of (n + 32) else c) s"

lemma upper_append [simp]: "upper (xs @ ys) = upper xs @ upper ys"
  by (simp add: upper_def)

text \<open>\<open>s.replace(c, "")\<close>, \<open>s.startswith(p)\<close> and \<open>s.endswith(p)\<close>.\<close>

definition drop_char :: "char \<Rightarrow> string \<Rightarrow> string" where
  "drop_char c s = filter (\<lambda>d. d \<noteq> c) s"

definition starts_with :: "string \<Rightarrow> string \<Rightarrow> bool" where
  "starts_with p s \<longleftrightarrow> take (length p) s = p"

definition ends_with :: "string \<Rightarrow> string \<Rightarrow> bool" where
  "ends_with p s \<longleftrightarrow> length p \<le> length s \<and> drop (length s - length p) s = p"

text \<open>\<open>str.isspace\<close> of a Latin-1 character, and \<open>str.strip\<close>.\<close>

definition py_space :: "char \<Rightarrow> bool" where
  "py_space c \<longleftrightarrow> (of_char c :: nat) \<in> {9, 10, 11, 12, 13, 28, 29, 30, 31, 32, 133, 160}"

definition py_strip :: "string \<Rightarrow> string" where
  "py_strip s = rev (dropWhile py_space (rev (dropWhile py_space s)))"

end
