(* ===== verification/Numerics.thy ===== *)
theory Numerics
  imports Prelude "HOL-Library.Log_Nat"
begin

section \<open>Python numbers: Decimal and float\<close>

text \<open>
  The repository keeps money in \<open>decimal.Decimal\<close> and live prices in \<open>float\<close>.
  Both are finite sets of rationals, and every operation of theirs that the code
  uses is the exact operation followed by a rounding to the nearest
  representable value, ties to even: 28 significant decimal digits for
  \<open>Decimal\<close> under the default context, 53 significant bits for \<open>float\<close>
  (exponent range, infinities and NaN are left out: prices, quantities and
  balances lie far inside the range). Values are therefore rationals, and
  \<open>dec_ctx\<close> and \<open>fl\<close> are the two roundings.

  Sums, differences and products of \<open>Decimal\<close> columns (at most 20 digits each, a
  handful of factors) are taken exactly; quotients are rounded by \<open>dec_ctx\<close>.

  The locale \<open>rounding\<close> is what the other theories know of a rounding: it is
  monotone, odd and idempotent. Its lemmas say which comparisons survive it.
\<close>

subsection \<open>Nearest integer\<close>

definition round_half_even :: "rat \<Rightarrow> int" where
  "round_half_even x =
     (let f = \<lfloor>x\<rfloor>; d = x - of_int f
      in if d < 1/2 then f else if 1/2 < d then f + 1 else if even f then f else f + 1)"

text \<open>\<open>ROUND_HALF_UP\<close> of the decimal module: ties go away from zero.\<close>

definition round_half_up :: "rat \<Rightarrow> int" where
  "round_half_up x = (if x < 0 then - \<lfloor>- x + 1/2\<rfloor> else \<lfloor>x + 1/2\<rfloor>)"

lemma round_half_even_cases:
  obtains "round_half_even x = \<lfloor>x\<rfloor>" "x - of_int \<lfloor>x\<rfloor> \<le> 1/2"
  | "round_half_even x = \<lfloor>x\<rfloor> + 1" "1/2 \<le> x - of_int \<lfloor>x\<rfloor>"
proof (cases "even \<lfloor>x\<rfloor>")
  case True
  with that show thesis
    by (cases "x - of_int \<lfloor>x\<rfloor>" "1/2 :: rat" rule: linorder_cases)
       (auto simp: round_half_even_def Let_def)
next
  case False
  with that show thesis
    by (cases "x - of_int \<lfloor>x\<rfloor>" "1/2 :: rat" rule: linorder_cases)
       (auto simp: round_half_even_def Let_def)
qed

lemma round_half_even_of_int [simp]: "round_half_even (of_int n) = n"
  by (simp add: round_half_even_def)

lemma round_half_even_0 [simp]: "round_half_even 0 = 0"
  using round_half_even_of_int[of 0] by simp

lemma round_half_even_near: "\<bar>of_int (round_half_even x) - x\<bar> \<le> 1/2"
proof (cases x rule: round_half_even_cases)
  case 1
  then show ?thesis using of_int_floor_le[of x] by (simp add: abs_le_iff)
next
  case 2
  have "x < of_int \<lfloor>x\<rfloor> + 1" by linarith
  with 2 show ?thesis by (simp add: abs_le_iff)
qed

lemma round_half_even_mono: "x \<le> y \<Longrightarrow> round_half_even x \<le> round_half_even y"
proof -
  assume le: "x \<le> y"
  then have fl: "\<lfloor>x\<rfloor> \<le> \<lfloor>y\<rfloor>" by (rule floor_mono)
  show ?thesis
  proof (cases "\<lfloor>x\<rfloor> = \<lfloor>y\<rfloor>")
    case True
    with le show ?thesis by (auto simp: round_half_even_def Let_def)
  next
    case False
    with fl have "\<lfloor>x\<rfloor> + 1 \<le> \<lfloor>y\<rfloor>" by simp
    moreover have "round_half_even x \<le> \<lfloor>x\<rfloor> + 1"
      by (cases x rule: round_half_even_cases) auto
    moreover have "\<lfloor>y\<rfloor> \<le> round_half_even y"
      by (cases y rule: round_half_even_cases) auto
    ultimately show ?thesis by linarith
  qed
qed

lemma round_half_even_minus: "round_half_even (- x) = - round_half_even x"
proof (cases "of_int \<lfloor>x\<rfloor> = x")
  case True
  then obtain n where "x = of_int n" by metis
  then show ?thesis
    using round_half_even_of_int[of n] round_half_even_of_int[of "- n"] by simp
next
  case False
  have lt: "of_int \<lfloor>x\<rfloor> < x" using of_int_floor_le[of x] False by linarith
  have lt1: "x < of_int \<lfloor>x\<rfloor> + 1" by linarith
  have fm: "\<lfloor>- x\<rfloor> = - \<lfloor>x\<rfloor> - 1"
    by (rule floor_unique) (use lt lt1 in auto)
  show ?thesis by (auto simp: round_half_even_def Let_def fm)
qed

lemma round_half_up_of_int [simp]: "round_half_up (of_int n) = n"
proof -
  have *: "\<lfloor>of_int m + (1/2 :: rat)\<rfloor> = m" for m :: int
    by (rule floor_unique) auto
  show ?thesis
    using *[of n] *[of "- n"] by (simp add: round_half_up_def)
qed

lemma round_half_up_0 [simp]: "round_half_up 0 = 0"
  using round_half_up_of_int[of 0] by simp

lemma round_half_up_minus: "round_half_up (- x) = - round_half_up x"
proof (cases "x = 0")
  case True
  then show ?thesis by simp
next
  case False
  then show ?thesis by (auto simp: round_half_up_def)
qed

lemma round_half_up_nonneg: "0 \<le> x \<Longrightarrow> 0 \<le> round_half_up x"
  by (simp add: round_half_up_def)

lemma round_half_up_mono: "x \<le> y \<Longrightarrow> round_half_up x \<le> round_half_up y"
proof -
  assume le: "x \<le> y"
  consider "0 \<le> x" | "x < 0" "0 \<le> y" | "y < 0" using le by linarith
  then show ?thesis
  proof cases
    case 1
    with le show ?thesis by (auto simp: round_half_up_def intro!: floor_mono)
  next
    case 2
    have "0 \<le> round_half_up (- x)" using 2 by (intro round_half_up_nonneg) simp
    then have "round_half_up x \<le> 0" by (simp add: round_half_up_minus)
    then show ?thesis using round_half_up_nonneg[OF 2(2)] by linarith
  next
    case 3
    with le show ?thesis by (auto simp: round_half_up_def intro!: floor_mono)
  qed
qed

lemma round_half_up_near: "\<bar>of_int (round_half_up x) - x\<bar> \<le> 1/2"
proof -
  have *: "\<bar>of_int \<lfloor>y + 1/2\<rfloor> - y\<bar> \<le> 1/2" for y :: rat
    by linarith
  show ?thesis
    using *[of x] *[of "- x"] by (auto simp: round_half_up_def abs_if split: if_splits)
qed

subsection \<open>The interface of a rounding\<close>

locale rounding =
  fixes R :: "rat \<Rightarrow> rat"
  assumes mono: "x \<le> y \<Longrightarrow> R x \<le> R y"
    and minus: "R (- x) = - R x"
    and idem: "R (R x) = R x"
begin

lemma zero: "R 0 = 0"
  using minus[of 0] by simp

lemma nonneg: "0 \<le> x \<Longrightarrow> 0 \<le> R x"
  using mono[of 0 x] by (simp add: zero)

lemma nonpos: "x \<le> 0 \<Longrightarrow> R x \<le> 0"
  using mono[of x 0] by (simp add: zero)

lemma pos_of: "0 < R x \<Longrightarrow> 0 < x"
  using nonpos[of x] by (cases "x \<le> 0") auto

lemma neg_of: "R x < 0 \<Longrightarrow> x < 0"
  using nonneg[of x] by (cases "0 \<le> x") auto

lemma ge_repr: "R t = t \<Longrightarrow> t \<le> x \<Longrightarrow> t \<le> R x"
  using mono[of t x] by simp

lemma le_repr: "R t = t \<Longrightarrow> x \<le> t \<Longrightarrow> R x \<le> t"
  using mono[of x t] by simp

lemma less_repr: "R t = t \<Longrightarrow> R x < t \<Longrightarrow> x < t"
  using ge_repr[of t x] by (cases "t \<le> x") auto

lemma abs: "R \<bar>x\<bar> = \<bar>R x\<bar>"
proof (cases "0 \<le> x")
  case True
  then show ?thesis by (simp add: nonneg)
next
  case False
  then have "R x \<le> 0" by (intro nonpos) simp
  with False show ?thesis by (simp add: minus abs_of_nonpos)
qed

end

subsection \<open>Fixed-point rounding: \<open>quantize\<close>\<close>

definition quantize_he :: "nat \<Rightarrow> rat \<Rightarrow> rat" where
  "quantize_he n x = of_int (round_half_even (x * 10 ^ n)) / 10 ^ n"

definition quantize_hu :: "nat \<Rightarrow> rat \<Rightarrow> rat" where
  "quantize_hu n x = of_int (round_half_up (x * 10 ^ n)) / 10 ^ n"

lemma quantize_he_rounding: "rounding (quantize_he n)"
  by unfold_locales
     (auto simp: quantize_he_def round_half_even_minus
           intro!: divide_right_mono round_half_even_mono mult_right_mono)

lemma quantize_hu_rounding: "rounding (quantize_hu n)"
  by unfold_locales
     (auto simp: quantize_hu_def round_half_up_minus
           intro!: divide_right_mono round_half_up_mono mult_right_mono)

interpretation qhe: rounding "quantize_he n" for n by (rule quantize_he_rounding)
interpretation qhu: rounding "quantize_hu n" for n by (rule quantize_hu_rounding)

lemma quantize_near_aux:
  assumes "\<bar>of_int k - x * 10 ^ n\<bar> \<le> (1/2 :: rat)"
  shows "\<bar>of_int k / 10 ^ n - x\<bar> \<le> 1 / (2 * 10 ^ n)"
proof -
  have "of_int k / 10 ^ n - x = (of_int k - x * 10 ^ n) / (10 ^ n :: rat)"
    by (simp add: field_simps)
  then have "\<bar>of_int k / 10 ^ n - x\<bar> = \<bar>of_int k - x * 10 ^ n\<bar> / 10 ^ n"
    by (simp add: abs_divide)
  also have "\<dots> \<le> (1/2) / 10 ^ n"
    using assms by (intro divide_right_mono) auto
  finally show ?thesis by (simp add: field_simps)
qed

lemma quantize_he_near: "\<bar>quantize_he n x - x\<bar> \<le> 1 / (2 * 10 ^ n)"
  unfolding quantize_he_def by (rule quantize_near_aux) (rule round_half_even_near)

lemma quantize_hu_near: "\<bar>quantize_hu n x - x\<bar> \<le> 1 / (2 * 10 ^ n)"
  unfolding quantize_hu_def by (rule quantize_near_aux) (rule round_half_up_near)

lemma quantize_he_int_div: "quantize_he n (of_int k / 10 ^ n) = of_int k / 10 ^ n"
  by (simp add: quantize_he_def)

lemma quantize_hu_int_div: "quantize_hu n (of_int k / 10 ^ n) = of_int k / 10 ^ n"
  by (simp add: quantize_hu_def)

subsection \<open>Floating-point rounding: \<open>p\<close> significant digits in base \<open>b\<close>\<close>

text \<open>
  \<open>mag b x\<close> is the exponent of the leading digit of \<open>x\<close>:
  \<open>b powi mag b x \<le> \<bar>x\<bar> < b powi (mag b x + 1)\<close>. It is computed from the number
  of digits of an integer, so that closed instances evaluate.
\<close>

definition mag :: "nat \<Rightarrow> rat \<Rightarrow> int" where
  "mag b x = (if 1 \<le> \<bar>x\<bar> then int (floorlog b (nat \<lfloor>\<bar>x\<bar>\<rfloor>)) - 1
              else - int (floorlog b (nat (\<lceil>1 / \<bar>x\<bar>\<rceil> - 1))))"

definition round_sig :: "nat \<Rightarrow> nat \<Rightarrow> rat \<Rightarrow> rat" where
  "round_sig b p x =
     (if x = 0 then 0
      else let k = int p - 1 - mag b x
           in of_int (round_half_even (x * of_nat b powi k)) / of_nat b powi k)"

definition dec_ctx :: "rat \<Rightarrow> rat" where
  "dec_ctx x = round_sig 10 28 x"

definition fl :: "rat \<Rightarrow> rat" where
  "fl x = round_sig 2 53 x"

lemma mag_minus [simp]: "mag b (- x) = mag b x"
  by (simp add: mag_def)

lemma mag_bounds_ge1:
  assumes "1 < b" "1 \<le> \<bar>x\<bar>"
  shows "of_nat b powi mag b x \<le> \<bar>x\<bar>" "\<bar>x\<bar> < of_nat b powi (mag b x + 1)"
proof -
  let ?n = "nat \<lfloor>\<bar>x\<bar>\<rfloor>" and ?d = "floorlog b (nat \<lfloor>\<bar>x\<bar>\<rfloor>)"
  have n: "0 < ?n" using assms(2) by (simp add: le_floor_iff)
  have d: "0 < ?d" using n assms(1) by (simp add: floorlog_eq_zero_iff flip: neq0_conv)
  note fb = floorlog_bounds[OF n assms(1)]
  have "of_nat (b ^ (?d - 1)) \<le> (of_nat ?n :: rat)" using fb by (simp only: of_nat_le_iff)
  also have "\<dots> \<le> \<bar>x\<bar>" by (simp add: of_nat_floor)
  finally show "of_nat b powi mag b x \<le> \<bar>x\<bar>"
    using d assms(2) by (simp add: mag_def power_int_def nat_diff_distrib)
  have "\<bar>x\<bar> < of_int (\<lfloor>\<bar>x\<bar>\<rfloor> + 1)" by linarith
  also have "\<dots> = of_nat (Suc ?n)" by simp
  also have "\<dots> \<le> of_nat (b ^ ?d)" using fb by (simp only: of_nat_le_iff Suc_le_eq)
  finally show "\<bar>x\<bar> < of_nat b powi (mag b x + 1)"
    using assms(2) by (simp add: mag_def)
qed

lemma mag_bounds_lt1:
  assumes "1 < b" "x \<noteq> 0" "\<bar>x\<bar> < 1"
  shows "of_nat b powi mag b x \<le> \<bar>x\<bar>" "\<bar>x\<bar> < of_nat b powi (mag b x + 1)"
proof -
  let ?y = "1 / \<bar>x\<bar>" and ?m = "nat (\<lceil>1 / \<bar>x\<bar>\<rceil> - 1)"
  let ?k = "floorlog b ?m"
  have y: "1 < ?y" using assms by simp
  then have m: "0 < ?m" using assms(2) by (simp add: less_ceiling_iff)
  have k: "0 < ?k" using m assms(1) by (simp add: floorlog_eq_zero_iff flip: neq0_conv)
  note fb = floorlog_bounds[OF m assms(1)]
  have mi: "int ?m = \<lceil>?y\<rceil> - 1" using m by arith
  have sm: "\<lceil>?y\<rceil> = int (Suc ?m)" by (simp only: of_nat_Suc mi)
  have b0: "0 < (of_nat b :: rat)" using assms(1) by simp
  have x0: "0 < \<bar>x\<bar>" using assms(2) by simp
  have "?y \<le> of_int \<lceil>?y\<rceil>" by simp
  also have "\<dots> = of_nat (Suc ?m)" by (rule trans [OF arg_cong [OF sm, of of_int] of_int_of_nat_eq])
  also have "\<dots> \<le> of_nat (b ^ ?k)" using fb by (simp only: of_nat_le_iff Suc_le_eq)
  finally have "?y \<le> of_nat b ^ ?k" by simp
  then have "1 / of_nat b ^ ?k \<le> \<bar>x\<bar>" using x0 b0 by (simp add: field_simps)
  then show "of_nat b powi mag b x \<le> \<bar>x\<bar>"
    using assms by (simp add: mag_def power_int_minus divide_inverse)
  have "of_nat b ^ (?k - 1) = (of_nat (b ^ (?k - 1)) :: rat)" by simp
  also have "\<dots> \<le> of_nat ?m" using fb by (simp only: of_nat_le_iff)
  also have "\<dots> < ?y"
  proof -
    have "(of_int (int ?m) :: rat) < ?y" unfolding mi by linarith
    then show ?thesis by (simp only: of_int_of_nat_eq)
  qed
  finally have "\<bar>x\<bar> < 1 / of_nat b ^ (?k - 1)" using x0 b0 by (simp add: field_simps)
  moreover have "of_nat b powi (mag b x + 1) = 1 / (of_nat b :: rat) ^ (?k - 1)"
  proof -
    have "mag b x + 1 = - int (?k - 1)" using k assms by (simp add: mag_def)
    then show ?thesis by (simp only: power_int_minus power_int_of_nat divide_inverse mult_1)
  qed
  ultimately show "\<bar>x\<bar> < of_nat b powi (mag b x + 1)" by (simp only:)
qed

lemma mag_bounds:
  assumes "1 < b" "x \<noteq> 0"
  shows "of_nat b powi mag b x \<le> \<bar>x\<bar>" "\<bar>x\<bar> < of_nat b powi (mag b x + 1)"
  using mag_bounds_ge1[OF assms(1), of x] mag_bounds_lt1[OF assms]
  by (cases "1 \<le> \<bar>x\<bar>"; simp)+

lemma powi_less_iff:
  assumes "1 < (a :: rat)"
  shows "a powi m < a powi n \<longleftrightarrow> m < n"
proof (cases "m < n")
  case True
  then show ?thesis using power_int_strict_increasing[OF True assms] by blast
next
  case False
  then have "a powi n \<le> a powi m" using assms by (intro power_int_increasing) auto
  then have "\<not> a powi m < a powi n" by (simp only: not_less)
  with False show ?thesis by blast
qed

lemma powi_pred:
  assumes "1 < b" "1 \<le> p"
  shows "(of_nat b :: rat) powi (int p - 1) = of_nat b ^ (p - 1)"
proof -
  have eq: "int p - 1 = int (p - 1)" using assms(2) by simp
  show ?thesis unfolding eq by (rule power_int_of_nat)
qed

lemma mag_unique:
  assumes "1 < b" "of_nat b powi k \<le> \<bar>x\<bar>" "\<bar>x\<bar> < of_nat b powi (k + 1)"
  shows "mag b x = k"
proof -
  have b: "1 < (of_nat b :: rat)" using assms(1) by simp
  have "0 < (of_nat b :: rat) powi k" using b by (intro zero_less_power_int) simp
  with assms(2) have "x \<noteq> 0" by auto
  note m = mag_bounds[OF assms(1) this]
  have "(of_nat b :: rat) powi k < of_nat b powi (mag b x + 1)" using assms(2) m(2) by linarith
  moreover have "(of_nat b :: rat) powi mag b x < of_nat b powi (k + 1)" using assms(3) m(1) by linarith
  ultimately show ?thesis using powi_less_iff[OF b] by simp
qed

lemma mag_mono:
  assumes "1 < b" "0 < x" "x \<le> y"
  shows "mag b x \<le> mag b y"
proof -
  have b: "1 < (of_nat b :: rat)" using assms(1) by simp
  have "(of_nat b :: rat) powi mag b x < of_nat b powi (mag b y + 1)"
    using mag_bounds[OF assms(1), of x] mag_bounds[OF assms(1), of y] assms by linarith
  then show ?thesis using powi_less_iff[OF b] by simp
qed

lemma round_sig_0 [simp]: "round_sig b p 0 = 0"
  by (simp add: round_sig_def)

lemma round_sig_minus: "round_sig b p (- x) = - round_sig b p x"
  by (simp add: round_sig_def Let_def round_half_even_minus)

lemma round_sig_exact:
  assumes "x * of_nat b powi (int p - 1 - mag b x) = of_int n" "1 < b"
  shows "round_sig b p x = x"
proof (cases "x = 0")
  case False
  have "(of_nat b :: rat) powi (int p - 1 - mag b x) \<noteq> 0" using assms(2) by simp
  with False assms(1) show ?thesis
    by (simp add: round_sig_def Let_def) (simp add: field_simps flip: assms(1))
qed simp

lemma round_sig_scaled:
  assumes "1 < b" "1 \<le> p" "0 < x"
  defines "k \<equiv> int p - 1 - mag b x"
  shows "int b ^ (p - 1) \<le> round_half_even (x * of_nat b powi k)" (is ?lo)
    and "round_half_even (x * of_nat b powi k) \<le> int b ^ p" (is ?hi)
proof -
  have b: "1 < (of_nat b :: rat)" using assms(1) by simp
  have pk: "0 < (of_nat b :: rat) powi k" using b by (intro zero_less_power_int) simp
  note m = mag_bounds[OF assms(1), of x]
  have "of_nat b ^ (p - 1) = (of_nat b :: rat) powi (int p - 1)"
    using assms by (simp add: powi_pred)
  also have "\<dots> = (of_nat b :: rat) powi mag b x * of_nat b powi k"
    using b by (simp add: k_def flip: power_int_add)
  also have "\<dots> \<le> x * of_nat b powi k"
    using m(1) assms(3) pk by (intro mult_right_mono) auto
  finally have "(of_int (int b ^ (p - 1)) :: rat) \<le> x * of_nat b powi k" by simp
  from round_half_even_mono[OF this] show ?lo by (simp only: round_half_even_of_int)
  have "x * of_nat b powi k \<le> of_nat b powi (mag b x + 1) * of_nat b powi k"
    using m(2) assms(3) pk by (intro mult_right_mono) auto
  also have "\<dots> = of_nat b powi (int p)"
    using b by (simp add: k_def flip: power_int_add)
  finally have "x * of_nat b powi k \<le> (of_int (int b ^ p) :: rat)" by simp
  from round_half_even_mono[OF this] show ?hi by (simp only: round_half_even_of_int)
qed

lemma round_sig_within:
  assumes "1 < b" "1 \<le> p" "0 < x"
  shows "of_nat b powi mag b x \<le> round_sig b p x" (is ?lo)
    and "round_sig b p x \<le> of_nat b powi (mag b x + 1)" (is ?hi)
proof -
  let ?k = "int p - 1 - mag b x"
  let ?n = "round_half_even (x * of_nat b powi ?k)"
  have b: "1 < (of_nat b :: rat)" using assms(1) by simp
  have pk: "0 < (of_nat b :: rat) powi ?k" using b by (intro zero_less_power_int) simp
  have eq: "round_sig b p x = of_int ?n / of_nat b powi ?k"
    using assms(3) by (simp add: round_sig_def Let_def)
  note sc = round_sig_scaled[OF assms]
  have "of_nat b powi mag b x * of_nat b powi ?k = (of_nat b :: rat) ^ (p - 1)"
    using b powi_pred[OF assms(1,2)] by (simp flip: power_int_add)
  also have "\<dots> = of_int (int b ^ (p - 1))" by simp
  also have "\<dots> \<le> of_int ?n" using sc(1) by (simp only: of_int_le_iff)
  finally show ?lo using pk eq by (simp add: pos_le_divide_eq)
  have "of_int ?n \<le> (of_int (int b ^ p) :: rat)" using sc(2) by (simp only: of_int_le_iff)
  also have "\<dots> = of_nat b powi (mag b x + 1) * of_nat b powi ?k"
    using b by (simp flip: power_int_add)
  finally show ?hi using pk eq by (simp add: pos_divide_le_eq)
qed

lemma round_sig_pos: "1 < b \<Longrightarrow> 1 \<le> p \<Longrightarrow> 0 < x \<Longrightarrow> 0 < round_sig b p x"
  using round_sig_within(1)[of b p x] zero_less_power_int[of "of_nat b :: rat" "mag b x"]
  by (simp del: zero_less_power_int)

lemma round_sig_mono_pos:
  assumes "1 < b" "1 \<le> p" "0 < x" "x \<le> y"
  shows "round_sig b p x \<le> round_sig b p y"
proof (cases "mag b x = mag b y")
  case True
  have "0 < (of_nat b :: rat) powi (int p - 1 - mag b y)"
    using assms(1) by (intro zero_less_power_int) simp
  then show ?thesis using assms True
    by (auto simp: round_sig_def Let_def intro!: divide_right_mono round_half_even_mono mult_right_mono)
next
  case False
  then have "mag b x + 1 \<le> mag b y" using mag_mono[OF assms(1,3,4)] by simp
  then have "(of_nat b :: rat) powi (mag b x + 1) \<le> of_nat b powi mag b y"
    using assms(1) by (intro power_int_increasing) auto
  then show ?thesis
    using round_sig_within(2)[OF assms(1-3)] round_sig_within(1)[OF assms(1,2), of y] assms by linarith
qed

lemma round_sig_mono:
  assumes "1 < b" "1 \<le> p" "x \<le> y"
  shows "round_sig b p x \<le> round_sig b p y"
proof -
  have nn: "0 \<le> round_sig b p z" if "0 \<le> z" for z
    using that round_sig_pos[OF assms(1,2), of z] by (cases "z = 0") auto
  consider "0 < x" | "x \<le> 0" "0 \<le> y" | "y < 0" using assms(3) by linarith
  then show ?thesis
  proof cases
    case 1
    with assms show ?thesis by (intro round_sig_mono_pos)
  next
    case 2
    then show ?thesis using nn[of "- x"] nn[of y] by (simp add: round_sig_minus)
  next
    case 3
    then show ?thesis using round_sig_mono_pos[OF assms(1,2), of "- y" "- x"] assms(3)
      by (simp add: round_sig_minus)
  qed
qed

lemma round_sig_idem_pos:
  assumes "1 < b" "1 \<le> p" "0 < x"
  shows "round_sig b p (round_sig b p x) = round_sig b p x"
proof -
  let ?k = "int p - 1 - mag b x" and ?r = "round_sig b p x"
  let ?n = "round_half_even (x * of_nat b powi ?k)"
  have b: "1 < (of_nat b :: rat)" using assms(1) by simp
  have b0: "(of_nat b :: rat) \<noteq> 0" using assms(1) by simp
  have r: "?r * of_nat b powi ?k = of_int ?n"
    using assms b0 by (simp add: round_sig_def Let_def)
  have r0: "0 < ?r" by (rule round_sig_pos[OF assms])
  note w = round_sig_within[OF assms]
  show ?thesis
  proof (cases "?r = of_nat b powi (mag b x + 1)")
    case True
    have m: "mag b ?r = mag b x + 1"
      by (rule mag_unique[OF assms(1)])
         (use True b in \<open>auto simp: powi_less_iff\<close>)
    have "?r * of_nat b powi (int p - 1 - mag b ?r) = of_nat b powi (int p - 1)"
      using b0 by (subst m, subst True) (simp flip: power_int_add)
    also have "\<dots> = of_int (int b ^ (p - 1))"
      using powi_pred[OF assms(1,2)] by simp
    finally show ?thesis by (rule round_sig_exact[OF _ assms(1)])
  next
    case False
    have "mag b ?r = mag b x"
      by (rule mag_unique[OF assms(1)]) (use w r0 False in auto)
    with r show ?thesis by (intro round_sig_exact[OF _ assms(1)]) simp
  qed
qed

lemma round_sig_rounding: "1 < b \<Longrightarrow> 1 \<le> p \<Longrightarrow> rounding (round_sig b p)"
proof (unfold_locales, goal_cases)
  case (1 x y)
  then show ?case by (rule round_sig_mono)
next
  case (2 x)
  show ?case by (rule round_sig_minus)
next
  case (3 x)
  then show ?case
    using round_sig_idem_pos[of b p x] round_sig_idem_pos[of b p "- x"]
    by (cases x "0::rat" rule: linorder_cases) (auto simp: round_sig_minus)
qed

interpretation dctx: rounding dec_ctx
  unfolding dec_ctx_def by (rule round_sig_rounding) auto

interpretation flt: rounding fl
  unfolding fl_def by (rule round_sig_rounding) auto

lemma dec_ctx_pos: "0 < x \<Longrightarrow> 0 < dec_ctx x"
  by (simp add: dec_ctx_def round_sig_pos)

lemma fl_pos: "0 < x \<Longrightarrow> 0 < fl x"
  by (simp add: fl_def round_sig_pos)

text \<open>An integer of at most 28 digits is a \<open>Decimal\<close>, one below \<open>2^53\<close> a \<open>float\<close>.\<close>

lemma round_sig_repr:
  assumes "1 < b" "1 \<le> p" "\<bar>n\<bar> < int b ^ p"
  shows "round_sig b p (of_int n * of_nat b powi j) = of_int n * of_nat b powi j"
proof (cases "n = 0")
  case False
  let ?x = "of_int n * of_nat b powi j :: rat"
  have b: "1 < (of_nat b :: rat)" using assms(1) by simp
  have pj: "0 < (of_nat b :: rat) powi j" using b by (intro zero_less_power_int) simp
  have "?x \<noteq> 0" using False pj assms(1) by auto
  from mag_bounds(1)[OF assms(1) this] have "of_nat b powi mag b ?x \<le> \<bar>?x\<bar>" .
  also have "\<bar>?x\<bar> = of_int \<bar>n\<bar> * of_nat b powi j" using pj by (simp add: abs_mult)
  also have "\<dots> < of_int (int b ^ p) * of_nat b powi j"
    using assms(3) pj by (intro mult_strict_right_mono) (simp only: of_int_less_iff)
  also have "\<dots> = of_nat b powi (int p + j)" using b by (simp add: power_int_add)
  finally have m: "mag b ?x < int p + j" unfolding powi_less_iff[OF b] .
  have "?x * of_nat b powi (int p - 1 - mag b ?x) = of_int n * of_nat b powi (j + (int p - 1 - mag b ?x))"
    using b by (simp add: power_int_add)
  also have "\<dots> = of_int (n * int b ^ nat (j + (int p - 1 - mag b ?x)))"
    using m by (simp add: power_int_def)
  finally show ?thesis by (rule round_sig_exact[OF _ assms(1)])
qed simp

lemma round_sig_int: "1 < b \<Longrightarrow> 1 \<le> p \<Longrightarrow> \<bar>n\<bar> < int b ^ p \<Longrightarrow> round_sig b p (of_int n) = of_int n"
  using round_sig_repr[of b p n 0] by simp

lemma dec_ctx_fixed: "\<bar>n\<bar> < 10 ^ 28 \<Longrightarrow> dec_ctx (of_int n / 10 ^ k) = of_int n / 10 ^ k"
  unfolding dec_ctx_def using round_sig_repr[of 10 28 n "- int k"] by (simp add: power_int_minus divide_inverse)

lemma fl_int: "\<bar>n\<bar> < 2 ^ 53 \<Longrightarrow> fl (of_int n) = of_int n"
  unfolding fl_def using round_sig_int[of 2 53 n] by simp

lemma dec_ctx_int: "\<bar>n\<bar> < 10 ^ 28 \<Longrightarrow> dec_ctx (of_int n) = of_int n"
  unfolding dec_ctx_def using round_sig_int[of 10 28 n] by simp

lemma fl_numeral [simp]: "(numeral n :: int) < 2 ^ 53 \<Longrightarrow> fl (numeral n) = numeral n"
  using fl_int[of "numeral n"] by simp

lemma fl_0_1 [simp]: "fl 0 = 0" "fl 1 = 1"
  using fl_int[of 0] fl_int[of 1] by simp_all

subsection \<open>The numbers a Python function is given\<close>

text \<open>
  \<open>repr\<close> of a float is the shortest decimal that reads back as the same float,
  so \<open>Decimal(str(x))\<close> is that decimal and not the exact value of \<open>x\<close>: 17
  significant digits always suffice. \<open>round(x, n)\<close> of a float is the float
  nearest to the exact \<open>n\<close>-digit rounding.
\<close>

definition py_repr :: "rat \<Rightarrow> rat" where
  "py_repr x = (case find (\<lambda>n. fl (round_sig 10 n x) = x) [1..<18] of
     Some n \<Rightarrow> round_sig 10 n x | None \<Rightarrow> x)"

definition py_round :: "nat \<Rightarrow> rat \<Rightarrow> rat" where
  "py_round n x = fl (quantize_he n x)"

text \<open>
  A number argument is a \<open>Decimal\<close>, an \<open>int\<close> or a \<open>float\<close>; of anything else
  (\<open>None\<close>, text that is no number) \<open>Decimal(str(value))\<close> raises.
\<close>

datatype pynum = PyDecimal rat | PyInt int | PyFloat rat | PyOther

definition to_decimal :: "pynum \<Rightarrow> rat option" where
  "to_decimal v = (case v of PyDecimal d \<Rightarrow> Some d | PyInt i \<Rightarrow> Some (of_int i)
     | PyFloat x \<Rightarrow> Some (py_repr x) | PyOther \<Rightarrow> None)"

lemma to_decimal_simps [simp]:
  "to_decimal (PyDecimal d) = Some d"
  "to_decimal (PyInt i) = Some (of_int i)"
  "to_decimal (PyFloat x) = Some (py_repr x)"
  "to_decimal PyOther = None"
  by (simp_all add: to_decimal_def)

lemma py_repr_cases:
  obtains "py_repr x = x"
  | n where "0 < n" "n < 18" "fl (round_sig 10 n x) = x" "py_repr x = round_sig 10 n x"
proof (cases "find (\<lambda>n. fl (round_sig 10 n x) = x) [1..<18]")
  case None
  then have "py_repr x = x" by (simp only: py_repr_def option.case)
  then show thesis by (rule that(1))
next
  case (Some n)
  then have "fl (round_sig 10 n x) = x" "n \<in> set [1..<18]"
    by (auto simp only: find_Some_iff dest: nth_mem)
  moreover have "py_repr x = round_sig 10 n x" by (simp only: py_repr_def Some option.case)
  ultimately show thesis using that(2)[of n] by simp
qed

lemma fl_py_repr: "fl x = x \<Longrightarrow> fl (py_repr x) = x"
  by (rule py_repr_cases[of x]) simp_all

lemma fl_minus: "fl (- x) = - fl x"
  by (rule flt.minus)

lemma py_repr_minus: "py_repr (- x) = - py_repr x"
  by (simp add: py_repr_def round_sig_minus fl_minus split: option.split)

lemma py_repr_pos: "0 < x \<Longrightarrow> 0 < py_repr x"
  by (rule py_repr_cases[of x]) (simp_all add: round_sig_pos)

lemma py_repr_0 [simp]: "py_repr 0 = 0"
  by (simp add: py_repr_def split: option.split)

lemma py_repr_sign: "0 < py_repr x \<longleftrightarrow> 0 < x" "py_repr x < 0 \<longleftrightarrow> x < 0" "py_repr x = 0 \<longleftrightarrow> x = 0"
  using py_repr_pos[of x] py_repr_pos[of "- x"]
  by (cases "0::rat" x rule: linorder_cases; simp add: py_repr_minus)+

lemma dec_ctx_sign: "0 < dec_ctx x \<longleftrightarrow> 0 < x" "dec_ctx x < 0 \<longleftrightarrow> x < 0" "dec_ctx x = 0 \<longleftrightarrow> x = 0"
  using dec_ctx_pos[of x] dec_ctx_pos[of "- x"]
  by (cases "0::rat" x rule: linorder_cases; simp add: dctx.minus dctx.zero)+

lemma fl_sign: "0 < fl x \<longleftrightarrow> 0 < x" "fl x < 0 \<longleftrightarrow> x < 0" "fl x = 0 \<longleftrightarrow> x = 0"
  using fl_pos[of x] fl_pos[of "- x"]
  by (cases "0::rat" x rule: linorder_cases; simp add: flt.minus flt.zero)+

lemma fl_le_1: "x \<le> 1 \<Longrightarrow> fl x \<le> 1"
  using flt.mono[of x 1] by simp

text \<open>An integral float prints as that integer.\<close>

lemma round_sig_10_int:
  assumes "0 < k"
  shows "\<exists>m. round_sig 10 k (of_int n) = of_int m"
proof (cases "n = 0")
  case False
  let ?x = "of_int n :: rat" and ?e = "int k - 1 - mag 10 (of_int n)"
  show ?thesis
  proof (cases "0 \<le> ?e")
    case True
    then have "(10 :: rat) powi ?e = of_int (10 ^ nat ?e)" by (simp add: power_int_def)
    then have "?x * of_nat 10 powi ?e = of_int (n * 10 ^ nat ?e)" by simp
    then have "round_sig 10 k ?x = ?x" by (rule round_sig_exact) simp
    then show ?thesis by blast
  next
    case neg: False
    then have "1 / (10 :: rat) powi ?e = of_int (10 ^ nat (- ?e))"
      by (simp add: power_int_def divide_simps)
    then have "round_sig 10 k ?x = of_int (round_half_even (?x * 10 powi ?e)) * of_int (10 ^ nat (- ?e))"
      using False by (simp add: round_sig_def Let_def divide_inverse)
    then show ?thesis by (metis of_int_mult)
  qed
qed (auto intro: exI[of _ 0])

lemma py_repr_int:
  assumes "\<bar>n\<bar> < 2 ^ 53 - 1"
  shows "py_repr (of_int n) = of_int n"
proof (rule py_repr_cases[of "of_int n"])
  fix k assume k: "0 < k" "fl (round_sig 10 k (of_int n)) = of_int n"
    "py_repr (of_int n) = round_sig 10 k (of_int n)"
  obtain m where m: "round_sig 10 k (of_int n :: rat) = of_int m" using round_sig_10_int[OF k(1)] by blast
  have "\<bar>m\<bar> < 2 ^ 53"
  proof (rule ccontr)
    assume "\<not> \<bar>m\<bar> < 2 ^ 53"
    then have "(2 ^ 53 - 1 :: int) \<le> \<bar>m\<bar>" by linarith
    then have "fl (of_int (2 ^ 53 - 1)) \<le> fl (of_int \<bar>m\<bar>)"
      by (intro flt.mono) (simp only: of_int_le_iff)
    moreover have "fl (of_int (2 ^ 53 - 1)) = of_int (2 ^ 53 - 1)" by (rule fl_int) simp
    moreover have "fl (of_int \<bar>m\<bar>) = of_int \<bar>n\<bar>" using flt.abs[of "of_int m"] k(2) m by simp
    ultimately have "(2 ^ 53 - 1 :: int) \<le> \<bar>n\<bar>" by (simp only: of_int_le_iff)
    with assms show False by linarith
  qed
  then show ?thesis using k m fl_int[of m] by simp
qed

lemma py_repr_numeral [simp]: "(numeral n :: int) < 2 ^ 53 - 1 \<Longrightarrow> py_repr (numeral n) = numeral n"
  using py_repr_int[of "numeral n"] by simp

lemma py_repr_1 [simp]: "py_repr 1 = 1"
  using py_repr_int[of 1] by simp

text \<open>The value of a rounding, from the digits: \<open>x\<close> is nearest to \<open>n\<close> units of its last place.\<close>

lemma round_sig_eval:
  assumes "1 < b" "1 \<le> p" "int b ^ (p - 1) \<le> n" "n < int b ^ p"
    and "\<bar>x * of_nat b powi k - of_int n\<bar> < 1 / 2" "of_int (int b ^ (p - 1)) \<le> x * of_nat b powi k"
    "x * of_nat b powi k < of_int (int b ^ p)"
  shows "round_sig b p x = of_int n / of_nat b powi k"
proof -
  let ?b = "of_nat b :: rat"
  have b: "1 < ?b" using assms(1) by simp
  have pk: "0 < ?b powi k" using b by (intro zero_less_power_int) simp
  have lo: "?b powi (int p - 1) \<le> x * ?b powi k" using assms(6) powi_pred[OF assms(1,2)] by simp
  moreover have "0 < ?b powi (int p - 1)" using b by (intro zero_less_power_int) simp
  ultimately have x: "0 < x" using pk zero_less_mult_pos2[of x "?b powi k"] by linarith
  have "mag b x = int p - 1 - k"
  proof (rule mag_unique[OF assms(1)])
    have "?b powi (int p - 1 - k) = ?b powi (int p - 1) / ?b powi k" using b by (simp add: power_int_diff)
    then show "?b powi (int p - 1 - k) \<le> \<bar>x\<bar>" using lo x pk by (simp only: abs_of_pos pos_divide_le_eq)
    have "x * ?b powi k < ?b powi (int p)" using assms(7) by simp
    moreover have "?b powi (int p - 1 - k + 1) = ?b powi int p / ?b powi k" using b by (simp add: power_int_diff)
    ultimately show "\<bar>x\<bar> < ?b powi (int p - 1 - k + 1)" using x pk by (simp add: pos_less_divide_eq)
  qed
  moreover have "round_half_even (x * ?b powi k) = n"
    using round_half_even_near[of "x * ?b powi k"] assms(5) by linarith
  ultimately show ?thesis using x by (simp add: round_sig_def Let_def)
qed

lemma fl_eval:
  assumes "2 ^ 52 \<le> n" "n < 2 ^ 53" "\<bar>x * 2 ^ k - of_int n\<bar> < 1 / 2" "2 ^ 52 \<le> x * 2 ^ k" "x * 2 ^ k < 2 ^ 53"
  shows "fl x = of_int n / 2 ^ k"
  unfolding fl_def using round_sig_eval[of 2 53 n x "int k"] assms by simp

lemma fl_cent: "fl (1 / 100) = 5764607523034235 / 576460752303423488"
  by (subst fl_eval[of 5764607523034235 _ 59]) simp_all

lemma round_half_even_numeral [simp]: "round_half_even (numeral n) = numeral n"
  using round_half_even_of_int[of "numeral n"] by simp

end
