(* ===== verification/Accounts.thy ===== *)
theory Accounts
  imports Numerics
begin

section \<open>Trading accounts and their ledger (\<open>simulator/models.py\<close>)\<close>

text \<open>
  The rows every money component writes: \<open>TradingAccount\<close> with its \<open>save\<close> and
  \<open>check_rules\<close>, and the append-only \<open>LedgerEntry\<close> table. A table is a map from
  primary keys, an append-only table is the list of its rows, oldest first, and
  the database is the record \<open>db\<close>, which the components extend with their own
  tables. Times are microseconds since the epoch (settings: \<open>USE_TZ\<close>, \<open>TIME_ZONE =
  UTC\<close>). Money columns are \<open>numeric(_, 2)\<close> of PostgreSQL, which
  rounds what is written to cents, ties away from zero: \<open>col2\<close>. Columns no operation here reads
  (user, names, display snapshots) are left out.
\<close>

subsection \<open>Columns\<close>

datatype account_type =
  RETAIL | ECN | STANDARD | DEMO | CRYPTO | CHALLENGE | FUNDED | OtherType string

datatype tier = T10K | T25K | T50K | T100K

datatype phase = Fase1 | Fase2 | FundedPhase

datatype acc_status = Activo | Suspendido | Violado | Cerrado | Completado

definition MARGIN_ENGINE_TYPES :: "account_type list" where
  "MARGIN_ENGINE_TYPES = [RETAIL, ECN, STANDARD, DEMO, CRYPTO]"

definition WITHDRAWABLE_ACCOUNT_TYPES :: "account_type list" where
  "WITHDRAWABLE_ACCOUNT_TYPES = [RETAIL, ECN, STANDARD, CRYPTO]"

record trading_account =
  acc_type :: account_type
  acc_tier :: "tier option"
  acc_phase :: phase
  balance :: rat
  equity :: rat
  peak_balance :: rat
  drawdown :: rat
  initial_balance :: "rat option"
  profit_target :: "rat option"
  max_drawdown :: rat
  currency :: string
  leverage :: nat
  stopout_level_snapshot :: "rat option"
  spread_pips_snapshot :: "rat option"
  commission_per_lot_snapshot :: "rat option"
  acc_status :: acc_status
  acc_created_at :: int

datatype ledger_event =
  EV_DEPOSIT | EV_WITHDRAW | EV_COMMISSION | EV_REALIZED | EV_FEE | EV_ADJUST
| EV_FUNDED_PAYOUT | EV_OWNER_CORRECTION

datatype meta_value = MStr string | MNum rat | MKey pk | MList "string list"

record ledger_entry =
  le_account :: pk
  le_event :: ledger_event
  le_amount :: rat
  le_balance_after :: rat
  le_meta :: "(string \<times> meta_value) list"
  le_created_at :: int

datatype side = BUY | SELL

record position =
  pos_account :: pk
  pos_symbol :: string
  pos_side :: side
  pos_qty :: rat
  pos_avg :: rat
  pos_sl :: "rat option"
  pos_tp :: "rat option"
  pos_opened_at :: int

record db =
  accounts :: "trading_account table"
  next_account :: pk
  positions :: "position table"
  next_position :: pk
  ledger :: "ledger_entry list"

text \<open>The open positions of an account: \<open>Position.objects.filter(account_id=acc)\<close>.\<close>

definition open_positions :: "pk \<Rightarrow> 'a db_scheme \<Rightarrow> pk list" where
  "open_positions acc s = rows_where (next_position s) (positions s) (\<lambda>p. pos_account p = acc)"

subsection \<open>Decimal columns\<close>

definition col2 :: "rat \<Rightarrow> rat" where
  "col2 x = quantize_hu 2 x"

abbreviation cents :: "rat \<Rightarrow> bool" where
  "cents x \<equiv> col2 x = x"

lemma col2_of_int_div [simp]: "col2 (of_int k / 100) = of_int k / 100"
  using quantize_hu_int_div[of 2 k] by (simp add: col2_def)

lemma cents_iff: "cents x \<longleftrightarrow> (\<exists>k. x = of_int k / 100)"
proof
  assume "cents x"
  then have "x = of_int (round_half_up (x * 10\<^sup>2)) / 100"
    by (simp add: col2_def quantize_hu_def)
  then show "\<exists>k. x = of_int k / 100" ..
next
  assume "\<exists>k. x = of_int k / 100"
  then obtain k where "x = of_int k / 100" ..
  then show "cents x" by (simp only: col2_of_int_div)
qed

lemma cents_add [intro]: "cents x \<Longrightarrow> cents y \<Longrightarrow> cents (x + y)"
proof -
  assume "cents x" "cents y"
  then obtain k l where "x = of_int k / 100" "y = of_int l / 100" by (auto simp: cents_iff)
  then have "x + y = of_int (k + l) / 100" by (simp add: add_divide_distrib)
  then show ?thesis by (simp only: col2_of_int_div)
qed

lemma cents_minus [intro]: "cents x \<Longrightarrow> cents (- x)"
  by (simp add: col2_def qhu.minus)

lemma cents_diff [intro]: "cents x \<Longrightarrow> cents y \<Longrightarrow> cents (x - y)"
  using cents_add[of x "- y"] cents_minus[of y] by simp

lemma cents_0 [simp]: "cents 0"
  by (simp add: col2_def qhu.zero)

lemma cents_col2 [simp]: "cents (col2 x)"
  by (simp add: col2_def qhu.idem)

lemma cents_of_int: "cents (of_int n)"
proof -
  have "of_int n = (of_int (100 * n) / 100 :: rat)" by simp
  then show ?thesis by (simp only: col2_of_int_div)
qed

lemma cents_numeral [simp]: "cents (numeral n)" "cents 1" "cents (- numeral n)"
  using cents_of_int[of "numeral n"] cents_of_int[of 1] cents_of_int[of "- numeral n"] by simp_all

subsection \<open>\<open>TradingAccount.save\<close>\<close>

definition tier_initial :: "tier \<Rightarrow> rat option" where
  "tier_initial t = (case t of T10K \<Rightarrow> Some 10000 | T50K \<Rightarrow> Some 50000
     | T100K \<Rightarrow> Some 100000 | T25K \<Rightarrow> None)"

text \<open>
  The row \<open>check_rules\<close> computes and the adjustment entries it creates, in order.
  \<open>adding\<close> is \<open>self._state.adding\<close>: the row has never been saved.
\<close>

definition adjust_entry :: "pk \<Rightarrow> rat \<Rightarrow> string \<Rightarrow> int \<Rightarrow> ledger_entry" where
  "adjust_entry k bal msg now =
     \<lparr>le_account = k, le_event = EV_ADJUST, le_amount = 0, le_balance_after = bal,
      le_meta = [(''msg'', MStr msg)], le_created_at = now\<rparr>"

definition check_profit_target ::
  "pk \<Rightarrow> int \<Rightarrow> trading_account \<Rightarrow> trading_account \<times> ledger_entry list" where
  "check_profit_target k now a =
     (case profit_target a of
        None \<Rightarrow> (a, [])
      | Some pt \<Rightarrow>
          if acc_type a \<in> {CHALLENGE, FUNDED} \<and> pt + equity a \<le> balance a then
            (case acc_phase a of
               Fase1 \<Rightarrow> (a\<lparr>acc_phase := Fase2\<rparr>,
                         [adjust_entry k (balance a) ''Avanzo a Fase 2'' now])
             | Fase2 \<Rightarrow> (a\<lparr>acc_phase := FundedPhase\<rparr>,
                         [adjust_entry k (balance a) ''Cuenta ahora es Funded'' now])
             | FundedPhase \<Rightarrow> (a, []))
          else (a, []))"

definition check_drawdown_rule ::
  "pk \<Rightarrow> int \<Rightarrow> trading_account \<Rightarrow> trading_account \<times> ledger_entry list" where
  "check_drawdown_rule k now a =
     (if acc_type a \<notin> set MARGIN_ENGINE_TYPES then
        (if max_drawdown a \<le> drawdown a \<or> balance a \<le> 0
         then (a\<lparr>acc_status := Suspendido\<rparr>,
               [adjust_entry k (balance a) ''Cuenta suspendida por drawdown'' now])
         else (a, []))
      else
        (if balance a \<le> 0
         then (a\<lparr>acc_status := Suspendido\<rparr>,
               [adjust_entry k (balance a) ''Cuenta suspendida - balance agotado'' now])
         else (a, [])))"

definition check_rules ::
  "bool \<Rightarrow> pk \<Rightarrow> int \<Rightarrow> trading_account \<Rightarrow> trading_account \<times> ledger_entry list" where
  "check_rules adding k now a =
     (if adding then (a, [])
      else let (a1, es1) = check_profit_target k now a;
               (a2, es2) = check_drawdown_rule k now a1;
               a3 = (if equity a2 \<le> 0 then a2\<lparr>acc_status := Completado\<rparr> else a2)
           in (a3, es1 @ es2))"

definition starting_balance :: "trading_account \<Rightarrow> rat" where
  "starting_balance a =
     (case initial_balance a of
        Some ib \<Rightarrow> ib
      | None \<Rightarrow> (case acc_tier a of
          None \<Rightarrow> balance a
        | Some t \<Rightarrow> (case tier_initial t of Some ib \<Rightarrow> ib | None \<Rightarrow> balance a)))"

definition sync_balances :: "bool \<Rightarrow> trading_account \<Rightarrow> trading_account" where
  "sync_balances adding a =
     (if adding
      then let ib = starting_balance a
           in a\<lparr>initial_balance := Some ib, balance := ib, equity := ib, peak_balance := ib\<rparr>
      else (case initial_balance a of
              None \<Rightarrow> a\<lparr>initial_balance := Some (balance a)\<rparr>
            | Some _ \<Rightarrow> a))"

text \<open>What reaches the row: the money columns are rounded to their two decimals.\<close>

definition store_account :: "trading_account \<Rightarrow> trading_account" where
  "store_account a =
     a\<lparr>balance := col2 (balance a), equity := col2 (equity a),
       peak_balance := col2 (peak_balance a), drawdown := col2 (drawdown a),
       initial_balance := map_option col2 (initial_balance a),
       profit_target := map_option col2 (profit_target a),
       max_drawdown := col2 (max_drawdown a)\<rparr>"

definition save_account ::
  "bool \<Rightarrow> pk \<Rightarrow> int \<Rightarrow> trading_account \<Rightarrow> 'a db_scheme \<Rightarrow> 'a db_scheme" where
  "save_account adding k now a s =
     (let (a', es) = check_rules adding k now (sync_balances adding a)
      in s\<lparr>accounts := (accounts s)(k \<mapsto> store_account a'), ledger := ledger s @ es\<rparr>)"

text \<open>\<open>TradingAccount.objects.create\<close>: the next key, and a save with \<open>adding\<close>.\<close>

definition create_account ::
  "int \<Rightarrow> trading_account \<Rightarrow> 'a db_scheme \<Rightarrow> pk \<times> 'a db_scheme" where
  "create_account now a s =
     (next_account s,
      save_account True (next_account s) now (a\<lparr>acc_created_at := now\<rparr>)
        (s\<lparr>next_account := Suc (next_account s)\<rparr>))"

text \<open>\<open>objects.filter(pk=k).update(...)\<close>: no save, no rules; no row, no effect.\<close>

definition update_account ::
  "pk \<Rightarrow> (trading_account \<Rightarrow> trading_account) \<Rightarrow> 'a db_scheme \<Rightarrow> 'a db_scheme" where
  "update_account k f s =
     (case accounts s k of
        None \<Rightarrow> s
      | Some a \<Rightarrow> s\<lparr>accounts := (accounts s)(k \<mapsto> f a)\<rparr>)"

definition add_ledger :: "ledger_entry \<Rightarrow> 'a db_scheme \<Rightarrow> 'a db_scheme" where
  "add_ledger e s = s\<lparr>ledger := ledger s @ [e]\<rparr>"

subsection \<open>Facts\<close>

lemma update_account_simps [simp]:
  "ledger (update_account k f s) = ledger s"
  "positions (update_account k f s) = positions s"
  "next_position (update_account k f s) = next_position s"
  "next_account (update_account k f s) = next_account s"
  "accounts s k = Some a \<Longrightarrow> accounts (update_account k f s) = (accounts s)(k \<mapsto> f a)"
  "accounts s k = None \<Longrightarrow> update_account k f s = s"
  "j \<noteq> k \<Longrightarrow> accounts (update_account k f s) j = accounts s j"
  by (auto simp: update_account_def split: option.splits)

lemma update_account_more [simp]: "db.more (update_account k f s) = db.more s"
  by (simp add: update_account_def split: option.splits)

lemma add_ledger_simps [simp]:
  "ledger (add_ledger e s) = ledger s @ [e]"
  "accounts (add_ledger e s) = accounts s"
  "positions (add_ledger e s) = positions s"
  "next_position (add_ledger e s) = next_position s"
  "next_account (add_ledger e s) = next_account s"
  "db.more (add_ledger e s) = db.more s"
  by (simp_all add: add_ledger_def)

lemma open_positions_cong:
  "positions s' = positions s \<Longrightarrow> next_position s' = next_position s \<Longrightarrow>
     open_positions acc s' = open_positions acc s"
  by (simp add: open_positions_def)

lemma check_rules_adding [simp]: "check_rules True k now a = (a, [])"
  by (simp add: check_rules_def)

lemma create_account_row:
  "create_account now a s = (k, s') \<Longrightarrow>
     k = next_account s \<and> next_account s' = Suc k \<and> ledger s' = ledger s \<and>
     accounts s' = (accounts s)(k \<mapsto> store_account (sync_balances True (a\<lparr>acc_created_at := now\<rparr>)))"
  by (auto simp: create_account_def save_account_def)

lemma check_profit_target_keeps:
  "check_profit_target k now a = (a', es) \<Longrightarrow>
     balance a' = balance a \<and> equity a' = equity a \<and> acc_type a' = acc_type a
     \<and> acc_status a' = acc_status a \<and> drawdown a' = drawdown a \<and> max_drawdown a' = max_drawdown a"
  by (auto simp: check_profit_target_def split: option.splits phase.splits if_splits)

lemma check_drawdown_rule_keeps:
  "check_drawdown_rule k now a = (a', es) \<Longrightarrow>
     balance a' = balance a \<and> equity a' = equity a \<and> acc_type a' = acc_type a
     \<and> acc_phase a' = acc_phase a"
  by (auto simp: check_drawdown_rule_def split: if_splits)

end
