(* ===== verification/WalletLedger.thy ===== *)
theory WalletLedger
  imports Accounts
begin

section \<open>The wallet ledger (\<open>simulator/wallet_ledger.py\<close>)\<close>

text \<open>
  Wallets, their append-only \<open>WalletTransaction\<close> ledger, and the transfers
  between a wallet and a trading account. An operation inside
  \<open>transaction.atomic\<close> that raises leaves no write behind, so it returns only the
  exception; the two transfers, which record a FAILED row outside the atomic
  block before re-raising, return an exception together with the database.
  The free-text note and the acting user of a row are left out, as is
  \<open>updated_at\<close>.
\<close>

subsection \<open>State\<close>

datatype wallet_error =
  ValueError string
| InsufficientFunds rat rat  \<comment> \<open>available, requested\<close>
| DoesNotExist string
| IntegrityError string

datatype tx_type =
  TX_DEPOSIT | TX_WITHDRAW | TX_TRANSFER_OUT | TX_TRANSFER_IN | TX_BONUS | TX_REBATE
| TX_COMMISSION | TX_CORRECTION | TX_FUNDED_PAYOUT

record wallet =
  available_balance :: rat
  pending_balance :: rat

record wallet_tx =
  tx_wallet :: pk
  tx_kind :: tx_type
  tx_amount :: rat
  tx_balance_after :: rat
  tx_deposit :: "pk option"
  tx_transfer :: "pk option"

datatype direction = DIR_TO_ACCOUNT | DIR_TO_WALLET

datatype transfer_status = ST_PENDING | ST_PROCESSING | ST_COMPLETED | ST_FAILED | ST_REVERSED

record internal_transfer =
  it_wallet :: pk
  it_account :: pk
  it_direction :: direction
  it_amount :: rat
  it_status :: transfer_status
  it_failure :: "wallet_error option"
  it_completed_at :: "int option"

text \<open>
  \<open>user_wallet\<close>: the wallet
  that the one-to-one column \<open>Wallet.user\<close> gives a user.
\<close>

record wallet_db = db +
  wallets :: "wallet table"
  user_wallet :: "pk \<Rightarrow> pk option"
  next_wallet :: pk
  wallet_txs :: "wallet_tx list"
  transfers :: "internal_transfer table"
  next_transfer :: pk

subsection \<open>Core primitives\<close>

text \<open>
  Both primitives write the balance and append the row; the amounts that reach
  the columns are rounded to cents.
\<close>

definition post_wallet ::
  "pk \<Rightarrow> rat \<Rightarrow> rat \<Rightarrow> tx_type \<Rightarrow> pk option \<Rightarrow> pk option \<Rightarrow> wallet
     \<Rightarrow> 'a wallet_db_scheme \<Rightarrow> wallet_tx \<times> 'a wallet_db_scheme" where
  "post_wallet w amount new_balance kind dep xfer row s =
     (let tx = \<lparr>tx_wallet = w, tx_kind = kind, tx_amount = col2 amount,
                tx_balance_after = col2 new_balance, tx_deposit = dep, tx_transfer = xfer\<rparr>
      in (tx, s\<lparr>wallets := (wallets s)(w \<mapsto> row\<lparr>available_balance := col2 new_balance\<rparr>),
                wallet_txs := wallet_txs s @ [tx]\<rparr>))"

definition credit_wallet ::
  "pk \<Rightarrow> rat \<Rightarrow> tx_type \<Rightarrow> pk option \<Rightarrow> pk option \<Rightarrow> 'a wallet_db_scheme
     \<Rightarrow> wallet_error + (wallet_tx \<times> 'a wallet_db_scheme)" where
  "credit_wallet w amount kind dep xfer s =
     (if amount \<le> 0 then Inl (ValueError ''credit_wallet: amount must be > 0'')
      else case wallets s w of
        None \<Rightarrow> Inl (DoesNotExist ''Wallet'')
      | Some row \<Rightarrow>
          Inr (post_wallet w amount (available_balance row + amount) kind dep xfer row s))"

definition debit_wallet ::
  "pk \<Rightarrow> rat \<Rightarrow> tx_type \<Rightarrow> pk option \<Rightarrow> 'a wallet_db_scheme
     \<Rightarrow> wallet_error + (wallet_tx \<times> 'a wallet_db_scheme)" where
  "debit_wallet w amount kind xfer s =
     (if amount \<le> 0 then Inl (ValueError ''debit_wallet: amount must be > 0'')
      else case wallets s w of
        None \<Rightarrow> Inl (DoesNotExist ''Wallet'')
      | Some row \<Rightarrow>
          if available_balance row < amount
          then Inl (InsufficientFunds (available_balance row) amount)
          else Inr (post_wallet w (- amount) (available_balance row - amount) kind None xfer row s))"

subsection \<open>Transfers\<close>

text \<open>
  \<open>InternalTransfer.objects.create\<close>; the two foreign keys are checked by the
  database.
\<close>

definition create_transfer ::
  "pk \<Rightarrow> pk \<Rightarrow> direction \<Rightarrow> rat \<Rightarrow> 'a wallet_db_scheme
     \<Rightarrow> wallet_error + (pk \<times> 'a wallet_db_scheme)" where
  "create_transfer w acc dir amount s =
     (if wallets s w = None \<or> accounts s acc = None then Inl (IntegrityError ''InternalTransfer'')
      else let k = next_transfer s
           in Inr (k, s\<lparr>next_transfer := Suc k,
                  transfers := (transfers s)(k \<mapsto>
                    \<lparr>it_wallet = w, it_account = acc, it_direction = dir, it_amount = col2 amount,
                     it_status = ST_PENDING, it_failure = None, it_completed_at = None\<rparr>)\<rparr>))"

definition update_transfer ::
  "pk \<Rightarrow> (internal_transfer \<Rightarrow> internal_transfer) \<Rightarrow> 'a wallet_db_scheme \<Rightarrow> 'a wallet_db_scheme" where
  "update_transfer k f s =
     (case transfers s k of None \<Rightarrow> s | Some t \<Rightarrow> s\<lparr>transfers := (transfers s)(k \<mapsto> f t)\<rparr>)"

definition complete_transfer :: "int \<Rightarrow> internal_transfer \<Rightarrow> internal_transfer" where
  "complete_transfer now t = t\<lparr>it_status := ST_COMPLETED, it_completed_at := Some now\<rparr>"

definition fail_transfer :: "wallet_error \<Rightarrow> internal_transfer \<Rightarrow> internal_transfer" where
  "fail_transfer e t = t\<lparr>it_status := ST_FAILED, it_failure := Some e\<rparr>"

text \<open>
  The account's side of a transfer, where \<open>a\<close> is the row read under the lock: the
  new balance and the \<open>LedgerEntry\<close>.
\<close>

definition credit_account ::
  "int \<Rightarrow> pk \<Rightarrow> pk \<Rightarrow> pk \<Rightarrow> rat \<Rightarrow> trading_account \<Rightarrow> 'a wallet_db_scheme \<Rightarrow> 'a wallet_db_scheme" where
  "credit_account now w acc k amount a s =
     (let new = balance a + amount
      in add_ledger \<lparr>le_account = acc, le_event = EV_DEPOSIT, le_amount = col2 amount,
           le_balance_after = col2 new,
           le_meta = [(''source'', MStr ''wallet_transfer''), (''wallet_id'', MKey w),
                      (''internal_transfer_id'', MKey k)],
           le_created_at = now\<rparr>
         (update_account acc (\<lambda>r. r\<lparr>balance := col2 new, equity := col2 new,
            peak_balance := (if peak_balance a < new then col2 new else peak_balance a)\<rparr>) s))"

definition debit_account ::
  "int \<Rightarrow> pk \<Rightarrow> pk \<Rightarrow> pk \<Rightarrow> rat \<Rightarrow> trading_account \<Rightarrow> 'a wallet_db_scheme \<Rightarrow> 'a wallet_db_scheme" where
  "debit_account now w acc k amount a s =
     (let new = balance a - amount
      in add_ledger \<lparr>le_account = acc, le_event = EV_WITHDRAW, le_amount = col2 (- amount),
           le_balance_after = col2 new,
           le_meta = [(''destination'', MStr ''wallet_transfer''), (''wallet_id'', MKey w),
                      (''internal_transfer_id'', MKey k)],
           le_created_at = now\<rparr>
         (update_account acc (\<lambda>r. r\<lparr>balance := col2 new, equity := col2 new\<rparr>) s))"

text \<open>The atomic block of \<open>transfer_to_account\<close>.\<close>

definition to_account_atomic ::
  "int \<Rightarrow> pk \<Rightarrow> pk \<Rightarrow> pk \<Rightarrow> rat \<Rightarrow> 'a wallet_db_scheme \<Rightarrow> wallet_error + 'a wallet_db_scheme" where
  "to_account_atomic now w acc k amount s =
     (let s1 = update_transfer k (\<lambda>t. t\<lparr>it_status := ST_PROCESSING\<rparr>) s in
      case accounts s1 acc of
        None \<Rightarrow> Inl (DoesNotExist ''TradingAccount'')
      | Some a \<Rightarrow>
          (case debit_wallet w amount TX_TRANSFER_OUT (Some k) s1 of
             Inl e \<Rightarrow> Inl e
           | Inr (tx, s2) \<Rightarrow>
               Inr (update_transfer k (complete_transfer now)
                      (credit_account now w acc k amount a s2))))"

definition transfer_to_account ::
  "int \<Rightarrow> pk \<Rightarrow> pk \<Rightarrow> rat \<Rightarrow> 'a wallet_db_scheme
     \<Rightarrow> (wallet_error + pk) \<times> 'a wallet_db_scheme" where
  "transfer_to_account now w acc amount s =
     (if amount \<le> 0 then (Inl (ValueError ''transfer_to_account: amount must be > 0''), s)
      else case create_transfer w acc DIR_TO_ACCOUNT amount s of
        Inl e \<Rightarrow> (Inl e, s)
      | Inr (k, s1) \<Rightarrow>
          (case to_account_atomic now w acc k amount s1 of
             Inl e \<Rightarrow> (Inl e, update_transfer k (fail_transfer e) s1)
           | Inr s2 \<Rightarrow> (Inr k, s2)))"

text \<open>The atomic block of \<open>transfer_to_wallet\<close>: here the account pays first.\<close>

definition to_wallet_atomic ::
  "int \<Rightarrow> pk \<Rightarrow> pk \<Rightarrow> pk \<Rightarrow> rat \<Rightarrow> 'a wallet_db_scheme \<Rightarrow> wallet_error + 'a wallet_db_scheme" where
  "to_wallet_atomic now w acc k amount s =
     (let s1 = update_transfer k (\<lambda>t. t\<lparr>it_status := ST_PROCESSING\<rparr>) s in
      case accounts s1 acc of
        None \<Rightarrow> Inl (DoesNotExist ''TradingAccount'')
      | Some a \<Rightarrow>
          if 0 < length (open_positions acc s1)
          then Inl (ValueError ''open positions'')
          else if balance a < amount then Inl (InsufficientFunds (balance a) amount)
          else
            (case credit_wallet w amount TX_TRANSFER_IN None (Some k)
                    (debit_account now w acc k amount a s1) of
               Inl e \<Rightarrow> Inl e
             | Inr (tx, s2) \<Rightarrow> Inr (update_transfer k (complete_transfer now) s2)))"

definition transfer_to_wallet ::
  "int \<Rightarrow> pk \<Rightarrow> pk \<Rightarrow> rat \<Rightarrow> 'a wallet_db_scheme
     \<Rightarrow> (wallet_error + pk) \<times> 'a wallet_db_scheme" where
  "transfer_to_wallet now w acc amount s =
     (if amount \<le> 0 then (Inl (ValueError ''transfer_to_wallet: amount must be > 0''), s)
      else case accounts s acc of
        None \<Rightarrow> (Inl (DoesNotExist ''TradingAccount''), s)
      | Some a \<Rightarrow>
          if acc_type a \<notin> set WITHDRAWABLE_ACCOUNT_TYPES
          then (Inl (ValueError ''balance does not represent real client funds''), s)
          else case create_transfer w acc DIR_TO_WALLET amount s of
            Inl e \<Rightarrow> (Inl e, s)
          | Inr (k, s1) \<Rightarrow>
              (case to_wallet_atomic now w acc k amount s1 of
                 Inl e \<Rightarrow> (Inl e, update_transfer k (fail_transfer e) s1)
               | Inr s2 \<Rightarrow> (Inr k, s2)))"

subsection \<open>Reconciliation\<close>

record reconcile_result =
  rr_stored :: rat
  rr_computed :: rat
  rr_drift :: rat
  rr_ok :: bool

definition wallet_sum :: "pk \<Rightarrow> wallet_tx list \<Rightarrow> rat" where
  "wallet_sum w txs = sum_list (map tx_amount (filter (\<lambda>t. tx_wallet t = w) txs))"

definition reconcile_wallet :: "pk \<Rightarrow> 'a wallet_db_scheme \<Rightarrow> wallet_error + reconcile_result" where
  "reconcile_wallet w s =
     (case wallets s w of
        None \<Rightarrow> Inl (DoesNotExist ''Wallet'')
      | Some row \<Rightarrow>
          let computed = wallet_sum w (wallet_txs s);
              drift = computed - available_balance row
          in Inr \<lparr>rr_stored = available_balance row, rr_computed = computed,
                  rr_drift = drift, rr_ok = (drift = 0)\<rparr>)"

subsection \<open>Wallet creation\<close>

definition get_or_create_wallet ::
  "pk \<Rightarrow> 'a wallet_db_scheme \<Rightarrow> (pk \<times> bool) \<times> 'a wallet_db_scheme" where
  "get_or_create_wallet u s =
     (case user_wallet s u of
        Some w \<Rightarrow> ((w, False), s)
      | None \<Rightarrow>
          let w = next_wallet s
          in ((w, True), s\<lparr>next_wallet := Suc w, user_wallet := (user_wallet s)(u \<mapsto> w),
                wallets := (wallets s)(w \<mapsto> \<lparr>available_balance = 0, pending_balance = 0\<rparr>)\<rparr>))"

subsection \<open>Invariant\<close>

text \<open>
  The invariant the module states: the stored balance of every wallet is the sum
  of its ledger rows. It holds together with: balances are whole cents and never
  negative, every ledger row has a wallet, keys from \<open>next_wallet\<close> on are free, and
  every row's \<open>balance_after\<close> is the running total of its wallet.
\<close>

definition audit_ok :: "wallet_tx list \<Rightarrow> bool" where
  "audit_ok txs \<longleftrightarrow>
     (\<forall>i < length txs. tx_balance_after (txs ! i)
                        = wallet_sum (tx_wallet (txs ! i)) (take (Suc i) txs))"

definition wallet_inv :: "'a wallet_db_scheme \<Rightarrow> bool" where
  "wallet_inv s \<longleftrightarrow>
     (\<forall>w row. wallets s w = Some row \<longrightarrow>
        wallet_sum w (wallet_txs s) = available_balance row
        \<and> cents (available_balance row) \<and> 0 \<le> available_balance row)
     \<and> (\<forall>t \<in> set (wallet_txs s). wallets s (tx_wallet t) \<noteq> None)
     \<and> (\<forall>w \<ge> next_wallet s. wallets s w = None)
     \<and> audit_ok (wallet_txs s)"

lemma wallet_sum_snoc [simp]:
  "wallet_sum w (txs @ [t]) = wallet_sum w txs + (if tx_wallet t = w then tx_amount t else 0)"
  by (simp add: wallet_sum_def)

lemma wallet_sum_Nil [simp]: "wallet_sum w [] = 0"
  by (simp add: wallet_sum_def)

lemma wallet_sum_no_rows: "(\<forall>t \<in> set txs. tx_wallet t \<noteq> w) \<Longrightarrow> wallet_sum w txs = 0"
  by (simp add: wallet_sum_def filter_False)

lemma audit_ok_snoc:
  "audit_ok txs \<Longrightarrow> tx_balance_after t = wallet_sum (tx_wallet t) txs + tx_amount t \<Longrightarrow>
     audit_ok (txs @ [t])"
  by (auto simp: audit_ok_def nth_append less_Suc_eq)

lemma wallet_invD:
  assumes "wallet_inv s" "wallets s w = Some row"
  shows "wallet_sum w (wallet_txs s) = available_balance row"
    and "cents (available_balance row)" and "0 \<le> available_balance row"
  using assms by (auto simp: wallet_inv_def)

text \<open>Everything the wallet invariant does not look at may change.\<close>

lemma wallet_inv_cong:
  "wallets s' = wallets s \<Longrightarrow> wallet_txs s' = wallet_txs s \<Longrightarrow> next_wallet s' = next_wallet s \<Longrightarrow>
     wallet_inv s' = wallet_inv s"
  by (simp add: wallet_inv_def)

subsection \<open>The two primitives keep the invariant\<close>

lemma post_wallet_state:
  "post_wallet w amt nb kind dep xfer row s = (tx, s') \<Longrightarrow>
     s' = s\<lparr>wallets := (wallets s)(w \<mapsto> row\<lparr>available_balance := col2 nb\<rparr>),
            wallet_txs := wallet_txs s @ [tx]\<rparr>"
  unfolding post_wallet_def Let_def by blast

lemma post_wallet_fields [simp]:
  assumes "post_wallet w amt nb kind dep xfer row s = (tx, s')"
  shows "wallets s' = (wallets s)(w \<mapsto> row\<lparr>available_balance := col2 nb\<rparr>)"
    and "wallet_txs s' = wallet_txs s @ [tx]" and "next_wallet s' = next_wallet s"
    and "tx_wallet tx = w" and "tx_amount tx = col2 amt" and "tx_balance_after tx = col2 nb"
    and "accounts s' = accounts s" and "ledger s' = ledger s" and "positions s' = positions s"
    and "next_position s' = next_position s" and "transfers s' = transfers s" and "next_transfer s' = next_transfer s"
    and "next_account s' = next_account s" and "user_wallet s' = user_wallet s"
  using assms by (auto simp: post_wallet_def Let_def)

lemma post_wallet_inv:
  assumes inv: "wallet_inv s" and row: "wallets s w = Some row" and amt: "cents amt"
    and nb: "nb = available_balance row + amt" and nn: "0 \<le> nb"
    and post: "post_wallet w amt nb kind dep xfer row s = (tx, s')"
  shows "wallet_inv s'"
proof -
  note f = post_wallet_fields[OF post]
  have c: "col2 (available_balance row + amt) = available_balance row + amt"
    using wallet_invD(2)[OF inv row] amt by (rule cents_add)
  have audit: "audit_ok (wallet_txs s @ [tx])"
    using inv wallet_invD(1)[OF inv row] amt c
    by (intro audit_ok_snoc) (simp_all add: wallet_inv_def f(4-6) nb)
  show ?thesis
    using inv row amt nn audit unfolding wallet_inv_def f(1-3) nb
    by (auto simp: f(4,5) c split: if_splits)
qed

lemma credit_wallet_Inr:
  "credit_wallet w a kind dep xfer s = Inr (tx, s') \<longleftrightarrow>
     0 < a \<and> (\<exists>row. wallets s w = Some row
       \<and> post_wallet w a (available_balance row + a) kind dep xfer row s = (tx, s'))"
  by (auto simp: credit_wallet_def split: option.splits)

lemma debit_wallet_Inr:
  "debit_wallet w a kind xfer s = Inr (tx, s') \<longleftrightarrow>
     0 < a \<and> (\<exists>row. wallets s w = Some row \<and> a \<le> available_balance row
       \<and> post_wallet w (- a) (available_balance row - a) kind None xfer row s = (tx, s'))"
  by (auto simp: debit_wallet_def not_less split: option.splits)

lemma credit_wallet_inv [step_keeps]:
  assumes "wallet_inv s" "cents a" "credit_wallet w a kind dep xfer s = Inr (tx, s')"
  shows "wallet_inv s'"
proof -
  obtain row where row: "wallets s w = Some row" "0 < a"
    and post: "post_wallet w a (available_balance row + a) kind dep xfer row s = (tx, s')"
    using assms(3) by (auto simp: credit_wallet_Inr)
  show ?thesis
    using post_wallet_inv[OF assms(1) row(1) assms(2) refl _ post] row wallet_invD(3)[OF assms(1) row(1)]
    by simp
qed

lemma debit_wallet_inv [step_keeps]:
  assumes "wallet_inv s" "cents a" "debit_wallet w a kind xfer s = Inr (tx, s')"
  shows "wallet_inv s'"
proof -
  obtain row where row: "wallets s w = Some row" "a \<le> available_balance row"
    and post: "post_wallet w (- a) (available_balance row - a) kind None xfer row s = (tx, s')"
    using assms(3) by (auto simp: debit_wallet_Inr)
  show ?thesis
    using post_wallet_inv[OF assms(1) row(1) cents_minus[OF assms(2)] _ _ post] row by simp
qed

lemma get_or_create_wallet_inv [step_keeps]:
  assumes "wallet_inv s"
  shows "wallet_inv (snd (get_or_create_wallet u s))"
proof (cases "user_wallet s u")
  case None
  have "wallets s (next_wallet s) = None" using assms by (simp add: wallet_inv_def)
  then have "wallet_sum (next_wallet s) (wallet_txs s) = 0"
    using assms by (intro wallet_sum_no_rows) (auto simp: wallet_inv_def)
  with assms None show ?thesis
    by (auto simp: get_or_create_wallet_def wallet_inv_def Let_def)
next
  case (Some w)
  with assms show ?thesis by (simp add: get_or_create_wallet_def)
qed

subsection \<open>Transfers: frames, effects, invariant\<close>

lemma update_account_frame [simp]:
  "wallets (update_account k f s) = wallets s"
  "wallet_txs (update_account k f s) = wallet_txs s"
  "next_wallet (update_account k f s) = next_wallet s"
  "transfers (update_account k f s) = transfers s"
  "next_transfer (update_account k f s) = next_transfer s"
  by (simp_all add: update_account_def split: option.splits)

lemma add_ledger_frame [simp]:
  "wallets (add_ledger e s) = wallets s"
  "wallet_txs (add_ledger e s) = wallet_txs s"
  "next_wallet (add_ledger e s) = next_wallet s"
  "transfers (add_ledger e s) = transfers s"
  "next_transfer (add_ledger e s) = next_transfer s"
  by (simp_all add: add_ledger_def)

lemma credit_account_frame [simp]:
  "wallets (credit_account now w acc k amt a s) = wallets s"
  "wallet_txs (credit_account now w acc k amt a s) = wallet_txs s"
  "next_wallet (credit_account now w acc k amt a s) = next_wallet s"
  "transfers (credit_account now w acc k amt a s) = transfers s"
  by (simp_all add: credit_account_def Let_def)

lemma debit_account_frame [simp]:
  "wallets (debit_account now w acc k amt a s) = wallets s"
  "wallet_txs (debit_account now w acc k amt a s) = wallet_txs s"
  "next_wallet (debit_account now w acc k amt a s) = next_wallet s"
  "transfers (debit_account now w acc k amt a s) = transfers s"
  by (simp_all add: debit_account_def Let_def)

lemma update_transfer_frame [simp]:
  "wallets (update_transfer k f s) = wallets s"
  "wallet_txs (update_transfer k f s) = wallet_txs s"
  "next_wallet (update_transfer k f s) = next_wallet s"
  "accounts (update_transfer k f s) = accounts s"
  "ledger (update_transfer k f s) = ledger s"
  "positions (update_transfer k f s) = positions s"
  "next_position (update_transfer k f s) = next_position s"
  "open_positions acc (update_transfer k f s) = open_positions acc s"
  "next_transfer (update_transfer k f s) = next_transfer s"
  "transfers s k = Some t \<Longrightarrow> transfers (update_transfer k f s) = (transfers s)(k \<mapsto> f t)"
  by (simp_all add: update_transfer_def open_positions_def split: option.splits)

lemma create_transfer_Inr:
  assumes "create_transfer w acc dir amt s = Inr (k, s')"
  shows "k = next_transfer s" and "wallets s' = wallets s" and "wallet_txs s' = wallet_txs s"
    and "next_wallet s' = next_wallet s" and "accounts s' = accounts s" and "ledger s' = ledger s"
    and "open_positions a s' = open_positions a s" and "wallets s w \<noteq> None" and "accounts s acc \<noteq> None"
    and "transfers s' = (transfers s)(k \<mapsto> \<lparr>it_wallet = w, it_account = acc, it_direction = dir,
           it_amount = col2 amt, it_status = ST_PENDING, it_failure = None, it_completed_at = None\<rparr>)"
  using assms by (auto simp: create_transfer_def open_positions_def Let_def split: if_splits)

text \<open>
  The effect of a completed atomic block: one wallet, one account, one row in
  each ledger, and the transfer row; nothing else.
\<close>

lemma to_account_atomic_Inr:
  assumes "to_account_atomic now w acc k amt s = Inr s'" "transfers s k = Some t"
  obtains a row where
    "accounts s acc = Some a" "wallets s w = Some row" "0 < amt" "amt \<le> available_balance row"
    "wallets s' = (wallets s)(w \<mapsto> row\<lparr>available_balance := col2 (available_balance row - amt)\<rparr>)"
    "accounts s' = (accounts s)(acc \<mapsto> a\<lparr>balance := col2 (balance a + amt),
       equity := col2 (balance a + amt),
       peak_balance := (if peak_balance a < balance a + amt then col2 (balance a + amt)
                        else peak_balance a)\<rparr>)"
    "transfers s' = (transfers s)(k \<mapsto>
       t\<lparr>it_status := ST_COMPLETED, it_completed_at := Some now\<rparr>)"
    "\<exists>e. ledger s' = ledger s @ [e] \<and> le_account e = acc \<and> le_amount e = col2 amt"
proof -
  let ?s1 = "update_transfer k (\<lambda>t. t\<lparr>it_status := ST_PROCESSING\<rparr>) s"
  obtain a tx s2 where a: "accounts s acc = Some a"
    and d: "debit_wallet w amt TX_TRANSFER_OUT (Some k) ?s1 = Inr (tx, s2)"
    using assms(1) by (auto simp: to_account_atomic_def Let_def split: option.splits sum.splits)
  then obtain row where r: "wallets s w = Some row" "0 < amt" "amt \<le> available_balance row"
    and post: "post_wallet w (- amt) (available_balance row - amt) TX_TRANSFER_OUT None (Some k) row ?s1
               = (tx, s2)"
    by (auto simp: debit_wallet_Inr)
  note f = post_wallet_fields[OF post]
  show thesis
    by (rule that[OF a r])
       (use assms a d f in \<open>auto simp: to_account_atomic_def credit_account_def Let_def complete_transfer_def\<close>)
qed

lemma to_wallet_atomic_Inr:
  assumes "to_wallet_atomic now w acc k amt s = Inr s'" "transfers s k = Some t"
  obtains a row where
    "accounts s acc = Some a" "wallets s w = Some row" "0 < amt" "amt \<le> balance a"
    "open_positions acc s = []"
    "wallets s' = (wallets s)(w \<mapsto> row\<lparr>available_balance := col2 (available_balance row + amt)\<rparr>)"
    "accounts s' = (accounts s)(acc \<mapsto> a\<lparr>balance := col2 (balance a - amt),
       equity := col2 (balance a - amt)\<rparr>)"
    "transfers s' = (transfers s)(k \<mapsto>
       t\<lparr>it_status := ST_COMPLETED, it_completed_at := Some now\<rparr>)"
    "\<exists>e. ledger s' = ledger s @ [e] \<and> le_account e = acc \<and> le_amount e = col2 (- amt)"
proof -
  let ?s1 = "update_transfer k (\<lambda>t. t\<lparr>it_status := ST_PROCESSING\<rparr>) s"
  obtain a where a: "accounts s acc = Some a"
    using assms(1) by (auto simp: to_wallet_atomic_def Let_def split: option.splits)
  let ?s3 = "debit_account now w acc k amt a ?s1"
  obtain tx s4 where g: "open_positions acc s = []" "amt \<le> balance a"
    and c: "credit_wallet w amt TX_TRANSFER_IN None (Some k) ?s3 = Inr (tx, s4)"
    and s': "s' = update_transfer k (complete_transfer now) s4"
    using assms(1) a
    by (auto simp: to_wallet_atomic_def Let_def open_positions_def not_less
             split: option.splits sum.splits if_splits)
  then obtain row where r: "wallets s w = Some row" "0 < amt"
    and post: "post_wallet w amt (available_balance row + amt) TX_TRANSFER_IN None (Some k) row ?s3 = (tx, s4)"
    by (auto simp: credit_wallet_Inr)
  note f = post_wallet_fields[OF post]
  show thesis
    by (rule that[OF a r g(2,1)])
       (use assms a f in \<open>auto simp: s' debit_account_def Let_def complete_transfer_def\<close>)
qed

lemma to_account_atomic_inv:
  assumes "wallet_inv s" "cents amt" "to_account_atomic now w acc k amt s = Inr s'"
  shows "wallet_inv s'"
proof -
  let ?s1 = "update_transfer k (\<lambda>t. t\<lparr>it_status := ST_PROCESSING\<rparr>) s"
  obtain tx s2 where d: "debit_wallet w amt TX_TRANSFER_OUT (Some k) ?s1 = Inr (tx, s2)"
    and same: "wallets s' = wallets s2" "wallet_txs s' = wallet_txs s2" "next_wallet s' = next_wallet s2"
    using assms(3) by (auto simp: to_account_atomic_def Let_def split: option.splits sum.splits)
  have "wallet_inv ?s1" using assms(1) wallet_inv_cong[of ?s1 s] by simp
  then have "wallet_inv s2" using assms(2) d by (rule debit_wallet_inv)
  then show ?thesis using wallet_inv_cong[OF same] by simp
qed

lemma to_wallet_atomic_inv:
  assumes "wallet_inv s" "cents amt" "to_wallet_atomic now w acc k amt s = Inr s'"
  shows "wallet_inv s'"
proof -
  let ?s3 = "\<lambda>a. debit_account now w acc k amt a
               (update_transfer k (\<lambda>t. t\<lparr>it_status := ST_PROCESSING\<rparr>) s)"
  obtain a tx s4 where c: "credit_wallet w amt TX_TRANSFER_IN None (Some k) (?s3 a) = Inr (tx, s4)"
    and same: "wallets s' = wallets s4" "wallet_txs s' = wallet_txs s4" "next_wallet s' = next_wallet s4"
    using assms(3)
    by (auto simp: to_wallet_atomic_def Let_def split: option.splits sum.splits if_splits)
  have "wallet_inv (?s3 a)" using assms(1) wallet_inv_cong[of "?s3 a" s] by simp
  then have "wallet_inv s4" using assms(2) c by (rule credit_wallet_inv)
  then show ?thesis using wallet_inv_cong[OF same] by simp
qed

lemma transfer_to_account_inv [step_keeps]:
  assumes "wallet_inv s" "cents amt"
  shows "wallet_inv (snd (transfer_to_account now w acc amt s))"
proof (cases "create_transfer w acc DIR_TO_ACCOUNT amt s")
  case (Inr r)
  then obtain k s1 where cr: "create_transfer w acc DIR_TO_ACCOUNT amt s = Inr (k, s1)" by (cases r) auto
  have i1: "wallet_inv s1" using assms(1) create_transfer_Inr(2-4)[OF cr] wallet_inv_cong[of s1 s] by simp
  show ?thesis using assms(1) i1 to_account_atomic_inv[OF i1 assms(2)] cr
      wallet_inv_cong[of "update_transfer k (fail_transfer _) s1" s1]
    by (auto simp: transfer_to_account_def split: sum.splits)
qed (use assms in \<open>simp add: transfer_to_account_def\<close>)

lemma transfer_to_wallet_inv [step_keeps]:
  assumes "wallet_inv s" "cents amt"
  shows "wallet_inv (snd (transfer_to_wallet now w acc amt s))"
proof (cases "create_transfer w acc DIR_TO_WALLET amt s")
  case (Inr r)
  then obtain k s1 where cr: "create_transfer w acc DIR_TO_WALLET amt s = Inr (k, s1)" by (cases r) auto
  have i1: "wallet_inv s1" using assms(1) create_transfer_Inr(2-4)[OF cr] wallet_inv_cong[of s1 s] by simp
  show ?thesis using assms(1) i1 to_wallet_atomic_inv[OF i1 assms(2)] cr
      wallet_inv_cong[of "update_transfer k (fail_transfer _) s1" s1]
    by (auto simp: transfer_to_wallet_def split: sum.splits option.splits)
qed (use assms in \<open>auto simp: transfer_to_wallet_def split: option.splits\<close>)

subsection \<open>The interface other money components rely on\<close>

text \<open>
  A store of balances by key, with a credit and a debit that move exactly the
  amount asked, refuse an overdraft, and succeed otherwise. Components that take
  money and give it back (withdrawals, payouts, treasury) need no more than this.
\<close>

locale fund_store =
  fixes bal :: "'s \<Rightarrow> pk \<Rightarrow> rat option"
    and credit :: "pk \<Rightarrow> rat \<Rightarrow> 's \<Rightarrow> 'e + 's"
    and debit :: "pk \<Rightarrow> rat \<Rightarrow> 's \<Rightarrow> 'e + 's"
    and inv :: "'s \<Rightarrow> bool"
  assumes credit_works: "inv s \<Longrightarrow> cents a \<Longrightarrow> 0 < a \<Longrightarrow> bal s k = Some b \<Longrightarrow>
      \<exists>s'. credit k a s = Inr s' \<and> inv s' \<and> bal s' = (bal s)(k \<mapsto> b + a)"
    and debit_works: "inv s \<Longrightarrow> cents a \<Longrightarrow> 0 < a \<Longrightarrow> bal s k = Some b \<Longrightarrow> a \<le> b \<Longrightarrow>
      \<exists>s'. debit k a s = Inr s' \<and> inv s' \<and> bal s' = (bal s)(k \<mapsto> b - a)"
    and debit_fails: "bal s k = Some b \<Longrightarrow> b < a \<Longrightarrow> isl (debit k a s)"
    and credit_bad: "a \<le> 0 \<or> bal s k = None \<Longrightarrow> isl (credit k a s)"
    and debit_bad: "a \<le> 0 \<or> bal s k = None \<Longrightarrow> isl (debit k a s)"
begin

lemma debit_Inr:
  assumes "inv s" "cents a" "debit k a s = Inr s'"
  obtains b where "bal s k = Some b" "0 < a" "a \<le> b" "inv s'" "bal s' = (bal s)(k \<mapsto> b - a)"
proof -
  obtain b where b: "bal s k = Some b" using debit_bad[of a s k] assms(3) by (cases "bal s k") auto
  have a: "0 < a" using debit_bad[of a s k] assms(3) by (cases "a \<le> 0") auto
  have le: "a \<le> b" using debit_fails[OF b, of a] assms(3) by (cases "b < a") auto
  show thesis using debit_works[OF assms(1,2) a b le] assms(3) that[OF b a le] by auto
qed

lemma credit_Inr:
  assumes "inv s" "cents a" "credit k a s = Inr s'"
  obtains b where "bal s k = Some b" "0 < a" "inv s'" "bal s' = (bal s)(k \<mapsto> b + a)"
proof -
  obtain b where b: "bal s k = Some b" using credit_bad[of a s k] assms(3) by (cases "bal s k") auto
  have a: "0 < a" using credit_bad[of a s k] assms(3) by (cases "a \<le> 0") auto
  show thesis using credit_works[OF assms(1,2) a b] assms(3) that[OF b a] by auto
qed

text \<open>Refund: what was taken can be given back, and every balance is as before.\<close>

lemma refund:
  assumes "inv s" "cents a" "debit k a s = Inr s1"
  shows "\<exists>s2. credit k a s1 = Inr s2 \<and> inv s2 \<and> bal s2 = bal s"
proof -
  obtain b where b: "bal s k = Some b" "0 < a" "inv s1" "bal s1 = (bal s)(k \<mapsto> b - a)"
    using debit_Inr[OF assms] by metis
  obtain s2 where "credit k a s1 = Inr s2" "inv s2" "bal s2 = (bal s1)(k \<mapsto> b - a + a)"
    using credit_works[OF b(3) assms(2) b(2), of k "b - a"] b(4) by auto
  with b show ?thesis by (auto simp: fun_eq_iff)
qed

end

text \<open>Laws that carry over to the wallets: \<open>bal\<close> is the \<open>available_balance\<close> column.\<close>

definition wallet_bal :: "'a wallet_db_scheme \<Rightarrow> pk \<Rightarrow> rat option" where
  "wallet_bal s w = map_option available_balance (wallets s w)"

definition credit_as :: "tx_type \<Rightarrow> pk \<Rightarrow> rat \<Rightarrow> 'a wallet_db_scheme \<Rightarrow> wallet_error + 'a wallet_db_scheme" where
  "credit_as kind w a s = map_sum id snd (credit_wallet w a kind None None s)"

definition debit_as :: "tx_type \<Rightarrow> pk \<Rightarrow> rat \<Rightarrow> 'a wallet_db_scheme \<Rightarrow> wallet_error + 'a wallet_db_scheme" where
  "debit_as kind w a s = map_sum id snd (debit_wallet w a kind None s)"

interpretation wfund: fund_store wallet_bal "credit_as kc" "debit_as kd" wallet_inv for kc kd
proof (unfold_locales, goal_cases)
  case (1 s a k b)
  then obtain row where row: "wallets s k = Some row" "b = available_balance row"
    by (auto simp: wallet_bal_def)
  obtain tx s' where post: "post_wallet k a (b + a) kc None None row s = (tx, s')" by fastforce
  then have c: "credit_wallet k a kc None None s = Inr (tx, s')"
    using 1 row by (auto simp: credit_wallet_Inr)
  have cb: "cents (b + a)" using wallet_invD(2)[OF 1(1) row(1)] 1(2) row(2) by auto
  have "wallet_bal s' = (wallet_bal s)(k \<mapsto> b + a)"
    using post_wallet_fields(1)[OF post] cb by (auto simp: wallet_bal_def fun_eq_iff)
  with c credit_wallet_inv[OF 1(1,2) c] show ?case by (simp add: credit_as_def)
next
  case (2 s a k b)
  then obtain row where row: "wallets s k = Some row" "b = available_balance row"
    by (auto simp: wallet_bal_def)
  obtain tx s' where post: "post_wallet k (- a) (b - a) kd None None row s = (tx, s')" by fastforce
  then have c: "debit_wallet k a kd None s = Inr (tx, s')"
    using 2 row by (auto simp: debit_wallet_Inr)
  have cb: "cents (b - a)" using wallet_invD(2)[OF 2(1) row(1)] 2(2) row(2) by auto
  have "wallet_bal s' = (wallet_bal s)(k \<mapsto> b - a)"
    using post_wallet_fields(1)[OF post] cb by (auto simp: wallet_bal_def fun_eq_iff)
  with c debit_wallet_inv[OF 2(1,2) c] show ?case by (simp add: debit_as_def)
next
  case (3 s k b a)
  then show ?case by (auto simp: debit_as_def debit_wallet_def wallet_bal_def)
next
  case (4 a s k)
  then show ?case by (auto simp: credit_as_def credit_wallet_def wallet_bal_def)
next
  case (5 a s k)
  then show ?case by (auto simp: debit_as_def debit_wallet_def wallet_bal_def)
qed

text \<open>Enough money is all a transfer to an account needs.\<close>

lemma transfer_to_account_succeeds:
  assumes "accounts s acc = Some a" "wallets s w = Some row" "0 < amt" "amt \<le> available_balance row"
  shows "\<exists>s'. transfer_to_account now w acc amt s = (Inr (next_transfer s), s')"
proof -
  obtain s1 where cr: "create_transfer w acc DIR_TO_ACCOUNT amt s = Inr (next_transfer s, s1)"
    using assms by (auto simp: create_transfer_def Let_def)
  note c = create_transfer_Inr[OF cr]
  let ?s2 = "update_transfer (next_transfer s) (\<lambda>t. t\<lparr>it_status := ST_PROCESSING\<rparr>) s1"
  have "debit_wallet w amt TX_TRANSFER_OUT (Some (next_transfer s)) ?s2
      = Inr (post_wallet w (- amt) (available_balance row - amt) TX_TRANSFER_OUT None
               (Some (next_transfer s)) row ?s2)"
    using assms(2-4) c(2) by (simp add: debit_wallet_def)
  moreover have "accounts ?s2 acc = Some a" using assms(1) c(5) by simp
  ultimately show ?thesis using assms(3) cr
    by (simp add: transfer_to_account_def to_account_atomic_def Let_def split: prod.splits)
qed

lemma transfer_to_wallet_succeeds:
  assumes "accounts s acc = Some a" "wallets s w = Some row" "0 < amt" "amt \<le> balance a"
    and "acc_type a \<in> set WITHDRAWABLE_ACCOUNT_TYPES" "open_positions acc s = []"
  shows "\<exists>s'. transfer_to_wallet now w acc amt s = (Inr (next_transfer s), s')"
proof -
  obtain s1 where cr: "create_transfer w acc DIR_TO_WALLET amt s = Inr (next_transfer s, s1)"
    using assms by (auto simp: create_transfer_def Let_def)
  note c = create_transfer_Inr[OF cr]
  have "open_positions acc s1 = []" using assms(6) c by simp
  moreover let ?s2 = "update_transfer (next_transfer s) (\<lambda>t. t\<lparr>it_status := ST_PROCESSING\<rparr>) s1"
  let ?s3 = "debit_account now w acc (next_transfer s) amt a ?s2"
  have "credit_wallet w amt TX_TRANSFER_IN None (Some (next_transfer s)) ?s3
      = Inr (post_wallet w amt (available_balance row + amt) TX_TRANSFER_IN None
               (Some (next_transfer s)) row ?s3)"
    using assms(2,3) c(2) by (simp add: credit_wallet_def)
  moreover have "accounts ?s2 acc = Some a" using assms(1) c(5) by simp
  ultimately show ?thesis using assms(1,3-5) cr
    by (simp add: transfer_to_wallet_def to_wallet_atomic_def Let_def split: prod.splits)
qed

subsection \<open>Steps and reachable databases\<close>

text \<open>
  What may happen to a database: the operations of the module, with amounts in
  whole cents (the two transfer forms accept two decimals), and any step of
  another component, which changes neither wallets nor the wallet ledger.
\<close>

inductive wallet_step :: "wallet_db \<Rightarrow> wallet_db \<Rightarrow> bool" where
  credit: "cents a \<Longrightarrow> credit_wallet w a kind dep x s = Inr (tx, s') \<Longrightarrow> wallet_step s s'"
| debit: "cents a \<Longrightarrow> debit_wallet w a kind x s = Inr (tx, s') \<Longrightarrow> wallet_step s s'"
| to_account: "cents a \<Longrightarrow> wallet_step s (snd (transfer_to_account now w acc a s))"
| to_wallet: "cents a \<Longrightarrow> wallet_step s (snd (transfer_to_wallet now w acc a s))"
| new_wallet: "wallet_step s (snd (get_or_create_wallet u s))"
| other: "wallets s' = wallets s \<Longrightarrow> wallet_txs s' = wallet_txs s \<Longrightarrow>
          next_wallet s' = next_wallet s \<Longrightarrow> wallet_step s s'"

inductive wallet_reachable :: "wallet_db \<Rightarrow> bool" where
  start: "wallets s = Map.empty \<Longrightarrow> wallet_txs s = [] \<Longrightarrow> wallet_reachable s"
| step: "wallet_reachable s \<Longrightarrow> wallet_step s s' \<Longrightarrow> wallet_reachable s'"

lemma wallet_step_inv: "wallet_step s s' \<Longrightarrow> wallet_inv s \<Longrightarrow> wallet_inv s'"
proof (induction rule: wallet_step.induct)
  case (other s' s)
  then show ?case using wallet_inv_cong[of s' s] by blast
qed (blast intro: step_keeps)+

lemma wallet_reachable_inv: "wallet_reachable s \<Longrightarrow> wallet_inv s"
proof (induction rule: wallet_reachable.induct)
  case (start s)
  then show ?case by (simp add: wallet_inv_def audit_ok_def)
next
  case (step s s')
  then show ?case by (blast intro: wallet_step_inv)
qed

subsection \<open>Properties\<close>

text \<open>
  C8. In every database reached by the module's operations (credits, debits, both
  transfers, wallet creation, with amounts in whole cents) interleaved with any
  step of other components, \<open>reconcile_wallet\<close> reports no drift for every wallet,
  the stored balance is not negative, and every ledger row's \<open>balance_after\<close> is
  the running total of its wallet.
\<close>

theorem wallet_always_reconciles:
  assumes "wallet_reachable s" and "wallets s w = Some row"
  shows "reconcile_wallet w s =
           Inr \<lparr>rr_stored = available_balance row, rr_computed = available_balance row,
                rr_drift = 0, rr_ok = True\<rparr>
         \<and> 0 \<le> available_balance row \<and> audit_ok (wallet_txs s)"
proof -
  have inv: "wallet_inv s" using assms(1) by (rule wallet_reachable_inv)
  then show ?thesis
    using wallet_invD[OF inv assms(2)] assms(2)
    by (simp add: reconcile_wallet_def Let_def wallet_inv_def)
qed

definition demo_account :: trading_account where
  "demo_account = \<lparr>acc_type = RETAIL, acc_tier = None, acc_phase = Fase1, balance = 100,
     equity = 100, peak_balance = 100, drawdown = 0, initial_balance = Some 100,
     profit_target = None, max_drawdown = 1200, currency = ''USD'', leverage = 50,
     stopout_level_snapshot = None, spread_pips_snapshot = None,
     commission_per_lot_snapshot = None, acc_status = Activo, acc_created_at = 0\<rparr>"

definition demo_db :: wallet_db where
  "demo_db = \<lparr>accounts = [7 \<mapsto> demo_account], next_account = 8, positions = Map.empty,
     next_position = 0, ledger = [],
     wallets = Map.empty, user_wallet = Map.empty, next_wallet = 0, wallet_txs = [],
     transfers = Map.empty, next_transfer = 0\<rparr>"

definition demo_funded :: wallet_db where
  "demo_funded = snd (post_wallet 0 250 250 TX_DEPOSIT None None
     \<lparr>available_balance = 0, pending_balance = 0\<rparr> (snd (get_or_create_wallet 3 demo_db)))"

lemma demo_funded_eq:
  "demo_funded = \<lparr>accounts = [7 \<mapsto> demo_account], next_account = 8, positions = Map.empty,
     next_position = 0, ledger = [],
     wallets = [0 \<mapsto> \<lparr>available_balance = 250, pending_balance = 0\<rparr>],
     user_wallet = [3 \<mapsto> 0], next_wallet = 1,
     wallet_txs = [\<lparr>tx_wallet = 0, tx_kind = TX_DEPOSIT, tx_amount = 250, tx_balance_after = 250,
                    tx_deposit = None, tx_transfer = None\<rparr>],
     transfers = Map.empty, next_transfer = 0\<rparr>"
  by (simp add: demo_funded_def demo_db_def get_or_create_wallet_def post_wallet_def Let_def)

lemma demo_funded_reachable: "wallet_reachable demo_funded"
proof -
  let ?s = "snd (get_or_create_wallet 3 demo_db)"
  let ?p = "post_wallet 0 250 250 TX_DEPOSIT None None \<lparr>available_balance = 0, pending_balance = 0\<rparr> ?s"
  have "wallet_reachable demo_db" by (rule start) (simp_all add: demo_db_def)
  then have r: "wallet_reachable ?s" by (rule step) (rule new_wallet)
  have "credit_wallet 0 250 TX_DEPOSIT None None ?s = Inr ?p"
    by (simp add: credit_wallet_def get_or_create_wallet_def demo_db_def Let_def)
  then have "credit_wallet 0 250 TX_DEPOSIT None None ?s = Inr (fst ?p, demo_funded)"
    by (simp add: demo_funded_def)
  from wallet_step.credit[OF cents_numeral(1) this] show ?thesis by (rule step[OF r])
qed

lemma demo_funded_wallet:
  "wallets demo_funded 0 = Some \<lparr>available_balance = 250, pending_balance = 0\<rparr>"
  by (simp add: demo_funded_eq)

theorem wallet_always_reconciles_witness:
  "reconcile_wallet 0 demo_funded =
     Inr \<lparr>rr_stored = 250, rr_computed = 250, rr_drift = 0, rr_ok = True\<rparr>
   \<and> audit_ok (wallet_txs demo_funded)"
  using wallet_always_reconciles[OF demo_funded_reachable demo_funded_wallet] by simp

text \<open>
  A completed \<open>transfer_to_account\<close> moves exactly the amount: the wallet is
  debited and never overdrawn, balance and equity of the account grow by it, the
  peak balance becomes the maximum, the transfer row is COMPLETED, one row is
  added to the account's ledger, and no other wallet, account or transfer
  changes.
\<close>

theorem transfer_to_account_moves:
  assumes inv: "wallet_inv s" and amt: "cents amount"
    and acc: "accounts s acc = Some a" "cents (balance a)"
    and ok: "transfer_to_account now w acc amount s = (Inr k, s')"
  shows "\<exists>row e. wallets s w = Some row \<and> 0 < amount \<and> amount \<le> available_balance row
     \<and> wallets s' = (wallets s)(w \<mapsto> row\<lparr>available_balance := available_balance row - amount\<rparr>)
     \<and> accounts s' = (accounts s)(acc \<mapsto> a\<lparr>balance := balance a + amount,
          equity := balance a + amount, peak_balance := max (peak_balance a) (balance a + amount)\<rparr>)
     \<and> transfers s' = (transfers s)(k \<mapsto> \<lparr>it_wallet = w, it_account = acc,
          it_direction = DIR_TO_ACCOUNT, it_amount = amount, it_status = ST_COMPLETED,
          it_failure = None, it_completed_at = Some now\<rparr>)
     \<and> ledger s' = ledger s @ [e] \<and> le_account e = acc \<and> le_amount e = amount"
proof -
  obtain s1 where cr: "create_transfer w acc DIR_TO_ACCOUNT amount s = Inr (k, s1)"
    and at: "to_account_atomic now w acc k amount s1 = Inr s'"
    using ok by (auto simp: transfer_to_account_def split: if_splits sum.splits)
  note c = create_transfer_Inr[OF cr]
  have t: "transfers s1 k = Some \<lparr>it_wallet = w, it_account = acc, it_direction = DIR_TO_ACCOUNT,
      it_amount = col2 amount, it_status = ST_PENDING, it_failure = None, it_completed_at = None\<rparr>"
    using c(10) by simp
  show ?thesis
  proof (rule to_account_atomic_Inr[OF at t])
    fix a' row
    assume e: "accounts s1 acc = Some a'" "wallets s1 w = Some row" "0 < amount"
      "amount \<le> available_balance row"
      "wallets s' = (wallets s1)(w \<mapsto> row\<lparr>available_balance := col2 (available_balance row - amount)\<rparr>)"
      "accounts s' = (accounts s1)(acc \<mapsto> a'\<lparr>balance := col2 (balance a' + amount),
         equity := col2 (balance a' + amount),
         peak_balance := (if peak_balance a' < balance a' + amount then col2 (balance a' + amount)
                          else peak_balance a')\<rparr>)"
      "transfers s' = (transfers s1)(k \<mapsto> \<lparr>it_wallet = w, it_account = acc,
         it_direction = DIR_TO_ACCOUNT, it_amount = col2 amount, it_status = ST_PENDING,
         it_failure = None, it_completed_at = None\<rparr>
         \<lparr>it_status := ST_COMPLETED, it_completed_at := Some now\<rparr>)"
      "\<exists>e. ledger s' = ledger s1 @ [e] \<and> le_account e = acc \<and> le_amount e = col2 amount"
    have w: "wallets s w = Some row" "a' = a" using e(1,2) c acc(1) by auto
    have "col2 (available_balance row - amount) = available_balance row - amount"
      and "col2 (balance a + amount) = balance a + amount"
      using wallet_invD(2)[OF inv w(1)] amt acc(2) by auto
    with e w c amt show ?thesis by (auto simp: max_def)
  qed
qed

theorem transfer_to_account_moves_witness:
  "\<exists>k s' row e. transfer_to_account 5 0 7 100 demo_funded = (Inr k, s')
     \<and> wallets demo_funded 0 = Some row
     \<and> wallets s' = (wallets demo_funded)(0 \<mapsto> row\<lparr>available_balance := available_balance row - 100\<rparr>)
     \<and> ledger s' = ledger demo_funded @ [e] \<and> le_amount e = 100"
proof -
  obtain k s' where r: "transfer_to_account 5 0 7 100 demo_funded = (Inr k, s')"
    using transfer_to_account_succeeds[of demo_funded 7 demo_account 0 _ 100 5] demo_funded_wallet
    by (auto simp: demo_funded_eq)
  have "wallet_inv demo_funded" by (rule wallet_reachable_inv) (rule demo_funded_reachable)
  moreover have "accounts demo_funded 7 = Some demo_account" by (simp add: demo_funded_eq)
  moreover have "cents (balance demo_account)" by (simp add: demo_account_def)
  ultimately show ?thesis
    using transfer_to_account_moves[of demo_funded 100 7 demo_account 5 0 k s'] r by fastforce
qed

text \<open>
  C20. A transfer in either direction that raises leaves every wallet, account and
  both ledgers as they were; the only trace it may leave is one new transfer row,
  and that row is FAILED.
\<close>

theorem failed_transfer_moves_nothing:
  assumes "transfer_to_account now w acc amount s = (Inl e, s') \<or>
           transfer_to_wallet now w acc amount s = (Inl e, s')"
  shows "wallets s' = wallets s \<and> wallet_txs s' = wallet_txs s \<and> accounts s' = accounts s
    \<and> ledger s' = ledger s
    \<and> (transfers s' = transfers s \<or>
       (\<exists>t. transfers s' = (transfers s)(next_transfer s \<mapsto> t)
            \<and> it_status t = ST_FAILED \<and> it_failure t = Some e))"
proof -
  have *: "wallets s' = wallets s \<and> wallet_txs s' = wallet_txs s \<and> accounts s' = accounts s
    \<and> ledger s' = ledger s
    \<and> (\<exists>t. transfers s' = (transfers s)(next_transfer s \<mapsto> t)
            \<and> it_status t = ST_FAILED \<and> it_failure t = Some e)"
    if "create_transfer w acc dir amount s = Inr (k, s1)" "s' = update_transfer k (fail_transfer e) s1"
    for dir k s1
    using create_transfer_Inr[OF that(1)] that(2) by (auto simp: fail_transfer_def)
  from assms show ?thesis
  proof
    assume "transfer_to_account now w acc amount s = (Inl e, s')"
    then show ?thesis
      by (auto simp: transfer_to_account_def split: if_splits sum.splits dest: *)
  next
    assume "transfer_to_wallet now w acc amount s = (Inl e, s')"
    then show ?thesis
      by (auto simp: transfer_to_wallet_def split: if_splits sum.splits option.splits dest: *)
  qed
qed

theorem failed_transfer_moves_nothing_witness:
  "\<exists>e s'. transfer_to_account 5 0 7 1000 demo_funded = (Inl e, s')
     \<and> wallets s' = wallets demo_funded \<and> accounts s' = accounts demo_funded"
proof -
  obtain e s' where r: "transfer_to_account 5 0 7 1000 demo_funded = (Inl e, s')"
    by (simp add: transfer_to_account_def create_transfer_def to_account_atomic_def debit_wallet_def
        update_transfer_def demo_funded_eq Let_def)
  show ?thesis using failed_transfer_moves_nothing[of 5 0 7 1000 demo_funded e s'] r by blast
qed

text \<open>
  Synthetic money cannot leave: for an account whose type is not on the
  withdrawable list (DEMO, CHALLENGE, FUNDED, or any type the code does not
  know) \<open>transfer_to_wallet\<close> raises and leaves no trace at all, and whenever it
  succeeds the type is on the list, the account has no open position, and
  exactly the amount moves from the account's balance to the wallet.
\<close>

theorem transfer_to_wallet_only_real_funds:
  assumes inv: "wallet_inv s" and amt: "cents amount"
    and acc: "accounts s acc = Some a" "cents (balance a)"
  shows "(acc_type a \<notin> {RETAIL, ECN, STANDARD, CRYPTO} \<longrightarrow>
            isl (fst (transfer_to_wallet now w acc amount s))
            \<and> snd (transfer_to_wallet now w acc amount s) = s)
       \<and> (\<forall>k s'. transfer_to_wallet now w acc amount s = (Inr k, s') \<longrightarrow>
            acc_type a \<in> {RETAIL, ECN, STANDARD, CRYPTO} \<and> open_positions acc s = []
            \<and> 0 < amount \<and> amount \<le> balance a
            \<and> (\<exists>row. wallets s w = Some row
                 \<and> wallets s' = (wallets s)(w \<mapsto> row\<lparr>available_balance := available_balance row + amount\<rparr>))
            \<and> accounts s' = (accounts s)(acc \<mapsto> a\<lparr>balance := balance a - amount,
                 equity := balance a - amount\<rparr>))"
proof (intro conjI impI allI)
  assume "acc_type a \<notin> {RETAIL, ECN, STANDARD, CRYPTO}"
  then show "isl (fst (transfer_to_wallet now w acc amount s))"
    and "snd (transfer_to_wallet now w acc amount s) = s"
    using acc(1) by (simp_all add: transfer_to_wallet_def WITHDRAWABLE_ACCOUNT_TYPES_def)
next
  fix k s' assume ok: "transfer_to_wallet now w acc amount s = (Inr k, s')"
  then obtain s1 where cr: "create_transfer w acc DIR_TO_WALLET amount s = Inr (k, s1)"
    and at: "to_wallet_atomic now w acc k amount s1 = Inr s'"
    and ty: "acc_type a \<in> {RETAIL, ECN, STANDARD, CRYPTO}"
    using acc(1)
    by (auto simp: transfer_to_wallet_def WITHDRAWABLE_ACCOUNT_TYPES_def split: if_splits sum.splits)
  note c = create_transfer_Inr[OF cr]
  from ty show "acc_type a \<in> {RETAIL, ECN, STANDARD, CRYPTO}" .
  obtain a' row where e: "accounts s1 acc = Some a'" "wallets s1 w = Some row" "0 < amount"
      "amount \<le> balance a'" "open_positions acc s1 = []"
      "wallets s' = (wallets s1)(w \<mapsto> row\<lparr>available_balance := col2 (available_balance row + amount)\<rparr>)"
      "accounts s' = (accounts s1)(acc \<mapsto> a'\<lparr>balance := col2 (balance a' - amount),
         equity := col2 (balance a' - amount)\<rparr>)"
    using to_wallet_atomic_Inr[OF at, of "the (transfers s1 k)"] c(10) by (metis fun_upd_same option.sel)
  have w: "wallets s w = Some row" "a' = a" using e(1,2) c acc(1) by auto
  have cc: "col2 (available_balance row + amount) = available_balance row + amount"
    "col2 (balance a - amount) = balance a - amount"
    using wallet_invD(2)[OF inv w(1)] amt acc(2) by auto
  show "open_positions acc s = []" "0 < amount" "amount \<le> balance a"
    using e(3-5) c w by auto
  show "\<exists>row. wallets s w = Some row
      \<and> wallets s' = (wallets s)(w \<mapsto> row\<lparr>available_balance := available_balance row + amount\<rparr>)"
    using e(6) c w cc by auto
  show "accounts s' = (accounts s)(acc \<mapsto> a\<lparr>balance := balance a - amount, equity := balance a - amount\<rparr>)"
    using e(7) c w cc by auto
qed

theorem transfer_to_wallet_only_real_funds_witness:
  "isOk (fst (transfer_to_wallet 5 0 7 60 demo_funded))
   \<and> acc_type demo_account \<in> {RETAIL, ECN, STANDARD, CRYPTO}
   \<and> accounts (snd (transfer_to_wallet 5 0 7 60 demo_funded)) 7
       = Some (demo_account\<lparr>balance := 40, equity := 40\<rparr>)"
proof -
  have inv: "wallet_inv demo_funded" by (rule wallet_reachable_inv) (rule demo_funded_reachable)
  have acc: "accounts demo_funded 7 = Some demo_account" by (simp add: demo_funded_eq)
  have bal: "cents (balance demo_account)" by (simp add: demo_account_def)
  obtain k s' where r: "transfer_to_wallet 5 0 7 60 demo_funded = (Inr k, s')"
    using transfer_to_wallet_succeeds[of demo_funded 7 demo_account 0 _ 60 5] demo_funded_wallet
    by (auto simp: demo_funded_eq demo_account_def WITHDRAWABLE_ACCOUNT_TYPES_def
        open_positions_def rows_where_def)
  show ?thesis
    using transfer_to_wallet_only_real_funds[OF inv _ acc bal, of 60 5 0] r
    by (auto simp: demo_account_def)
qed

end
