(* ===== verification/Calendar.thy ===== *)
theory Calendar
  imports Prelude
begin

section \<open>UTC dates (\<open>datetime\<close>)\<close>

text \<open>
  A timestamp is a number of microseconds since 1970-01-01T00:00Z. A date is a
  number of days since then; 1970-01-01 was a Thursday (\<open>weekday() = 3\<close>, Monday is
  0). \<open>ymd\<close> is the year, month and day of a date in the proleptic Gregorian
  calendar, computed as the standard library does from the day's ordinal (1 for
  0001-01-01).
\<close>

definition day_us :: int where "day_us = 86400000000"
definition hour_us :: int where "hour_us = 3600000000"
definition second_us :: int where "second_us = 1000000"

definition date_of :: "int \<Rightarrow> int" where "date_of t = t div day_us"
definition midnight :: "int \<Rightarrow> int" where "midnight d = d * day_us"
definition weekday :: "int \<Rightarrow> int" where "weekday d = (d + 3) mod 7"

definition days_before_month :: "int list" where
  "days_before_month = [0, 0, 31, 59, 90, 120, 151, 181, 212, 243, 273, 304, 334]"

definition days_in_month :: "int list" where
  "days_in_month = [0, 31, 28, 31, 30, 31, 30, 31, 31, 30, 31, 30, 31]"

definition month_day :: "bool \<Rightarrow> int \<Rightarrow> int \<times> int" where
  "month_day leap n =
     (let month = (n + 50) div 32;
          before = (\<lambda>m. days_before_month ! nat m + (if 2 < m \<and> leap then 1 else 0));
          len = (\<lambda>m. days_in_month ! nat m + (if m = 2 \<and> leap then 1 else 0))
      in if n < before month
         then (month - 1, n - (before month - len (month - 1)) + 1)
         else (month, n - before month + 1))"

definition ymd :: "int \<Rightarrow> int \<times> int \<times> int" where
  "ymd d =
     (let n = d + 719162;
          n400 = n div 146097; r = n mod 146097;
          n100 = r div 36524; r100 = r mod 36524;
          n4 = r100 div 1461; r4 = r100 mod 1461;
          n1 = r4 div 365; r1 = r4 mod 365;
          year = n400 * 400 + n100 * 100 + n4 * 4 + n1 + 1
      in if n1 = 4 \<or> n100 = 4 then (year - 1, 12, 31)
         else let leap = (n1 = 3 \<and> (n4 \<noteq> 24 \<or> n100 = 3))
              in (year, month_day leap r1))"

definition day_of_month :: "int \<Rightarrow> int" where "day_of_month d = snd (snd (ymd d))"

definition first_of_month :: "int \<Rightarrow> int" where
  "first_of_month d = d - (day_of_month d - 1)"

lemma midnight_date_of: "midnight (date_of t) \<le> t" "t < midnight (date_of t) + day_us"
  using div_mult_mod_eq[of t day_us] pos_mod_bound[of day_us t] pos_mod_sign[of day_us t]
  by (simp_all add: midnight_def date_of_def day_us_def)

lemma weekday_bounds [simp]: "0 \<le> weekday d" "weekday d < 7"
  by (simp_all add: weekday_def)

lemma weekday_monday: "weekday (d - weekday d) = 0"
  unfolding weekday_def by presburger

lemma month_day_day:
  assumes "0 \<le> n" "n < 365 \<or> leap \<and> n = 365"
  shows "1 \<le> snd (month_day leap n) \<and> snd (month_day leap n) \<le> 31"
proof -
  define m where "m = (n + 50) div 32"
  have n: "32 * m \<le> n + 50" "n + 50 < 32 * m + 32" by (simp_all add: m_def)
  with assms have "1 \<le> m" "m \<le> 12" by linarith+
  then have "m \<in> {1, 2, 3, 4, 5, 6, 7, 8, 9, 10, 11, 12}" unfolding insert_iff empty_iff by presburger
  then show ?thesis
    using n assms unfolding month_day_def Let_def m_def[symmetric]
    by (elim insertE emptyE) (simp_all add: days_before_month_def days_in_month_def, auto)
qed

lemma day_of_month_bounds: "1 \<le> day_of_month d \<and> day_of_month d \<le> 31"
proof -
  define r4 where "r4 = (d + 719162) mod 146097 mod 36524 mod 1461"
  have r: "0 \<le> r4 mod 365" "r4 mod 365 < 365" by simp_all
  show ?thesis
    using month_day_day[OF r(1), of "r4 div 365 = 3 \<and> _"] r(2)
    unfolding day_of_month_def ymd_def Let_def r4_def[symmetric] by auto
qed

lemma first_of_month_le: "first_of_month d \<le> d"
  using day_of_month_bounds[of d] by (simp add: first_of_month_def)

end
