(* ===== verification/BrokerBook.thy ===== *)
theory BrokerBook
  imports WalletLedger Calendar
begin

section \<open>The broker's ledger and its writers (\<open>broker_ledger.py\<close>, \<open>*_economics.py\<close>, \<open>broker_pnl.py\<close>)\<close>

text \<open>
  \<open>BrokerLedger\<close> is additive: rows are never changed or deleted, so the table is a
  list and the key of a row is its position. Its five unique constraints make a
  revenue type occur at most once per source row. Each writer turns a violation
  of the constraint into its own \<open>Duplicate...\<close> exception. \<open>broker_pnl.py\<close> is the
  aggregation of the table into a profit-and-loss breakdown. The audit events a
  writer also emits (fail-open, another table) are left out.
\<close>

subsection \<open>Rows\<close>

datatype revenue_type =
  REV_COMMISSION | REV_SPREAD | REV_CHALLENGE_FEE | REV_WITHDRAW_FEE | REV_ADJUSTMENT
| REV_COUNTERPARTY_PNL | REV_FUNDED_PROFIT_SHARE | REV_PROVIDER_COST

record broker_entry =
  bl_type :: revenue_type
  bl_amount :: rat
  bl_account :: "pk option"
  bl_trade :: "pk option"
  bl_enrollment :: "pk option"
  bl_withdrawal :: "pk option"
  bl_funded :: "pk option"
  bl_cost :: "pk option"
  bl_symbol :: "string option"
  bl_economic_date :: "int option"
  bl_created_at :: int

record trade =
  tr_account :: pk
  tr_symbol :: string
  tr_side :: side
  tr_lots :: rat
  tr_entry :: rat
  tr_exit :: "rat option"
  tr_sl :: "rat option"
  tr_tp :: "rat option"
  tr_pnl :: "rat option"
  tr_opened_at :: int
  tr_closed_at :: "int option"

datatype cost_quality = QUALITY_ACTUAL | QUALITY_ESTIMATED | QUALITY_UNKNOWN

record cost_record =
  pc_amount :: rat
  pc_currency :: string
  pc_usd_value :: "rat option"
  pc_quality :: cost_quality
  pc_is_final :: bool
  pc_occurred_at :: int
  pc_corrects :: "pk option"

record economic_adjustment =
  ea_reference :: string
  ea_amount :: rat
  ea_reason :: string
  ea_actor :: pk
  ea_key :: string
  ea_source_ledger :: "pk option"
  ea_source_account :: "pk option"
  ea_symbol :: "string option"
  ea_reverses :: "pk option"
  ea_entry :: pk

record books_db = wallet_db +
  broker_ledger :: "broker_entry list"
  trades :: "trade table"
  next_trade :: pk
  adjustments :: "economic_adjustment list"

datatype revenue_error =
  DuplicateChallengeRevenue pk
| DuplicateWithdrawalFeeRevenue pk
| DuplicateFundedProfitShareRevenue pk
| DuplicateProviderCostRevenue pk
| InvalidEconomicAdjustment string
| RevenueValueError string
| RevenueIntegrityError string

subsection \<open>The table\<close>

definition blank_entry :: "revenue_type \<Rightarrow> rat \<Rightarrow> int \<Rightarrow> broker_entry" where
  "blank_entry ty amount now =
     \<lparr>bl_type = ty, bl_amount = amount, bl_account = None, bl_trade = None, bl_enrollment = None,
      bl_withdrawal = None, bl_funded = None, bl_cost = None, bl_symbol = None,
      bl_economic_date = Some (date_of now), bl_created_at = now\<rparr>"

definition same_source :: "pk option \<Rightarrow> pk option \<Rightarrow> bool" where
  "same_source a b = (a \<noteq> None \<and> a = b)"

definition bl_conflict :: "broker_entry \<Rightarrow> broker_entry \<Rightarrow> bool" where
  "bl_conflict a b \<longleftrightarrow> bl_type a = bl_type b \<and>
     (same_source (bl_trade a) (bl_trade b) \<or> same_source (bl_enrollment a) (bl_enrollment b)
      \<or> same_source (bl_withdrawal a) (bl_withdrawal b) \<or> same_source (bl_funded a) (bl_funded b)
      \<or> same_source (bl_cost a) (bl_cost b))"

definition create_entry ::
  "broker_entry \<Rightarrow> 'a books_db_scheme \<Rightarrow> revenue_error + (broker_entry \<times> 'a books_db_scheme)" where
  "create_entry e s =
     (if \<exists>r \<in> set (broker_ledger s). bl_conflict r e
      then Inl (RevenueIntegrityError ''BrokerLedger'')
      else let e' = e\<lparr>bl_amount := col2 (bl_amount e)\<rparr>
           in Inr (e', s\<lparr>broker_ledger := broker_ledger s @ [e']\<rparr>))"

text \<open>\<open>except IntegrityError as exc: raise Duplicate... from exc\<close>\<close>

definition as_duplicate :: "revenue_error \<Rightarrow> revenue_error + 'a \<Rightarrow> revenue_error + 'a" where
  "as_duplicate d r =
     (case r of Inl (RevenueIntegrityError _) \<Rightarrow> Inl d | Inl e \<Rightarrow> Inl e | Inr a \<Rightarrow> Inr a)"

subsection \<open>Challenge fees, provider costs, counterparty results\<close>

record enrollment_ref =
  er_pk :: "pk option"
  er_price :: rat

definition record_challenge_fee_revenue ::
  "int \<Rightarrow> enrollment_ref \<Rightarrow> 'a books_db_scheme \<Rightarrow> revenue_error + (broker_entry option \<times> 'a books_db_scheme)" where
  "record_challenge_fee_revenue now er s =
     (case er_pk er of
        None \<Rightarrow> Inl (RevenueValueError ''enrollment must already be saved'')
      | Some k \<Rightarrow>
          map_sum id (apfst Some)
            (as_duplicate (DuplicateChallengeRevenue k)
              (create_entry ((blank_entry REV_CHALLENGE_FEE (er_price er) now)
                 \<lparr>bl_enrollment := Some k\<rparr>) s)))"

definition posted_cost :: "pk \<Rightarrow> broker_entry list \<Rightarrow> broker_entry option" where
  "posted_cost k es = find (\<lambda>e. bl_cost e = Some k \<and> bl_type e = REV_PROVIDER_COST) (rev es)"

text \<open>The amount to post for a bookable record, or nothing.\<close>

definition cost_to_post :: "rat \<Rightarrow> pk option \<Rightarrow> broker_entry list \<Rightarrow> rat option" where
  "cost_to_post signed corrects es =
     (case corrects of
        None \<Rightarrow> if signed = 0 then None else Some signed
      | Some j \<Rightarrow>
          (case posted_cost j es of
             Some orig \<Rightarrow> if signed - bl_amount orig = 0 then None else Some (signed - bl_amount orig)
           | None \<Rightarrow> if signed = 0 then None else Some signed))"

definition record_provider_cost_revenue ::
  "int \<Rightarrow> pk option \<times> cost_record \<Rightarrow> 'a books_db_scheme \<Rightarrow> revenue_error + (broker_entry option \<times> 'a books_db_scheme)" where
  "record_provider_cost_revenue now kr s =
     (case fst kr of
        None \<Rightarrow> Inl (RevenueValueError ''ProviderCostRecord must already be saved'')
      | Some k \<Rightarrow>
          if pc_quality (snd kr) \<noteq> QUALITY_ACTUAL then Inr (None, s)
          else if \<not> pc_is_final (snd kr) then Inr (None, s)
          else case pc_usd_value (snd kr) of
            None \<Rightarrow> Inr (None, s)
          | Some usd \<Rightarrow>
              (case cost_to_post (- usd) (pc_corrects (snd kr)) (broker_ledger s) of
                 None \<Rightarrow> Inr (None, s)
               | Some amount \<Rightarrow>
                   map_sum id (apfst Some)
                     (as_duplicate (DuplicateProviderCostRevenue k)
                       (create_entry ((blank_entry REV_PROVIDER_COST amount now)
                          \<lparr>bl_cost := Some k\<rparr>) s))))"

definition counterparty_rows :: "pk \<Rightarrow> broker_entry list \<Rightarrow> broker_entry list" where
  "counterparty_rows t es = filter (\<lambda>e. bl_trade e = Some t \<and> bl_type e = REV_COUNTERPARTY_PNL) es"

text \<open>\<open>get_or_create\<close>: the row that is there, or a new one; the flag says which.\<close>

definition create_broker_counterparty_entry ::
  "int \<Rightarrow> pk \<times> trade \<Rightarrow> pk \<Rightarrow> rat \<Rightarrow> 'a books_db_scheme
     \<Rightarrow> revenue_error + ((broker_entry \<times> bool) \<times> 'a books_db_scheme)" where
  "create_broker_counterparty_entry now kt acc trader_pnl s =
     (let counterparty_pnl = (if trader_pnl = 0 then 0 else - trader_pnl) in
      case counterparty_rows (fst kt) (broker_ledger s) of
        e # _ \<Rightarrow> Inr ((e, False), s)
      | [] \<Rightarrow> map_sum id (apfst (\<lambda>e. (e, True)))
          (create_entry ((blank_entry REV_COUNTERPARTY_PNL counterparty_pnl now)
             \<lparr>bl_trade := Some (fst kt), bl_account := Some acc,
              bl_symbol := Some (tr_symbol (snd kt))\<rparr>) s))"

subsection \<open>Economic adjustments (\<open>broker_economic_adjustment.py\<close>)\<close>

text \<open>\<open>not s or not s.strip()\<close>\<close>

definition blank_text :: "string \<Rightarrow> bool" where
  "blank_text s \<longleftrightarrow> list_all py_space s"

text \<open>The checks on the target of a reversal, under its row lock.\<close>

definition check_reversal :: "rat \<Rightarrow> pk \<Rightarrow> economic_adjustment list \<Rightarrow> revenue_error option" where
  "check_reversal amount j adjs =
     (if length adjs \<le> j then Some (InvalidEconomicAdjustment ''reverses target does not exist'')
      else if ea_reverses (adjs ! j) \<noteq> None
      then Some (InvalidEconomicAdjustment ''cannot reverse a reversal'')
      else if \<exists>a \<in> set adjs. ea_reverses a = Some j
      then Some (InvalidEconomicAdjustment ''already reversed'')
      else if amount \<noteq> - ea_amount (adjs ! j)
      then Some (InvalidEconomicAdjustment ''reversal amount must be exactly the negative'')
      else None)"

definition same_key :: "string \<Rightarrow> economic_adjustment list \<Rightarrow> pk option" where
  "same_key key adjs = find (\<lambda>i. ea_key (adjs ! i) = key) [0..<length adjs]"

definition insert_adjustment ::
  "int \<Rightarrow> string \<Rightarrow> rat \<Rightarrow> string \<Rightarrow> pk \<Rightarrow> string \<Rightarrow> pk option \<Rightarrow> pk option \<Rightarrow> string option
     \<Rightarrow> pk option \<Rightarrow> 'a books_db_scheme \<Rightarrow> revenue_error + (pk \<times> 'a books_db_scheme)" where
  "insert_adjustment now ref amount reason actor key src acc sy reverses s =
     (case create_entry ((blank_entry REV_ADJUSTMENT amount now)
              \<lparr>bl_account := acc, bl_symbol := sy\<rparr>) s of
        Inl e \<Rightarrow> Inl e
      | Inr (entry, s1) \<Rightarrow>
          if col2 amount = 0 \<or> ref \<in> ea_reference ` set (adjustments s)
          then Inl (RevenueIntegrityError ''BrokerEconomicAdjustment'')
          else Inr (length (adjustments s),
            s1\<lparr>adjustments := adjustments s @
              [\<lparr>ea_reference = ref, ea_amount = col2 amount, ea_reason = reason, ea_actor = actor,
                ea_key = key, ea_source_ledger = src, ea_source_account = acc, ea_symbol = sy,
                ea_reverses = reverses, ea_entry = length (broker_ledger s)\<rparr>]\<rparr>))"

text \<open>
  \<open>amount\<close> is the parsed decimal, \<open>None\<close> when it does not parse; \<open>actor\<close> is the
  key of the acting user, if any; \<open>ref\<close> is the fresh random reference.
\<close>

definition create_broker_economic_adjustment ::
  "int \<Rightarrow> string \<Rightarrow> rat option \<Rightarrow> string \<Rightarrow> pk option \<Rightarrow> string \<Rightarrow> pk option \<Rightarrow> pk option
     \<Rightarrow> string option \<Rightarrow> pk option \<Rightarrow> 'a books_db_scheme
     \<Rightarrow> revenue_error + (pk \<times> 'a books_db_scheme)" where
  "create_broker_economic_adjustment now ref amount_arg reason actor_arg key src acc sy reverses s =
     (case amount_arg of
        None \<Rightarrow> Inl (InvalidEconomicAdjustment ''amount must be a valid decimal value'')
      | Some amount \<Rightarrow>
        if amount = 0 then Inl (InvalidEconomicAdjustment ''amount must not be zero'')
        else if blank_text reason then Inl (InvalidEconomicAdjustment ''reason is required'')
        else case actor_arg of
          None \<Rightarrow> Inl (InvalidEconomicAdjustment ''actor must be a persisted user'')
        | Some actor \<Rightarrow>
          if blank_text key then Inl (InvalidEconomicAdjustment ''idempotency_key is required'')
          else case same_key key (adjustments s) of
            Some i \<Rightarrow> Inr (i, s)
          | None \<Rightarrow>
              if (case src of None \<Rightarrow> False | Some l \<Rightarrow> length (broker_ledger s) \<le> l)
              then Inl (InvalidEconomicAdjustment ''source_ledger does not exist'')
              else
                (case (case reverses of None \<Rightarrow> None
                       | Some j \<Rightarrow> check_reversal amount j (adjustments s)) of
                   Some e \<Rightarrow> Inl e
                 | None \<Rightarrow> insert_adjustment now ref amount reason actor key src acc sy reverses s))"

subsection \<open>Profit and loss (\<open>broker_pnl.py\<close>)\<close>

datatype period =
  PERIOD_TODAY | PERIOD_LAST_24H | PERIOD_WEEK | PERIOD_MONTH | PERIOD_LIFETIME | PERIOD_CUSTOM

definition utc_period_window ::
  "period \<Rightarrow> int \<Rightarrow> int option \<Rightarrow> int option \<Rightarrow> int option \<times> int option" where
  "utc_period_window p now start end_t =
     (case p of
        PERIOD_CUSTOM \<Rightarrow> (start, end_t)
      | PERIOD_LIFETIME \<Rightarrow> (None, None)
      | PERIOD_LAST_24H \<Rightarrow> (Some (now - 24 * hour_us), None)
      | PERIOD_TODAY \<Rightarrow> (Some (midnight (date_of now)), None)
      | PERIOD_WEEK \<Rightarrow> (Some (midnight (date_of now - weekday (date_of now))), None)
      | PERIOD_MONTH \<Rightarrow> (Some (midnight (first_of_month (date_of now))), None))"

definition in_window :: "int option \<times> int option \<Rightarrow> int \<Rightarrow> bool" where
  "in_window w t \<longleftrightarrow>
     (case fst w of None \<Rightarrow> True | Some a \<Rightarrow> a \<le> t) \<and> (case snd w of None \<Rightarrow> True | Some b \<Rightarrow> t \<le> b)"

definition matches :: "'v option \<Rightarrow> 'v \<Rightarrow> bool" where
  "matches flt v \<longleftrightarrow> (case flt of None \<Rightarrow> True | Some x \<Rightarrow> v = x)"

definition pnl_rows ::
  "int option \<times> int option \<Rightarrow> pk option \<Rightarrow> string option \<Rightarrow> broker_entry list \<Rightarrow> broker_entry list" where
  "pnl_rows w acc sy es =
     filter (\<lambda>e. in_window w (bl_created_at e) \<and> (acc = None \<or> bl_account e = acc)
                 \<and> (sy = None \<or> bl_symbol e = sy)) es"

definition sum_type :: "revenue_type \<Rightarrow> broker_entry list \<Rightarrow> rat" where
  "sum_type ty es = sum_list (map bl_amount (filter (\<lambda>e. bl_type e = ty) es))"

record pnl_breakdown =
  pb_commission :: rat
  pb_spread :: rat
  pb_challenge_fee :: rat
  pb_withdraw_fee :: rat
  pb_funded_profit_share :: rat
  pb_fee_revenue :: rat
  pb_counterparty_pnl :: rat
  pb_adjustments :: rat
  pb_provider_cost :: rat
  pb_broker_net_pnl :: rat
  pb_closed_trade_count :: nat
  pb_counterpart_entry_count :: nat
  pb_missing_counterpart_count :: int
  pb_coverage_pct :: rat
  pb_historical_incomplete :: bool

definition closed_trades ::
  "int option \<times> int option \<Rightarrow> pk option \<Rightarrow> string option \<Rightarrow> 'a books_db_scheme \<Rightarrow> pk list" where
  "closed_trades w acc sy s =
     rows_where (next_trade s) (trades s)
       (\<lambda>t. (case tr_closed_at t of None \<Rightarrow> False | Some c \<Rightarrow> in_window w c)
             \<and> matches acc (tr_account t) \<and> matches sy (tr_symbol t))"

text \<open>Python's \<open>round(x, 2)\<close> on a float.\<close>

definition round2 :: "rat \<Rightarrow> rat" where "round2 x = fl (quantize_he 2 x)"

definition coverage_pct :: "nat \<Rightarrow> nat \<Rightarrow> rat" where
  "coverage_pct part n = (if n = 0 then 100 else round2 (fl (fl (of_nat part / of_nat n) * 100)))"

definition calculate_broker_pnl ::
  "period \<Rightarrow> int \<Rightarrow> int option \<Rightarrow> int option \<Rightarrow> pk option \<Rightarrow> string option \<Rightarrow> 'a books_db_scheme \<Rightarrow> pnl_breakdown" where
  "calculate_broker_pnl p now start end_t acc sy s =
     (let w = utc_period_window p now start end_t;
          rows = pnl_rows w acc sy (broker_ledger s);
          commission = sum_type REV_COMMISSION rows;
          spread = sum_type REV_SPREAD rows;
          challenge_fee = sum_type REV_CHALLENGE_FEE rows;
          withdraw_fee = sum_type REV_WITHDRAW_FEE rows;
          funded = sum_type REV_FUNDED_PROFIT_SHARE rows;
          fee_revenue = commission + spread + challenge_fee + withdraw_fee + funded;
          counterparty = sum_type REV_COUNTERPARTY_PNL rows;
          adjs = sum_type REV_ADJUSTMENT rows;
          closed = closed_trades w acc sy s;
          part = length (filter (\<lambda>t. counterparty_rows t (broker_ledger s) \<noteq> []) closed)
      in \<lparr>pb_commission = commission, pb_spread = spread, pb_challenge_fee = challenge_fee,
          pb_withdraw_fee = withdraw_fee, pb_funded_profit_share = funded,
          pb_fee_revenue = fee_revenue, pb_counterparty_pnl = counterparty,
          pb_adjustments = adjs, pb_provider_cost = sum_type REV_PROVIDER_COST rows,
          pb_broker_net_pnl = fee_revenue + counterparty + adjs,
          pb_closed_trade_count = length closed, pb_counterpart_entry_count = part,
          pb_missing_counterpart_count = int (length closed) - int part,
          pb_coverage_pct = coverage_pct part (length closed),
          pb_historical_incomplete = (0 < int (length closed) - int part)\<rparr>)"

definition broker_pnl_for_trade :: "pk \<Rightarrow> 'a books_db_scheme \<Rightarrow> rat option \<times> bool" where
  "broker_pnl_for_trade t s =
     (case counterparty_rows t (broker_ledger s) of
        [] \<Rightarrow> (None, False)
      | rows \<Rightarrow> (Some (bl_amount (last rows)), True))"

subsection \<open>Facts about the table\<close>

lemma create_entry_Inr:
  assumes "create_entry e s = Inr (e', s')"
  shows "broker_ledger s' = broker_ledger s @ [e']" and "e' = e\<lparr>bl_amount := col2 (bl_amount e)\<rparr>"
    and "\<forall>r \<in> set (broker_ledger s). \<not> bl_conflict r e"
    and "adjustments s' = adjustments s" and "trades s' = trades s" and "next_trade s' = next_trade s"
    and "wallets s' = wallets s" and "wallet_txs s' = wallet_txs s" and "next_wallet s' = next_wallet s"
    and "accounts s' = accounts s" and "ledger s' = ledger s"
  using assms by (auto simp: create_entry_def Let_def split: if_splits)

lemma as_duplicate_Inr [simp]: "as_duplicate d r = Inr x \<longleftrightarrow> r = Inr x"
  by (auto simp: as_duplicate_def split: sum.splits revenue_error.splits)

lemma map_sum_apfst_Inr:
  "map_sum id (apfst f) r = Inr (y, s') \<longleftrightarrow> (\<exists>x. r = Inr (x, s') \<and> y = f x)"
  by (cases r) auto

lemma blank_entry_simps [simp]:
  "bl_type (blank_entry ty a now) = ty" "bl_amount (blank_entry ty a now) = a"
  "bl_account (blank_entry ty a now) = None" "bl_trade (blank_entry ty a now) = None"
  "bl_enrollment (blank_entry ty a now) = None" "bl_withdrawal (blank_entry ty a now) = None"
  "bl_funded (blank_entry ty a now) = None" "bl_cost (blank_entry ty a now) = None"
  "bl_economic_date (blank_entry ty a now) = Some (date_of now)"
  by (simp_all add: blank_entry_def)

text \<open>What the unique constraints of the table say: no two rows conflict.\<close>

definition book_unique :: "broker_entry list \<Rightarrow> bool" where
  "book_unique es \<longleftrightarrow> sorted_wrt (\<lambda>a b. \<not> bl_conflict a b) es"

lemma book_unique_snoc:
  "book_unique (es @ [e]) \<longleftrightarrow> book_unique es \<and> (\<forall>r \<in> set es. \<not> bl_conflict r e)"
  by (simp add: book_unique_def sorted_wrt_append)

lemma bl_conflict_col2 [simp]: "bl_conflict r (e\<lparr>bl_amount := a\<rparr>) = bl_conflict r e"
  by (simp add: bl_conflict_def)

lemma create_entry_unique:
  "create_entry e s = Inr (e', s') \<Longrightarrow> book_unique (broker_ledger s) \<Longrightarrow> book_unique (broker_ledger s')"
  using create_entry_Inr[of e s e' s'] by (simp add: book_unique_snoc)

text \<open>A new row of a source whose rows all conflict is the first of that source.\<close>

lemma create_entry_first:
  assumes "create_entry e0 s = Inr (e, s')" and "\<And>x. M x \<Longrightarrow> bl_conflict x e0"
  shows "broker_ledger s' = broker_ledger s @ [e] \<and> e = e0\<lparr>bl_amount := col2 (bl_amount e0)\<rparr>
    \<and> (\<forall>x \<in> set (broker_ledger s). \<not> M x)"
  using create_entry_Inr(1-3)[OF assms(1)] assms(2) by blast

lemma conflict_free_count:
  assumes "book_unique es" and "\<And>a b. P a \<Longrightarrow> P b \<Longrightarrow> bl_conflict a b"
  shows "length (filter P es) \<le> 1"
  using assms(1)
proof (induction es rule: rev_induct)
  case (snoc e es)
  show ?case
  proof (cases "P e")
    case True
    with snoc.prems assms(2) have "filter P es = []"
      by (auto simp: book_unique_snoc filter_empty_conv)
    with True show ?thesis by simp
  qed (use snoc in \<open>simp add: book_unique_snoc\<close>)
qed simp

subsection \<open>The interface of a revenue writer\<close>

text \<open>
  A writer books a row for a source at most once: when it writes, there was no
  row of that source before, and when it does not write, nothing changes.
  \<open>key\<close> reads the source off the writer's argument and \<open>mine k\<close> recognises the rows
  of source \<open>k\<close>. A replay is a list of calls whose exceptions are swallowed, as the
  callers do.
\<close>

locale revenue_writer =
  fixes put :: "'r \<Rightarrow> 's \<Rightarrow> 'e + (broker_entry option \<times> 's)"
    and book :: "'s \<Rightarrow> broker_entry list"
    and key :: "'r \<Rightarrow> pk option"
    and mine :: "pk option \<Rightarrow> broker_entry \<Rightarrow> bool"
  assumes wrote: "put r s = Inr (Some e, s') \<Longrightarrow>
      book s' = book s @ [e] \<and> mine (key r) e \<and> (\<forall>x \<in> set (book s). \<not> mine (key r) x)"
    and skipped: "put r s = Inr (None, s') \<Longrightarrow> s' = s"
    and apart: "mine j e \<Longrightarrow> mine k e \<Longrightarrow> j = k"
begin

definition replay1 :: "'r \<Rightarrow> 's \<Rightarrow> 's" where
  "replay1 r s = (case put r s of Inl _ \<Rightarrow> s | Inr (_, s') \<Rightarrow> s')"

primrec replay :: "'r list \<Rightarrow> 's \<Rightarrow> 's" where
  "replay [] s = s"
| "replay (r # rs) s = replay rs (replay1 r s)"

lemma replay1_cases:
  obtains "replay1 r s = s"
  | e where "put r s = Inr (Some e, replay1 r s)" "book (replay1 r s) = book s @ [e]"
      "mine (key r) e" "\<forall>x \<in> set (book s). \<not> mine (key r) x"
proof (cases "put r s")
  case (Inr a)
  then obtain o' s' where w: "put r s = Inr (o', s')" by (cases a) auto
  show thesis
  proof (cases o')
    case None
    with w skipped[of r s s'] that(1) show thesis by (simp add: replay1_def)
  next
    case (Some e)
    with w wrote[of r s e s'] that(2)[of e] show thesis by (simp add: replay1_def)
  qed
qed (use that(1) in \<open>simp add: replay1_def\<close>)

lemma replay1_count:
  "length (filter (mine k) (book s)) \<le> 1 \<Longrightarrow> length (filter (mine k) (book (replay1 r s))) \<le> 1"
proof (cases r s rule: replay1_cases)
  case (2 e)
  assume le: "length (filter (mine k) (book s)) \<le> 1"
  show ?thesis
  proof (cases "mine k e")
    case True
    from True 2(3) have "k = key r" by (rule apart)
    with 2 True show ?thesis by (simp add: filter_empty_conv)
  qed (use 2 le in simp)
qed simp

lemma replay_count:
  "length (filter (mine k) (book s)) \<le> 1 \<Longrightarrow> length (filter (mine k) (book (replay rs s))) \<le> 1"
proof (induction rs arbitrary: s)
  case (Cons r rs)
  show ?case using Cons.IH[OF replay1_count[OF Cons.prems]] by simp
qed simp

lemma replay_keeps: "\<exists>es. book (replay rs s) = book s @ es"
proof (induction rs arbitrary: s)
  case (Cons r rs)
  show ?case using Cons[of "replay1 r s"] by (cases r s rule: replay1_cases) auto
qed simp

end

definition fee_row :: "pk option \<Rightarrow> broker_entry \<Rightarrow> bool" where
  "fee_row k e \<longleftrightarrow> k \<noteq> None \<and> bl_type e = REV_CHALLENGE_FEE \<and> bl_enrollment e = k"

definition cost_row :: "pk option \<Rightarrow> broker_entry \<Rightarrow> bool" where
  "cost_row k e \<longleftrightarrow> k \<noteq> None \<and> bl_type e = REV_PROVIDER_COST \<and> bl_cost e = k"

lemma challenge_fee_writes:
  "record_challenge_fee_revenue now er s = Inr (o', s') \<Longrightarrow>
     \<exists>k e. er_pk er = Some k \<and> o' = Some e \<and>
       create_entry ((blank_entry REV_CHALLENGE_FEE (er_price er) now)\<lparr>bl_enrollment := Some k\<rparr>) s
         = Inr (e, s')"
  by (auto simp: record_challenge_fee_revenue_def map_sum_apfst_Inr split: option.splits)

lemma provider_cost_writes:
  "record_provider_cost_revenue now kr s = Inr (o', s') \<Longrightarrow>
     o' = None \<and> s' = s \<or>
     (\<exists>k a e. fst kr = Some k \<and> o' = Some e \<and>
       create_entry ((blank_entry REV_PROVIDER_COST a now)\<lparr>bl_cost := Some k\<rparr>) s = Inr (e, s'))"
  by (auto simp: record_provider_cost_revenue_def map_sum_apfst_Inr split: option.splits if_splits)

interpretation challenge_writer: revenue_writer
  "record_challenge_fee_revenue now" broker_ledger er_pk fee_row for now
proof (unfold_locales, goal_cases)
  case (1 r s e s')
  obtain k where k: "er_pk r = Some k" and c: "create_entry ((blank_entry REV_CHALLENGE_FEE
      (er_price r) now)\<lparr>bl_enrollment := Some k\<rparr>) s = Inr (e, s')"
    using challenge_fee_writes[OF 1] by auto
  show ?case
    using create_entry_first[OF c, of "fee_row (er_pk r)"] k
    by (auto simp: fee_row_def bl_conflict_def same_source_def)
next
  case (2 r s s')
  then show ?case using challenge_fee_writes[OF 2] by simp
qed (simp add: fee_row_def)

interpretation cost_writer: revenue_writer
  "record_provider_cost_revenue now" broker_ledger fst cost_row for now
proof (unfold_locales, goal_cases)
  case (1 r s e s')
  obtain k a where k: "fst r = Some k" and c: "create_entry ((blank_entry REV_PROVIDER_COST
      a now)\<lparr>bl_cost := Some k\<rparr>) s = Inr (e, s')"
    using provider_cost_writes[OF 1] by auto
  show ?case
    using create_entry_first[OF c, of "cost_row (fst r)"] k
    by (auto simp: cost_row_def bl_conflict_def same_source_def)
next
  case (2 r s s')
  then show ?case using provider_cost_writes[OF 2] by simp
qed (simp add: cost_row_def)

subsection \<open>Adjustments and their reversals\<close>

text \<open>
  Every adjustment points at its own ledger row; a reversal points at an earlier
  adjustment that is not itself a reversal, carries exactly the opposite amount,
  and no adjustment is reversed twice; no two adjustments share a key.
\<close>

definition adjustment_ok :: "broker_entry list \<Rightarrow> economic_adjustment list \<Rightarrow> nat \<Rightarrow> bool" where
  "adjustment_ok es adjs i \<longleftrightarrow>
     ea_entry (adjs ! i) < length es
     \<and> bl_type (es ! ea_entry (adjs ! i)) = REV_ADJUSTMENT
     \<and> bl_amount (es ! ea_entry (adjs ! i)) = ea_amount (adjs ! i)
     \<and> (\<forall>j. ea_reverses (adjs ! i) = Some j \<longrightarrow>
          j < i \<and> ea_reverses (adjs ! j) = None \<and> ea_amount (adjs ! i) = - ea_amount (adjs ! j)
          \<and> (\<forall>k < i. ea_reverses (adjs ! k) \<noteq> Some j))"

definition adjustments_inv :: "broker_entry list \<Rightarrow> economic_adjustment list \<Rightarrow> bool" where
  "adjustments_inv es adjs \<longleftrightarrow>
     (\<forall>i < length adjs. adjustment_ok es adjs i \<and> cents (ea_amount (adjs ! i)))
     \<and> distinct (map ea_key adjs)"

lemma adjustment_ok_append:
  assumes "adjustment_ok es adjs i" "i < length adjs"
  shows "adjustment_ok (es @ es') (adjs @ adjs') i"
proof -
  have a: "(adjs @ adjs') ! k = adjs ! k" if "k \<le> i" for k
    using that assms(2) by (simp add: nth_append)
  have e: "(es @ es') ! ea_entry (adjs ! i) = es ! ea_entry (adjs ! i)"
    using assms(1) by (simp add: adjustment_ok_def nth_append)
  have "ea_reverses ((adjs @ adjs') ! k) = ea_reverses (adjs ! k)
      \<and> ea_amount ((adjs @ adjs') ! k) = ea_amount (adjs ! k)" if "k < i" for k
    using a[of k] that by simp
  moreover have "ea_entry (adjs ! i) < length (es @ es')"
    using assms(1) by (simp add: adjustment_ok_def)
  ultimately show ?thesis
    using assms(1) unfolding adjustment_ok_def a[OF order_refl] e by metis
qed

lemma adjustments_inv_append:
  "adjustments_inv es adjs \<Longrightarrow> adjustments_inv (es @ es') adjs"
  unfolding adjustments_inv_def using adjustment_ok_append[of es adjs _ es' "[]"] by simp

lemma adjustments_inv_snoc:
  assumes inv: "adjustments_inv es adjs" and e: "bl_type e = REV_ADJUSTMENT" "bl_amount e = ea_amount a"
    and a: "ea_entry a = length es" "cents (ea_amount a)" "ea_key a \<notin> ea_key ` set adjs"
    and rev: "\<And>j. ea_reverses a = Some j \<Longrightarrow> j < length adjs \<and> ea_reverses (adjs ! j) = None
                \<and> ea_amount a = - ea_amount (adjs ! j) \<and> (\<forall>b \<in> set adjs. ea_reverses b \<noteq> Some j)"
  shows "adjustments_inv (es @ [e]) (adjs @ [a])"
proof -
  have new: "adjustment_ok (es @ [e]) (adjs @ [a]) (length adjs)"
    using e a(1) rev by (auto simp: adjustment_ok_def nth_append)
  have old: "adjustment_ok (es @ [e]) (adjs @ [a]) i" if "i < length adjs" for i
    using inv that by (auto simp: adjustments_inv_def intro!: adjustment_ok_append)
  have ct: "cents (ea_amount ((adjs @ [a]) ! i))" if "i < Suc (length adjs)" for i
    using inv that a(2) by (auto simp: adjustments_inv_def nth_append less_Suc_eq)
  show ?thesis
    using inv a(3) new old ct by (auto simp: adjustments_inv_def less_Suc_eq image_iff)
qed

lemma same_key_None: "same_key key adjs = None \<longleftrightarrow> key \<notin> ea_key ` set adjs"
  by (auto simp: same_key_def find_None_iff image_iff in_set_conv_nth) (metis nth_mem)

lemma check_reversal_None:
  "check_reversal amount j adjs = None \<longleftrightarrow>
     j < length adjs \<and> ea_reverses (adjs ! j) = None \<and> (\<forall>a \<in> set adjs. ea_reverses a \<noteq> Some j)
     \<and> amount = - ea_amount (adjs ! j)"
  by (auto simp: check_reversal_def)

text \<open>A successful call either finds the key or inserts a checked row.\<close>

lemma create_adjustment_Inr:
  assumes "create_broker_economic_adjustment now ref (Some amount) reason (Some actor) key src acc sy reverses s
             = Inr (i, s')"
  shows "same_key key (adjustments s) = Some i \<and> s' = s \<or>
    (same_key key (adjustments s) = None \<and> amount \<noteq> 0
     \<and> (\<forall>j. reverses = Some j \<longrightarrow> check_reversal amount j (adjustments s) = None)
     \<and> insert_adjustment now ref amount reason actor key src acc sy reverses s = Inr (i, s'))"
proof (cases reverses)
  case None
  with assms show ?thesis
    by (auto simp: create_broker_economic_adjustment_def split: if_splits option.splits)
next
  case (Some j)
  with assms show ?thesis
    by (cases "check_reversal amount j (adjustments s)")
       (auto simp: create_broker_economic_adjustment_def split: if_splits option.splits)
qed

lemma insert_adjustment_Inr:
  assumes "insert_adjustment now ref amount reason actor key src acc sy reverses s = Inr (i, s')"
  obtains e where
    "create_entry ((blank_entry REV_ADJUSTMENT amount now)\<lparr>bl_account := acc, bl_symbol := sy\<rparr>) s
       = Inr (e, s'\<lparr>adjustments := adjustments s\<rparr>)"
    "broker_ledger s' = broker_ledger s @ [e]" "bl_type e = REV_ADJUSTMENT" "bl_amount e = col2 amount"
    "i = length (adjustments s)"
    "adjustments s' = adjustments s @
       [\<lparr>ea_reference = ref, ea_amount = col2 amount, ea_reason = reason, ea_actor = actor,
         ea_key = key, ea_source_ledger = src, ea_source_account = acc, ea_symbol = sy,
         ea_reverses = reverses, ea_entry = length (broker_ledger s)\<rparr>]"
proof -
  let ?e0 = "(blank_entry REV_ADJUSTMENT amount now)\<lparr>bl_account := acc, bl_symbol := sy\<rparr>"
  obtain e s1 where c: "create_entry ?e0 s = Inr (e, s1)" and i: "i = length (adjustments s)"
    and s': "s' = s1\<lparr>adjustments := adjustments s @
       [\<lparr>ea_reference = ref, ea_amount = col2 amount, ea_reason = reason, ea_actor = actor,
         ea_key = key, ea_source_ledger = src, ea_source_account = acc, ea_symbol = sy,
         ea_reverses = reverses, ea_entry = length (broker_ledger s)\<rparr>]\<rparr>"
    using assms by (auto simp: insert_adjustment_def split: sum.splits if_splits)
  have "s'\<lparr>adjustments := adjustments s\<rparr> = s1"
    using create_entry_Inr(4)[OF c] by (cases s1) (simp add: s')
  then show thesis
    using that[of e] c create_entry_Inr(1,2)[OF c] i by (simp add: s')
qed

definition book_inv :: "'a books_db_scheme \<Rightarrow> bool" where
  "book_inv s \<longleftrightarrow> book_unique (broker_ledger s) \<and> adjustments_inv (broker_ledger s) (adjustments s)"

lemma create_entry_inv [step_keeps]:
  "create_entry e s = Inr (e', s') \<Longrightarrow> book_inv s \<Longrightarrow> book_inv s'"
  using create_entry_unique[of e s e' s'] create_entry_Inr[of e s e' s']
    adjustments_inv_append[of "broker_ledger s" "adjustments s" "[e']"]
  by (simp add: book_inv_def)

lemma create_adjustment_inv [step_keeps]:
  assumes "create_broker_economic_adjustment now ref amt reason actor key src acc sy reverses s = Inr (i, s')"
    and inv: "book_inv s"
  shows "book_inv s'"
proof -
  obtain amount act where args: "amt = Some amount" "actor = Some act"
    using assms(1) by (auto simp: create_broker_economic_adjustment_def split: option.splits if_splits)
  from create_adjustment_Inr[OF assms(1)[unfolded args]] show ?thesis
  proof
    assume "same_key key (adjustments s) = Some i \<and> s' = s"
    with inv show ?thesis by simp
  next
    assume new: "same_key key (adjustments s) = None \<and> amount \<noteq> 0
      \<and> (\<forall>j. reverses = Some j \<longrightarrow> check_reversal amount j (adjustments s) = None)
      \<and> insert_adjustment now ref amount reason act key src acc sy reverses s = Inr (i, s')"
    then obtain e where ce: "create_entry ((blank_entry REV_ADJUSTMENT amount now)
        \<lparr>bl_account := acc, bl_symbol := sy\<rparr>) s = Inr (e, s'\<lparr>adjustments := adjustments s\<rparr>)"
      and e: "broker_ledger s' = broker_ledger s @ [e]" "bl_type e = REV_ADJUSTMENT" "bl_amount e = col2 amount"
      and a: "adjustments s' = adjustments s @
       [\<lparr>ea_reference = ref, ea_amount = col2 amount, ea_reason = reason, ea_actor = act,
         ea_key = key, ea_source_ledger = src, ea_source_account = acc, ea_symbol = sy,
         ea_reverses = reverses, ea_entry = length (broker_ledger s)\<rparr>]"
      by (elim conjE insert_adjustment_Inr)
    have u: "book_unique (broker_ledger s')"
      using create_entry_unique[OF ce] inv by (simp add: book_inv_def)
    have old: "adjustments_inv (broker_ledger s) (adjustments s)" using inv by (simp add: book_inv_def)
    have "col2 amount = amount" if "reverses = Some j" for j
    proof -
      have "j < length (adjustments s)" "amount = - ea_amount (adjustments s ! j)"
        using new that by (auto simp: check_reversal_None)
      moreover have "cents (ea_amount (adjustments s ! j))"
        using old calculation(1) by (simp add: adjustments_inv_def)
      ultimately show ?thesis using cents_minus by simp
    qed
    then have "adjustments_inv (broker_ledger s') (adjustments s')"
      unfolding e(1) a using old e(2,3) new
      by (intro adjustments_inv_snoc) (auto simp: same_key_None check_reversal_None)
    with u show ?thesis by (simp add: book_inv_def)
  qed
qed

subsection \<open>Steps and reachable books\<close>

inductive book_step :: "books_db \<Rightarrow> books_db \<Rightarrow> bool" where
  challenge: "record_challenge_fee_revenue now er s = Inr (o', s') \<Longrightarrow> book_step s s'"
| provider_cost: "record_provider_cost_revenue now kr s = Inr (o', s') \<Longrightarrow> book_step s s'"
| counterparty: "create_broker_counterparty_entry now kt acc pnl s = Inr (o', s') \<Longrightarrow> book_step s s'"
| adjustment: "create_broker_economic_adjustment now ref amt reason actor key src acc sy reverses s
      = Inr (i, s') \<Longrightarrow> book_step s s'"
| other_entry: "create_entry e s = Inr (e', s') \<Longrightarrow> book_step s s'"
| elsewhere: "broker_ledger s' = broker_ledger s \<Longrightarrow> adjustments s' = adjustments s \<Longrightarrow> book_step s s'"

inductive book_reachable :: "books_db \<Rightarrow> bool" where
  book_start: "broker_ledger s = [] \<Longrightarrow> adjustments s = [] \<Longrightarrow> book_reachable s"
| book_step: "book_reachable s \<Longrightarrow> book_step s s' \<Longrightarrow> book_reachable s'"

lemma counterparty_writes:
  "create_broker_counterparty_entry now kt acc pnl s = Inr ((e, c), s') \<Longrightarrow>
     \<not> c \<and> s' = s \<or>
     (\<exists>e0. create_entry e0 s = Inr (e, s'))"
  by (auto simp: create_broker_counterparty_entry_def Let_def map_sum_apfst_Inr split: list.splits)

lemma book_step_inv: "book_step s s' \<Longrightarrow> book_inv s \<Longrightarrow> book_inv s'"
proof (induction rule: book_step.induct)
  case (challenge now er s o' s')
  then show ?case using challenge_fee_writes create_entry_inv by blast
next
  case (provider_cost now kr s o' s')
  then show ?case using provider_cost_writes create_entry_inv by blast
next
  case (counterparty now kt acc pnl s o' s')
  then show ?case using counterparty_writes create_entry_inv by (cases o') blast
next
  case (elsewhere s' s)
  then show ?case by (simp add: book_inv_def)
qed (blast intro: step_keeps)+

lemma book_reachable_inv: "book_reachable s \<Longrightarrow> book_inv s"
proof (induction rule: book_reachable.induct)
  case (book_start s)
  then show ?case by (simp add: book_inv_def book_unique_def adjustments_inv_def)
next
  case (book_step s s')
  then show ?case by (blast intro: book_step_inv)
qed

subsection \<open>Properties\<close>

definition demo_books :: books_db where
  "demo_books = wallet_db.extend (db.extend (db.truncate demo_funded)
       (wallet_db.fields (wallets demo_funded) (user_wallet demo_funded) (next_wallet demo_funded)
          (wallet_txs demo_funded) (transfers demo_funded) (next_transfer demo_funded)))
     \<lparr>broker_ledger = [], trades = [0 \<mapsto> \<lparr>tr_account = 7, tr_symbol = ''EUR/USD'', tr_side = BUY,
        tr_lots = 1, tr_entry = 1, tr_exit = Some 1, tr_sl = None, tr_tp = None, tr_pnl = Some 25,
        tr_opened_at = 0, tr_closed_at = Some 10\<rparr>], next_trade = 1, adjustments = []\<rparr>"

lemma demo_books_empty [simp]: "broker_ledger demo_books = []" "adjustments demo_books = []"
  by (simp_all add: demo_books_def wallet_db.defs db.defs)

lemma demo_books_reachable: "book_reachable demo_books"
  by (rule book_start) simp_all

lemma create_entry_ok:
  "\<forall>r \<in> set (broker_ledger s). \<not> bl_conflict r e \<Longrightarrow>
     create_entry e s = Inr (e\<lparr>bl_amount := col2 (bl_amount e)\<rparr>,
       s\<lparr>broker_ledger := broker_ledger s @ [e\<lparr>bl_amount := col2 (bl_amount e)\<rparr>]\<rparr>)"
  by (simp add: create_entry_def Let_def)



text \<open>
  A reversal neutralises its target exactly: in every reachable state, an
  adjustment that reverses another one posts the opposite amount to the broker's
  ledger, its target is not a reversal itself and is reversed by no other
  adjustment, and nothing reverses the reversal.
\<close>

theorem adjustment_reversal_neutralises:
  assumes "book_reachable s" and "i < length (adjustments s)"
    and "ea_reverses (adjustments s ! i) = Some j"
  shows "j < i \<and> ea_reverses (adjustments s ! j) = None
    \<and> bl_amount (broker_ledger s ! ea_entry (adjustments s ! i))
        + bl_amount (broker_ledger s ! ea_entry (adjustments s ! j)) = 0
    \<and> (\<forall>k < length (adjustments s).
         ea_reverses (adjustments s ! k) \<noteq> Some i
         \<and> (ea_reverses (adjustments s ! k) = Some j \<longrightarrow> k = i))"
proof -
  have ok: "adjustment_ok (broker_ledger s) (adjustments s) k" if "k < length (adjustments s)" for k
    using book_reachable_inv[OF assms(1)] that by (simp add: book_inv_def adjustments_inv_def)
  have j: "j < i" "ea_reverses (adjustments s ! j) = None"
    "ea_amount (adjustments s ! i) = - ea_amount (adjustments s ! j)"
    and first: "\<forall>k < i. ea_reverses (adjustments s ! k) \<noteq> Some j"
    using ok[OF assms(2)] assms(3) unfolding adjustment_ok_def by blast+
  have amt: "bl_amount (broker_ledger s ! ea_entry (adjustments s ! k)) = ea_amount (adjustments s ! k)"
    if "k < length (adjustments s)" for k
    using ok[OF that] unfolding adjustment_ok_def by blast
  have uniq: "k = i" if "k < length (adjustments s)" "ea_reverses (adjustments s ! k) = Some j" for k
  proof (rule linorder_cases[of k i])
    assume "i < k"
    then have "ea_reverses (adjustments s ! i) \<noteq> Some j"
      using ok[OF that(1)] that(2) unfolding adjustment_ok_def by blast
    with assms(3) show ?thesis by simp
  qed (use first that in auto)
  have none: "ea_reverses (adjustments s ! k) \<noteq> Some i" if "k < length (adjustments s)" for k
  proof
    assume "ea_reverses (adjustments s ! k) = Some i"
    then have "ea_reverses (adjustments s ! i) = None"
      using ok[OF that] unfolding adjustment_ok_def by blast
    with assms(3) show False by simp
  qed
  have "bl_amount (broker_ledger s ! ea_entry (adjustments s ! i))
        + bl_amount (broker_ledger s ! ea_entry (adjustments s ! j)) = 0"
    using amt[OF assms(2)] amt[of j] j(1,3) assms(2) by simp
  with j uniq none show ?thesis by blast
qed

text \<open>
  An idempotency key is worth exactly one adjustment: after a call with a key
  has succeeded, every later well-formed call with that key, whatever its amount
  and target, returns the same adjustment and changes nothing.
\<close>

theorem adjustment_key_exactly_once:
  assumes "create_broker_economic_adjustment now ref (Some amount) reason (Some actor) key src acc sy reverses s
             = Inr (i, s')"
    and "amount' \<noteq> 0" "\<not> blank_text reason'"
  shows "create_broker_economic_adjustment now' ref' (Some amount') reason' (Some actor') key src' acc' sy'
             reverses' s' = Inr (i, s')"
proof -
  have key: "\<not> blank_text key"
    using assms(1) by (auto simp: create_broker_economic_adjustment_def split: if_splits)
  have "same_key key (adjustments s') = Some i"
    using create_adjustment_Inr[OF assms(1)]
  proof
    assume new: "same_key key (adjustments s) = None \<and> amount \<noteq> 0
      \<and> (\<forall>j. reverses = Some j \<longrightarrow> check_reversal amount j (adjustments s) = None)
      \<and> insert_adjustment now ref amount reason actor key src acc sy reverses s = Inr (i, s')"
    then obtain a where a: "adjustments s' = adjustments s @ [a]" "ea_key a = key"
      "i = length (adjustments s)"
      by (elim conjE insert_adjustment_Inr) simp
    have "key \<notin> ea_key ` set (adjustments s)" using new same_key_None by blast
    then have "find (\<lambda>n. ea_key ((adjustments s @ [a]) ! n) = key) [0..<length (adjustments s)] = None"
      by (auto simp: find_None_iff nth_append)
    then show ?thesis
      using a by (simp add: same_key_def find_snoc)
  qed auto
  with key assms(2,3) show ?thesis by (simp add: create_broker_economic_adjustment_def)
qed

definition demo_adjusted :: books_db where
  "demo_adjusted = snd (projr (create_broker_economic_adjustment 5 ''R1'' (Some 40) ''fee'' (Some 1) ''k1''
      None None None None demo_books))"

definition demo_reversed :: books_db where
  "demo_reversed = snd (projr (create_broker_economic_adjustment 6 ''R2'' (Some (- 40)) ''undo'' (Some 1) ''k2''
      None None None (Some 0) demo_adjusted))"

lemma demo_adjusted_call:
  "create_broker_economic_adjustment 5 ''R1'' (Some 40) ''fee'' (Some 1) ''k1'' None None None None demo_books
     = Inr (0, demo_adjusted)"
  "broker_ledger demo_adjusted
     = [(blank_entry REV_ADJUSTMENT 40 5)\<lparr>bl_account := None, bl_symbol := None\<rparr>]"
  "adjustments demo_adjusted = [\<lparr>ea_reference = ''R1'', ea_amount = 40, ea_reason = ''fee'', ea_actor = 1,
     ea_key = ''k1'', ea_source_ledger = None, ea_source_account = None, ea_symbol = None,
     ea_reverses = None, ea_entry = 0\<rparr>]"
  by (simp_all add: demo_adjusted_def create_broker_economic_adjustment_def insert_adjustment_def
      same_key_def blank_text_def py_space_def create_entry_ok blank_entry_def)

lemma demo_reversed_call:
  "create_broker_economic_adjustment 6 ''R2'' (Some (- 40)) ''undo'' (Some 1) ''k2'' None None None (Some 0)
     demo_adjusted = Inr (1, demo_reversed)"
  "map ea_reverses (adjustments demo_reversed) = [None, Some 0]"
  by (simp_all add: demo_reversed_def create_broker_economic_adjustment_def insert_adjustment_def
      same_key_def blank_text_def py_space_def create_entry_ok demo_adjusted_call check_reversal_def
      bl_conflict_def same_source_def)

theorem adjustment_reversal_neutralises_witness:
  "bl_amount (broker_ledger demo_reversed ! ea_entry (adjustments demo_reversed ! 1))
     + bl_amount (broker_ledger demo_reversed ! ea_entry (adjustments demo_reversed ! 0)) = 0"
proof -
  have "book_reachable demo_adjusted"
    by (rule book_step[OF demo_books_reachable book_step.adjustment[OF demo_adjusted_call(1)]])
  then have r: "book_reachable demo_reversed"
    by (rule book_step) (rule book_step.adjustment[OF demo_reversed_call(1)])
  have l: "length (adjustments demo_reversed) = 2" "ea_reverses (adjustments demo_reversed ! 1) = Some 0"
    using demo_reversed_call(2) arg_cong[OF demo_reversed_call(2), of length]
      nth_map[of 1 "adjustments demo_reversed" ea_reverses] by auto
  show ?thesis using adjustment_reversal_neutralises[OF r, of 1 0] l by simp
qed

theorem adjustment_key_exactly_once_witness:
  "create_broker_economic_adjustment 9 ''R9'' (Some 77) ''again'' (Some 2) ''k1'' None None None (Some 0)
     demo_adjusted = Inr (0, demo_adjusted)"
  by (rule adjustment_key_exactly_once[OF demo_adjusted_call(1)])
     (simp_all add: blank_text_def py_space_def)

text \<open>
  A final, actual correction of a booked provider cost posts only the
  difference: afterwards the rows of the original and of its correction sum to
  minus the corrected cost, whatever the two costs are, and nothing is posted
  exactly when the correction confirms the original.
\<close>

theorem cost_correction_nets_out:
  assumes "record_provider_cost_revenue t1 (Some k, a) s = Inr (Some e, s1)"
    and "pc_corrects a = None" "pc_usd_value a = Some c" "cents c"
    and "pc_corrects b = Some k" "pc_usd_value b = Some c'" "cents c'"
    and "pc_quality b = QUALITY_ACTUAL" "pc_is_final b"
    and "\<forall>x \<in> set (broker_ledger s1). bl_cost x \<noteq> Some j"
  shows "\<exists>o' s2. record_provider_cost_revenue t2 (Some j, b) s1 = Inr (o', s2)
     \<and> bl_amount e + (case o' of None \<Rightarrow> 0 | Some d \<Rightarrow> bl_amount d) = - c'
     \<and> (o' = None \<longleftrightarrow> c' = c)"
proof -
  have c: "create_entry ((blank_entry REV_PROVIDER_COST (- c) t1)\<lparr>bl_cost := Some k\<rparr>) s = Inr (e, s1)"
    using assms(1-3)
    by (auto simp: record_provider_cost_revenue_def cost_to_post_def map_sum_apfst_Inr split: if_splits)
  note e = create_entry_Inr(1,2)[OF c]
  have amt: "bl_amount e = - c" using e(2) cents_minus[OF assms(4)] by simp
  have post: "posted_cost k (broker_ledger s1) = Some e"
    using e by (simp add: posted_cost_def)
  have free: "\<forall>r \<in> set (broker_ledger s1).
      \<not> bl_conflict r ((blank_entry REV_PROVIDER_COST (c - c') t2)\<lparr>bl_cost := Some j\<rparr>)"
    using assms(10) by (auto simp: bl_conflict_def same_source_def)
  have "col2 (c - c') = c - c'" using assms(4,7) by (rule cents_diff)
  then show ?thesis
    using assms(5-9) post amt create_entry_ok[OF free]
    by (auto simp: record_provider_cost_revenue_def cost_to_post_def as_duplicate_def)
qed

text \<open>
  C21. A correction of a correction is booked against the wrong basis: when a cost
  \<open>c\<close> is corrected to \<open>c'\<close> and that to \<open>c''\<close>, each posting its difference to the row of
  the record it corrects (which for the second correction is itself a difference),
  the three rows sum to \<open>- (c + c'')\<close> instead of \<open>- c''\<close>: the original cost is counted
  twice.
\<close>

theorem second_correction_counts_original_twice:
  assumes "record_provider_cost_revenue t1 (Some k1, r1) s0 = Inr (Some e1, s1)"
    and "record_provider_cost_revenue t2 (Some k2, r2) s1 = Inr (Some e2, s2)"
    and "record_provider_cost_revenue t3 (Some k3, r3) s2 = Inr (Some e3, s3)"
    and "pc_corrects r1 = None" "pc_corrects r2 = Some k1" "pc_corrects r3 = Some k2"
    and "pc_usd_value r1 = Some c" "pc_usd_value r2 = Some c'" "pc_usd_value r3 = Some c''"
    and "cents c" "cents c'" "cents c''"
  shows "c \<noteq> 0 \<and> bl_amount e1 + bl_amount e2 + bl_amount e3 = - (c + c'')"
proof -
  have 1: "create_entry ((blank_entry REV_PROVIDER_COST (- c) t1)\<lparr>bl_cost := Some k1\<rparr>) s0 = Inr (e1, s1)"
    "c \<noteq> 0"
    using assms(1,4,7)
    by (auto simp: record_provider_cost_revenue_def cost_to_post_def map_sum_apfst_Inr split: if_splits)
  have a1: "bl_amount e1 = - c" "posted_cost k1 (broker_ledger s1) = Some e1"
    using create_entry_Inr(1,2)[OF 1(1)] cents_minus[OF assms(10)] by (simp_all add: posted_cost_def)
  have 2: "create_entry ((blank_entry REV_PROVIDER_COST (- c' + c) t2)\<lparr>bl_cost := Some k2\<rparr>) s1 = Inr (e2, s2)"
    using assms(2,5,8) a1
    by (auto simp: record_provider_cost_revenue_def cost_to_post_def map_sum_apfst_Inr split: if_splits)
  have a2: "bl_amount e2 = - c' + c" "posted_cost k2 (broker_ledger s2) = Some e2"
    using create_entry_Inr(1,2)[OF 2] cents_add[OF cents_minus[OF assms(11)] assms(10)]
    by (simp_all add: posted_cost_def)
  have 3: "create_entry ((blank_entry REV_PROVIDER_COST (- c'' - (- c' + c)) t3)\<lparr>bl_cost := Some k3\<rparr>) s2
      = Inr (e3, s3)"
    using assms(3,6,9) a2
    by (auto simp: record_provider_cost_revenue_def cost_to_post_def map_sum_apfst_Inr split: if_splits)
  have "bl_amount e3 = - c'' - (- c' + c)"
    using create_entry_Inr(2)[OF 3]
      cents_diff[OF cents_minus[OF assms(12)] cents_add[OF cents_minus[OF assms(11)] assms(10)]]
    by simp
  with 1(2) a1(1) a2(1) show ?thesis by simp
qed

definition demo_cost :: "rat \<Rightarrow> pk option \<Rightarrow> cost_record" where
  "demo_cost c corr = \<lparr>pc_amount = c, pc_currency = ''usd'', pc_usd_value = Some c,
     pc_quality = QUALITY_ACTUAL, pc_is_final = True, pc_occurred_at = 0, pc_corrects = corr\<rparr>"

definition demo_post :: "pk \<Rightarrow> cost_record \<Rightarrow> books_db \<Rightarrow> broker_entry option \<times> books_db" where
  "demo_post k r s = projr (record_provider_cost_revenue 5 (Some k, r) s)"

lemma demo_posts:
  "record_provider_cost_revenue 5 (Some 1, demo_cost 5 None) demo_books
     = Inr (Some ((blank_entry REV_PROVIDER_COST (- 5) 5)\<lparr>bl_cost := Some 1\<rparr>),
            demo_books\<lparr>broker_ledger := [(blank_entry REV_PROVIDER_COST (- 5) 5)\<lparr>bl_cost := Some 1\<rparr>]\<rparr>)"
  by (simp add: record_provider_cost_revenue_def demo_cost_def cost_to_post_def create_entry_ok
      as_duplicate_def blank_entry_def)

theorem cost_correction_nets_out_witness:
  "\<exists>o' s2. record_provider_cost_revenue 6 (Some 2, demo_cost 7 (Some 1))
       (demo_books\<lparr>broker_ledger := [(blank_entry REV_PROVIDER_COST (- 5) 5)\<lparr>bl_cost := Some 1\<rparr>]\<rparr>)
       = Inr (o', s2)
     \<and> - 5 + (case o' of None \<Rightarrow> 0 | Some d \<Rightarrow> bl_amount d) = - 7"
  using cost_correction_nets_out[OF demo_posts, of 5 "demo_cost 7 (Some 1)" 7 2 6]
  by (auto simp: demo_cost_def)

theorem second_correction_counts_original_twice_witness:
  "\<exists>e1 s1 e2 s2 e3 s3.
     record_provider_cost_revenue 5 (Some 1, demo_cost 5 None) demo_books = Inr (Some e1, s1)
   \<and> record_provider_cost_revenue 5 (Some 2, demo_cost 7 (Some 1)) s1 = Inr (Some e2, s2)
   \<and> record_provider_cost_revenue 5 (Some 3, demo_cost 6 (Some 2)) s2 = Inr (Some e3, s3)
   \<and> bl_amount e1 + bl_amount e2 + bl_amount e3 = - 11"
proof -
  let ?row = "\<lambda>k c. (blank_entry REV_PROVIDER_COST c 5)\<lparr>bl_cost := Some k\<rparr>"
  let ?s1 = "demo_books\<lparr>broker_ledger := [?row 1 (- 5)]\<rparr>"
  let ?s2 = "demo_books\<lparr>broker_ledger := [?row 1 (- 5), ?row 2 (- 2)]\<rparr>"
  have 2: "record_provider_cost_revenue 5 (Some 2, demo_cost 7 (Some 1)) ?s1 = Inr (Some (?row 2 (- 2)), ?s2)"
    by (simp add: record_provider_cost_revenue_def demo_cost_def cost_to_post_def posted_cost_def
        create_entry_ok bl_conflict_def same_source_def as_duplicate_def blank_entry_def)
  have "\<exists>s3. record_provider_cost_revenue 5 (Some 3, demo_cost 6 (Some 2)) ?s2 = Inr (Some (?row 3 (- 4)), s3)"
    by (simp add: record_provider_cost_revenue_def demo_cost_def cost_to_post_def posted_cost_def
        create_entry_ok bl_conflict_def same_source_def as_duplicate_def blank_entry_def)
  then obtain s3 where 3: "record_provider_cost_revenue 5 (Some 3, demo_cost 6 (Some 2)) ?s2
      = Inr (Some (?row 3 (- 4)), s3)" ..
  have "bl_amount (?row 1 (- 5)) + bl_amount (?row 2 (- 2)) + bl_amount (?row 3 (- 4)) = - (5 + 6)"
    using second_correction_counts_original_twice[OF demo_posts 2 3] by (simp add: demo_cost_def)
  with demo_posts 2 3 show ?thesis by fastforce
qed

text \<open>
  Closing a trade mirrors it on the broker's side exactly once: the first call
  books one row for the trade with the opposite of the trader's result (zero
  included), dated today, and any later call for that trade, with whatever result,
  returns that row and changes nothing.
\<close>

theorem counterparty_mirrors_trade:
  assumes "counterparty_rows (fst kt) (broker_ledger s) = []" and "cents pnl"
  shows "\<exists>e s1. create_broker_counterparty_entry now kt acc pnl s = Inr ((e, True), s1)
    \<and> bl_amount e + pnl = 0 \<and> bl_account e = Some acc \<and> bl_symbol e = Some (tr_symbol (snd kt))
    \<and> bl_economic_date e = Some (date_of now)
    \<and> broker_pnl_for_trade (fst kt) s1 = (Some (- pnl), True)
    \<and> (\<forall>now' tr' acc' pnl'.
         create_broker_counterparty_entry now' (fst kt, tr') acc' pnl' s1 = Inr ((e, False), s1))"
proof -
  let ?e = "(blank_entry REV_COUNTERPARTY_PNL (- pnl) now)
      \<lparr>bl_trade := Some (fst kt), bl_account := Some acc, bl_symbol := Some (tr_symbol (snd kt))\<rparr>"
  have free: "\<forall>r \<in> set (broker_ledger s). \<not> bl_conflict r ?e"
    using assms(1)
    by (auto simp: counterparty_rows_def filter_empty_conv bl_conflict_def same_source_def)
  have "col2 (- pnl) = - pnl" using assms(2) by (rule cents_minus)
  moreover have "(if pnl = 0 then 0 else - pnl) = - pnl" by simp
  ultimately show ?thesis
    using assms(1) create_entry_ok[OF free]
    by (simp add: create_broker_counterparty_entry_def counterparty_rows_def broker_pnl_for_trade_def)
qed

theorem counterparty_mirrors_trade_witness:
  "\<exists>e s1. create_broker_counterparty_entry 9 (0, the (trades demo_books 0)) 7 25 demo_books
            = Inr ((e, True), s1) \<and> bl_amount e = - 25
     \<and> broker_pnl_for_trade 0 s1 = (Some (- 25), True)"
proof -
  have "counterparty_rows (fst (0, the (trades demo_books 0))) (broker_ledger demo_books) = []"
    by (simp add: counterparty_rows_def)
  from counterparty_mirrors_trade[OF this, of 25 9 7] show ?thesis
    by (auto simp: eq_neg_iff_add_eq_0)
qed

text \<open>Every row belongs to exactly one term of the breakdown.\<close>

lemma sum_type_partition:
  "sum_list (map bl_amount es) =
     sum_type REV_COMMISSION es + sum_type REV_SPREAD es + sum_type REV_CHALLENGE_FEE es
     + sum_type REV_WITHDRAW_FEE es + sum_type REV_FUNDED_PROFIT_SHARE es
     + sum_type REV_COUNTERPARTY_PNL es + sum_type REV_ADJUSTMENT es + sum_type REV_PROVIDER_COST es"
proof (induction es)
  case (Cons e es)
  then show ?case by (cases "bl_type e") (simp_all add: sum_type_def)
qed (simp add: sum_type_def)

lemma coverage_pct_bounds:
  assumes "part \<le> n"
  shows "0 \<le> coverage_pct part n \<and> coverage_pct part n \<le> 100"
proof (cases "n = 0")
  case False
  let ?q = "of_nat part / of_nat n :: rat"
  have f1: "fl 1 = 1" and f100: "fl 100 = 100" by code_simp+
  have q100: "quantize_he 2 100 = 100" by code_simp
  have "0 \<le> ?q" "?q \<le> 1" using assms False by simp_all
  then have "0 \<le> fl ?q" "fl ?q \<le> 1"
    using flt.nonneg flt.le_repr[OF f1] by simp_all
  then have "0 \<le> fl (fl ?q * 100)" "fl (fl ?q * 100) \<le> 100"
    using flt.nonneg flt.le_repr[OF f100] by simp_all
  then have "0 \<le> quantize_he 2 (fl (fl ?q * 100))" "quantize_he 2 (fl (fl ?q * 100)) \<le> 100"
    using qhe.nonneg qhe.le_repr[OF q100] by simp_all
  then show ?thesis
    using False flt.nonneg flt.le_repr[OF f100] by (simp add: coverage_pct_def round2_def)
qed (simp add: coverage_pct_def)

text \<open>
  The profit-and-loss breakdown loses and double-counts nothing: for every
  window and filter the direct result plus the pass-through provider cost is the sum
  of all selected ledger rows, the coverage lies between 0 and 100 percent and no
  more trades are covered than closed, and the period is reported incomplete exactly
  when some selected closed trade has no counterparty row.
\<close>

theorem broker_pnl_partition:
  "let b = calculate_broker_pnl p now start end_t acc sy s;
       w = utc_period_window p now start end_t
   in pb_broker_net_pnl b + pb_provider_cost b
        = sum_list (map bl_amount (pnl_rows w acc sy (broker_ledger s)))
    \<and> pb_counterpart_entry_count b \<le> pb_closed_trade_count b
    \<and> 0 \<le> pb_missing_counterpart_count b
    \<and> 0 \<le> pb_coverage_pct b \<and> pb_coverage_pct b \<le> 100
    \<and> (pb_historical_incomplete b \<longleftrightarrow>
         (\<exists>t \<in> set (closed_trades w acc sy s). counterparty_rows t (broker_ledger s) = []))"
proof -
  let ?closed = "closed_trades (utc_period_window p now start end_t) acc sy s"
  let ?part = "filter (\<lambda>t. counterparty_rows t (broker_ledger s) \<noteq> []) ?closed"
  have "length ?part < length ?closed \<longleftrightarrow> (\<exists>t \<in> set ?closed. counterparty_rows t (broker_ledger s) = [])"
    using length_filter_less[of _ ?closed] by (metis (mono_tags, lifting) filter_True less_irrefl)
  then show ?thesis
    using coverage_pct_bounds[of "length ?part" "length ?closed"]
    by (simp add: calculate_broker_pnl_def Let_def sum_type_partition[of "pnl_rows _ _ _ _"]
        length_filter_le)
qed

end
