(* ===== verification/WithdrawalOtp.thy ===== *)
theory WithdrawalOtp
  imports BrokerBook
begin

section \<open>E-mail codes that authorise withdrawals (\<open>simulator/withdrawal_otp.py\<close>)\<close>

text \<open>
  A challenge freezes what it authorises and is answered with a six-digit code.
  The keyed digest of the standard library is the parameter \<open>mac\<close>, the random code
  a parameter of the operations that draw one. An operation that persists a
  failed attempt and then raises returns the exception together with the new
  database. An operation on an instance the caller has already fetched takes the
  key and that copy, which may be older than the row.
\<close>

subsection \<open>State\<close>

datatype otp_purpose = PURPOSE_WITHDRAWAL | PURPOSE_ADDRESS_CHANGE

datatype otp_status = OTP_PENDING | OTP_VERIFIED | OTP_USED | OTP_EXPIRED | OTP_LOCKED

definition OTP_NON_TERMINAL :: "otp_status set" where
  "OTP_NON_TERMINAL = {OTP_PENDING, OTP_VERIFIED}"

record challenge =
  ch_user :: pk
  ch_purpose :: otp_purpose
  ch_amount :: "rat option"
  ch_withdraw_all :: bool
  ch_asset :: string
  ch_network :: string
  ch_address :: string
  ch_code_hash :: string
  ch_expires_at :: int
  ch_attempts :: nat
  ch_max_attempts :: nat
  ch_last_sent_at :: int
  ch_verified_at :: "int option"
  ch_used_at :: "int option"
  ch_status :: otp_status

record otp_settings =
  os_expiry_minutes :: int
  os_max_attempts :: nat
  os_cooldown_seconds :: int

record otp_db = books_db +
  challenges :: "challenge table"
  next_challenge :: pk

datatype otp_error =
  ActiveChallengeExists | ChallengeNotFound | ChallengeExpired | ChallengeLocked | InvalidCode
| ChallengeNotVerifiable otp_status | ResendCooldownActive int

subsection \<open>Codes\<close>

definition purpose_text :: "otp_purpose \<Rightarrow> string" where
  "purpose_text p = (case p of PURPOSE_WITHDRAWAL \<Rightarrow> ''WITHDRAWAL'' | PURPOSE_ADDRESS_CHANGE \<Rightarrow> ''ADDRESS_CHANGE'')"

definition hash_message :: "pk \<Rightarrow> pk \<Rightarrow> otp_purpose \<Rightarrow> string \<Rightarrow> string" where
  "hash_message k u p code =
     dec k @ CHR '':'' # dec u @ CHR '':'' # purpose_text p @ CHR '':'' # py_strip code"

definition hash_code :: "(string \<Rightarrow> string) \<Rightarrow> pk \<Rightarrow> pk \<Rightarrow> otp_purpose \<Rightarrow> string \<Rightarrow> string" where
  "hash_code mac k u p code = mac (hash_message k u p code)"

subsection \<open>Operations\<close>

definition update_challenge :: "pk \<Rightarrow> (challenge \<Rightarrow> challenge) \<Rightarrow> 'a otp_db_scheme \<Rightarrow> 'a otp_db_scheme" where
  "update_challenge k f s = s\<lparr>challenges := update_row k f (challenges s)\<rparr>"

definition stale :: "int \<Rightarrow> challenge \<Rightarrow> bool" where
  "stale now c \<longleftrightarrow> ch_status c = OTP_PENDING \<and> ch_expires_at c \<le> now"

definition expire_challenge :: "int \<Rightarrow> challenge \<Rightarrow> challenge" where
  "expire_challenge now c = (if stale now c then c\<lparr>ch_status := OTP_EXPIRED\<rparr> else c)"

text \<open>The two call shapes of \<open>expire_if_stale\<close>: all challenges of a user, and one fetched instance.\<close>

definition expire_user :: "int \<Rightarrow> pk \<Rightarrow> 'a otp_db_scheme \<Rightarrow> 'a otp_db_scheme" where
  "expire_user now u s =
     s\<lparr>challenges := (\<lambda>k. map_option (\<lambda>c. if ch_user c = u then expire_challenge now c else c)
                              (challenges s k))\<rparr>"

definition expire_if_stale ::
  "int \<Rightarrow> pk \<times> challenge \<Rightarrow> 'a otp_db_scheme \<Rightarrow> (bool \<times> challenge) \<times> 'a otp_db_scheme" where
  "expire_if_stale now kc s =
     (let flipped = (case challenges s (fst kc) of None \<Rightarrow> False | Some r \<Rightarrow> stale now r);
          c = (if flipped then (snd kc)\<lparr>ch_status := OTP_EXPIRED\<rparr> else snd kc)
      in ((ch_status c = OTP_EXPIRED, c), update_challenge (fst kc) (expire_challenge now) s))"

definition active_challenges :: "pk \<Rightarrow> 'a otp_db_scheme \<Rightarrow> pk list" where
  "active_challenges u s =
     rows_where (next_challenge s) (challenges s)
       (\<lambda>c. ch_user c = u \<and> ch_status c \<in> OTP_NON_TERMINAL)"

definition create_challenge ::
  "(string \<Rightarrow> string) \<Rightarrow> otp_settings \<Rightarrow> string \<Rightarrow> int \<Rightarrow> pk \<Rightarrow> otp_purpose \<Rightarrow> string \<Rightarrow> string \<Rightarrow> string
     \<Rightarrow> rat option \<Rightarrow> bool \<Rightarrow> 'a otp_db_scheme \<Rightarrow> (otp_error + (pk \<times> string)) \<times> 'a otp_db_scheme" where
  "create_challenge mac os code now u p asset network address amount wall s =
     (let s0 = snd (get_or_create_wallet u s);
          s1 = expire_user now u s0
      in if active_challenges u s1 \<noteq> [] then (Inl ActiveChallengeExists, s0)
         else let k = next_challenge s1;
                  c = \<lparr>ch_user = u, ch_purpose = p, ch_amount = map_option col2 amount,
                       ch_withdraw_all = wall, ch_asset = asset, ch_network = network,
                       ch_address = address, ch_code_hash = hash_code mac k u p code,
                       ch_expires_at = now + os_expiry_minutes os * 60 * second_us,
                       ch_attempts = 0, ch_max_attempts = os_max_attempts os,
                       ch_last_sent_at = now, ch_verified_at = None, ch_used_at = None,
                       ch_status = OTP_PENDING\<rparr>
              in (Inr (k, code),
                  s1\<lparr>next_challenge := Suc k, challenges := (challenges s1)(k \<mapsto> c)\<rparr>))"

text \<open>\<open>int(remaining) + 1\<close> seconds to wait, or none.\<close>

definition can_resend :: "otp_settings \<Rightarrow> int \<Rightarrow> challenge \<Rightarrow> bool \<times> int" where
  "can_resend os now c =
     (let remaining = os_cooldown_seconds os * second_us - (now - ch_last_sent_at c)
      in if 0 < remaining then (False, remaining div second_us + 1) else (True, 0))"

definition resend_challenge ::
  "(string \<Rightarrow> string) \<Rightarrow> otp_settings \<Rightarrow> string \<Rightarrow> int \<Rightarrow> pk \<times> challenge \<Rightarrow> 'a otp_db_scheme
     \<Rightarrow> (otp_error + string) \<times> 'a otp_db_scheme" where
  "resend_challenge mac os code now kc s =
     (if ch_status (snd kc) \<noteq> OTP_PENDING then (Inl (ChallengeNotVerifiable (ch_status (snd kc))), s)
      else case expire_if_stale now kc s of ((expired, c), s1) \<Rightarrow>
        if expired then (Inl ChallengeExpired, s1)
        else case can_resend os now c of (ok, retry) \<Rightarrow>
          if \<not> ok then (Inl (ResendCooldownActive retry), s1)
          else (Inr code, update_challenge (fst kc)
                 (\<lambda>r. r\<lparr>ch_code_hash := hash_code mac (fst kc) (ch_user c) (ch_purpose c) code,
                        ch_expires_at := now + os_expiry_minutes os * 60 * second_us,
                        ch_last_sent_at := now\<rparr>) s1))"

definition verify_challenge ::
  "(string \<Rightarrow> string) \<Rightarrow> int \<Rightarrow> pk \<Rightarrow> string \<Rightarrow> pk \<Rightarrow> 'a otp_db_scheme
     \<Rightarrow> (otp_error + challenge) \<times> 'a otp_db_scheme" where
  "verify_challenge mac now k code u s =
     (case challenges s k of
        None \<Rightarrow> (Inl ChallengeNotFound, s)
      | Some c \<Rightarrow>
          let save = (\<lambda>c'. s\<lparr>challenges := (challenges s)(k \<mapsto> c')\<rparr>) in
          if ch_user c \<noteq> u then (Inl ChallengeNotFound, s)
          else if ch_status c \<noteq> OTP_PENDING then (Inl (ChallengeNotVerifiable (ch_status c)), s)
          else if ch_expires_at c \<le> now
          then (Inl ChallengeExpired, save (c\<lparr>ch_status := OTP_EXPIRED\<rparr>))
          else if ch_max_attempts c \<le> ch_attempts c
          then (Inl ChallengeLocked, save (c\<lparr>ch_status := OTP_LOCKED\<rparr>))
          else if hash_code mac k (ch_user c) (ch_purpose c) code \<noteq> ch_code_hash c
          then (if ch_max_attempts c \<le> ch_attempts c + 1
                then (Inl ChallengeLocked,
                      save (c\<lparr>ch_attempts := ch_attempts c + 1, ch_status := OTP_LOCKED\<rparr>))
                else (Inl InvalidCode, save (c\<lparr>ch_attempts := ch_attempts c + 1\<rparr>)))
          else let c' = c\<lparr>ch_status := OTP_VERIFIED, ch_verified_at := Some now\<rparr>
               in (Inr c', save c'))"

definition mark_challenge_used ::
  "int \<Rightarrow> pk \<times> challenge \<Rightarrow> 'a otp_db_scheme \<Rightarrow> otp_error + 'a otp_db_scheme" where
  "mark_challenge_used now kc s =
     (if ch_status (snd kc) \<noteq> OTP_VERIFIED then Inl (ChallengeNotVerifiable (ch_status (snd kc)))
      else Inr (update_challenge (fst kc) (\<lambda>r. r\<lparr>ch_status := OTP_USED, ch_used_at := Some now\<rparr>) s))"

subsection \<open>How a challenge may evolve\<close>

definition otp_next :: "otp_status \<Rightarrow> otp_status \<Rightarrow> bool" where
  "otp_next a b \<longleftrightarrow> a = b \<or> a = OTP_PENDING \<and> b \<noteq> OTP_PENDING \<or> a = OTP_VERIFIED \<and> b = OTP_USED"

text \<open>
  Owner, purpose and the frozen payload never change, the attempts never go down,
  and the status only moves forward.
\<close>

definition otp_evolves :: "challenge \<Rightarrow> challenge \<Rightarrow> bool" where
  "otp_evolves c d \<longleftrightarrow>
     ch_user d = ch_user c \<and> ch_purpose d = ch_purpose c \<and> ch_amount d = ch_amount c
     \<and> ch_withdraw_all d = ch_withdraw_all c \<and> ch_asset d = ch_asset c \<and> ch_network d = ch_network c
     \<and> ch_address d = ch_address c \<and> ch_max_attempts d = ch_max_attempts c
     \<and> ch_attempts c \<le> ch_attempts d
     \<and> (ch_attempts c \<le> ch_max_attempts c \<longrightarrow> ch_attempts d \<le> ch_max_attempts d)
     \<and> otp_next (ch_status c) (ch_status d)"

lemma otp_evolves_refl [simp]: "otp_evolves c c"
  by (simp add: otp_evolves_def otp_next_def)

lemma otp_evolves_trans: "otp_evolves c d \<Longrightarrow> otp_evolves d e \<Longrightarrow> otp_evolves c e"
  by (auto simp: otp_evolves_def otp_next_def)

lemma expire_evolves [simp]: "otp_evolves c (expire_challenge now c)"
  by (auto simp: otp_evolves_def otp_next_def expire_challenge_def stale_def)

definition db_evolves :: "'a otp_db_scheme \<Rightarrow> 'a otp_db_scheme \<Rightarrow> bool" where
  "db_evolves s s' \<longleftrightarrow>
     (\<forall>k c. challenges s k = Some c \<longrightarrow> (\<exists>d. challenges s' k = Some d \<and> otp_evolves c d))"

lemma db_evolves_refl [simp]: "db_evolves s s"
  by (auto simp: db_evolves_def)

lemma db_evolves_trans: "db_evolves s t \<Longrightarrow> db_evolves t v \<Longrightarrow> db_evolves s v"
  unfolding db_evolves_def by (meson otp_evolves_trans)

lemma update_challenge_evolves:
  "(\<And>c. challenges s k = Some c \<Longrightarrow> otp_evolves c (f c)) \<Longrightarrow> db_evolves s (update_challenge k f s)"
  by (auto simp: db_evolves_def update_challenge_def update_row_apply)

lemma same_challenges_evolve: "challenges s' = challenges s \<Longrightarrow> db_evolves s s'"
  by (simp add: db_evolves_def)

lemma wallet_frame_challenges [simp]:
  "challenges (snd (get_or_create_wallet u s)) = challenges s"
  "next_challenge (snd (get_or_create_wallet u s)) = next_challenge s"
  by (simp_all add: get_or_create_wallet_def Let_def split: option.splits)

definition keys_free :: "'a otp_db_scheme \<Rightarrow> bool" where
  "keys_free s \<longleftrightarrow> (\<forall>k \<ge> next_challenge s. challenges s k = None)"

lemma expire_user_evolves: "db_evolves s (expire_user now u s)"
  by (auto simp: db_evolves_def expire_user_def)

lemma create_challenge_evolves:
  assumes "keys_free s"
  shows "db_evolves s (snd (create_challenge mac os code now u p as nw ad amt wall s))"
proof -
  let ?s1 = "expire_user now u (snd (get_or_create_wallet u s))"
  have e: "db_evolves s ?s1"
    using db_evolves_trans[OF same_challenges_evolve expire_user_evolves] wallet_frame_challenges(1) .
  have new: "db_evolves ?s1 (?s1\<lparr>next_challenge := n, challenges := (challenges ?s1)(next_challenge s \<mapsto> c)\<rparr>)"
    for n c
    using assms by (auto simp: db_evolves_def expire_user_def keys_free_def)
  show ?thesis
    using db_evolves_trans[OF e new] same_challenges_evolve[of "snd (get_or_create_wallet u s)" s]
    by (auto simp: create_challenge_def Let_def expire_user_def)
qed

lemma verify_challenge_evolves: "db_evolves s (snd (verify_challenge mac now k code u s))"
  by (auto simp: verify_challenge_def Let_def db_evolves_def otp_evolves_def otp_next_def
      split: option.splits)

lemma expire_if_stale_evolves: "db_evolves s (snd (expire_if_stale now kc s))"
  by (simp add: expire_if_stale_def Let_def update_challenge_evolves)

lemma resend_challenge_evolves: "db_evolves s (snd (resend_challenge mac os code now kc s))"
proof -
  have f: "db_evolves s (update_challenge (fst kc)
     (\<lambda>r. r\<lparr>ch_code_hash := h, ch_expires_at := e, ch_last_sent_at := l\<rparr>) s)" for s :: "'a otp_db_scheme" and h e l
    by (rule update_challenge_evolves) (simp add: otp_evolves_def otp_next_def)
  show ?thesis
    using expire_if_stale_evolves[where s = s and now = now and kc = kc]
      db_evolves_trans[OF expire_if_stale_evolves[where s = s and now = now and kc = kc] f]
    by (auto simp: resend_challenge_def split: prod.splits)
qed

text \<open>
  A copy that reads VERIFIED was read when the row was VERIFIED, so the row is now
  VERIFIED or USED.
\<close>

lemma mark_challenge_used_evolves:
  assumes "mark_challenge_used now kc s = Inr s'"
    and "challenges s (fst kc) = Some r" "otp_evolves (snd kc) r"
  shows "db_evolves s s'"
proof -
  have "ch_status r \<in> {OTP_VERIFIED, OTP_USED}"
    using assms by (auto simp: mark_challenge_used_def otp_evolves_def otp_next_def split: if_splits)
  moreover have "s' = update_challenge (fst kc) (\<lambda>r. r\<lparr>ch_status := OTP_USED, ch_used_at := Some now\<rparr>) s"
    using assms(1) by (auto simp: mark_challenge_used_def split: if_splits)
  ultimately show ?thesis
    using assms(2) by (auto intro!: update_challenge_evolves simp: otp_evolves_def otp_next_def)
qed

subsection \<open>Steps, invariant\<close>

text \<open>
  The calls the views make, in any order and on copies fetched at any earlier
  time, mixed with steps of components that do not touch the challenges.
\<close>

inductive otp_step :: "(string \<Rightarrow> string) \<Rightarrow> otp_settings \<Rightarrow> otp_db \<Rightarrow> otp_db \<Rightarrow> bool" for mac os where
  create: "otp_step mac os s (snd (create_challenge mac os code now u p as nw ad amt wall s))"
| verify: "otp_step mac os s (snd (verify_challenge mac now k code u s))"
| resend: "otp_step mac os s (snd (resend_challenge mac os code now kc s))"
| expire: "otp_step mac os s (snd (expire_if_stale now kc s))"
| mark: "challenges s (fst kc) = Some r \<Longrightarrow> otp_evolves (snd kc) r \<Longrightarrow>
         mark_challenge_used now kc s = Inr s' \<Longrightarrow> otp_step mac os s s'"
| otp_elsewhere: "challenges s' = challenges s \<Longrightarrow> next_challenge s' = next_challenge s \<Longrightarrow> otp_step mac os s s'"

inductive otp_reachable :: "(string \<Rightarrow> string) \<Rightarrow> otp_settings \<Rightarrow> otp_db \<Rightarrow> bool" for mac os where
  otp_start: "challenges s = Map.empty \<Longrightarrow> otp_reachable mac os s"
| otp_trans: "otp_reachable mac os s \<Longrightarrow> otp_step mac os s s' \<Longrightarrow> otp_reachable mac os s'"

definition otp_inv :: "'a otp_db_scheme \<Rightarrow> bool" where
  "otp_inv s \<longleftrightarrow> keys_free s
     \<and> (\<forall>k c. challenges s k = Some c \<longrightarrow> ch_attempts c \<le> ch_max_attempts c)
     \<and> (\<forall>u. length (active_challenges u s) \<le> 1)"

lemma next_challenge_simps [simp]:
  "next_challenge (update_challenge k f s) = next_challenge s"
  "next_challenge (expire_user now u s) = next_challenge s"
  "next_challenge (snd (expire_if_stale now kc s)) = next_challenge s"
  by (simp_all add: update_challenge_def expire_user_def expire_if_stale_def Let_def)

lemma verify_challenge_frame:
  "next_challenge (snd (verify_challenge mac now k code u s)) = next_challenge s"
  "challenges s j = None \<Longrightarrow> challenges (snd (verify_challenge mac now k code u s)) j = None"
  by (auto simp: verify_challenge_def Let_def split: option.splits)

lemma resend_challenge_frame:
  "next_challenge (snd (resend_challenge mac os code now kc s)) = next_challenge s"
  "challenges s j = None \<Longrightarrow> challenges (snd (resend_challenge mac os code now kc s)) j = None"
  by (auto simp: resend_challenge_def expire_if_stale_def Let_def update_challenge_def
      update_row_apply split: prod.splits)

lemma expire_if_stale_frame:
  "challenges s j = None \<Longrightarrow> challenges (snd (expire_if_stale now kc s)) j = None"
  by (auto simp: expire_if_stale_def Let_def update_challenge_def update_row_apply)

text \<open>
  A step that only lets rows evolve and adds none keeps the invariant: a row that is
  active afterwards was active before.
\<close>

lemma evolves_inv:
  assumes inv: "otp_inv s" and ev: "db_evolves s s'" and nx: "next_challenge s' = next_challenge s"
    and dom: "\<And>k. challenges s k = None \<Longrightarrow> challenges s' k = None"
  shows "otp_inv s'"
proof -
  have bk: "\<exists>c. challenges s k = Some c \<and> otp_evolves c d" if "challenges s' k = Some d" for k d
  proof (cases "challenges s k")
    case (Some c)
    with ev that show ?thesis unfolding db_evolves_def by fastforce
  qed (use dom[of k] that in simp)
  have "set (active_challenges u s') \<subseteq> set (active_challenges u s)" for u
    using bk nx
    by (fastforce simp: active_challenges_def set_rows_where otp_evolves_def otp_next_def OTP_NON_TERMINAL_def)
  then have "length (active_challenges u s') \<le> length (active_challenges u s)" for u
    by (metis active_challenges_def card_mono distinct_card distinct_rows_where List.finite_set)
  then have "length (active_challenges u s') \<le> 1" for u
    using inv unfolding otp_inv_def by (meson order_trans)
  moreover have "ch_attempts d \<le> ch_max_attempts d" if "challenges s' k = Some d" for k d
    using bk[OF that] inv by (auto simp: otp_inv_def otp_evolves_def)
  moreover have "keys_free s'" using inv nx dom by (simp add: otp_inv_def keys_free_def)
  ultimately show ?thesis by (simp add: otp_inv_def)
qed

lemma expire_user_inv: "otp_inv s \<Longrightarrow> otp_inv (expire_user now u s)"
  by (rule evolves_inv[OF _ expire_user_evolves]) (simp_all add: expire_user_def)

lemma new_challenge_inv:
  assumes inv: "otp_inv s" and free: "active_challenges u s = []" and u: "ch_user c = u"
    and a: "ch_attempts c = 0"
  shows "otp_inv (s\<lparr>next_challenge := Suc (next_challenge s),
                    challenges := (challenges s)(next_challenge s \<mapsto> c)\<rparr>)" (is "otp_inv ?s'")
proof -
  let ?n = "next_challenge s"
  have "active_challenges v ?s' = (if v = u \<and> ch_status c \<in> OTP_NON_TERMINAL then [?n]
          else active_challenges v s)" for v
  proof -
    have "filter (\<lambda>k. case ((challenges s)(?n \<mapsto> c)) k of None \<Rightarrow> False
              | Some r \<Rightarrow> ch_user r = v \<and> ch_status r \<in> OTP_NON_TERMINAL) [0..<?n]
          = active_challenges v s"
      unfolding active_challenges_def rows_where_def by (rule filter_cong) auto
    then show ?thesis using free u by (auto simp: active_challenges_def rows_where_def)
  qed
  with inv a show ?thesis by (auto simp: otp_inv_def keys_free_def)
qed

lemma create_challenge_inv:
  assumes "otp_inv s"
  shows "otp_inv (snd (create_challenge mac os code now u p as nw ad amt wall s))"
proof -
  let ?s0 = "snd (get_or_create_wallet u s)"
  have i0: "otp_inv ?s0"
    using evolves_inv[OF assms same_challenges_evolve] by simp
  have i1: "otp_inv (expire_user now u ?s0)" by (rule expire_user_inv[OF i0])
  show ?thesis
    using i0 new_challenge_inv[OF i1] by (auto simp: create_challenge_def Let_def)
qed

lemma otp_step_inv: "otp_step mac os s s' \<Longrightarrow> otp_inv s \<Longrightarrow> otp_inv s' \<and> db_evolves s s'"
proof (induction rule: otp_step.induct)
  case (create s code now u p as nw ad amt wall)
  have "keys_free s" using create by (simp add: otp_inv_def)
  then show ?case by (intro conjI create_challenge_inv create create_challenge_evolves)
next
  case (verify s now k code u)
  show ?case
    by (intro conjI evolves_inv[OF verify] verify_challenge_evolves verify_challenge_frame)
next
  case (resend s code now kc)
  show ?case
    by (intro conjI evolves_inv[OF resend] resend_challenge_evolves resend_challenge_frame)
next
  case (expire s now kc)
  show ?case
    by (intro conjI evolves_inv[OF expire] expire_if_stale_evolves expire_if_stale_frame next_challenge_simps)
next
  case (mark s kc r now s')
  have "next_challenge s' = next_challenge s" "challenges s j = None \<Longrightarrow> challenges s' j = None" for j
    using mark.hyps(3)
    by (auto simp: mark_challenge_used_def update_challenge_def update_row_apply split: if_splits)
  then show ?case
    using evolves_inv[OF mark.prems mark_challenge_used_evolves[OF mark.hyps(3,1,2)]]
      mark_challenge_used_evolves[OF mark.hyps(3,1,2)] by blast
next
  case (otp_elsewhere s' s)
  then show ?case using evolves_inv[OF _ same_challenges_evolve, of s s'] same_challenges_evolve[of s' s] by simp
qed

lemma otp_reachable_inv: "otp_reachable mac os s \<Longrightarrow> otp_inv s"
proof (induction rule: otp_reachable.induct)
  case (otp_start s)
  then show ?case
    by (simp add: otp_inv_def keys_free_def active_challenges_def rows_where_def)
next
  case (otp_trans s s')
  then show ?case using otp_step_inv by blast
qed

subsection \<open>Guessing\<close>

text \<open>What a client can do with a pending challenge: answer it, or ask for a new code.\<close>

datatype otp_event = Guess int string | Resend int string

text \<open>The answer is compared with the digest and does not match.\<close>

definition wrong_guess :: "(string \<Rightarrow> string) \<Rightarrow> int \<Rightarrow> pk \<Rightarrow> string \<Rightarrow> challenge \<Rightarrow> bool" where
  "wrong_guess mac now k code c \<longleftrightarrow>
     ch_status c = OTP_PENDING \<and> now < ch_expires_at c \<and> ch_attempts c < ch_max_attempts c
     \<and> hash_code mac k (ch_user c) (ch_purpose c) code \<noteq> ch_code_hash c"

fun play :: "(string \<Rightarrow> string) \<Rightarrow> otp_settings \<Rightarrow> pk \<Rightarrow> pk \<Rightarrow> otp_event list \<Rightarrow> 'a otp_db_scheme \<Rightarrow> nat \<times> 'a otp_db_scheme" where
  "play mac os k u [] s = (0, s)"
| "play mac os k u (Guess now code # es) s =
     (let wrong = (case challenges s k of None \<Rightarrow> False
                   | Some c \<Rightarrow> ch_user c = u \<and> wrong_guess mac now k code c);
          (n, t) = play mac os k u es (snd (verify_challenge mac now k code u s))
      in (n + (if wrong then 1 else 0), t))"
| "play mac os k u (Resend now code # es) s =
     (case challenges s k of
        None \<Rightarrow> play mac os k u es s
      | Some c \<Rightarrow> play mac os k u es (snd (resend_challenge mac os code now (k, c) s)))"

lemma verify_attempts:
  assumes "challenges s k = Some c"
  shows "\<exists>d. challenges (snd (verify_challenge mac now k code u s)) k = Some d
     \<and> ch_attempts d = ch_attempts c + (if ch_user c = u \<and> wrong_guess mac now k code c then 1 else 0)"
  using assms by (auto simp: verify_challenge_def wrong_guess_def Let_def not_less not_le)

lemma resend_attempts:
  assumes "challenges s k = Some c"
  shows "\<exists>d. challenges (snd (resend_challenge mac os code now (k, c) s)) k = Some d
     \<and> ch_attempts d = ch_attempts c"
  using assms
  by (auto simp: resend_challenge_def expire_if_stale_def expire_challenge_def Let_def
      update_challenge_def update_row_apply split: prod.splits)

lemma play_attempts:
  "challenges s k = Some c \<Longrightarrow>
     \<exists>d. challenges (snd (play mac os k u es s)) k = Some d \<and> otp_evolves c d
       \<and> ch_attempts d = ch_attempts c + fst (play mac os k u es s)"
proof (induction mac os k u es s arbitrary: c rule: play.induct)
  case (2 mac os k u now code es s)
  let ?s' = "snd (verify_challenge mac now k code u s)"
  obtain d where d: "challenges ?s' k = Some d"
    "ch_attempts d = ch_attempts c + (if ch_user c = u \<and> wrong_guess mac now k code c then 1 else 0)"
    using verify_attempts[OF 2(2)] by blast
  have "otp_evolves c d" using verify_challenge_evolves[of s mac now k code u] d(1) 2(2)
    unfolding db_evolves_def by fastforce
  moreover obtain e where "challenges (snd (play mac os k u es ?s')) k = Some e" "otp_evolves d e"
    "ch_attempts e = ch_attempts d + fst (play mac os k u es ?s')"
    using 2(1)[OF refl d(1)] by blast
  ultimately show ?case
    using d(2) 2(2) otp_evolves_trans by (auto simp: Let_def split: prod.splits)
next
  case (3 mac os k u now code es s)
  let ?s' = "snd (resend_challenge mac os code now (k, c) s)"
  obtain d where d: "challenges ?s' k = Some d" "ch_attempts d = ch_attempts c"
    using resend_attempts[OF 3(3)] by blast
  have "otp_evolves c d" using resend_challenge_evolves[of s mac os code now "(k, c)"] d(1) 3(3)
    unfolding db_evolves_def by fastforce
  moreover obtain e where "challenges (snd (play mac os k u es ?s')) k = Some e" "otp_evolves d e"
    "ch_attempts e = ch_attempts d + fst (play mac os k u es ?s')"
    using 3(2)[OF 3(3) d(1)] by blast
  ultimately show ?case using d(2) 3(3) otp_evolves_trans by auto
qed simp

subsection \<open>Properties\<close>

text \<open>
  In every reachable database a user has at most one challenge that is pending
  or verified, no challenge has more failed attempts than allowed, and whatever
  step happens next (on copies fetched at any earlier time) no challenge loses its
  owner, purpose or frozen payload, forgets an attempt, or returns from a terminal
  status.
\<close>

theorem otp_challenges_monotone:
  assumes "otp_reachable mac os s"
  shows "(\<forall>u. length (active_challenges u s) \<le> 1)
    \<and> (\<forall>k c. challenges s k = Some c \<longrightarrow> ch_attempts c \<le> ch_max_attempts c)
    \<and> (\<forall>s' k c. otp_step mac os s s' \<and> challenges s k = Some c \<longrightarrow>
         (\<exists>d. challenges s' k = Some d \<and> otp_evolves c d
            \<and> (ch_status c \<in> {OTP_USED, OTP_EXPIRED, OTP_LOCKED} \<longrightarrow> ch_status d = ch_status c)))"
proof -
  have inv: "otp_inv s" by (rule otp_reachable_inv[OF assms])
  have "\<exists>d. challenges s' k = Some d \<and> otp_evolves c d
            \<and> (ch_status c \<in> {OTP_USED, OTP_EXPIRED, OTP_LOCKED} \<longrightarrow> ch_status d = ch_status c)"
    if "otp_step mac os s s'" "challenges s k = Some c" for s' k c
    using otp_step_inv[OF that(1) inv] that(2)
    by (fastforce simp: db_evolves_def otp_evolves_def otp_next_def)
  with inv show ?thesis unfolding otp_inv_def by blast
qed

definition demo_otp :: otp_db where
  "demo_otp = books_db.extend (books_db.truncate demo_books) \<lparr>challenges = Map.empty, next_challenge = 0\<rparr>"

definition demo_settings :: otp_settings where
  "demo_settings = \<lparr>os_expiry_minutes = 10, os_max_attempts = 3, os_cooldown_seconds = 60\<rparr>"

definition demo_challenged :: otp_db where
  "demo_challenged = snd (create_challenge id demo_settings ''123456'' 0 3 PURPOSE_WITHDRAWAL
     ''BTC'' ''BTC'' ''addr'' (Some 50) False demo_otp)"

lemma demo_otp_empty [simp]: "challenges demo_otp = Map.empty" "next_challenge demo_otp = 0"
  by (simp_all add: demo_otp_def books_db.defs)

lemma demo_challenged_row:
  "challenges demo_challenged 0 = Some \<lparr>ch_user = 3, ch_purpose = PURPOSE_WITHDRAWAL,
     ch_amount = Some 50, ch_withdraw_all = False, ch_asset = ''BTC'', ch_network = ''BTC'',
     ch_address = ''addr'', ch_code_hash = hash_code id 0 3 PURPOSE_WITHDRAWAL ''123456'',
     ch_expires_at = 600000000, ch_attempts = 0, ch_max_attempts = 3, ch_last_sent_at = 0,
     ch_verified_at = None, ch_used_at = None, ch_status = OTP_PENDING\<rparr>"
  by (simp add: demo_challenged_def create_challenge_def Let_def active_challenges_def rows_where_def
      expire_user_def demo_settings_def second_us_def)

theorem otp_challenges_monotone_witness:
  "length (active_challenges 3 demo_challenged) \<le> 1
   \<and> (\<exists>d. challenges (snd (verify_challenge id 5 0 ''000000'' 3 demo_challenged)) 0 = Some d
        \<and> ch_attempts d \<le> ch_max_attempts d)"
proof -
  have r: "otp_reachable id demo_settings demo_challenged"
    unfolding demo_challenged_def by (rule otp_trans[OF otp_start create]) simp
  then have r': "otp_reachable id demo_settings (snd (verify_challenge id 5 0 ''000000'' 3 demo_challenged))"
    by (rule otp_trans) (rule verify)
  obtain d where d: "challenges (snd (verify_challenge id 5 0 ''000000'' 3 demo_challenged)) 0 = Some d"
    using verify_attempts[OF demo_challenged_row, of id 5 "''000000''" 3] by blast
  then show ?thesis
    using otp_challenges_monotone[OF r] otp_challenges_monotone[OF r'] by blast
qed

text \<open>
  \<open>verify_challenge\<close> accepts exactly when the row exists for that user, is pending,
  has not expired, has attempts left and the digest matches; then the row is
  VERIFIED and nothing else changes. Every refused answer is persisted although the
  call raises: a wrong answer costs one attempt, and the last one locks the row.
\<close>

theorem verify_challenge_decides:
  assumes "challenges s k = Some c"
  shows "(isOk (fst (verify_challenge mac now k code u s)) \<longleftrightarrow>
            ch_user c = u \<and> ch_status c = OTP_PENDING \<and> now < ch_expires_at c
            \<and> ch_attempts c < ch_max_attempts c
            \<and> hash_code mac k (ch_user c) (ch_purpose c) code = ch_code_hash c)
    \<and> (isOk (fst (verify_challenge mac now k code u s)) \<longrightarrow>
         snd (verify_challenge mac now k code u s)
           = s\<lparr>challenges := (challenges s)(k \<mapsto> c\<lparr>ch_status := OTP_VERIFIED, ch_verified_at := Some now\<rparr>)\<rparr>)
    \<and> (ch_user c = u \<and> wrong_guess mac now k code c \<longrightarrow>
         verify_challenge mac now k code u s =
           (if ch_attempts c + 1 < ch_max_attempts c
            then (Inl InvalidCode,
                  s\<lparr>challenges := (challenges s)(k \<mapsto> c\<lparr>ch_attempts := ch_attempts c + 1\<rparr>)\<rparr>)
            else (Inl ChallengeLocked,
                  s\<lparr>challenges := (challenges s)(k \<mapsto> c\<lparr>ch_attempts := ch_attempts c + 1,
                                                        ch_status := OTP_LOCKED\<rparr>)\<rparr>)))"
proof -
  have e: "verify_challenge mac now k code u s =
      (let save = (\<lambda>c'. s\<lparr>challenges := (challenges s)(k \<mapsto> c')\<rparr>) in
          if ch_user c \<noteq> u then (Inl ChallengeNotFound, s)
          else if ch_status c \<noteq> OTP_PENDING then (Inl (ChallengeNotVerifiable (ch_status c)), s)
          else if ch_expires_at c \<le> now
          then (Inl ChallengeExpired, save (c\<lparr>ch_status := OTP_EXPIRED\<rparr>))
          else if ch_max_attempts c \<le> ch_attempts c
          then (Inl ChallengeLocked, save (c\<lparr>ch_status := OTP_LOCKED\<rparr>))
          else if hash_code mac k (ch_user c) (ch_purpose c) code \<noteq> ch_code_hash c
          then (if ch_max_attempts c \<le> ch_attempts c + 1
                then (Inl ChallengeLocked,
                      save (c\<lparr>ch_attempts := ch_attempts c + 1, ch_status := OTP_LOCKED\<rparr>))
                else (Inl InvalidCode, save (c\<lparr>ch_attempts := ch_attempts c + 1\<rparr>)))
          else let c' = c\<lparr>ch_status := OTP_VERIFIED, ch_verified_at := Some now\<rparr>
               in (Inr c', save c'))"
    using assms by (simp add: verify_challenge_def)
  let ?open = "ch_user c = u \<and> ch_status c = OTP_PENDING \<and> now < ch_expires_at c
      \<and> ch_attempts c < ch_max_attempts c"
  consider "\<not> ?open" | "?open" "hash_code mac k (ch_user c) (ch_purpose c) code = ch_code_hash c"
    | "?open" "hash_code mac k (ch_user c) (ch_purpose c) code \<noteq> ch_code_hash c" by blast
  then show ?thesis
  proof cases
    case 1
    then have "isl (fst (verify_challenge mac now k code u s))" by (auto simp: e Let_def)
    with 1 show ?thesis by (auto simp: wrong_guess_def)
  next
    case 2
    then show ?thesis by (simp add: e wrong_guess_def Let_def)
  next
    case 3
    then show ?thesis by (simp add: e wrong_guess_def not_le Let_def)
  qed
qed

theorem verify_challenge_decides_witness:
  "isOk (fst (verify_challenge id 5 0 ''123456'' 3 demo_challenged))
   \<and> \<not> isOk (fst (verify_challenge id 700000000 0 ''123456'' 3 demo_challenged))"
  using verify_challenge_decides[OF demo_challenged_row, of id 5 "''123456''" 3]
    verify_challenge_decides[OF demo_challenged_row, of id 700000000 "''123456''" 3]
  by simp

text \<open>
  C14. Guessing is bounded by the attempts of the challenge: in any sequence of
  answers and resends, at most \<open>max_attempts\<close> minus the attempts already used are
  wrong answers that were compared with the digest; asking for a new code does
  not give attempts back.
\<close>

theorem otp_guesses_bounded:
  assumes "challenges s k = Some c" and "ch_attempts c \<le> ch_max_attempts c"
  shows "fst (play mac os k u es s) \<le> ch_max_attempts c - ch_attempts c"
proof -
  obtain d where "otp_evolves c d" "ch_attempts d = ch_attempts c + fst (play mac os k u es s)"
    using play_attempts[OF assms(1)] by blast
  with assms(2) show ?thesis by (auto simp: otp_evolves_def)
qed

theorem otp_guesses_bounded_witness:
  "fst (play id demo_settings 0 3 [Guess 1 ''111111'', Resend 70000000 ''222222'', Guess 2 ''333333'']
          demo_challenged) \<le> 3"
  using otp_guesses_bounded[OF demo_challenged_row,
      where mac = id and os = demo_settings and u = 3
        and es = "[Guess 1 ''111111'', Resend 70000000 ''222222'', Guess 2 ''333333'']"]
  by simp

text \<open>
  The text under the keyed digest binds a code to its challenge, user and
  purpose: two challenges give the same text only when all of these agree and the
  stripped codes are equal, so a digest is of no use against any other row.
\<close>

theorem hash_message_unambiguous:
  "hash_message k u p code = hash_message k' u' p' code' \<longleftrightarrow>
     k = k' \<and> u = u' \<and> p = p' \<and> py_strip code = py_strip code'"
proof -
  have d: "CHR '':'' \<notin> set (dec n)" for n by (rule dec_no_sep) simp
  have p: "CHR '':'' \<notin> set (purpose_text q)" for q by (cases q) (simp_all add: purpose_text_def)
  have i: "purpose_text q = purpose_text r \<longleftrightarrow> q = r" for q r
    by (cases q; cases r) (simp_all add: purpose_text_def)
  show ?thesis
    unfolding hash_message_def split_at_sep[OF d d] split_at_sep[OF p p] i by auto
qed

end
