(* ===== verification/Withdrawals.thy ===== *)
theory Withdrawals
  imports WithdrawalOtp
begin

section \<open>Withdrawal requests (\<open>views.py\<close>, \<open>admin.py\<close>, \<open>withdrawal_economics.py\<close>)\<close>

text \<open>
  A verified challenge becomes a withdrawal request together with the debit of its
  gross amount (\<open>_finalize\<close>); the commercial fee is a snapshot taken at that moment;
  administrators approve (twice above 1000 dollars) or reject with a refund. The
  rows of \<open>PayoutAttempt\<close>, which the next theory drives, live here because one
  database holds both tables. E-mails, logs and audit events are left out.
\<close>

subsection \<open>Rows\<close>

datatype attempt_status =
  PA_CREATED | PA_SUBMITTED | PA_PROCESSING | PA_COMPLETED | PA_FAILED | PA_UNKNOWN

definition NON_TERMINAL_STATUSES :: "attempt_status set" where
  "NON_TERMINAL_STATUSES = {PA_CREATED, PA_SUBMITTED, PA_PROCESSING, PA_UNKNOWN}"

definition TERMINAL_STATUSES :: "attempt_status set" where
  "TERMINAL_STATUSES = {PA_COMPLETED, PA_FAILED}"

text \<open>\<open>WR_OTHER\<close>: a text outside the choices of the column.\<close>

datatype wr_status =
  WR_PENDING | WR_APPROVED | WR_REJECTED | WR_PROCESSING | WR_COMPLETED | WR_FAILED | WR_OTHER attempt_status

record withdrawal =
  wr_user :: pk
  wr_amount :: rat
  wr_currency :: string
  wr_address :: string
  wr_status :: wr_status
  wr_fee_rate :: "rat option"
  wr_fee_amount :: "rat option"
  wr_net_amount :: "rat option"
  wr_np_batch_id :: string
  wr_np_payout_id :: string
  wr_np_status :: string
  wr_crypto_amount :: "rat option"
  wr_reviewed_by :: "pk option"
  wr_reviewed_at :: "int option"
  wr_debit_tx :: bool
  wr_otp :: "pk option"
  wr_required_approvals :: nat
  wr_first_approved_by :: "pk option"
  wr_second_approved_by :: "pk option"
  wr_created_at :: int

record payout_attempt =
  pa_wr :: pk
  pa_provider :: string
  pa_number :: nat
  pa_key :: string
  pa_request_id :: string
  pa_reference :: string
  pa_batch_id :: string
  pa_requested_usd :: rat
  pa_asset :: string
  pa_address :: string
  pa_provider_amount :: "rat option"
  pa_status :: attempt_status
  pa_submitted_at :: "int option"
  pa_acknowledged_at :: "int option"
  pa_completed_at :: "int option"
  pa_failed_at :: "int option"
  pa_verified_at :: "int option"
  pa_confirmed_amount :: "rat option"
  pa_tx_hash :: string
  pa_last_error :: string
  pa_raw_status :: string
  pa_checked_at :: "int option"
  pa_reconciled_at :: "int option"
  pa_updated_at :: int

record payout_db = otp_db +
  withdrawals :: "withdrawal table"
  next_withdrawal :: pk
  attempts :: "payout_attempt table"
  next_attempt :: pk
  fee_config :: "(rat \<times> bool) option"

subsection \<open>The fee (\<open>withdrawal_economics.py\<close>)\<close>

text \<open>\<open>WithdrawalFeeConfig.get_current\<close>: percent and enabled, created with the defaults when missing.\<close>

definition current_fee_config :: "'a payout_db_scheme \<Rightarrow> (rat \<times> bool) \<times> 'a payout_db_scheme" where
  "current_fee_config s =
     (case fee_config s of
        Some c \<Rightarrow> (c, s)
      | None \<Rightarrow> ((3/2, True), s\<lparr>fee_config := Some (3/2, True)\<rparr>))"

definition fee_terms :: "rat \<times> bool \<Rightarrow> rat \<Rightarrow> rat \<times> rat \<times> rat" where
  "fee_terms config gross =
     (let fee_rate = (if \<not> snd config then 0 else fst config);
          fee_amount = (if \<not> snd config then 0
                        else quantize_he 2 (dec_ctx (gross * fst config / 100)))
      in (fee_rate, fee_amount, gross - fee_amount))"

definition calculate_withdrawal_fee ::
  "rat \<Rightarrow> 'a payout_db_scheme \<Rightarrow> (rat \<times> rat \<times> rat) \<times> 'a payout_db_scheme" where
  "calculate_withdrawal_fee gross s =
     (case current_fee_config s of (config, s') \<Rightarrow> (fee_terms config gross, s'))"

definition record_withdrawal_fee_revenue ::
  "int \<Rightarrow> pk option \<times> withdrawal \<Rightarrow> 'a books_db_scheme
     \<Rightarrow> revenue_error + (broker_entry option \<times> 'a books_db_scheme)" where
  "record_withdrawal_fee_revenue now kw s =
     (case fst kw of
        None \<Rightarrow> Inl (RevenueValueError ''WithdrawalRequest must already be saved'')
      | Some k \<Rightarrow>
          (case wr_fee_amount (snd kw) of
             None \<Rightarrow> Inr (None, s)
           | Some fee \<Rightarrow>
               if fee = 0 then Inr (None, s)
               else map_sum id (apfst Some)
                 (as_duplicate (DuplicateWithdrawalFeeRevenue k)
                   (create_entry ((blank_entry REV_WITHDRAW_FEE fee now)\<lparr>bl_withdrawal := Some k\<rparr>) s))))"

definition withdraw_fee_row :: "pk option \<Rightarrow> broker_entry \<Rightarrow> bool" where
  "withdraw_fee_row k e \<longleftrightarrow> k \<noteq> None \<and> bl_type e = REV_WITHDRAW_FEE \<and> bl_withdrawal e = k"

lemma withdrawal_fee_writes:
  "record_withdrawal_fee_revenue now kw s = Inr (o', s') \<Longrightarrow>
     o' = None \<and> s' = s \<or>
     (\<exists>k fee e. fst kw = Some k \<and> wr_fee_amount (snd kw) = Some fee \<and> fee \<noteq> 0 \<and> o' = Some e \<and>
       create_entry ((blank_entry REV_WITHDRAW_FEE fee now)\<lparr>bl_withdrawal := Some k\<rparr>) s = Inr (e, s'))"
  by (auto simp: record_withdrawal_fee_revenue_def map_sum_apfst_Inr split: option.splits if_splits)

interpretation withdraw_fee_writer: revenue_writer
  "record_withdrawal_fee_revenue now" broker_ledger fst withdraw_fee_row for now
proof (unfold_locales, goal_cases)
  case (1 r s e s')
  obtain k fee where k: "fst r = Some k" and c: "create_entry ((blank_entry REV_WITHDRAW_FEE
      fee now)\<lparr>bl_withdrawal := Some k\<rparr>) s = Inr (e, s')"
    using withdrawal_fee_writes[OF 1] by auto
  show ?case
    using create_entry_first[OF c, of "withdraw_fee_row (fst r)"] k
    by (auto simp: withdraw_fee_row_def bl_conflict_def same_source_def)
next
  case (2 r s s')
  then show ?case using withdrawal_fee_writes[OF 2] by simp
qed (simp add: withdraw_fee_row_def)

subsection \<open>Creating a request (\<open>withdraw_otp_verify_view._finalize\<close>)\<close>

definition currency_by_asset_network :: "(string \<times> string) \<Rightarrow> string option" where
  "currency_by_asset_network an =
     map_of [((''USDT'', ''TRC20''), ''usdttrc20''), ((''BTC'', ''BTC_MAINNET''), ''btc'')] an"

datatype finalize_error = PendingWithdrawalExists | NothingToWithdraw | BelowMinimum | UnexpectedError

definition pending_of :: "pk \<Rightarrow> 'a payout_db_scheme \<Rightarrow> pk list" where
  "pending_of u s =
     rows_where (next_withdrawal s) (withdrawals s) (\<lambda>r. wr_user r = u \<and> wr_status r = WR_PENDING)"

definition new_withdrawal ::
  "int \<Rightarrow> pk \<Rightarrow> rat \<Rightarrow> string \<Rightarrow> string \<Rightarrow> pk \<Rightarrow> rat \<times> rat \<times> rat \<Rightarrow> withdrawal" where
  "new_withdrawal now u amount coin address otp fees =
     \<lparr>wr_user = u, wr_amount = col2 amount, wr_currency = coin, wr_address = address,
      wr_status = WR_PENDING, wr_fee_rate = Some (col2 (fst fees)),
      wr_fee_amount = Some (col2 (fst (snd fees))), wr_net_amount = Some (col2 (snd (snd fees))),
      wr_np_batch_id = '''', wr_np_payout_id = '''', wr_np_status = '''', wr_crypto_amount = None,
      wr_reviewed_by = None, wr_reviewed_at = None, wr_debit_tx = True, wr_otp = Some otp,
      wr_required_approvals = (if 1000 < amount then 2 else 1), wr_first_approved_by = None,
      wr_second_approved_by = None, wr_created_at = now\<rparr>"

definition insert_withdrawal :: "withdrawal \<Rightarrow> 'a payout_db_scheme \<Rightarrow> pk \<times> 'a payout_db_scheme" where
  "insert_withdrawal r s =
     (next_withdrawal s, s\<lparr>next_withdrawal := Suc (next_withdrawal s),
                           withdrawals := (withdrawals s)(next_withdrawal s \<mapsto> r)\<rparr>)"

text \<open>The body of the atomic block, from the amount on, with the wallet row locked.\<close>

definition debit_and_create ::
  "int \<Rightarrow> pk \<Rightarrow> pk \<Rightarrow> rat \<Rightarrow> pk \<times> challenge \<Rightarrow> 'a payout_db_scheme
     \<Rightarrow> finalize_error + (pk \<times> 'a payout_db_scheme)" where
  "debit_and_create now u w amount kc s =
     (case currency_by_asset_network (ch_asset (snd kc), ch_network (snd kc)) of
        None \<Rightarrow> Inl UnexpectedError
      | Some coin \<Rightarrow>
        (case calculate_withdrawal_fee amount s of (fees, s1) \<Rightarrow>
        (case debit_wallet w amount TX_WITHDRAW None s1 of
           Inl (InsufficientFunds _ _) \<Rightarrow> Inl NothingToWithdraw
         | Inl _ \<Rightarrow> Inl UnexpectedError
         | Inr (tx, s2) \<Rightarrow>
             if rows_where (next_withdrawal s2) (withdrawals s2) (\<lambda>r. wr_otp r = Some (fst kc)) \<noteq> []
             then Inl UnexpectedError
             else (case insert_withdrawal
                      (new_withdrawal now u amount coin (ch_address (snd kc)) (fst kc) fees) s2 of
                     (k, s3) \<Rightarrow>
                   (case mark_challenge_used now kc s3 of
                      Inl _ \<Rightarrow> Inl UnexpectedError
                    | Inr s4 \<Rightarrow> Inr (k, s4))))))"

definition finalize_withdrawal ::
  "int \<Rightarrow> pk \<Rightarrow> pk \<times> challenge \<Rightarrow> 'a payout_db_scheme \<Rightarrow> (finalize_error + pk) \<times> 'a payout_db_scheme" where
  "finalize_withdrawal now u kc s =
     (case get_or_create_wallet u s of ((w, created), s0) \<Rightarrow>
      (case wallets s0 w of
         None \<Rightarrow> (Inl UnexpectedError, s0)
       | Some row \<Rightarrow>
           if pending_of u s0 \<noteq> [] then (Inl PendingWithdrawalExists, s0)
           else (case (if ch_withdraw_all (snd kc) then Some (available_balance row)
                       else ch_amount (snd kc)) of
                   None \<Rightarrow> (Inl NothingToWithdraw, s0)
                 | Some amount \<Rightarrow>
                     if amount \<le> 0 then (Inl NothingToWithdraw, s0)
                     else if amount < 20 then (Inl BelowMinimum, s0)
                     else (case debit_and_create now u w amount kc s0 of
                             Inl e \<Rightarrow> (Inl e, s0)
                           | Inr (k, s1) \<Rightarrow> (Inr k, s1)))))"

subsection \<open>Administrators (\<open>admin.py\<close>)\<close>

definition update_withdrawal ::
  "pk \<Rightarrow> (withdrawal \<Rightarrow> withdrawal) \<Rightarrow> 'a payout_db_scheme \<Rightarrow> 'a payout_db_scheme" where
  "update_withdrawal k f s = s\<lparr>withdrawals := update_row k f (withdrawals s)\<rparr>"

datatype approval = Approved | Refused string

definition apply_second_approval ::
  "pk \<Rightarrow> pk \<Rightarrow> 'a payout_db_scheme \<Rightarrow> approval option \<times> 'a payout_db_scheme" where
  "apply_second_approval k actor s =
     (case withdrawals s k of
        None \<Rightarrow> (None, s)
      | Some r \<Rightarrow>
          if wr_status r \<noteq> WR_PENDING then (Some (Refused ''not pending''), s)
          else if wr_required_approvals r \<le> 1 then (Some Approved, s)
          else if wr_first_approved_by r = None then (Some (Refused ''first approval missing''), s)
          else if wr_first_approved_by r = Some actor then (Some (Refused ''same admin''), s)
          else (Some Approved,
                if wr_second_approved_by r = None
                then update_withdrawal k (\<lambda>r. r\<lparr>wr_second_approved_by := Some actor\<rparr>) s else s))"

definition first_approve :: "pk \<Rightarrow> pk \<Rightarrow> 'a payout_db_scheme \<Rightarrow> 'a payout_db_scheme" where
  "first_approve k actor s =
     (case withdrawals s k of
        None \<Rightarrow> s
      | Some r \<Rightarrow>
          if wr_status r \<noteq> WR_PENDING then s
          else if wr_required_approvals r \<le> 1 then s
          else if wr_first_approved_by r \<noteq> None then s
          else update_withdrawal k (\<lambda>r. r\<lparr>wr_first_approved_by := Some actor\<rparr>) s)"

text \<open>
  One row of \<open>reject_withdrawals\<close>: the wallet preview commits on its own; the rest
  is one transaction, rolled back when the refund raises.
\<close>

definition reject_withdrawal :: "int \<Rightarrow> pk \<Rightarrow> pk \<Rightarrow> pk \<Rightarrow> 'a payout_db_scheme \<Rightarrow> bool \<times> 'a payout_db_scheme" where
  "reject_withdrawal now k owner admin s =
     (case get_or_create_wallet owner s of ((w, created), s0) \<Rightarrow>
      (case withdrawals s0 k of
         None \<Rightarrow> (False, s0)
       | Some r \<Rightarrow>
           if wr_status r \<noteq> WR_PENDING then (False, s0)
           else (case credit_wallet w (wr_amount r) TX_CORRECTION None None
                    (update_withdrawal k (\<lambda>r. r\<lparr>wr_status := WR_REJECTED, wr_reviewed_by := Some admin,
                       wr_reviewed_at := Some now\<rparr>) s0) of
                   Inl e \<Rightarrow> (False, s0)
                 | Inr (tx, s1) \<Rightarrow> (True, s1))))"

subsection \<open>Facts\<close>

lemma update_withdrawal_frame [simp]:
  "wallets (update_withdrawal k f s) = wallets s"
  "wallet_txs (update_withdrawal k f s) = wallet_txs s"
  "next_wallet (update_withdrawal k f s) = next_wallet s"
  "user_wallet (update_withdrawal k f s) = user_wallet s"
  "accounts (update_withdrawal k f s) = accounts s"
  "ledger (update_withdrawal k f s) = ledger s"
  "broker_ledger (update_withdrawal k f s) = broker_ledger s"
  "attempts (update_withdrawal k f s) = attempts s"
  "next_attempt (update_withdrawal k f s) = next_attempt s"
  "next_withdrawal (update_withdrawal k f s) = next_withdrawal s"
  "challenges (update_withdrawal k f s) = challenges s"
  "withdrawals s k = Some r \<Longrightarrow> withdrawals (update_withdrawal k f s) = (withdrawals s)(k \<mapsto> f r)"
  by (simp_all add: update_withdrawal_def)

lemma withdrawals_update: "withdrawals (update_withdrawal k f s) j =
    (if j = k then map_option f (withdrawals s k) else withdrawals s j)"
  by (simp add: update_withdrawal_def update_row_apply)

lemma fee_config_frame [simp]:
  "wallets (snd (current_fee_config s)) = wallets s"
  "wallet_txs (snd (current_fee_config s)) = wallet_txs s"
  "next_wallet (snd (current_fee_config s)) = next_wallet s"
  "user_wallet (snd (current_fee_config s)) = user_wallet s"
  "withdrawals (snd (current_fee_config s)) = withdrawals s"
  "next_withdrawal (snd (current_fee_config s)) = next_withdrawal s"
  "attempts (snd (current_fee_config s)) = attempts s"
  "next_attempt (snd (current_fee_config s)) = next_attempt s"
  "challenges (snd (current_fee_config s)) = challenges s"
  by (simp_all add: current_fee_config_def split: option.splits)

text \<open>The wallet operations leave the payout tables alone.\<close>

lemma post_wallet_payout_frame:
  assumes "post_wallet w a nb kind dep x row s = (tx, s')"
  shows "withdrawals s' = withdrawals s" "next_withdrawal s' = next_withdrawal s"
    "attempts s' = attempts s" "next_attempt s' = next_attempt s" "challenges s' = challenges s"
    "fee_config s' = fee_config s" "broker_ledger s' = broker_ledger s"
  unfolding post_wallet_state[OF assms] by simp_all

lemma get_wallet_payout_frame [simp]:
  "withdrawals (snd (get_or_create_wallet u s)) = withdrawals s"
  "next_withdrawal (snd (get_or_create_wallet u s)) = next_withdrawal s"
  "attempts (snd (get_or_create_wallet u s)) = attempts s"
  "next_attempt (snd (get_or_create_wallet u s)) = next_attempt s"
  "broker_ledger (snd (get_or_create_wallet u s)) = broker_ledger s"
  by (simp_all add: get_or_create_wallet_def Let_def split: option.splits)

lemma fee_terms_sum: "fee_terms c g = (r, f, n) \<Longrightarrow> f + n = g"
  by (auto simp: fee_terms_def Let_def)

lemma fee_terms_bounds:
  assumes "fee_terms c g = (r, f, n)" "cents g" "0 \<le> g" "0 \<le> fst c" "fst c \<le> 100"
    and "dec_ctx g = g"
  shows "0 \<le> f" "0 \<le> n"
proof -
  have q: "quantize_he 2 g = g"
  proof -
    obtain k where "g = of_int k / 100" using assms(2) by (auto simp: cents_iff)
    then show ?thesis using quantize_he_int_div[of 2 k] by (simp only: power2_eq_square) simp
  qed
  have up: "g * fst c / 100 \<le> g" using assms(3,5) mult_left_mono[of "fst c" 100 g] by simp
  have "0 \<le> quantize_he 2 (dec_ctx (g * fst c / 100))"
    using assms(3,4) by (intro qhe.nonneg dctx.nonneg) simp
  moreover have "quantize_he 2 (dec_ctx (g * fst c / 100)) \<le> g"
    using qhe.le_repr[OF q] dctx.le_repr[OF assms(6) up] by simp
  ultimately show "0 \<le> f" "0 \<le> n" using assms(1,3) by (auto simp: fee_terms_def Let_def split: if_splits)
qed

end
