(* ===== verification/PayoutStateMachine.thy ===== *)
theory PayoutStateMachine
  imports Withdrawals
begin

section \<open>Payout attempts (\<open>simulator/payout_state_machine.py\<close>)\<close>

text \<open>
  The state machine of one attempt to pay a withdrawal through a provider, the
  mapping of its status to the status of the withdrawal, and the only way to create
  an attempt. The caller holds the row locks, so the in-memory copy it passes is the
  row; \<open>save()\<close> writes that copy.
\<close>

datatype payout_error =
  InvalidPayoutAttemptTransition attempt_status attempt_status
| ActivePayoutAttemptExists
| WithdrawalAlreadyClaimed
| EstimateFailed
| PayoutVerificationError string
| NoStatusMapping attempt_status
| RowMissing string
| WalletFailure wallet_error
| NoAdapter string
| ProviderFailure string

subsection \<open>Transitions\<close>

definition allowed_transitions :: "attempt_status \<Rightarrow> attempt_status set" where
  "allowed_transitions a =
     (case a of
        PA_CREATED \<Rightarrow> {PA_SUBMITTED}
      | PA_SUBMITTED \<Rightarrow> {PA_PROCESSING, PA_UNKNOWN, PA_FAILED}
      | PA_PROCESSING \<Rightarrow> {PA_COMPLETED, PA_FAILED}
      | PA_UNKNOWN \<Rightarrow> {PA_PROCESSING, PA_COMPLETED, PA_FAILED}
      | PA_COMPLETED \<Rightarrow> {}
      | PA_FAILED \<Rightarrow> {})"

definition moved_attempt ::
  "int \<Rightarrow> attempt_status \<Rightarrow> string \<Rightarrow> string \<Rightarrow> payout_attempt \<Rightarrow> payout_attempt" where
  "moved_attempt now new reason raw a =
     (let a1 = a\<lparr>pa_status := new\<rparr>;
          a2 = (if reason \<noteq> '''' then a1\<lparr>pa_last_error := reason\<rparr> else a1);
          a3 = (if raw \<noteq> '''' then a2\<lparr>pa_raw_status := raw\<rparr> else a2);
          a4 = (if new = PA_PROCESSING then a3\<lparr>pa_acknowledged_at := Some now\<rparr>
                else if new = PA_COMPLETED then a3\<lparr>pa_completed_at := Some now\<rparr>
                else if new = PA_FAILED then a3\<lparr>pa_failed_at := Some now\<rparr>
                else a3)
      in a4\<lparr>pa_updated_at := now\<rparr>)"

definition transition_payout_attempt ::
  "int \<Rightarrow> attempt_status \<Rightarrow> string \<Rightarrow> string \<Rightarrow> bool \<Rightarrow> pk \<times> payout_attempt \<Rightarrow> 'a payout_db_scheme
     \<Rightarrow> payout_error + (payout_attempt \<times> 'a payout_db_scheme)" where
  "transition_payout_attempt now new reason raw pre_send ka s =
     (let cur = pa_status (snd ka) in
      if new \<notin> allowed_transitions cur then Inl (InvalidPayoutAttemptTransition cur new)
      else if cur = PA_SUBMITTED \<and> new = PA_FAILED \<and> \<not> pre_send
      then Inl (InvalidPayoutAttemptTransition cur new)
      else let a' = moved_attempt now new reason raw (snd ka)
           in Inr (a', s\<lparr>attempts := (attempts s)(fst ka \<mapsto> a')\<rparr>))"

definition is_submitted_aged :: "payout_attempt \<Rightarrow> int \<Rightarrow> int \<Rightarrow> bool" where
  "is_submitted_aged a threshold_seconds now =
     (case pa_submitted_at a of
        None \<Rightarrow> False
      | Some t \<Rightarrow> pa_status a = PA_SUBMITTED \<and> threshold_seconds * second_us \<le> now - t)"

subsection \<open>Status of the withdrawal\<close>

definition derive_withdrawal_status :: "attempt_status \<Rightarrow> payout_error + wr_status" where
  "derive_withdrawal_status a =
     (case a of
        PA_SUBMITTED \<Rightarrow> Inr WR_PROCESSING
      | PA_PROCESSING \<Rightarrow> Inr WR_PROCESSING
      | PA_UNKNOWN \<Rightarrow> Inr WR_PROCESSING
      | PA_COMPLETED \<Rightarrow> Inr WR_COMPLETED
      | PA_FAILED \<Rightarrow> Inr WR_FAILED
      | PA_CREATED \<Rightarrow> Inl (NoStatusMapping PA_CREATED))"

definition sync_withdrawal_request_status ::
  "pk \<Rightarrow> attempt_status \<Rightarrow> 'a payout_db_scheme \<Rightarrow> payout_error + 'a payout_db_scheme" where
  "sync_withdrawal_request_status k ps s =
     (case derive_withdrawal_status ps of
        Inl e \<Rightarrow> Inl e
      | Inr new \<Rightarrow>
          (case withdrawals s k of
             None \<Rightarrow> Inl (RowMissing ''WithdrawalRequest'')
           | Some r \<Rightarrow>
               Inr (if wr_status r \<noteq> new then update_withdrawal k (\<lambda>r. r\<lparr>wr_status := new\<rparr>) s else s)))"

subsection \<open>Creation\<close>

definition attempts_of :: "pk \<Rightarrow> (payout_attempt \<Rightarrow> bool) \<Rightarrow> 'a payout_db_scheme \<Rightarrow> pk list" where
  "attempts_of w P s = rows_where (next_attempt s) (attempts s) (\<lambda>a. pa_wr a = w \<and> P a)"

definition attempt_row :: "'a payout_db_scheme \<Rightarrow> pk \<Rightarrow> payout_attempt" where
  "attempt_row s k = the (attempts s k)"

definition next_attempt_number :: "pk \<Rightarrow> 'a payout_db_scheme \<Rightarrow> nat" where
  "next_attempt_number w s =
     Suc (fold max (map (\<lambda>k. pa_number (attempt_row s k)) (attempts_of w (\<lambda>_. True) s)) 0)"

definition make_idempotency_key :: "pk \<Rightarrow> nat \<Rightarrow> string" where
  "make_idempotency_key w n = ''moneybroker-wr'' @ dec w @ ''-attempt'' @ dec n"

definition new_attempt ::
  "int \<Rightarrow> pk \<Rightarrow> nat \<Rightarrow> string \<Rightarrow> string \<Rightarrow> string \<Rightarrow> rat \<Rightarrow> payout_attempt" where
  "new_attempt now w n provider asset address usd =
     \<lparr>pa_wr = w, pa_provider = provider, pa_number = n, pa_key = make_idempotency_key w n,
      pa_request_id = make_idempotency_key w n, pa_reference = '''', pa_batch_id = '''',
      pa_requested_usd = col2 usd, pa_asset = asset, pa_address = address, pa_provider_amount = None,
      pa_status = PA_SUBMITTED, pa_submitted_at = Some now, pa_acknowledged_at = None,
      pa_completed_at = None, pa_failed_at = None, pa_verified_at = None, pa_confirmed_amount = None,
      pa_tx_hash = '''', pa_last_error = '''', pa_raw_status = '''', pa_checked_at = None,
      pa_reconciled_at = None, pa_updated_at = now\<rparr>"

definition insert_attempt :: "payout_attempt \<Rightarrow> 'a payout_db_scheme \<Rightarrow> 'a payout_db_scheme" where
  "insert_attempt a s =
     s\<lparr>next_attempt := Suc (next_attempt s), attempts := (attempts s)(next_attempt s \<mapsto> a)\<rparr>"

definition create_and_submit_payout_attempt ::
  "int \<Rightarrow> pk \<Rightarrow> string \<Rightarrow> string \<Rightarrow> string \<Rightarrow> rat \<Rightarrow> 'a payout_db_scheme
     \<Rightarrow> payout_error + (pk \<times> 'a payout_db_scheme)" where
  "create_and_submit_payout_attempt now w provider asset address usd s =
     (case withdrawals s w of
        None \<Rightarrow> Inl (RowMissing ''WithdrawalRequest'')
      | Some r \<Rightarrow>
          if attempts_of w (\<lambda>a. pa_status a \<in> NON_TERMINAL_STATUSES) s \<noteq> []
          then Inl ActivePayoutAttemptExists
          else (case sync_withdrawal_request_status w PA_SUBMITTED
                   (insert_attempt (new_attempt now w (next_attempt_number w s) provider asset address usd) s) of
                  Inl e \<Rightarrow> Inl e
                | Inr s' \<Rightarrow> Inr (next_attempt s, s')))"

subsection \<open>Facts\<close>

lemma moved_attempt_simps [simp]:
  "pa_status (moved_attempt now new reason raw a) = new"
  "pa_wr (moved_attempt now new reason raw a) = pa_wr a"
  "pa_provider (moved_attempt now new reason raw a) = pa_provider a"
  "pa_number (moved_attempt now new reason raw a) = pa_number a"
  "pa_key (moved_attempt now new reason raw a) = pa_key a"
  "pa_reference (moved_attempt now new reason raw a) = pa_reference a"
  "pa_batch_id (moved_attempt now new reason raw a) = pa_batch_id a"
  "pa_provider_amount (moved_attempt now new reason raw a) = pa_provider_amount a"
  by (simp_all add: moved_attempt_def Let_def)

lemma transition_Inr:
  "transition_payout_attempt now new reason raw pre ka s = Inr (a', s') \<longleftrightarrow>
     new \<in> allowed_transitions (pa_status (snd ka))
     \<and> (pa_status (snd ka) = PA_SUBMITTED \<and> new = PA_FAILED \<longrightarrow> pre)
     \<and> a' = moved_attempt now new reason raw (snd ka)
     \<and> s' = s\<lparr>attempts := (attempts s)(fst ka \<mapsto> a')\<rparr>"
  by (auto simp: transition_payout_attempt_def Let_def)

lemma allowed_from_terminal: "a \<in> TERMINAL_STATUSES \<Longrightarrow> allowed_transitions a = {}"
  by (auto simp: TERMINAL_STATUSES_def allowed_transitions_def)

lemma derive_never_pending: "derive_withdrawal_status a = Inr w \<Longrightarrow> w \<in> {WR_PROCESSING, WR_COMPLETED, WR_FAILED}"
  by (cases a) (auto simp: derive_withdrawal_status_def)

lemma sync_Inr:
  "sync_withdrawal_request_status k ps s = Inr s' \<longleftrightarrow>
     (\<exists>new r. derive_withdrawal_status ps = Inr new \<and> withdrawals s k = Some r
        \<and> s' = (if wr_status r \<noteq> new then update_withdrawal k (\<lambda>r. r\<lparr>wr_status := new\<rparr>) s else s))"
  by (auto simp: sync_withdrawal_request_status_def split: sum.splits option.splits)

lemma sync_withdrawals:
  assumes "sync_withdrawal_request_status k ps s = Inr s'"
  obtains new r where "derive_withdrawal_status ps = Inr new" "withdrawals s k = Some r"
    "withdrawals s' = (withdrawals s)(k \<mapsto> r\<lparr>wr_status := new\<rparr>)"
proof -
  obtain new r where n: "derive_withdrawal_status ps = Inr new" "withdrawals s k = Some r"
    and s': "s' = (if wr_status r \<noteq> new then update_withdrawal k (\<lambda>r. r\<lparr>wr_status := new\<rparr>) s else s)"
    using assms by (auto simp: sync_Inr)
  have "withdrawals s' = (withdrawals s)(k \<mapsto> r\<lparr>wr_status := new\<rparr>)"
  proof (cases "wr_status r = new")
    case True
    then have "r\<lparr>wr_status := new\<rparr> = r" by simp
    with n(2) True show ?thesis by (simp add: s' fun_upd_idem)
  qed (use n s' in simp)
  with n that show thesis by blast
qed

lemma sync_frame:
  assumes "sync_withdrawal_request_status k ps s = Inr s'"
  shows "attempts s' = attempts s" "next_attempt s' = next_attempt s" "wallets s' = wallets s"
    "wallet_txs s' = wallet_txs s" "next_wallet s' = next_wallet s" "user_wallet s' = user_wallet s"
    "next_withdrawal s' = next_withdrawal s" "broker_ledger s' = broker_ledger s"
    "accounts s' = accounts s" "challenges s' = challenges s" "ledger s' = ledger s"
  using assms by (auto simp: sync_Inr update_withdrawal_def)

lemma insert_attempt_simps [simp]:
  "attempts (insert_attempt a s) = (attempts s)(next_attempt s \<mapsto> a)"
  "next_attempt (insert_attempt a s) = Suc (next_attempt s)"
  "withdrawals (insert_attempt a s) = withdrawals s"
  "next_withdrawal (insert_attempt a s) = next_withdrawal s"
  "wallets (insert_attempt a s) = wallets s" "wallet_txs (insert_attempt a s) = wallet_txs s"
  "next_wallet (insert_attempt a s) = next_wallet s" "user_wallet (insert_attempt a s) = user_wallet s"
  "broker_ledger (insert_attempt a s) = broker_ledger s" "accounts (insert_attempt a s) = accounts s"
  "challenges (insert_attempt a s) = challenges s"
  by (simp_all add: insert_attempt_def)

lemma fold_max_ge: "x \<in> set xs \<or> x \<le> m \<Longrightarrow> x \<le> fold max xs (m :: nat)"
proof (induction xs arbitrary: m)
  case (Cons y ys)
  then show ?case using Cons.IH[of "max y m"] by (auto simp: le_max_iff_disj)
qed auto

text \<open>The next number is above every number in use for that withdrawal.\<close>

lemma next_attempt_number_fresh:
  assumes "attempts s k = Some a" "k < next_attempt s" "pa_wr a = w"
  shows "pa_number a < next_attempt_number w s"
proof -
  have "k \<in> set (attempts_of w (\<lambda>_. True) s)" using assms by (simp add: attempts_of_def set_rows_where)
  then have "pa_number a \<in> set (map (\<lambda>k. pa_number (attempt_row s k)) (attempts_of w (\<lambda>_. True) s))"
    using assms(1) by (force simp: attempt_row_def)
  then show ?thesis unfolding next_attempt_number_def by (intro le_imp_less_Suc fold_max_ge) blast
qed

lemma create_and_submit_Inr:
  assumes "create_and_submit_payout_attempt now w provider asset address usd s = Inr (k, s')"
  obtains r where "withdrawals s w = Some r" "k = next_attempt s"
    "attempts_of w (\<lambda>a. pa_status a \<in> NON_TERMINAL_STATUSES) s = []"
    "attempts s' = (attempts s)(k \<mapsto>
       new_attempt now w (next_attempt_number w s) provider asset address usd)"
    "next_attempt s' = Suc k" "withdrawals s' = (withdrawals s)(w \<mapsto> r\<lparr>wr_status := WR_PROCESSING\<rparr>)"
    "wallets s' = wallets s" "user_wallet s' = user_wallet s" "next_withdrawal s' = next_withdrawal s"
    "next_wallet s' = next_wallet s" "wallet_txs s' = wallet_txs s"
proof -
  let ?a = "new_attempt now w (next_attempt_number w s) provider asset address usd"
  obtain r where r: "withdrawals s w = Some r"
    and n: "attempts_of w (\<lambda>a. pa_status a \<in> NON_TERMINAL_STATUSES) s = []" "k = next_attempt s"
    and sy: "sync_withdrawal_request_status w PA_SUBMITTED (insert_attempt ?a s) = Inr s'"
    using assms
    by (auto simp: create_and_submit_payout_attempt_def split: option.splits if_splits sum.splits)
  obtain new r' where "derive_withdrawal_status PA_SUBMITTED = Inr new"
    "withdrawals (insert_attempt ?a s) w = Some r'"
    "withdrawals s' = (withdrawals (insert_attempt ?a s))(w \<mapsto> r'\<lparr>wr_status := new\<rparr>)"
    using sync_withdrawals[OF sy] by metis
  then have "withdrawals s' = (withdrawals s)(w \<mapsto> r\<lparr>wr_status := WR_PROCESSING\<rparr>)"
    using r by (simp add: derive_withdrawal_status_def)
  then show thesis using that[OF r n(2,1)] sync_frame[OF sy] n(2) by simp
qed

subsection \<open>Properties\<close>


text \<open>
  The internal idempotency key identifies the pair of withdrawal and attempt
  number: two keys are equal exactly when both numbers are, and the number given to a
  new attempt is larger than that of every existing attempt of the withdrawal, so no
  two attempts ever share a key.
\<close>

theorem idempotency_keys_distinct:
  assumes "\<forall>k \<ge> next_attempt s. attempts s k = None"
  shows "(make_idempotency_key w n = make_idempotency_key w' n' \<longleftrightarrow> w = w' \<and> n = n')
    \<and> (\<forall>k a. attempts s k = Some a \<and> pa_key a = make_idempotency_key (pa_wr a) (pa_number a) \<longrightarrow>
         pa_key a \<noteq> make_idempotency_key w (next_attempt_number w s))"
proof -
  have d: "CHR ''-'' \<notin> set (dec i)" for i by (rule dec_no_sep) simp
  have eq: "make_idempotency_key w n = make_idempotency_key w' n' \<longleftrightarrow> w = w' \<and> n = n'" for w n w' n'
    using split_at_sep[OF d d, of w "''attempt'' @ dec n" w' "''attempt'' @ dec n'"]
    by (simp add: make_idempotency_key_def)
  have "pa_number a < next_attempt_number w s" if "attempts s k = Some a" "pa_wr a = w" for k a
    using next_attempt_number_fresh[OF that(1) _ that(2)] assms that(1) by (metis not_le option.distinct(1))
  with eq show ?thesis by fastforce
qed

definition demo_wr :: withdrawal where
  "demo_wr = \<lparr>wr_user = 3, wr_amount = 100, wr_currency = ''btc'', wr_address = ''addr'',
     wr_status = WR_PENDING, wr_fee_rate = Some (3/2), wr_fee_amount = Some (3/2),
     wr_net_amount = Some (197/2), wr_np_batch_id = '''', wr_np_payout_id = '''', wr_np_status = '''',
     wr_crypto_amount = None, wr_reviewed_by = None, wr_reviewed_at = None, wr_debit_tx = True,
     wr_otp = None, wr_required_approvals = 1, wr_first_approved_by = None,
     wr_second_approved_by = None, wr_created_at = 0\<rparr>"

definition demo_payouts :: payout_db where
  "demo_payouts = otp_db.extend (otp_db.truncate demo_otp)
     \<lparr>withdrawals = [0 \<mapsto> demo_wr], next_withdrawal = 1, attempts = Map.empty, next_attempt = 0,
      fee_config = Some (3/2, True)\<rparr>"

lemma demo_payouts_simps [simp]:
  "withdrawals demo_payouts = [0 \<mapsto> demo_wr]" "next_withdrawal demo_payouts = 1"
  "attempts demo_payouts = Map.empty" "next_attempt demo_payouts = 0"
  by (simp_all add: demo_payouts_def otp_db.defs)

theorem idempotency_keys_distinct_witness:
  "make_idempotency_key 1 12 \<noteq> make_idempotency_key 11 2"
  using idempotency_keys_distinct[of demo_payouts 1 12 11 2] by simp

definition demo_attempt :: "attempt_status \<Rightarrow> payout_attempt" where
  "demo_attempt st = (new_attempt 5 0 1 ''nowpayments'' ''btc'' ''addr'' (197/2))\<lparr>pa_status := st\<rparr>"


end
