(* ===== verification/FundedPayouts.thy ===== *)
theory FundedPayouts
  imports PayoutStateMachine
begin

section \<open>Payouts of funded accounts (\<open>funded_payouts.py\<close>, \<open>funded_economics.py\<close>)\<close>

text \<open>
  A funded trader's profit share is paid either into the wallet (FUNDED_SIM, one
  transaction) or on chain (FUNDED_INTERNAL: the account is debited first, the
  provider is called outside the transaction, and a webhook settles or reverses
  later). The provider's HTTP interface is the parameter \<open>np_api\<close>: each call returns
  what the standard client returns or the failure it raises. Audit events and
  e-mails are left out.
\<close>

subsection \<open>The provider's interface (\<open>nowpayments.py\<close>)\<close>

datatype post_failure = TimeoutFailure | ConnectionFailure | HttpFailure nat | OtherFailure

text \<open>
  The body of a payout response: batch id, top-level status, and id and status of
  each withdrawal in it. A call that returns \<open>Inr None\<close> got a body of another shape.
\<close>

record np_body =
  nb_id :: string
  nb_status :: string
  nb_withdrawals :: "(string \<times> string) list"

record np_api =
  np_estimate :: "rat \<Rightarrow> string \<Rightarrow> string + rat"
  np_token :: "string + string"
  np_post :: "string \<Rightarrow> string \<Rightarrow> rat option \<Rightarrow> pk \<Rightarrow> post_failure + np_body option"
  np_verify :: "string \<Rightarrow> string \<Rightarrow> post_failure option"

subsection \<open>Rows\<close>

datatype funded_type = FUNDED_SIM | FUNDED_INTERNAL

datatype fpr_status =
  FR_PENDING | FR_APPROVED | FR_PROCESSING | FR_COMPLETED | FR_REJECTED | FR_FAILED | FR_CANCELLED

definition TERMINAL_FPR :: "fpr_status set" where
  "TERMINAL_FPR = {FR_COMPLETED, FR_FAILED, FR_REJECTED, FR_CANCELLED}"

record funded_request =
  fr_account :: pk
  fr_user :: pk
  fr_cycle_profit :: rat
  fr_trader_cut :: rat
  fr_broker_cut :: rat
  fr_type :: funded_type
  fr_currency :: string
  fr_address :: string
  fr_ledger_entry :: "nat option"
  fr_wallet_tx :: "nat option"
  fr_withdrawal :: "pk option"
  fr_cycle_reset_at :: "int option"
  fr_status :: fpr_status
  fr_reviewed_by :: "pk option"
  fr_reviewed_at :: "int option"
  fr_admin_note :: string

record funded_db = payout_db +
  funded_requests :: "funded_request table"
  next_funded :: pk

datatype funded_error =
  FundedPayoutAlreadyProcessed fpr_status
| FundedValueError string
| InsufficientFundedBalance rat rat
| FundedRowMissing string
| FundedWalletFailure wallet_error
| FundedProviderFailure string

subsection \<open>The broker's share (\<open>funded_economics.py\<close>)\<close>

definition record_funded_broker_cut_revenue ::
  "int \<Rightarrow> pk option \<times> funded_request \<Rightarrow> 'a books_db_scheme
     \<Rightarrow> revenue_error + (broker_entry option \<times> 'a books_db_scheme)" where
  "record_funded_broker_cut_revenue now kf s =
     (case fst kf of
        None \<Rightarrow> Inl (RevenueValueError ''FundedPayoutRequest must already be saved'')
      | Some k \<Rightarrow>
          if fr_broker_cut (snd kf) = 0 then Inr (None, s)
          else map_sum id (apfst Some)
            (as_duplicate (DuplicateFundedProfitShareRevenue k)
              (create_entry ((blank_entry REV_FUNDED_PROFIT_SHARE (fr_broker_cut (snd kf)) now)
                 \<lparr>bl_account := Some (fr_account (snd kf)), bl_funded := Some k\<rparr>) s)))"

definition funded_share_row :: "pk option \<Rightarrow> broker_entry \<Rightarrow> bool" where
  "funded_share_row k e \<longleftrightarrow> k \<noteq> None \<and> bl_type e = REV_FUNDED_PROFIT_SHARE \<and> bl_funded e = k"

lemma funded_share_writes:
  "record_funded_broker_cut_revenue now kf s = Inr (o', s') \<Longrightarrow>
     o' = None \<and> s' = s \<or>
     (\<exists>k e. fst kf = Some k \<and> o' = Some e \<and> fr_broker_cut (snd kf) \<noteq> 0 \<and>
       create_entry ((blank_entry REV_FUNDED_PROFIT_SHARE (fr_broker_cut (snd kf)) now)
         \<lparr>bl_account := Some (fr_account (snd kf)), bl_funded := Some k\<rparr>) s = Inr (e, s'))"
  by (auto simp: record_funded_broker_cut_revenue_def map_sum_apfst_Inr split: option.splits if_splits)

interpretation funded_share_writer: revenue_writer
  "record_funded_broker_cut_revenue now" broker_ledger fst funded_share_row for now
proof (unfold_locales, goal_cases)
  case (1 r s e s')
  obtain k where k: "fst r = Some k" and c: "create_entry
      ((blank_entry REV_FUNDED_PROFIT_SHARE (fr_broker_cut (snd r)) now)
         \<lparr>bl_account := Some (fr_account (snd r)), bl_funded := Some k\<rparr>) s = Inr (e, s')"
    using funded_share_writes[OF 1] by auto
  show ?case
    using create_entry_first[OF c, of "funded_share_row (fst r)"] k
    by (auto simp: funded_share_row_def bl_conflict_def same_source_def)
next
  case (2 r s s')
  then show ?case using funded_share_writes[OF 2] by simp
qed (simp add: funded_share_row_def)

text \<open>\<open>except DuplicateFundedProfitShareRevenue\<close>: logged, nothing written.\<close>

definition book_broker_cut :: "int \<Rightarrow> pk \<Rightarrow> funded_request \<Rightarrow> 'a books_db_scheme \<Rightarrow> 'a books_db_scheme" where
  "book_broker_cut now k f s =
     (case record_funded_broker_cut_revenue now (Some k, f) s of Inl _ \<Rightarrow> s | Inr (_, s') \<Rightarrow> s')"

subsection \<open>Shared writes\<close>

definition update_funded :: "pk \<Rightarrow> (funded_request \<Rightarrow> funded_request) \<Rightarrow> 'a funded_db_scheme \<Rightarrow> 'a funded_db_scheme" where
  "update_funded k f s = s\<lparr>funded_requests := update_row k f (funded_requests s)\<rparr>"

text \<open>Set balance and equity of the account to a new balance and append the ledger row.\<close>

definition set_balance ::
  "int \<Rightarrow> pk \<Rightarrow> rat \<Rightarrow> ledger_event \<Rightarrow> rat \<Rightarrow> (string \<times> meta_value) list
     \<Rightarrow> 'a db_scheme \<Rightarrow> 'a db_scheme" where
  "set_balance now acc new ev amount meta s =
     add_ledger \<lparr>le_account = acc, le_event = ev, le_amount = col2 amount, le_balance_after = col2 new,
                 le_meta = meta, le_created_at = now\<rparr>
       (update_account acc (\<lambda>a. a\<lparr>balance := col2 new, equity := col2 new\<rparr>) s)"

definition debit_funded :: "int \<Rightarrow> pk \<Rightarrow> funded_request \<Rightarrow> trading_account \<Rightarrow> 'a db_scheme \<Rightarrow> 'a db_scheme" where
  "debit_funded now k f a s =
     set_balance now (fr_account f) (balance a - fr_trader_cut f) EV_FUNDED_PAYOUT (- fr_trader_cut f)
       [(''funded_payout_request_id'', MKey k), (''broker_cut'', MNum (fr_broker_cut f)),
        (''cycle_profit'', MNum (fr_cycle_profit f))] s"

definition reverse_debit :: "int \<Rightarrow> pk \<Rightarrow> funded_request \<Rightarrow> string \<Rightarrow> trading_account \<Rightarrow> 'a db_scheme \<Rightarrow> 'a db_scheme" where
  "reverse_debit now k f reason a s =
     set_balance now (fr_account f) (balance a + fr_trader_cut f) EV_ADJUST (fr_trader_cut f)
       [(''reversa_funded_payout'', MKey k), (''reason'', MStr reason)] s"

definition reset_cycle :: "pk \<Rightarrow> rat \<Rightarrow> 'a db_scheme \<Rightarrow> 'a db_scheme" where
  "reset_cycle acc bal s = update_account acc (\<lambda>a. a\<lparr>initial_balance := Some (col2 bal)\<rparr>) s"

text \<open>The locked request and account, or the guard that raises.\<close>

definition claim_funded ::
  "funded_type \<Rightarrow> pk \<Rightarrow> 'a funded_db_scheme \<Rightarrow> funded_error + (funded_request \<times> trading_account)" where
  "claim_funded ty k s =
     (case funded_requests s k of
        None \<Rightarrow> Inl (FundedRowMissing ''FundedPayoutRequest'')
      | Some f \<Rightarrow>
          if fr_status f \<noteq> FR_PENDING then Inl (FundedPayoutAlreadyProcessed (fr_status f))
          else if fr_type f \<noteq> ty then Inl (FundedValueError ''funded_type'')
          else if ty = FUNDED_INTERNAL \<and> (fr_currency f = '''' \<or> fr_address f = '''')
          then Inl (FundedValueError ''crypto_currency and wallet_address required'')
          else (case accounts s (fr_account f) of
                  None \<Rightarrow> Inl (FundedRowMissing ''TradingAccount'')
                | Some a \<Rightarrow>
                    if balance a < fr_trader_cut f
                    then Inl (InsufficientFundedBalance (balance a) (fr_trader_cut f))
                    else Inr (f, a)))"

subsection \<open>\<open>approve_sim_payout\<close>\<close>

definition approve_sim_payout ::
  "int \<Rightarrow> pk \<Rightarrow> pk \<Rightarrow> 'a funded_db_scheme \<Rightarrow> funded_error + 'a funded_db_scheme" where
  "approve_sim_payout now k admin s =
     (case claim_funded FUNDED_SIM k s of
        Inl e \<Rightarrow> Inl e
      | Inr (f, a) \<Rightarrow>
          let s1 = debit_funded now k f a s;
              new = balance a - fr_trader_cut f
          in (case get_or_create_wallet (fr_user f) s1 of ((w, _), s2) \<Rightarrow>
              (case credit_wallet w (fr_trader_cut f) TX_FUNDED_PAYOUT None None s2 of
                 Inl e \<Rightarrow> Inl (FundedWalletFailure e)
               | Inr (tx, s3) \<Rightarrow>
                   Inr (book_broker_cut now k f
                     (update_funded k (\<lambda>r. r\<lparr>fr_status := FR_COMPLETED,
                          fr_ledger_entry := Some (length (ledger s)),
                          fr_wallet_tx := Some (length (wallet_txs s2)),
                          fr_reviewed_by := Some admin, fr_reviewed_at := Some now,
                          fr_cycle_reset_at := Some now\<rparr>)
                       (reset_cycle (fr_account f) new s3))))))"

subsection \<open>\<open>approve_internal_payout\<close>\<close>

text \<open>Phase 1, one transaction: the account is debited and the withdrawal row created.\<close>

definition internal_withdrawal :: "int \<Rightarrow> pk \<Rightarrow> funded_request \<Rightarrow> withdrawal" where
  "internal_withdrawal now admin f =
     \<lparr>wr_user = fr_user f, wr_amount = col2 (fr_trader_cut f), wr_currency = fr_currency f,
      wr_address = fr_address f, wr_status = WR_APPROVED, wr_fee_rate = None, wr_fee_amount = None,
      wr_net_amount = None, wr_np_batch_id = '''', wr_np_payout_id = '''', wr_np_status = '''',
      wr_crypto_amount = None, wr_reviewed_by = Some admin, wr_reviewed_at = Some now,
      wr_debit_tx = False, wr_otp = None, wr_required_approvals = 1, wr_first_approved_by = None,
      wr_second_approved_by = None, wr_created_at = now\<rparr>"

definition internal_phase1 ::
  "int \<Rightarrow> pk \<Rightarrow> pk \<Rightarrow> 'a funded_db_scheme \<Rightarrow> funded_error + ((funded_request \<times> pk) \<times> 'a funded_db_scheme)" where
  "internal_phase1 now k admin s =
     (case claim_funded FUNDED_INTERNAL k s of
        Inl e \<Rightarrow> Inl e
      | Inr (f, a) \<Rightarrow>
          (case insert_withdrawal (internal_withdrawal now admin f) (debit_funded now k f a s) of
             (w, s1) \<Rightarrow>
               Inr ((f, w), update_funded k (\<lambda>r. r\<lparr>fr_status := FR_APPROVED, fr_withdrawal := Some w,
                  fr_ledger_entry := Some (length (ledger s)), fr_reviewed_by := Some admin,
                  fr_reviewed_at := Some now\<rparr>) s1)))"

definition reverse_and_fail :: "int \<Rightarrow> pk \<Rightarrow> funded_request \<Rightarrow> pk \<Rightarrow> string \<Rightarrow> 'a funded_db_scheme \<Rightarrow> 'a funded_db_scheme" where
  "reverse_and_fail now k f w reason s =
     (case accounts s (fr_account f) of
        None \<Rightarrow> s
      | Some a \<Rightarrow>
          update_withdrawal w (\<lambda>r. r\<lparr>wr_status := WR_FAILED\<rparr>)
            (update_funded k (\<lambda>r. r\<lparr>fr_status := FR_FAILED\<rparr>)
              (reverse_debit now k f reason a s)))"

definition mark_ambiguous :: "pk \<Rightarrow> string \<Rightarrow> 'a funded_db_scheme \<Rightarrow> 'a funded_db_scheme" where
  "mark_ambiguous k note s = update_funded k (\<lambda>r. r\<lparr>fr_admin_note := note\<rparr>) s"

definition col10 :: "rat \<Rightarrow> rat" where
  "col10 x = quantize_hu 10 x"

text \<open>
  Phase 2: which call failed decides between reversing and holding. \<open>persisted\<close> is
  whether the two updates that record an accepted payout reached the database.
\<close>

definition internal_phase2 ::
  "np_api \<Rightarrow> bool \<Rightarrow> int \<Rightarrow> pk \<Rightarrow> funded_request \<Rightarrow> pk \<Rightarrow> 'a funded_db_scheme
     \<Rightarrow> (funded_error + unit) \<times> 'a funded_db_scheme" where
  "internal_phase2 np persisted now k f w s =
     (case np_estimate np (fr_trader_cut f) (fr_currency f) of
        Inl e \<Rightarrow> (Inl (FundedProviderFailure e), reverse_and_fail now k f w e s)
      | Inr crypto \<Rightarrow>
        (case np_token np of
           Inl e \<Rightarrow> (Inl (FundedProviderFailure e), reverse_and_fail now k f w e s)
         | Inr _ \<Rightarrow>
           (case np_post np (fr_address f) (fr_currency f) (Some crypto) w of
              Inl e \<Rightarrow> (Inl (FundedProviderFailure ''payout POST failed''),
                        mark_ambiguous k ''AMBIGUOUS_SUBMIT_FAILURE'' s)
            | Inr None \<Rightarrow> (Inl (FundedProviderFailure ''unparseable body''),
                           mark_ambiguous k ''AMBIGUOUS_SUBMIT_FAILURE'' s)
            | Inr (Some body) \<Rightarrow>
                if \<not> persisted
                then (Inl (FundedProviderFailure ''local persistence failed''),
                      mark_ambiguous k ''AMBIGUOUS_SUBMIT_FAILURE'' s)
                else (Inr (),
                  update_funded k (\<lambda>r. r\<lparr>fr_status := FR_PROCESSING\<rparr>)
                    (update_withdrawal w (\<lambda>r. r\<lparr>wr_status := WR_PROCESSING, wr_np_batch_id := nb_id body,
                       wr_np_payout_id := (case nb_withdrawals body of [] \<Rightarrow> '''' | x # _ \<Rightarrow> fst x),
                       wr_np_status := nb_status body, wr_crypto_amount := Some (col10 crypto)\<rparr>) s)))))"

definition approve_internal_payout ::
  "np_api \<Rightarrow> bool \<Rightarrow> int \<Rightarrow> pk \<Rightarrow> pk \<Rightarrow> 'a funded_db_scheme \<Rightarrow> (funded_error + unit) \<times> 'a funded_db_scheme" where
  "approve_internal_payout np persisted now k admin s =
     (case internal_phase1 now k admin s of
        Inl e \<Rightarrow> (Inl e, s)
      | Inr ((f, w), s1) \<Rightarrow> internal_phase2 np persisted now k f w s1)"

subsection \<open>\<open>handle_internal_payout_webhook\<close>\<close>

definition handle_internal_payout_webhook ::
  "int \<Rightarrow> pk \<Rightarrow> wr_status \<Rightarrow> 'a funded_db_scheme \<Rightarrow> funded_error + 'a funded_db_scheme" where
  "handle_internal_payout_webhook now k new s =
     (case funded_requests s k of
        None \<Rightarrow> Inl (FundedRowMissing ''FundedPayoutRequest'')
      | Some f \<Rightarrow>
          if fr_status f \<in> TERMINAL_FPR then Inr s
          else if new \<notin> {WR_COMPLETED, WR_FAILED} then Inr s
          else (case accounts s (fr_account f) of
                  None \<Rightarrow> Inl (FundedRowMissing ''TradingAccount'')
                | Some a \<Rightarrow>
                    if new = WR_COMPLETED
                    then Inr (book_broker_cut now k f
                           (update_funded k (\<lambda>r. r\<lparr>fr_status := FR_COMPLETED,
                                                   fr_cycle_reset_at := Some now\<rparr>)
                             (reset_cycle (fr_account f) (balance a) s)))
                    else Inr (update_funded k (\<lambda>r. r\<lparr>fr_status := FR_FAILED\<rparr>)
                           (reverse_debit now k f ''NowPayments payout FAILED'' a s))))"

subsection \<open>Frames\<close>

lemma update_funded_frame [simp]:
  "accounts (update_funded k f s) = accounts s" "ledger (update_funded k f s) = ledger s"
  "wallets (update_funded k f s) = wallets s" "wallet_txs (update_funded k f s) = wallet_txs s"
  "user_wallet (update_funded k f s) = user_wallet s" "next_wallet (update_funded k f s) = next_wallet s"
  "broker_ledger (update_funded k f s) = broker_ledger s"
  "withdrawals (update_funded k f s) = withdrawals s"
  "next_withdrawal (update_funded k f s) = next_withdrawal s"
  "attempts (update_funded k f s) = attempts s" "next_attempt (update_funded k f s) = next_attempt s"
  "next_funded (update_funded k f s) = next_funded s"
  "funded_requests (update_funded k f s) j =
     (if j = k then map_option f (funded_requests s k) else funded_requests s j)"
  by (simp_all add: update_funded_def update_row_apply)

lemma update_withdrawal_funded [simp]:
  "funded_requests (update_withdrawal k f s) = funded_requests s"
  "next_funded (update_withdrawal k f s) = next_funded s"
  by (simp_all add: update_withdrawal_def)

lemma update_account_payout [simp]:
  "broker_ledger (update_account k f s) = broker_ledger s" "user_wallet (update_account k f s) = user_wallet s"
  "withdrawals (update_account k f s) = withdrawals s" "next_withdrawal (update_account k f s) = next_withdrawal s"
  "attempts (update_account k f s) = attempts s" "next_attempt (update_account k f s) = next_attempt s"
  "funded_requests (update_account k f s) = funded_requests s" "next_funded (update_account k f s) = next_funded s"
  by (simp_all add: update_account_def split: option.splits)

lemma add_ledger_payout [simp]:
  "broker_ledger (add_ledger e s) = broker_ledger s" "user_wallet (add_ledger e s) = user_wallet s"
  "withdrawals (add_ledger e s) = withdrawals s" "next_withdrawal (add_ledger e s) = next_withdrawal s"
  "attempts (add_ledger e s) = attempts s" "next_attempt (add_ledger e s) = next_attempt s"
  "funded_requests (add_ledger e s) = funded_requests s" "next_funded (add_ledger e s) = next_funded s"
  by (simp_all add: add_ledger_def)

lemma set_balance_frame [simp]:
  "wallets (set_balance now acc new ev x m s) = wallets s"
  "wallet_txs (set_balance now acc new ev x m s) = wallet_txs s"
  "user_wallet (set_balance now acc new ev x m s) = user_wallet s"
  "next_wallet (set_balance now acc new ev x m s) = next_wallet s"
  "broker_ledger (set_balance now acc new ev x m s) = broker_ledger s"
  "withdrawals (set_balance now acc new ev x m s) = withdrawals s"
  "next_withdrawal (set_balance now acc new ev x m s) = next_withdrawal s"
  "attempts (set_balance now acc new ev x m s) = attempts s"
  "next_attempt (set_balance now acc new ev x m s) = next_attempt s"
  "funded_requests (set_balance now acc new ev x m s) = funded_requests s"
  "next_funded (set_balance now acc new ev x m s) = next_funded s"
  by (simp_all add: set_balance_def)

lemma set_balance_effect:
  "accounts s acc = Some a \<Longrightarrow> accounts (set_balance now acc new ev x m s)
     = (accounts s)(acc \<mapsto> a\<lparr>balance := col2 new, equity := col2 new\<rparr>)"
  "ledger (set_balance now acc new ev x m s) = ledger s @
     [\<lparr>le_account = acc, le_event = ev, le_amount = col2 x, le_balance_after = col2 new,
       le_meta = m, le_created_at = now\<rparr>]"
  by (simp_all add: set_balance_def)

lemma reset_cycle_frame [simp]:
  "wallets (reset_cycle acc b s) = wallets s" "wallet_txs (reset_cycle acc b s) = wallet_txs s"
  "user_wallet (reset_cycle acc b s) = user_wallet s" "next_wallet (reset_cycle acc b s) = next_wallet s"
  "broker_ledger (reset_cycle acc b s) = broker_ledger s" "ledger (reset_cycle acc b s) = ledger s"
  "withdrawals (reset_cycle acc b s) = withdrawals s" "attempts (reset_cycle acc b s) = attempts s"
  "next_withdrawal (reset_cycle acc b s) = next_withdrawal s"
  "next_attempt (reset_cycle acc b s) = next_attempt s"
  "funded_requests (reset_cycle acc b s) = funded_requests s"
  "accounts s acc = Some a \<Longrightarrow>
     accounts (reset_cycle acc b s) = (accounts s)(acc \<mapsto> a\<lparr>initial_balance := Some (col2 b)\<rparr>)"
  by (simp_all add: reset_cycle_def)

lemma create_entry_state:
  "create_entry e s = Inr (e', s') \<Longrightarrow> s' = s\<lparr>broker_ledger := broker_ledger s @ [e']\<rparr>"
  unfolding create_entry_def Let_def by (metis Inl_Inr_False Inr_inject Pair_inject)

lemma book_broker_cut_state:
  "book_broker_cut now k f s = s \<or> (\<exists>es. book_broker_cut now k f s = s\<lparr>broker_ledger := es\<rparr>)"
  unfolding book_broker_cut_def
  by (cases "record_funded_broker_cut_revenue now (Some k, f) s")
     (use funded_share_writes create_entry_state in \<open>fastforce split: prod.splits\<close>)+

lemma book_broker_cut_frame [simp]:
  "accounts (book_broker_cut now k f s) = accounts s" "ledger (book_broker_cut now k f s) = ledger s"
  "wallets (book_broker_cut now k f s) = wallets s" "wallet_txs (book_broker_cut now k f s) = wallet_txs s"
  "user_wallet (book_broker_cut now k f s) = user_wallet s"
  "next_wallet (book_broker_cut now k f s) = next_wallet s"
proof -
  have "book_broker_cut now k f s = s \<or> (\<exists>es. book_broker_cut now k f s = s\<lparr>broker_ledger := es\<rparr>)"
    by (rule book_broker_cut_state)
  then show "accounts (book_broker_cut now k f s) = accounts s" "ledger (book_broker_cut now k f s) = ledger s"
    "wallets (book_broker_cut now k f s) = wallets s" "wallet_txs (book_broker_cut now k f s) = wallet_txs s"
    "user_wallet (book_broker_cut now k f s) = user_wallet s"
    "next_wallet (book_broker_cut now k f s) = next_wallet s"
    by auto
qed

lemma book_broker_cut_payout [simp]:
  fixes s :: "'a funded_db_scheme"
  shows "withdrawals (book_broker_cut now k f s) = withdrawals s"
  "next_withdrawal (book_broker_cut now k f s) = next_withdrawal s"
  "attempts (book_broker_cut now k f s) = attempts s"
  "next_attempt (book_broker_cut now k f s) = next_attempt s"
  "funded_requests (book_broker_cut now k f s) = funded_requests s"
proof -
  have "book_broker_cut now k f s = s \<or> (\<exists>es. book_broker_cut now k f s = s\<lparr>broker_ledger := es\<rparr>)"
    by (rule book_broker_cut_state)
  then show "withdrawals (book_broker_cut now k f s) = withdrawals s"
    "next_withdrawal (book_broker_cut now k f s) = next_withdrawal s"
    "attempts (book_broker_cut now k f s) = attempts s"
    "next_attempt (book_broker_cut now k f s) = next_attempt s"
    "funded_requests (book_broker_cut now k f s) = funded_requests s"
    by auto
qed

lemma claim_funded_Inr:
  "claim_funded ty k s = Inr (f, a) \<Longrightarrow>
     funded_requests s k = Some f \<and> fr_status f = FR_PENDING \<and> fr_type f = ty
     \<and> accounts s (fr_account f) = Some a \<and> fr_trader_cut f \<le> balance a"
  by (auto simp: claim_funded_def not_less split: option.splits if_splits)

lemma get_or_create_wallet_frame [simp]:
  "accounts (snd (get_or_create_wallet u s)) = accounts s"
  "ledger (snd (get_or_create_wallet u s)) = ledger s"
  "funded_requests (snd (get_or_create_wallet u s)) = funded_requests s"
  "next_funded (snd (get_or_create_wallet u s)) = next_funded s"
  by (simp_all add: get_or_create_wallet_def Let_def split: option.splits)

definition bal0 :: "pk \<Rightarrow> 'a wallet_db_scheme \<Rightarrow> rat" where
  "bal0 w s = (case wallets s w of None \<Rightarrow> 0 | Some r \<Rightarrow> available_balance r)"

lemma get_or_create_wallet_bal:
  assumes "wallet_inv s" "get_or_create_wallet u s = ((w, c), s')"
  shows "user_wallet s' u = Some w" "bal0 v s' = bal0 v s"
proof -
  have none: "wallets s (next_wallet s) = None" using assms(1) by (simp add: wallet_inv_def)
  have e: "w = fst (fst (get_or_create_wallet u s))" "s' = snd (get_or_create_wallet u s)"
    using assms(2) by simp_all
  show "user_wallet s' u = Some w"
    unfolding e by (simp add: get_or_create_wallet_def Let_def split: option.split)
  show "bal0 v s' = bal0 v s"
    unfolding e using none
    by (simp add: get_or_create_wallet_def Let_def bal0_def split: option.split)
qed

text \<open>What an approved FUNDED_SIM payout did, with the intermediate databases hidden.\<close>

lemma approve_sim_payout_Inr:
  assumes "approve_sim_payout now k admin s = Inr s'"
  obtains f a w c s2 tx s3 where
    "claim_funded FUNDED_SIM k s = Inr (f, a)"
    "get_or_create_wallet (fr_user f) (debit_funded now k f a s) = ((w, c), s2)"
    "credit_wallet w (fr_trader_cut f) TX_FUNDED_PAYOUT None None s2 = Inr (tx, s3)"
    "s' = book_broker_cut now k f
        (update_funded k (\<lambda>r. r\<lparr>fr_status := FR_COMPLETED, fr_ledger_entry := Some (length (ledger s)),
             fr_wallet_tx := Some (length (wallet_txs s2)), fr_reviewed_by := Some admin,
             fr_reviewed_at := Some now, fr_cycle_reset_at := Some now\<rparr>)
          (reset_cycle (fr_account f) (balance a - fr_trader_cut f) s3))"
proof -
  obtain f a where c: "claim_funded FUNDED_SIM k s = Inr (f, a)"
    using assms by (auto simp: approve_sim_payout_def split: sum.splits)
  obtain w c s2 where g: "get_or_create_wallet (fr_user f) (debit_funded now k f a s) = ((w, c), s2)"
    by (metis prod.collapse)
  obtain tx s3 where cr: "credit_wallet w (fr_trader_cut f) TX_FUNDED_PAYOUT None None s2 = Inr (tx, s3)"
    using assms c g by (auto simp: approve_sim_payout_def Let_def split: sum.splits)
  show thesis
    by (rule that[OF c g cr]) (use assms c g cr in \<open>simp add: approve_sim_payout_def Let_def\<close>)
qed

lemma debit_funded_frame [simp]:
  "wallets (debit_funded now k f a s) = wallets s" "wallet_txs (debit_funded now k f a s) = wallet_txs s"
  "next_wallet (debit_funded now k f a s) = next_wallet s"
  "user_wallet (debit_funded now k f a s) = user_wallet s"
  "withdrawals (debit_funded now k f a s) = withdrawals s"
  "next_withdrawal (debit_funded now k f a s) = next_withdrawal s"
  "attempts (debit_funded now k f a s) = attempts s" "next_attempt (debit_funded now k f a s) = next_attempt s"
  "funded_requests (debit_funded now k f a s) = funded_requests s"
  "next_funded (debit_funded now k f a s) = next_funded s"
  by (simp_all add: debit_funded_def)

subsection \<open>Properties\<close>

text \<open>
  An approved FUNDED_SIM payout moves the trader's cut from the funded account to
  the trader's wallet and nothing is created or lost: balance and equity fall by the
  cut, the wallet rises by it, the cycle restarts at the new balance, the request is
  COMPLETED, and approving it again (in either flow) raises and changes nothing.
\<close>

theorem sim_payout_conserves:
  assumes ok: "approve_sim_payout now k admin s = Inr s'" and inv: "wallet_inv s"
    and f: "funded_requests s k = Some f" "cents (fr_trader_cut f)"
    and a: "accounts s (fr_account f) = Some a" "cents (balance a)"
  shows "fr_trader_cut f \<le> balance a
    \<and> accounts s' (fr_account f) = Some (a\<lparr>balance := balance a - fr_trader_cut f,
         equity := balance a - fr_trader_cut f, initial_balance := Some (balance a - fr_trader_cut f)\<rparr>)
    \<and> (\<exists>w. user_wallet s' (fr_user f) = Some w \<and> bal0 w s' = bal0 w s + fr_trader_cut f
         \<and> (\<forall>v. v \<noteq> w \<longrightarrow> bal0 v s' = bal0 v s))
    \<and> approve_sim_payout now' k admin' s' = Inl (FundedPayoutAlreadyProcessed FR_COMPLETED)
    \<and> approve_internal_payout np pers now' k admin' s'
        = (Inl (FundedPayoutAlreadyProcessed FR_COMPLETED), s')"
proof (rule approve_sim_payout_Inr[OF ok])
  fix f0 a0 w c s2 tx s3
  assume cl: "claim_funded FUNDED_SIM k s = Inr (f0, a0)"
    and g: "get_or_create_wallet (fr_user f0) (debit_funded now k f0 a0 s) = ((w, c), s2)"
    and cr: "credit_wallet w (fr_trader_cut f0) TX_FUNDED_PAYOUT None None s2 = Inr (tx, s3)"
    and s': "s' = book_broker_cut now k f0
        (update_funded k (\<lambda>r. r\<lparr>fr_status := FR_COMPLETED, fr_ledger_entry := Some (length (ledger s)),
             fr_wallet_tx := Some (length (wallet_txs s2)), fr_reviewed_by := Some admin,
             fr_reviewed_at := Some now, fr_cycle_reset_at := Some now\<rparr>)
          (reset_cycle (fr_account f0) (balance a0 - fr_trader_cut f0) s3))"
  have e: "f0 = f" "a0 = a" "fr_trader_cut f \<le> balance a"
    using claim_funded_Inr[OF cl] f(1) a(1) by auto
  let ?new = "balance a - fr_trader_cut f"
  have new: "col2 ?new = ?new" using a(2) f(2) by (rule cents_diff)
  let ?s1 = "debit_funded now k f a s"
  have i1: "wallet_inv ?s1" using inv wallet_inv_cong[of ?s1 s] by simp
  have s2: "s2 = snd (get_or_create_wallet (fr_user f) ?s1)" using g e by simp
  have i2: "wallet_inv s2" unfolding s2 using i1 by (rule get_or_create_wallet_inv)
  note b = get_or_create_wallet_bal[OF i1 g[unfolded e]]
  obtain row where row: "wallets s2 w = Some row" "0 < fr_trader_cut f"
    and post: "post_wallet w (fr_trader_cut f) (available_balance row + fr_trader_cut f) TX_FUNDED_PAYOUT
       None None row s2 = (tx, s3)"
    using cr e by (auto simp: credit_wallet_Inr)
  have nb: "col2 (available_balance row + fr_trader_cut f) = available_balance row + fr_trader_cut f"
    using wallet_invD(2)[OF i2 row(1)] f(2) by (rule cents_add)
  have s3: "s3 = s2\<lparr>wallets := (wallets s2)(w \<mapsto> row\<lparr>available_balance := available_balance row + fr_trader_cut f\<rparr>),
            wallet_txs := wallet_txs s2 @ [tx]\<rparr>"
    using post_wallet_state[OF post] nb by simp
  have acc: "accounts s3 (fr_account f) = Some (a\<lparr>balance := ?new, equity := ?new\<rparr>)"
    unfolding s3 s2 using a(1) new by (simp add: debit_funded_def set_balance_effect)
  have fr: "funded_requests s3 k = Some f" unfolding s3 s2 using f(1) by simp
  have fin: "funded_requests s' k = Some f' \<Longrightarrow> fr_status f' = FR_COMPLETED" for f'
    unfolding s' using fr by auto
  have has: "funded_requests s' k \<noteq> None" unfolding s' using fr by simp
  have "accounts s' (fr_account f) = Some (a\<lparr>balance := ?new, equity := ?new, initial_balance := Some ?new\<rparr>)"
    unfolding s' e using acc new by simp
  moreover have "user_wallet s' (fr_user f) = Some w" unfolding s' s3 using b(1) by simp
  moreover have "bal0 w s' = bal0 w s + fr_trader_cut f"
  proof -
    have "bal0 w s2 = bal0 w s" using b(2)[of w] by (simp add: bal0_def)
    then show ?thesis unfolding s' s3 using row(1) by (simp add: bal0_def)
  qed
  moreover have "bal0 v s' = bal0 v s" if "v \<noteq> w" for v
    unfolding s' s3 using b(2)[of v] that by (simp add: bal0_def)
  moreover have "claim_funded ty k s' = Inl (FundedPayoutAlreadyProcessed FR_COMPLETED)" for ty
    using fin has by (auto simp: claim_funded_def split: option.splits)
  ultimately show ?thesis
    using e(3) by (auto simp: approve_sim_payout_def approve_internal_payout_def internal_phase1_def)
qed

definition demo_funded_request :: "funded_type \<Rightarrow> funded_request" where
  "demo_funded_request ty = \<lparr>fr_account = 7, fr_user = 3, fr_cycle_profit = 50, fr_trader_cut = 40,
     fr_broker_cut = 10, fr_type = ty, fr_currency = ''btc'', fr_address = ''addr'',
     fr_ledger_entry = None, fr_wallet_tx = None, fr_withdrawal = None, fr_cycle_reset_at = None,
     fr_status = FR_PENDING, fr_reviewed_by = None, fr_reviewed_at = None, fr_admin_note = ''''\<rparr>"

definition demo_fdb :: funded_db where
  "demo_fdb = payout_db.extend (payout_db.truncate demo_payouts)
     \<lparr>funded_requests = [0 \<mapsto> demo_funded_request FUNDED_SIM, 1 \<mapsto> demo_funded_request FUNDED_INTERNAL],
      next_funded = 2\<rparr>"

lemma demo_fdb_simps [simp]:
  "funded_requests demo_fdb = [0 \<mapsto> demo_funded_request FUNDED_SIM, 1 \<mapsto> demo_funded_request FUNDED_INTERNAL]"
  "accounts demo_fdb = [7 \<mapsto> demo_account]" "user_wallet demo_fdb = [3 \<mapsto> 0]"
  "wallets demo_fdb = [0 \<mapsto> \<lparr>available_balance = 250, pending_balance = 0\<rparr>]"
  "wallet_txs demo_fdb = wallet_txs demo_funded" "next_wallet demo_fdb = 1"
  "broker_ledger demo_fdb = []" "ledger demo_fdb = []"
  "withdrawals demo_fdb = [0 \<mapsto> demo_wr]" "next_withdrawal demo_fdb = 1"
  "attempts demo_fdb = Map.empty" "next_attempt demo_fdb = 0"
  by (simp_all add: demo_fdb_def demo_payouts_def demo_otp_def demo_books_def demo_funded_eq
      payout_db.defs otp_db.defs books_db.defs wallet_db.defs db.defs)

lemma demo_fdb_inv: "wallet_inv demo_fdb"
  using wallet_inv_cong[of demo_fdb demo_funded] wallet_reachable_inv[OF demo_funded_reachable]
  by (simp add: demo_funded_eq)

lemma demo_sim_approves: "\<exists>s'. approve_sim_payout 5 0 9 demo_fdb = Inr s'"
proof -
  let ?f = "demo_funded_request FUNDED_SIM"
  let ?s1 = "debit_funded 5 0 ?f demo_account demo_fdb"
  have cl: "claim_funded FUNDED_SIM 0 demo_fdb = Inr (?f, demo_account)"
    by (simp add: claim_funded_def demo_funded_request_def demo_account_def)
  have g: "get_or_create_wallet (fr_user ?f) ?s1 = ((0, False), ?s1)"
    by (simp add: get_or_create_wallet_def demo_funded_request_def)
  obtain tx s3 where "credit_wallet 0 (fr_trader_cut ?f) TX_FUNDED_PAYOUT None None ?s1 = Inr (tx, s3)"
    by (simp add: credit_wallet_def demo_funded_request_def) (metis prod.collapse)
  with cl g show ?thesis by (simp add: approve_sim_payout_def Let_def)
qed

theorem sim_payout_conserves_witness:
  "\<exists>s'. approve_sim_payout 5 0 9 demo_fdb = Inr s'
     \<and> accounts s' 7 = Some (demo_account\<lparr>balance := 60, equity := 60, initial_balance := Some 60\<rparr>)
     \<and> approve_sim_payout 6 0 9 s' = Inl (FundedPayoutAlreadyProcessed FR_COMPLETED)"
proof -
  obtain s' where ok: "approve_sim_payout 5 0 9 demo_fdb = Inr s'" using demo_sim_approves by blast
  have "accounts demo_fdb (fr_account (demo_funded_request FUNDED_SIM)) = Some demo_account"
    "cents (balance demo_account)" "cents (fr_trader_cut (demo_funded_request FUNDED_SIM))"
    by (simp_all add: demo_funded_request_def demo_account_def)
  with sim_payout_conserves[OF ok demo_fdb_inv, of "demo_funded_request FUNDED_SIM" demo_account 6 9] ok
  show ?thesis by (auto simp: demo_funded_request_def demo_account_def)
qed

text \<open>What phase 1 did.\<close>

lemma internal_phase1_Inr:
  assumes "internal_phase1 now k admin s = Inr ((f, w), s1)"
  obtains a where "claim_funded FUNDED_INTERNAL k s = Inr (f, a)" "w = next_withdrawal s"
    "withdrawals s1 = (withdrawals s)(w \<mapsto> internal_withdrawal now admin f)"
    "funded_requests s1 k = Some (f\<lparr>fr_status := FR_APPROVED, fr_withdrawal := Some w,
       fr_ledger_entry := Some (length (ledger s)), fr_reviewed_by := Some admin,
       fr_reviewed_at := Some now\<rparr>)"
    "accounts s1 = accounts (debit_funded now k f a s)" "ledger s1 = ledger (debit_funded now k f a s)"
    "wallets s1 = wallets s" "wallet_txs s1 = wallet_txs s" "next_withdrawal s1 = Suc w"
    "attempts s1 = attempts s"
proof -
  obtain a where c: "claim_funded FUNDED_INTERNAL k s = Inr (f, a)"
    and w: "w = next_withdrawal s"
    and s1: "s1 = update_funded k (\<lambda>r. r\<lparr>fr_status := FR_APPROVED, fr_withdrawal := Some w,
       fr_ledger_entry := Some (length (ledger s)), fr_reviewed_by := Some admin, fr_reviewed_at := Some now\<rparr>)
      (snd (insert_withdrawal (internal_withdrawal now admin f) (debit_funded now k f a s)))"
    using assms by (auto simp: internal_phase1_def insert_withdrawal_def split: sum.splits prod.splits)
  have fr: "funded_requests s k = Some f" using claim_funded_Inr[OF c] by simp
  show thesis
    by (rule that[OF c w]) (simp_all add: s1 insert_withdrawal_def w fr)
qed

lemma reverse_and_fail_effect:
  assumes "accounts s (fr_account f) = Some a" "withdrawals s w = Some r" "funded_requests s k = Some g"
  shows "accounts (reverse_and_fail now k f w reason s) = (accounts s)(fr_account f \<mapsto>
            a\<lparr>balance := col2 (balance a + fr_trader_cut f), equity := col2 (balance a + fr_trader_cut f)\<rparr>)"
    and "withdrawals (reverse_and_fail now k f w reason s) w = Some (r\<lparr>wr_status := WR_FAILED\<rparr>)"
    and "funded_requests (reverse_and_fail now k f w reason s) k = Some (g\<lparr>fr_status := FR_FAILED\<rparr>)"
    and "map le_amount (ledger (reverse_and_fail now k f w reason s))
           = map le_amount (ledger s) @ [col2 (fr_trader_cut f)]"
    and "wallets (reverse_and_fail now k f w reason s) = wallets s"
    and "attempts (reverse_and_fail now k f w reason s) = attempts s"
  using assms by (simp_all add: reverse_and_fail_def reverse_debit_def set_balance_effect)


definition demo_np :: "(string + string) \<Rightarrow> np_api" where
  "demo_np tok = \<lparr>np_estimate = (\<lambda>a c. Inr (a / 2)), np_token = tok,
     np_post = (\<lambda>_ _ _ _. Inl TimeoutFailure), np_verify = (\<lambda>_ _. None)\<rparr>"


text \<open>
  A funded payout is settled by a webhook exactly once: the first COMPLETED or
  FAILED event moves the request to a terminal status (COMPLETED restarts the cycle at
  the current balance, FAILED gives the cut back), and after it every further event,
  in any order and of any kind, changes nothing.
\<close>

theorem funded_webhook_settles_once:
  assumes ok: "handle_internal_payout_webhook now k st s = Inr s1"
    and f: "funded_requests s k = Some f" "fr_status f \<notin> TERMINAL_FPR" "cents (fr_trader_cut f)"
    and a: "accounts s (fr_account f) = Some a" "cents (balance a)" "st \<in> {WR_COMPLETED, WR_FAILED}"
  shows "(\<forall>now' st'. handle_internal_payout_webhook now' k st' s1 = Inr s1)
    \<and> map_option fr_status (funded_requests s1 k) = Some (if st = WR_COMPLETED then FR_COMPLETED else FR_FAILED)
    \<and> accounts s1 (fr_account f) = Some
        (if st = WR_COMPLETED then a\<lparr>initial_balance := Some (balance a)\<rparr>
         else a\<lparr>balance := balance a + fr_trader_cut f, equity := balance a + fr_trader_cut f\<rparr>)"
proof -
  have c: "col2 (balance a + fr_trader_cut f) = balance a + fr_trader_cut f"
    using a(2) f(3) by (rule cents_add)
  have s1: "s1 = (if st = WR_COMPLETED
      then book_broker_cut now k f (update_funded k (\<lambda>r. r\<lparr>fr_status := FR_COMPLETED, fr_cycle_reset_at := Some now\<rparr>)
             (reset_cycle (fr_account f) (balance a) s))
      else update_funded k (\<lambda>r. r\<lparr>fr_status := FR_FAILED\<rparr>)
             (reverse_debit now k f ''NowPayments payout FAILED'' a s))"
    using ok f a by (auto simp: handle_internal_payout_webhook_def)
  have fin: "\<exists>g. funded_requests s1 k = Some g
      \<and> fr_status g = (if st = WR_COMPLETED then FR_COMPLETED else FR_FAILED)"
    using f(1) by (simp add: s1 reverse_debit_def)
  then have "handle_internal_payout_webhook now' k st' s1 = Inr s1" for now' st'
    by (auto simp: handle_internal_payout_webhook_def TERMINAL_FPR_def)
  moreover have "accounts s1 (fr_account f) = Some
        (if st = WR_COMPLETED then a\<lparr>initial_balance := Some (balance a)\<rparr>
         else a\<lparr>balance := balance a + fr_trader_cut f, equity := balance a + fr_trader_cut f\<rparr>)"
    using a(1,2) c by (simp add: s1 reverse_debit_def set_balance_effect)
  ultimately show ?thesis using fin by auto
qed

theorem funded_webhook_settles_once_witness:
  "\<exists>s1. handle_internal_payout_webhook 5 1 WR_FAILED demo_fdb = Inr s1
     \<and> handle_internal_payout_webhook 6 1 WR_FAILED s1 = Inr s1
     \<and> accounts s1 7 = Some (demo_account\<lparr>balance := 140, equity := 140\<rparr>)"
proof -
  let ?f = "demo_funded_request FUNDED_INTERNAL"
  have f: "funded_requests demo_fdb 1 = Some ?f" "fr_status ?f \<notin> TERMINAL_FPR" "cents (fr_trader_cut ?f)"
    "accounts demo_fdb (fr_account ?f) = Some demo_account" "cents (balance demo_account)"
    "fr_trader_cut ?f = 40" "fr_account ?f = 7"
    by (simp_all add: demo_funded_request_def demo_account_def TERMINAL_FPR_def)
  obtain s1 where ok: "handle_internal_payout_webhook 5 1 WR_FAILED demo_fdb = Inr s1"
    using f by (simp add: handle_internal_payout_webhook_def)
  then show ?thesis
    using funded_webhook_settles_once[OF ok f(1-5)] f by (simp add: demo_account_def)
qed

end
