(* ===== verification/PayoutProviders.thy ===== *)
theory PayoutProviders
  imports FundedPayouts
begin

section \<open>The payout provider adapter (\<open>simulator/payout_providers.py\<close>)\<close>

text \<open>
  The adapter turns what the provider's HTTP client does into a closed vocabulary:
  four error classes, a submission result, events with a normalised status, and
  seven lookup outcomes. The client itself is the parameter \<open>np_client\<close>. JSON bodies
  enter in the shapes the adapter tells apart; of an individual payload it keeps the
  texts the code reads (\<open>amount\<close>, \<open>hash\<close>) and its canonical text.
\<close>

datatype provider_error =
  ProviderAuthError | ProviderTimeoutError | ProviderUnavailableError | ProviderResponseError

record payload =
  pl_amount :: "string option"
  pl_hash :: string
  pl_json :: string

text \<open>What \<open>GET /v1/payout/{id}\<close> gives.\<close>

datatype get_response =
  GetNoAnswer
| GetStatus nat
| GetNotAnObject
| GetBody string "(string \<times> string \<times> payload) list"

record np_client = np_api +
  np_get :: "string \<Rightarrow> get_response"

record submission_result =
  sr_reference :: string
  sr_batch :: string
  sr_amount :: "rat option"
  sr_raw :: string

record provider_event =
  ev_provider :: string
  ev_reference :: string
  ev_batch :: string
  ev_status :: "attempt_status option"
  ev_raw :: string
  ev_payload :: payload

datatype lookup_outcome =
  FOUND_PROCESSING | FOUND_COMPLETED | FOUND_FAILED | NOT_FOUND | UNAVAILABLE | AMBIGUOUS | UNSUPPORTED

record lookup_result =
  lr_outcome :: lookup_outcome
  lr_raw :: string
  lr_meta :: payload

definition no_payload :: payload where
  "no_payload = \<lparr>pl_amount = None, pl_hash = '''', pl_json = ''{}''\<rparr>"

subsection \<open>The two status vocabularies\<close>

definition raw_status_to_normalized :: "string \<Rightarrow> attempt_status option" where
  "raw_status_to_normalized raw =
     map_of [(''FINISHED'', PA_COMPLETED), (''FAILED'', PA_FAILED), (''REJECTED'', PA_FAILED),
             (''ROLLING'', PA_PROCESSING), (''CREATED'', PA_PROCESSING)] raw"

definition raw_status_to_lookup_outcome :: "string \<Rightarrow> lookup_outcome option" where
  "raw_status_to_lookup_outcome raw =
     map_of [(''FINISHED'', FOUND_COMPLETED), (''FAILED'', FOUND_FAILED), (''REJECTED'', FOUND_FAILED),
             (''CREATING'', FOUND_PROCESSING), (''SENDING'', FOUND_PROCESSING),
             (''ROLLING'', FOUND_PROCESSING), (''CREATED'', FOUND_PROCESSING),
             (''NEW'', FOUND_PROCESSING), (''WAITING'', FOUND_PROCESSING),
             (''PROCESSING'', FOUND_PROCESSING)] raw"

subsection \<open>Calls\<close>

text \<open>The class of a failed POST: a timeout or a lost connection, an error response, anything else.\<close>

definition post_error :: "post_failure \<Rightarrow> provider_error" where
  "post_error e =
     (case e of TimeoutFailure \<Rightarrow> ProviderTimeoutError | ConnectionFailure \<Rightarrow> ProviderTimeoutError
      | HttpFailure _ \<Rightarrow> ProviderUnavailableError | OtherFailure \<Rightarrow> ProviderResponseError)"

definition estimate :: "'a np_api_scheme \<Rightarrow> rat \<Rightarrow> string \<Rightarrow> provider_error + rat" where
  "estimate np usd asset = map_sum (\<lambda>_. ProviderUnavailableError) id (np_estimate np usd asset)"

definition create_payout :: "'a np_api_scheme \<Rightarrow> payout_attempt \<Rightarrow> provider_error + submission_result" where
  "create_payout np a =
     (case np_token np of
        Inl _ \<Rightarrow> Inl ProviderAuthError
      | Inr _ \<Rightarrow>
          (case np_post np (pa_address a) (pa_asset a) (pa_provider_amount a) (pa_wr a) of
             Inl e \<Rightarrow> Inl (post_error e)
           | Inr None \<Rightarrow> Inl ProviderResponseError
           | Inr (Some body) \<Rightarrow>
               Inr \<lparr>sr_reference = (case nb_withdrawals body of [] \<Rightarrow> '''' | x # _ \<Rightarrow> fst x),
                    sr_batch = nb_id body, sr_amount = pa_provider_amount a,
                    sr_raw = (case nb_withdrawals body of [] \<Rightarrow> '''' | x # _ \<Rightarrow> snd x)\<rparr>))"

definition verify_payout :: "'a np_api_scheme \<Rightarrow> payout_attempt \<Rightarrow> string \<Rightarrow> provider_error option" where
  "verify_payout np a code =
     (case np_token np of
        Inl _ \<Rightarrow> Some ProviderAuthError
      | Inr _ \<Rightarrow> map_option post_error (np_verify np (pa_batch_id a) code))"

definition lookup_of :: "lookup_outcome \<Rightarrow> lookup_result" where
  "lookup_of out = \<lparr>lr_outcome = out, lr_raw = '''', lr_meta = no_payload\<rparr>"

definition lookup_payout :: "'a np_client_scheme \<Rightarrow> payout_attempt \<Rightarrow> lookup_result" where
  "lookup_payout np a =
     (if pa_reference a = '''' then lookup_of UNSUPPORTED
      else case np_token np of
        Inl _ \<Rightarrow> lookup_of UNAVAILABLE
      | Inr _ \<Rightarrow>
          (case np_get np (pa_reference a) of
             GetNoAnswer \<Rightarrow> lookup_of UNAVAILABLE
           | GetStatus n \<Rightarrow> lookup_of (if n = 404 then NOT_FOUND else UNAVAILABLE)
           | GetNotAnObject \<Rightarrow> lookup_of AMBIGUOUS
           | GetBody batch wds \<Rightarrow>
               (case (case find (\<lambda>w. fst w = pa_reference a) wds of
                        Some w \<Rightarrow> Some w
                      | None \<Rightarrow> (case wds of [] \<Rightarrow> None | w # _ \<Rightarrow> Some w)) of
                  None \<Rightarrow> lookup_of AMBIGUOUS
                | Some (i, st, meta) \<Rightarrow>
                    \<lparr>lr_outcome = (case raw_status_to_lookup_outcome (upper st) of
                                     Some out \<Rightarrow> out | None \<Rightarrow> AMBIGUOUS),
                     lr_raw = upper st, lr_meta = meta\<rparr>)))"

subsection \<open>Webhooks\<close>

text \<open>
  A body whose signature verifies: not JSON, a batch with its entries, an individual
  payload (texts of \<open>id\<close>, \<open>batch_withdrawal_id\<close>, \<open>status\<close>, \<open>payout_status\<close>), or
  anything else.
\<close>

datatype webhook_body =
  NotJson
| BatchBody string "(string \<times> string \<times> payload) list"
| FlatBody string string "string option" "string option" payload
| OtherBody

definition make_event :: "string \<Rightarrow> string \<Rightarrow> string \<Rightarrow> payload \<Rightarrow> provider_event" where
  "make_event reference batch raw pl =
     \<lparr>ev_provider = ''nowpayments'', ev_reference = reference, ev_batch = batch,
      ev_status = raw_status_to_normalized raw, ev_raw = raw, ev_payload = pl\<rparr>"

definition parse_webhook :: "bool \<Rightarrow> webhook_body \<Rightarrow> provider_event list option" where
  "parse_webhook signature_ok body =
     (if \<not> signature_ok then None
      else case body of
        NotJson \<Rightarrow> None
      | BatchBody batch wds \<Rightarrow> Some (map (\<lambda>(i, st, pl). make_event i batch (upper st) pl) wds)
      | FlatBody i batch st pst pl \<Rightarrow>
          if st = None \<and> pst = None then Some []
          else Some [make_event i batch
                 (upper (case st of Some t \<Rightarrow> if t \<noteq> '''' then t else (case pst of Some u \<Rightarrow> u | None \<Rightarrow> '''')
                         | None \<Rightarrow> (case pst of Some u \<Rightarrow> u | None \<Rightarrow> ''''))) pl]
      | OtherBody \<Rightarrow> Some [])"

text \<open>The digest is the parameter \<open>sha\<close>.\<close>

definition fingerprint_input :: "provider_event \<Rightarrow> string" where
  "fingerprint_input e =
     ev_provider e @ ''|'' @ ev_batch e @ ''|'' @ ev_reference e @ ''|'' @ ev_raw e @ ''|'' @ pl_json (ev_payload e)"

definition compute_webhook_event_fingerprint :: "(string \<Rightarrow> string) \<Rightarrow> provider_event \<Rightarrow> string" where
  "compute_webhook_event_fingerprint sha e = sha (fingerprint_input e)"

definition provider_registry :: "string \<Rightarrow> bool" where
  "provider_registry name = (name = ''nowpayments'')"

text \<open>\<open>capabilities\<close>: whether any lookup is declared.\<close>

definition has_lookup_capability :: bool where
  "has_lookup_capability = (True \<or> False \<or> False)"

subsection \<open>Facts\<close>

lemma normalized_is_projection:
  "raw_status_to_normalized raw = Some st \<Longrightarrow> st \<in> {PA_PROCESSING, PA_COMPLETED, PA_FAILED}"
  by (auto simp: raw_status_to_normalized_def split: if_splits)

text \<open>The webhook vocabulary is part of the lookup vocabulary, with the same reading.\<close>

definition outcome_status :: "lookup_outcome \<Rightarrow> attempt_status option" where
  "outcome_status out = (case out of FOUND_PROCESSING \<Rightarrow> Some PA_PROCESSING
     | FOUND_COMPLETED \<Rightarrow> Some PA_COMPLETED | FOUND_FAILED \<Rightarrow> Some PA_FAILED | _ \<Rightarrow> None)"

lemma vocabularies_agree:
  "raw_status_to_normalized raw = Some st \<Longrightarrow>
     \<exists>out. raw_status_to_lookup_outcome raw = Some out \<and> outcome_status out = Some st"
  by (auto simp: raw_status_to_normalized_def raw_status_to_lookup_outcome_def outcome_status_def
      split: if_splits)

lemma fingerprint_input_inject:
  assumes "CHR ''|'' \<notin> set (ev_provider e) \<union> set (ev_batch e) \<union> set (ev_reference e) \<union> set (ev_raw e)"
    and "CHR ''|'' \<notin> set (ev_provider f) \<union> set (ev_batch f) \<union> set (ev_reference f) \<union> set (ev_raw f)"
  shows "fingerprint_input e = fingerprint_input f \<longleftrightarrow>
    ev_provider e = ev_provider f \<and> ev_batch e = ev_batch f \<and> ev_reference e = ev_reference f
    \<and> ev_raw e = ev_raw f \<and> pl_json (ev_payload e) = pl_json (ev_payload f)"
  using assms by (simp add: fingerprint_input_def split_at_sep)

end
