(* ===== verification/PayoutOrchestrator.thy ===== *)
theory PayoutOrchestrator
  imports PayoutProviders
begin

section \<open>The payout orchestrator (\<open>simulator/payout_orchestrator.py\<close>)\<close>

text \<open>
  Submission of a withdrawal, the appliers that move an attempt together with its
  withdrawal and wallet, the correlation of webhooks with rows, the durable webhook
  inbox with its retries, and the two reconciliation passes. A transaction is one
  function; where the code leaves a transaction to call the provider or to sleep, what
  other processes commit meanwhile is a parameter of the handler. Logs, audit events and
  e-mails are left out.
\<close>

datatype correlation = CORR_PENDING | CORR_RESOLVED | CORR_MANUAL_REVIEW

record webhook_event =
  we_provider :: string
  we_fingerprint :: string
  we_reference :: string
  we_batch :: string
  we_raw :: string
  we_status :: "attempt_status option"
  we_payload :: payload
  we_received_at :: int
  we_correlation :: correlation
  we_attempt :: "pk option"
  we_retry_count :: nat
  we_next_retry_at :: "int option"
  we_last_error :: string
  we_resolved_at :: "int option"

record inbox_db = funded_db +
  webhook_events :: "webhook_event table"
  next_event :: pk

record payout_settings =
  replay_base_seconds :: nat
  replay_max_seconds :: nat
  max_auto_retries :: nat
  submitted_aged_seconds :: int
  processing_aged_seconds :: int

subsection \<open>Appliers\<close>

text \<open>\<open>except DuplicateWithdrawalFeeRevenue\<close>: logged, nothing written.\<close>

definition book_withdrawal_fee :: "int \<Rightarrow> pk \<Rightarrow> withdrawal \<Rightarrow> 'a books_db_scheme \<Rightarrow> 'a books_db_scheme" where
  "book_withdrawal_fee now w r s =
     (case record_withdrawal_fee_revenue now (Some w, r) s of Inl _ \<Rightarrow> s | Inr (_, s') \<Rightarrow> s')"

definition set_attempt :: "pk \<Rightarrow> payout_attempt \<Rightarrow> 'a payout_db_scheme \<Rightarrow> 'a payout_db_scheme" where
  "set_attempt k a s = s\<lparr>attempts := (attempts s)(k \<mapsto> a)\<rparr>"

definition with_evidence ::
  "int \<Rightarrow> attempt_status \<Rightarrow> attempt_status \<Rightarrow> rat option \<times> string \<Rightarrow> payout_attempt \<Rightarrow> payout_attempt" where
  "with_evidence now old new conf a =
     (let a1 = (if old = PA_UNKNOWN \<and> new \<in> {PA_PROCESSING, PA_COMPLETED}
                then a\<lparr>pa_reconciled_at := Some now\<rparr> else a)
      in if new = PA_COMPLETED \<and> (fst conf \<noteq> None \<or> snd conf \<noteq> '''')
         then a1\<lparr>pa_confirmed_amount := map_option col10 (fst conf), pa_tx_hash := snd conf\<rparr> else a1)"

definition apply_result_without_refund ::
  "int \<Rightarrow> pk \<Rightarrow> attempt_status \<Rightarrow> string \<Rightarrow> string \<Rightarrow> rat option \<times> string \<Rightarrow> 'a payout_db_scheme
     \<Rightarrow> payout_error + (payout_attempt \<times> 'a payout_db_scheme)" where
  "apply_result_without_refund now k new reason raw conf s =
     (case attempts s k of
        None \<Rightarrow> Inl (RowMissing ''PayoutAttempt'')
      | Some a \<Rightarrow>
          (case withdrawals s (pa_wr a) of
             None \<Rightarrow> Inl (RowMissing ''WithdrawalRequest'')
           | Some r \<Rightarrow>
               if pa_status a \<in> TERMINAL_STATUSES then Inr (a, s)
               else (case transition_payout_attempt now new reason raw False (k, a) s of
                       Inl e \<Rightarrow> Inl e
                     | Inr (a1, s1) \<Rightarrow>
                         (case sync_withdrawal_request_status (pa_wr a) new s1 of
                            Inl e \<Rightarrow> Inl e
                          | Inr s2 \<Rightarrow>
                              let a2 = with_evidence now (pa_status a) new conf a1;
                                  s3 = set_attempt k a2 s2
                              in Inr (a2, if new = PA_COMPLETED
                                          then book_withdrawal_fee now (pa_wr a) r s3 else s3)))))"

definition apply_submission_success ::
  "int \<Rightarrow> pk \<Rightarrow> submission_result \<Rightarrow> 'a payout_db_scheme
     \<Rightarrow> payout_error + (payout_attempt \<times> 'a payout_db_scheme)" where
  "apply_submission_success now k res s =
     (case attempts s k of
        None \<Rightarrow> Inl (RowMissing ''PayoutAttempt'')
      | Some a \<Rightarrow>
          (case withdrawals s (pa_wr a) of
             None \<Rightarrow> Inl (RowMissing ''WithdrawalRequest'')
           | Some r \<Rightarrow>
               if pa_status a \<in> TERMINAL_STATUSES then Inr (a, s)
               else (case transition_payout_attempt now PA_PROCESSING '''' (sr_raw res) False
                        (k, a\<lparr>pa_reference := sr_reference res, pa_batch_id := sr_batch res,
                              pa_provider_amount := map_option col10 (sr_amount res)\<rparr>) s of
                       Inl e \<Rightarrow> Inl e
                     | Inr (a1, s1) \<Rightarrow>
                         (case sync_withdrawal_request_status (pa_wr a) PA_PROCESSING s1 of
                            Inl e \<Rightarrow> Inl e
                          | Inr s2 \<Rightarrow>
                              Inr (a1, update_withdrawal (pa_wr a)
                                (\<lambda>r. r\<lparr>wr_np_batch_id := sr_batch res, wr_np_payout_id := sr_reference res,
                                      wr_np_status := sr_raw res, wr_crypto_amount := map_option col10 (sr_amount res)\<rparr>) s2)))))"

definition apply_confirmed_failure_with_refund ::
  "int \<Rightarrow> pk \<Rightarrow> string \<Rightarrow> bool \<Rightarrow> string \<Rightarrow> 'a payout_db_scheme
     \<Rightarrow> payout_error + (payout_attempt \<times> 'a payout_db_scheme)" where
  "apply_confirmed_failure_with_refund now k reason pre_send raw s =
     (case attempts s k of
        None \<Rightarrow> Inl (RowMissing ''PayoutAttempt'')
      | Some a \<Rightarrow>
          (case withdrawals s (pa_wr a) of
             None \<Rightarrow> Inl (RowMissing ''WithdrawalRequest'')
           | Some r \<Rightarrow>
               (case user_wallet s (wr_user r) of
                  None \<Rightarrow> Inl (RowMissing ''Wallet'')
                | Some w \<Rightarrow>
                    if pa_status a \<in> TERMINAL_STATUSES then Inr (a, s)
                    else (case transition_payout_attempt now PA_FAILED reason raw pre_send (k, a) s of
                            Inl e \<Rightarrow> Inl e
                          | Inr (a1, s1) \<Rightarrow>
                              (case sync_withdrawal_request_status (pa_wr a) PA_FAILED s1 of
                                 Inl e \<Rightarrow> Inl e
                               | Inr s2 \<Rightarrow>
                                   let a2 = (if pa_status a = PA_UNKNOWN then a1\<lparr>pa_reconciled_at := Some now\<rparr> else a1) in
                                   (case credit_wallet w (wr_amount r) TX_CORRECTION None None
                                           (set_attempt k a2 s2) of
                                      Inl e \<Rightarrow> Inl (WalletFailure e)
                                    | Inr (tx, s3) \<Rightarrow>
                                        Inr (a2, update_withdrawal (pa_wr a)
                                          (\<lambda>r. r\<lparr>wr_np_status := (if raw = '''' then ''FAILED'' else raw)\<rparr>) s3)))))))"

subsection \<open>Submission\<close>

text \<open>The figure asked of the provider: the net amount, or the gross of a row without a fee.\<close>

definition estimate_basis :: "withdrawal \<Rightarrow> rat" where
  "estimate_basis r = (case wr_net_amount r of None \<Rightarrow> wr_amount r | Some n \<Rightarrow> n)"

definition submit_claim ::
  "int \<Rightarrow> pk \<Rightarrow> pk option \<Rightarrow> rat \<Rightarrow> rat \<Rightarrow> 'a payout_db_scheme \<Rightarrow> payout_error + (pk \<times> 'a payout_db_scheme)" where
  "submit_claim now k actor basis provider_amount s =
     (case withdrawals s k of
        None \<Rightarrow> Inl (RowMissing ''WithdrawalRequest'')
      | Some r \<Rightarrow>
          if wr_status r \<noteq> WR_PENDING then Inl WithdrawalAlreadyClaimed
          else (case create_and_submit_payout_attempt now k ''nowpayments'' (wr_currency r) (wr_address r) basis
                   (update_withdrawal k (\<lambda>r. r\<lparr>wr_reviewed_by := actor, wr_reviewed_at := Some now\<rparr>) s) of
                  Inl e \<Rightarrow> Inl e
                | Inr (j, s') \<Rightarrow>
                    Inr (j, s'\<lparr>attempts := update_row j
                      (\<lambda>a. a\<lparr>pa_provider_amount := Some (col10 provider_amount)\<rparr>) (attempts s')\<rparr>)))"

datatype submit_outcome = OUT_PROCESSING pk | OUT_UNKNOWN pk | OUT_FAILED pk

definition submit_finish ::
  "int \<Rightarrow> pk \<Rightarrow> provider_error + submission_result \<Rightarrow> 'a payout_db_scheme
     \<Rightarrow> payout_error + (submit_outcome \<times> 'a payout_db_scheme)" where
  "submit_finish now j answer s =
     (case answer of
        Inl ProviderAuthError \<Rightarrow>
          map_sum id (\<lambda>as. (OUT_FAILED j, snd as))
            (apply_confirmed_failure_with_refund now j ''auth failed'' True '''' s)
      | Inl e \<Rightarrow>
          map_sum id (\<lambda>as. (OUT_UNKNOWN j, snd as))
            (apply_result_without_refund now j PA_UNKNOWN ''provider error'' '''' (None, '''') s)
      | Inr res \<Rightarrow>
          map_sum id (\<lambda>as. (OUT_PROCESSING j, snd as)) (apply_submission_success now j res s))"

text \<open>
  \<open>during_estimate\<close> and \<open>during_payout\<close> are what other processes commit while the
  two provider calls run.
\<close>

definition submit_withdrawal_to_provider ::
  "'n np_api_scheme \<Rightarrow> ('a payout_db_scheme \<Rightarrow> 'a payout_db_scheme) \<Rightarrow> ('a payout_db_scheme \<Rightarrow> 'a payout_db_scheme)
     \<Rightarrow> int \<Rightarrow> pk \<Rightarrow> pk option \<Rightarrow> 'a payout_db_scheme \<Rightarrow> (payout_error + submit_outcome) \<times> 'a payout_db_scheme" where
  "submit_withdrawal_to_provider np during_estimate during_payout now k actor s =
     (case withdrawals s k of
        None \<Rightarrow> (Inl (RowMissing ''WithdrawalRequest''), s)
      | Some preview \<Rightarrow>
          if wr_status preview \<noteq> WR_PENDING then (Inl WithdrawalAlreadyClaimed, s)
          else (case estimate np (estimate_basis preview) (wr_currency preview) of
                  Inl e \<Rightarrow> (Inl EstimateFailed, during_estimate s)
                | Inr amount \<Rightarrow>
                    (case submit_claim now k actor (estimate_basis preview) amount (during_estimate s) of
                       Inl e \<Rightarrow> (Inl e, during_estimate s)
                     | Inr (j, s1) \<Rightarrow>
                         (case submit_finish now j (create_payout np ((attempt_row s1 j)\<lparr>pa_provider_amount := Some amount\<rparr>)) (during_payout s1) of
                            Inl e \<Rightarrow> (Inl e, during_payout s1)
                          | Inr (out, s2) \<Rightarrow> (Inr out, s2)))))"

definition six_digits :: "string \<Rightarrow> bool" where
  "six_digits c \<longleftrightarrow> length c = 6 \<and> (\<forall>d \<in> set c. d \<in> set ''0123456789'')"

definition submit_payout_verification ::
  "'n np_api_scheme \<Rightarrow> int \<Rightarrow> pk \<Rightarrow> string \<Rightarrow> 'a payout_db_scheme \<Rightarrow> payout_error + 'a payout_db_scheme" where
  "submit_payout_verification np now j code s =
     (if \<not> six_digits (py_strip code) then Inl (PayoutVerificationError ''six digits'')
      else case attempts s j of
        None \<Rightarrow> Inl (RowMissing ''PayoutAttempt'')
      | Some a \<Rightarrow>
          if pa_status a \<in> TERMINAL_STATUSES then Inl (PayoutVerificationError ''terminal'')
          else if pa_verified_at a \<noteq> None then Inl (PayoutVerificationError ''already verified'')
          else if pa_batch_id a = '''' then Inl (PayoutVerificationError ''no provider_batch_id'')
          else if \<not> provider_registry (pa_provider a) then Inl (NoAdapter (pa_provider a))
          else (case verify_payout np a (py_strip code) of
                  Some e \<Rightarrow> Inl (ProviderFailure ''verify'')
                | None \<Rightarrow> Inr (set_attempt j (a\<lparr>pa_verified_at := Some now\<rparr>) s)))"

subsection \<open>Correlation of a webhook with a row\<close>

datatype target =
  AttemptMatch pk
| FundedInternalMatch pk pk
| LegacyWithdrawalMatch pk
| Ambiguous
| DataIntegrityViolation
| Orphan

text \<open>
  \<open>wr.funded_payout_internal\<close>: the reverse one-to-one of
  \<open>FundedPayoutRequest.withdrawal_request\<close>.
\<close>

definition funded_of :: "pk \<Rightarrow> 'a funded_db_scheme \<Rightarrow> pk option" where
  "funded_of w s = (case rows_where (next_funded s) (funded_requests s) (\<lambda>f. fr_withdrawal f = Some w) of
                      [] \<Rightarrow> None | k # _ \<Rightarrow> Some k)"

definition classify_legacy_wr :: "pk \<Rightarrow> 'a funded_db_scheme \<Rightarrow> target" where
  "classify_legacy_wr w s =
     (case funded_of w s of None \<Rightarrow> LegacyWithdrawalMatch w | Some k \<Rightarrow> FundedInternalMatch w k)"

text \<open>One layer of the correlation: the attempts and the withdrawals that carry the text.\<close>

definition correlate :: "pk list \<Rightarrow> pk list \<Rightarrow> 'a funded_db_scheme \<Rightarrow> target" where
  "correlate am wm s =
     (if 1 < length am then Ambiguous
      else if 1 < length wm then Ambiguous
      else case am of
        j # _ \<Rightarrow> (case wm of w # _ \<Rightarrow> if w \<noteq> pa_wr (attempt_row s j) then DataIntegrityViolation else AttemptMatch j
                   | [] \<Rightarrow> AttemptMatch j)
      | [] \<Rightarrow> (case wm of w # _ \<Rightarrow> classify_legacy_wr w s | [] \<Rightarrow> Orphan))"

definition by_reference :: "provider_event \<Rightarrow> 'a funded_db_scheme \<Rightarrow> target" where
  "by_reference ev s =
     correlate
       (rows_where (next_attempt s) (attempts s)
          (\<lambda>a. pa_provider a = ev_provider ev \<and> pa_reference a = ev_reference ev))
       (rows_where (next_withdrawal s) (withdrawals s) (\<lambda>r. wr_np_payout_id r = ev_reference ev)) s"

definition by_batch :: "provider_event \<Rightarrow> 'a funded_db_scheme \<Rightarrow> target" where
  "by_batch ev s =
     correlate
       (rows_where (next_attempt s) (attempts s)
          (\<lambda>a. pa_provider a = ev_provider ev \<and> pa_batch_id a = ev_batch ev))
       (rows_where (next_withdrawal s) (withdrawals s) (\<lambda>r. wr_np_batch_id r = ev_batch ev)) s"

text \<open>
  The reference is looked up at most three times, with pauses in between; \<open>later\<close> are
  the databases seen after each pause.
\<close>

fun resolve_reference :: "provider_event \<Rightarrow> 'a funded_db_scheme list \<Rightarrow> target" where
  "resolve_reference ev [] = Orphan"
| "resolve_reference ev (s # ss) =
     (case by_reference ev s of Orphan \<Rightarrow> resolve_reference ev ss | t \<Rightarrow> t)"

definition resolve_payout_target :: "provider_event \<Rightarrow> 'a funded_db_scheme \<Rightarrow> 'a funded_db_scheme list \<Rightarrow> target" where
  "resolve_payout_target ev s later =
     (if ev_reference ev = '''' \<and> ev_batch ev = '''' then Orphan
      else if ev_reference ev \<noteq> '''' then resolve_reference ev (s # take 2 later)
      else by_batch ev s)"

subsection \<open>Application of a webhook\<close>

text \<open>The text of a normalised status in the withdrawal's status column.\<close>

definition wr_text :: "attempt_status \<Rightarrow> wr_status" where
  "wr_text st = (case st of PA_COMPLETED \<Rightarrow> WR_COMPLETED | PA_FAILED \<Rightarrow> WR_FAILED
     | PA_PROCESSING \<Rightarrow> WR_PROCESSING | _ \<Rightarrow> WR_OTHER st)"

definition WR_TERMINAL :: "wr_status set" where
  "WR_TERMINAL = {WR_COMPLETED, WR_REJECTED, WR_FAILED}"

definition stamp_status :: "provider_event \<Rightarrow> attempt_status \<Rightarrow> withdrawal \<Rightarrow> withdrawal" where
  "stamp_status ev st r =
     (let r1 = r\<lparr>wr_status := wr_text st, wr_np_status := ev_raw ev\<rparr>
      in if ev_reference ev \<noteq> '''' \<and> wr_np_payout_id r = ''''
         then r1\<lparr>wr_np_payout_id := ev_reference ev\<rparr> else r1)"

text \<open>\<open>parse_amount\<close>: \<open>Decimal(str(raw))\<close>, \<open>None\<close> when it does not parse.\<close>

definition extract_confirmed :: "(string \<Rightarrow> rat option) \<Rightarrow> payload \<Rightarrow> rat option \<times> string" where
  "extract_confirmed parse_amount pl =
     ((case pl_amount pl of None \<Rightarrow> None | Some t \<Rightarrow> if t = '''' then None else parse_amount t), pl_hash pl)"

definition apply_attempt_webhook ::
  "(string \<Rightarrow> rat option) \<Rightarrow> int \<Rightarrow> pk \<Rightarrow> attempt_status \<Rightarrow> provider_event \<Rightarrow> 'a payout_db_scheme
     \<Rightarrow> payout_error + (payout_attempt \<times> 'a payout_db_scheme)" where
  "apply_attempt_webhook parse now j st ev s =
     (if st = PA_FAILED
      then apply_confirmed_failure_with_refund now j ''provider callback'' False (ev_raw ev) s
      else if st = PA_COMPLETED
      then apply_result_without_refund now j st '''' (ev_raw ev) (extract_confirmed parse (ev_payload ev)) s
      else apply_result_without_refund now j st '''' (ev_raw ev) (None, '''') s)"

definition apply_funded_internal_webhook ::
  "int \<Rightarrow> pk \<Rightarrow> pk \<Rightarrow> attempt_status \<Rightarrow> provider_event \<Rightarrow> 'a funded_db_scheme
     \<Rightarrow> payout_error + 'a funded_db_scheme" where
  "apply_funded_internal_webhook now w k st ev s =
     (case withdrawals s w of
        None \<Rightarrow> Inl (RowMissing ''WithdrawalRequest'')
      | Some r \<Rightarrow>
          if wr_status r \<in> WR_TERMINAL then Inr s
          else (case handle_internal_payout_webhook now k (wr_text st) s of
                  Inl e \<Rightarrow> Inl (RowMissing ''funded payout'')
                | Inr s1 \<Rightarrow> Inr (update_withdrawal w (stamp_status ev st) s1)))"

definition apply_legacy_withdrawal_webhook ::
  "pk \<Rightarrow> attempt_status \<Rightarrow> provider_event \<Rightarrow> 'a payout_db_scheme \<Rightarrow> payout_error + 'a payout_db_scheme" where
  "apply_legacy_withdrawal_webhook w st ev s =
     (case withdrawals s w of
        None \<Rightarrow> Inl (RowMissing ''WithdrawalRequest'')
      | Some r \<Rightarrow>
          if wr_status r \<in> WR_TERMINAL then Inr s
          else if wr_text st = WR_FAILED
          then (case user_wallet s (wr_user r) of
                  None \<Rightarrow> Inl (RowMissing ''Wallet'')
                | Some wal \<Rightarrow>
                    (case credit_wallet wal (wr_amount r) TX_CORRECTION None None s of
                       Inl e \<Rightarrow> Inl (WalletFailure e)
                     | Inr (tx, s1) \<Rightarrow> Inr (update_withdrawal w (stamp_status ev st) s1)))
          else Inr (update_withdrawal w (stamp_status ev st) s))"

text \<open>
  The dispatch shared by \<open>apply_provider_webhook_event\<close> and \<open>process_webhook_event\<close>. The target
  is found in the databases \<open>s0\<close> and \<open>later\<close>; it is applied in a transaction of its own, to
  the database \<open>s\<close> of that moment.
\<close>

definition apply_target ::
  "(string \<Rightarrow> rat option) \<Rightarrow> int \<Rightarrow> target \<Rightarrow> attempt_status \<Rightarrow> provider_event \<Rightarrow> 'a funded_db_scheme
     \<Rightarrow> payout_error + (pk option \<times> 'a funded_db_scheme)" where
  "apply_target parse now t st ev s =
     (case t of
        AttemptMatch j \<Rightarrow> map_sum id (\<lambda>as. (Some j, snd as)) (apply_attempt_webhook parse now j st ev s)
      | FundedInternalMatch w k \<Rightarrow> map_sum id (Pair None) (apply_funded_internal_webhook now w k st ev s)
      | LegacyWithdrawalMatch w \<Rightarrow> map_sum id (Pair None) (apply_legacy_withdrawal_webhook w st ev s)
      | _ \<Rightarrow> Inr (None, s))"

definition apply_provider_webhook_event ::
  "(string \<Rightarrow> rat option) \<Rightarrow> int \<Rightarrow> provider_event \<Rightarrow> 'a funded_db_scheme \<Rightarrow> 'a funded_db_scheme list
     \<Rightarrow> 'a funded_db_scheme \<Rightarrow> payout_error + (target \<times> 'a funded_db_scheme)" where
  "apply_provider_webhook_event parse now ev s0 later s =
     (let t = resolve_payout_target ev s0 later in
      case ev_status ev of
        None \<Rightarrow> Inr (t, s)
      | Some st \<Rightarrow> map_sum id (\<lambda>ks. (t, snd ks)) (apply_target parse now t st ev s))"

subsection \<open>The durable inbox\<close>

definition fresh_event :: "int \<Rightarrow> string \<Rightarrow> provider_event \<Rightarrow> webhook_event" where
  "fresh_event now fp ev =
     \<lparr>we_provider = ev_provider ev, we_fingerprint = fp, we_reference = ev_reference ev,
      we_batch = ev_batch ev, we_raw = ev_raw ev, we_status = ev_status ev, we_payload = ev_payload ev,
      we_received_at = now, we_correlation = CORR_PENDING, we_attempt = None, we_retry_count = 0,
      we_next_retry_at = None, we_last_error = '''', we_resolved_at = None\<rparr>"

definition get_or_create_webhook_event ::
  "(string \<Rightarrow> string) \<Rightarrow> int \<Rightarrow> provider_event \<Rightarrow> 'a inbox_db_scheme \<Rightarrow> (pk \<times> bool) \<times> 'a inbox_db_scheme" where
  "get_or_create_webhook_event sha now ev s =
     (let fp = compute_webhook_event_fingerprint sha ev in
      case rows_where (next_event s) (webhook_events s) (\<lambda>e. we_fingerprint e = fp) of
        k # _ \<Rightarrow> ((k, False), s)
      | [] \<Rightarrow> ((next_event s, True),
               s\<lparr>next_event := Suc (next_event s),
                 webhook_events := (webhook_events s)(next_event s \<mapsto> fresh_event now fp ev)\<rparr>))"

definition to_provider_event :: "webhook_event \<Rightarrow> provider_event" where
  "to_provider_event e =
     \<lparr>ev_provider = we_provider e, ev_reference = we_reference e, ev_batch = we_batch e,
      ev_status = we_status e, ev_raw = we_raw e, ev_payload = we_payload e\<rparr>"

definition update_event :: "pk \<Rightarrow> (webhook_event \<Rightarrow> webhook_event) \<Rightarrow> 'a inbox_db_scheme \<Rightarrow> 'a inbox_db_scheme" where
  "update_event k f s = s\<lparr>webhook_events := update_row k f (webhook_events s)\<rparr>"

definition retry_delay :: "payout_settings \<Rightarrow> nat \<Rightarrow> nat" where
  "retry_delay cfg n = min (replay_base_seconds cfg * 2 ^ (n - 1)) (replay_max_seconds cfg)"

definition unresolved :: "payout_settings \<Rightarrow> int \<Rightarrow> string \<Rightarrow> bool \<Rightarrow> webhook_event \<Rightarrow> webhook_event" where
  "unresolved cfg now err bump e =
     (if we_correlation e = CORR_RESOLVED then e
      else let e1 = e\<lparr>we_last_error := take 2000 err\<rparr> in
        if bump
        then let n = Suc (we_retry_count e);
                 e2 = e1\<lparr>we_retry_count := n,
                         we_next_retry_at := Some (now + int (retry_delay cfg n) * second_us)\<rparr>
             in if max_auto_retries cfg \<le> n then e2\<lparr>we_correlation := CORR_MANUAL_REVIEW\<rparr> else e2
        else e1\<lparr>we_correlation := CORR_MANUAL_REVIEW\<rparr>)"

definition mark_webhook_event_unresolved ::
  "payout_settings \<Rightarrow> int \<Rightarrow> pk \<Rightarrow> string \<Rightarrow> bool \<Rightarrow> 'a inbox_db_scheme \<Rightarrow> 'a inbox_db_scheme" where
  "mark_webhook_event_unresolved cfg now k err bump s = update_event k (unresolved cfg now err bump) s"

definition resolve_event :: "int \<Rightarrow> pk option \<Rightarrow> webhook_event \<Rightarrow> webhook_event" where
  "resolve_event now j e =
     (if we_correlation e \<in> {CORR_PENDING, CORR_MANUAL_REVIEW}
      then e\<lparr>we_correlation := CORR_RESOLVED, we_resolved_at := Some now, we_attempt := j\<rparr> else e)"

text \<open>
  The three phases: \<open>s0\<close> and \<open>later\<close> are what the correlation reads, \<open>s\<close> the database
  in which the outcome is applied and recorded. An exception of an applier leaves \<open>s\<close>
  as it was and propagates.
\<close>

definition process_webhook_event ::
  "payout_settings \<Rightarrow> (string \<Rightarrow> rat option) \<Rightarrow> int \<Rightarrow> pk \<Rightarrow> 'a inbox_db_scheme \<Rightarrow> 'a inbox_db_scheme list
     \<Rightarrow> 'a inbox_db_scheme \<Rightarrow> (payout_error + target option) \<times> 'a inbox_db_scheme" where
  "process_webhook_event cfg parse now k s0 later s =
     (case webhook_events s0 k of
        None \<Rightarrow> (Inl (RowMissing ''PayoutWebhookEvent''), s)
      | Some e \<Rightarrow>
          if we_correlation e = CORR_RESOLVED then (Inr None, s)
          else let ev = to_provider_event e;
                   t = resolve_payout_target ev s0 later
               in (case t of
                     Ambiguous \<Rightarrow> (Inr (Some t), mark_webhook_event_unresolved cfg now k ''Ambiguous'' False s)
                   | DataIntegrityViolation \<Rightarrow>
                       (Inr (Some t), mark_webhook_event_unresolved cfg now k ''DataIntegrityViolation'' False s)
                   | Orphan \<Rightarrow> (Inr (Some t), mark_webhook_event_unresolved cfg now k ''orphan'' True s)
                   | _ \<Rightarrow>
                       (case ev_status ev of
                          None \<Rightarrow> (Inr (Some t),
                                   mark_webhook_event_unresolved cfg now k ''unrecognized provider status'' False s)
                        | Some st \<Rightarrow>
                            (case apply_target parse now t st ev s of
                               Inl err \<Rightarrow> (Inl err, s)
                             | Inr (j, s1) \<Rightarrow> (Inr (Some t), update_event k (resolve_event now j) s1)))))"

text \<open>
  The live callback (\<open>views.withdraw_payout_callback\<close>) runs every event of a verified
  body, one failing event never stops the next; the bookkeeping of provider costs in
  the same loop is a component of its own. An event is run without other processes in
  between.
\<close>

fun deliver_events ::
  "payout_settings \<Rightarrow> (string \<Rightarrow> string) \<Rightarrow> (string \<Rightarrow> rat option) \<Rightarrow> int \<Rightarrow> provider_event list
     \<Rightarrow> 'a inbox_db_scheme \<Rightarrow> 'a inbox_db_scheme" where
  "deliver_events cfg sha parse now [] s = s"
| "deliver_events cfg sha parse now (ev # evs) s =
     (case get_or_create_webhook_event sha now ev s of ((k, created), s1) \<Rightarrow>
        deliver_events cfg sha parse now evs
          (snd (process_webhook_event cfg parse now k s1 [s1, s1] s1)))"

datatype http_reply = BadSignature400 | Ok200

definition withdraw_payout_callback ::
  "payout_settings \<Rightarrow> (string \<Rightarrow> string) \<Rightarrow> (string \<Rightarrow> rat option) \<Rightarrow> int \<Rightarrow> bool \<Rightarrow> webhook_body
     \<Rightarrow> 'a inbox_db_scheme \<Rightarrow> http_reply \<times> 'a inbox_db_scheme" where
  "withdraw_payout_callback cfg sha parse now signature_ok body s =
     (case parse_webhook signature_ok body of
        None \<Rightarrow> (BadSignature400, s)
      | Some evs \<Rightarrow> (Ok200, deliver_events cfg sha parse now evs s))"

text \<open>
  \<open>tasks.replay_payout_webhook_events_task\<close>: the due PENDING events, newest first
  (the ordering of the model); an exception ends the run.
\<close>

definition due_events :: "int \<Rightarrow> nat \<Rightarrow> 'a inbox_db_scheme \<Rightarrow> pk list" where
  "due_events now batch s =
     take batch (sort_key (\<lambda>k. - we_received_at (the (webhook_events s k)))
       (rows_where (next_event s) (webhook_events s)
         (\<lambda>e. we_correlation e = CORR_PENDING
            \<and> (case we_next_retry_at e of None \<Rightarrow> True | Some t \<Rightarrow> t \<le> now))))"

fun replay_loop ::
  "payout_settings \<Rightarrow> (string \<Rightarrow> rat option) \<Rightarrow> int \<Rightarrow> pk list \<Rightarrow> nat \<Rightarrow> 'a inbox_db_scheme
     \<Rightarrow> (payout_error + nat) \<times> 'a inbox_db_scheme" where
  "replay_loop cfg parse now [] n s = (Inr n, s)"
| "replay_loop cfg parse now (k # ks) n s =
     (case process_webhook_event cfg parse now k s [s, s] s of
        (Inl err, s') \<Rightarrow> (Inl err, s')
      | (Inr _, s') \<Rightarrow>
          replay_loop cfg parse now ks
            (if map_option we_correlation (webhook_events s' k) = Some CORR_RESOLVED then Suc n else n) s')"

definition replay_payout_webhook_events ::
  "payout_settings \<Rightarrow> (string \<Rightarrow> rat option) \<Rightarrow> int \<Rightarrow> nat \<Rightarrow> 'a inbox_db_scheme
     \<Rightarrow> (payout_error + nat) \<times> 'a inbox_db_scheme" where
  "replay_payout_webhook_events cfg parse now batch s =
     replay_loop cfg parse now (due_events now batch s) 0 s"

subsection \<open>Reconciliation\<close>

definition apply_lookup_outcome ::
  "(string \<Rightarrow> rat option) \<Rightarrow> int \<Rightarrow> pk \<Rightarrow> lookup_result \<Rightarrow> 'a payout_db_scheme
     \<Rightarrow> payout_error + (bool \<times> 'a payout_db_scheme)" where
  "apply_lookup_outcome parse now j res s =
     (case lr_outcome res of
        FOUND_PROCESSING \<Rightarrow>
          if map_option pa_status (attempts s j) = Some PA_PROCESSING then Inr (False, s)
          else map_sum id (\<lambda>as. (True, snd as))
                 (apply_result_without_refund now j PA_PROCESSING '''' (lr_raw res) (None, '''') s)
      | FOUND_COMPLETED \<Rightarrow>
          map_sum id (\<lambda>as. (True, snd as))
            (apply_result_without_refund now j PA_COMPLETED '''' (lr_raw res)
               (extract_confirmed parse (lr_meta res)) s)
      | FOUND_FAILED \<Rightarrow>
          map_sum id (\<lambda>as. (True, snd as))
            (apply_confirmed_failure_with_refund now j ''reconciliation: provider confirms FAILED'' False (lr_raw res) s)
      | _ \<Rightarrow> Inr (False, s))"

definition set_checked :: "int \<Rightarrow> pk \<Rightarrow> 'a payout_db_scheme \<Rightarrow> 'a payout_db_scheme" where
  "set_checked now j s = s\<lparr>attempts := update_row j (\<lambda>a. a\<lparr>pa_checked_at := Some now\<rparr>) (attempts s)\<rparr>"

text \<open>\<open>order_by(F(\<dots>).asc(nulls_first=True))\<close>\<close>

definition by_checked :: "'a payout_db_scheme \<Rightarrow> pk list \<Rightarrow> pk list" where
  "by_checked s ks =
     filter (\<lambda>k. pa_checked_at (attempt_row s k) = None) ks
     @ sort_key (\<lambda>k. the (pa_checked_at (attempt_row s k)))
         (filter (\<lambda>k. pa_checked_at (attempt_row s k) \<noteq> None) ks)"

text \<open>
  Step 1: aged SUBMITTED attempts, newest first, become UNKNOWN; the counter is the
  number that did.
\<close>

fun age_loop :: "int \<Rightarrow> pk list \<Rightarrow> nat \<Rightarrow> 'a payout_db_scheme \<Rightarrow> (payout_error + nat) \<times> 'a payout_db_scheme" where
  "age_loop now [] n s = (Inr n, s)"
| "age_loop now (j # js) n s =
     (case apply_result_without_refund now j PA_UNKNOWN ''aged SUBMITTED'' '''' (None, '''') s of
        Inl e \<Rightarrow> (Inl e, s)
      | Inr (a, s') \<Rightarrow> age_loop now js (if pa_status a = PA_UNKNOWN then Suc n else n) s')"

text \<open>One lookup pass over a list of attempts: (checked, resolved, unchanged).\<close>

fun lookup_loop ::
  "'n np_client_scheme \<Rightarrow> (string \<Rightarrow> rat option) \<Rightarrow> int \<Rightarrow> pk list \<Rightarrow> nat \<times> nat \<times> nat \<Rightarrow> 'a payout_db_scheme
     \<Rightarrow> (payout_error + nat \<times> nat \<times> nat) \<times> 'a payout_db_scheme" where
  "lookup_loop np parse now [] n s = (Inr n, s)"
| "lookup_loop np parse now (j # js) (c, r, u) s =
     (case attempts s j of
        None \<Rightarrow> (Inl (RowMissing ''PayoutAttempt''), s)
      | Some a \<Rightarrow>
          if \<not> provider_registry (pa_provider a) then (Inl (NoAdapter (pa_provider a)), s)
          else if \<not> has_lookup_capability
          then lookup_loop np parse now js (Suc c, r, Suc u) (set_checked now j s)
          else (case apply_lookup_outcome parse now j (lookup_payout np a) (set_checked now j s) of
                  Inl e \<Rightarrow> (Inl e, set_checked now j s)
                | Inr (done, s') \<Rightarrow>
                    lookup_loop np parse now js
                      (if done then (Suc c, Suc r, u) else (Suc c, r, Suc u)) s'))"

definition reconcile_unknown_payout_attempts ::
  "payout_settings \<Rightarrow> 'n np_client_scheme \<Rightarrow> (string \<Rightarrow> rat option) \<Rightarrow> int \<Rightarrow> nat \<Rightarrow> 'a payout_db_scheme
     \<Rightarrow> (payout_error + nat \<times> nat \<times> nat \<times> nat) \<times> 'a payout_db_scheme" where
  "reconcile_unknown_payout_attempts cfg np parse now batch s =
     (case age_loop now
             (take batch (rev (rows_where (next_attempt s) (attempts s)
                (\<lambda>a. pa_status a = PA_SUBMITTED
                   \<and> (case pa_submitted_at a of None \<Rightarrow> False
                      | Some t \<Rightarrow> t \<le> now - submitted_aged_seconds cfg * second_us))))) 0 s of
        (Inl e, s1) \<Rightarrow> (Inl e, s1)
      | (Inr aged, s1) \<Rightarrow>
          (case lookup_loop np parse now
                  (take batch (by_checked s1 (rows_where (next_attempt s1) (attempts s1)
                     (\<lambda>a. pa_status a = PA_UNKNOWN)))) (0, 0, 0) s1 of
             (Inl e, s2) \<Rightarrow> (Inl e, s2)
           | (Inr counts, s2) \<Rightarrow> (Inr (aged, counts), s2)))"

definition reconcile_processing_payout_attempts ::
  "payout_settings \<Rightarrow> 'n np_client_scheme \<Rightarrow> (string \<Rightarrow> rat option) \<Rightarrow> int \<Rightarrow> nat \<Rightarrow> 'a payout_db_scheme
     \<Rightarrow> (payout_error + nat \<times> nat \<times> nat) \<times> 'a payout_db_scheme" where
  "reconcile_processing_payout_attempts cfg np parse now batch s =
     lookup_loop np parse now
       (take batch (by_checked s (rows_where (next_attempt s) (attempts s)
          (\<lambda>a. pa_status a = PA_PROCESSING \<and> pa_reference a \<noteq> ''''
             \<and> pa_updated_at a \<le> now - processing_aged_seconds cfg * second_us)))) (0, 0, 0) s"

end
