(* ===== verification/PayoutSafety.thy ===== *)
theory PayoutSafety
  imports PayoutOrchestrator
begin

section \<open>Safety of the payout subsystem\<close>

text \<open>
  What the handlers of the last theories guarantee together, however their
  transactions interleave: the money of a user (wallet plus withdrawals in flight) is
  constant, a withdrawal has at most one payout attempt, and a finished withdrawal
  stays finished, so a refund happens at most once. First the effect of every handler
  as one equation on the database, then the invariant, then its preservation.
\<close>

subsection \<open>Effects\<close>

lemma book_withdrawal_fee_state: "\<exists>es. book_withdrawal_fee now w r s = s\<lparr>broker_ledger := es\<rparr>"
proof (cases "record_withdrawal_fee_revenue now (Some w, r) s")
  case (Inl e)
  then show ?thesis by (intro exI[of _ "broker_ledger s"]) (simp add: book_withdrawal_fee_def)
next
  case (Inr es)
  obtain o' s' where es: "es = (o', s')" by (cases es)
  have "s' = s \<or> (\<exists>e e0. create_entry e0 s = Inr (e, s'))"
    using withdrawal_fee_writes[OF Inr[unfolded es]] by blast
  then have "\<exists>xs. s' = s\<lparr>broker_ledger := xs\<rparr>"
  proof
    assume "s' = s"
    then show ?thesis by (intro exI[of _ "broker_ledger s"]) simp
  qed (use create_entry_state in blast)
  with Inr es show ?thesis by (auto simp: book_withdrawal_fee_def)
qed

lemma sync_state:
  assumes "sync_withdrawal_request_status k ps s = Inr s'"
  obtains st r where "derive_withdrawal_status ps = Inr st" "withdrawals s k = Some r"
    "s' = s\<lparr>withdrawals := (withdrawals s)(k \<mapsto> r\<lparr>wr_status := st\<rparr>)\<rparr>"
proof -
  obtain st r where d: "derive_withdrawal_status ps = Inr st" "withdrawals s k = Some r"
    and s': "s' = (if wr_status r \<noteq> st then update_withdrawal k (\<lambda>r. r\<lparr>wr_status := st\<rparr>) s else s)"
    using assms by (auto simp: sync_Inr)
  have "s' = s\<lparr>withdrawals := (withdrawals s)(k \<mapsto> r\<lparr>wr_status := st\<rparr>)\<rparr>"
  proof (cases "wr_status r = st")
    case True
    then have "r\<lparr>wr_status := st\<rparr> = r" by (cases r) simp
    with d(2) True s' show ?thesis by (simp add: fun_upd_idem)
  qed (simp add: s' update_withdrawal_def d(2))
  with d show thesis by (rule that)
qed

lemma with_evidence_simps [simp]:
  "pa_status (with_evidence now old new conf a) = pa_status a"
  "pa_wr (with_evidence now old new conf a) = pa_wr a"
  "pa_provider (with_evidence now old new conf a) = pa_provider a"
  "pa_reference (with_evidence now old new conf a) = pa_reference a"
  "pa_batch_id (with_evidence now old new conf a) = pa_batch_id a"
  by (simp_all add: with_evidence_def Let_def)

lemma apply_result_effect:
  assumes "apply_result_without_refund now k new reason raw conf s = Inr (a', s')"
  obtains (noop) "attempts s k = Some a'" "pa_status a' \<in> TERMINAL_STATUSES" "s' = s"
    | (moved) a r st es where "attempts s k = Some a" "withdrawals s (pa_wr a) = Some r"
      "pa_status a \<notin> TERMINAL_STATUSES" "new \<in> allowed_transitions (pa_status a)"
      "derive_withdrawal_status new = Inr st" "pa_status a' = new" "pa_wr a' = pa_wr a"
      "pa_provider a' = pa_provider a" "pa_reference a' = pa_reference a" "pa_batch_id a' = pa_batch_id a"
      "s' = s\<lparr>broker_ledger := es, withdrawals := (withdrawals s)(pa_wr a \<mapsto> r\<lparr>wr_status := st\<rparr>),
              attempts := (attempts s)(k \<mapsto> a')\<rparr>"
proof -
  obtain a r where a: "attempts s k = Some a" "withdrawals s (pa_wr a) = Some r"
    using assms by (auto simp: apply_result_without_refund_def split: option.splits)
  show thesis
  proof (cases "pa_status a \<in> TERMINAL_STATUSES")
    case True
    with assms a show thesis by (intro noop) (auto simp: apply_result_without_refund_def)
  next
    case False
    obtain a1 s1 where t: "transition_payout_attempt now new reason raw False (k, a) s = Inr (a1, s1)"
      using assms a False by (auto simp: apply_result_without_refund_def split: sum.splits)
    obtain s2 where y: "sync_withdrawal_request_status (pa_wr a) new s1 = Inr s2"
      using assms a False t by (auto simp: apply_result_without_refund_def split: sum.splits)
    note tr = t[unfolded transition_Inr]
    have s1: "s1 = s\<lparr>attempts := (attempts s)(k \<mapsto> a1)\<rparr>" and a1: "a1 = moved_attempt now new reason raw a"
      using tr by simp_all
    obtain st r' where d: "derive_withdrawal_status new = Inr st" and r': "withdrawals s1 (pa_wr a) = Some r'"
      and s2: "s2 = s1\<lparr>withdrawals := (withdrawals s1)(pa_wr a \<mapsto> r'\<lparr>wr_status := st\<rparr>)\<rparr>"
      using sync_state[OF y] by metis
    have "r' = r" using r' a(2) s1 by simp
    let ?a2 = "with_evidence now (pa_status a) new conf a1"
    let ?s3 = "set_attempt k ?a2 s2"
    have s3: "?s3 = s\<lparr>withdrawals := (withdrawals s)(pa_wr a \<mapsto> r\<lparr>wr_status := st\<rparr>),
                      attempts := (attempts s)(k \<mapsto> ?a2)\<rparr>"
      by (simp add: set_attempt_def s2 s1 \<open>r' = r\<close>)
    have res: "a' = ?a2" "s' = (if new = PA_COMPLETED then book_withdrawal_fee now (pa_wr a) r ?s3 else ?s3)"
      using assms a False t y by (simp_all add: apply_result_without_refund_def Let_def)
    obtain es where "s' = ?s3\<lparr>broker_ledger := es\<rparr>"
    proof (cases "new = PA_COMPLETED")
      case True
      then show thesis using that res(2) book_withdrawal_fee_state[of now "pa_wr a" r ?s3] by auto
    next
      case False
      then show thesis using that[of "broker_ledger ?s3"] res(2) by simp
    qed
    then have s': "s' = s\<lparr>broker_ledger := es, withdrawals := (withdrawals s)(pa_wr a \<mapsto> r\<lparr>wr_status := st\<rparr>),
              attempts := (attempts s)(k \<mapsto> a')\<rparr>"
      unfolding s3 res(1) by (intro payout_db.equality) simp_all
    have alw: "new \<in> allowed_transitions (pa_status a)" using tr by simp
    show thesis by (rule moved[OF a False alw d _ _ _ _ _ s']) (simp_all add: res(1) a1)
  qed
qed

lemma submission_success_effect:
  assumes "apply_submission_success now k res s = Inr (a', s')"
  obtains (noop) "attempts s k = Some a'" "pa_status a' \<in> TERMINAL_STATUSES" "s' = s"
    | (moved) a r where "attempts s k = Some a" "withdrawals s (pa_wr a) = Some r"
      "pa_status a \<in> {PA_SUBMITTED, PA_UNKNOWN}" "pa_status a' = PA_PROCESSING" "pa_wr a' = pa_wr a"
      "pa_provider a' = pa_provider a" "pa_reference a' = sr_reference res" "pa_batch_id a' = sr_batch res"
      "s' = s\<lparr>withdrawals := (withdrawals s)(pa_wr a \<mapsto> r\<lparr>wr_status := WR_PROCESSING,
                wr_np_batch_id := sr_batch res, wr_np_payout_id := sr_reference res,
                wr_np_status := sr_raw res, wr_crypto_amount := map_option col10 (sr_amount res)\<rparr>),
              attempts := (attempts s)(k \<mapsto> a')\<rparr>"
proof -
  obtain a r where a: "attempts s k = Some a" "withdrawals s (pa_wr a) = Some r"
    using assms by (auto simp: apply_submission_success_def split: option.splits)
  show thesis
  proof (cases "pa_status a \<in> TERMINAL_STATUSES")
    case True
    with assms a show thesis by (intro noop) (auto simp: apply_submission_success_def)
  next
    case False
    let ?b = "a\<lparr>pa_reference := sr_reference res, pa_batch_id := sr_batch res,
                pa_provider_amount := map_option col10 (sr_amount res)\<rparr>"
    obtain a1 s1 where t: "transition_payout_attempt now PA_PROCESSING '''' (sr_raw res) False (k, ?b) s = Inr (a1, s1)"
      using assms a False by (auto simp: apply_submission_success_def split: sum.splits)
    obtain s2 where y: "sync_withdrawal_request_status (pa_wr a) PA_PROCESSING s1 = Inr s2"
      using assms a False t by (auto simp: apply_submission_success_def split: sum.splits)
    note tr = t[unfolded transition_Inr]
    have s1: "s1 = s\<lparr>attempts := (attempts s)(k \<mapsto> a1)\<rparr>"
      and a1: "a1 = moved_attempt now PA_PROCESSING '''' (sr_raw res) ?b"
      using tr by simp_all
    obtain st r' where d: "derive_withdrawal_status PA_PROCESSING = Inr st" and r': "withdrawals s1 (pa_wr a) = Some r'"
      and s2: "s2 = s1\<lparr>withdrawals := (withdrawals s1)(pa_wr a \<mapsto> r'\<lparr>wr_status := st\<rparr>)\<rparr>"
      using sync_state[OF y] by metis
    have "r' = r" "st = WR_PROCESSING" using r' a(2) s1 d by (simp_all add: derive_withdrawal_status_def)
    have res: "a' = a1" "s' = update_withdrawal (pa_wr a)
            (\<lambda>r. r\<lparr>wr_np_batch_id := sr_batch res, wr_np_payout_id := sr_reference res,
               wr_np_status := sr_raw res, wr_crypto_amount := map_option col10 (sr_amount res)\<rparr>) s2"
      using assms a False t y by (simp_all add: apply_submission_success_def)
    have st: "pa_status a \<in> {PA_SUBMITTED, PA_UNKNOWN}"
      using tr by (cases "pa_status a") (simp_all add: allowed_transitions_def)
    show thesis
    proof (rule moved[OF a st])
      show "s' = s\<lparr>withdrawals := (withdrawals s)(pa_wr a \<mapsto> r\<lparr>wr_status := WR_PROCESSING,
                wr_np_batch_id := sr_batch res, wr_np_payout_id := sr_reference res,
                wr_np_status := sr_raw res, wr_crypto_amount := map_option col10 (sr_amount res)\<rparr>),
              attempts := (attempts s)(k \<mapsto> a')\<rparr>"
        by (rule payout_db.equality)
           (simp_all add: res s1 s2 \<open>r' = r\<close> \<open>st = WR_PROCESSING\<close> update_withdrawal_def fun_eq_iff)
    qed (simp_all add: res(1) a1)
  qed
qed

lemma refund_effect:
  assumes "apply_confirmed_failure_with_refund now k reason pre raw s = Inr (a', s')"
  obtains (noop) "attempts s k = Some a'" "pa_status a' \<in> TERMINAL_STATUSES" "s' = s"
    | (moved) a r w row txs where "attempts s k = Some a" "withdrawals s (pa_wr a) = Some r"
      "pa_status a \<notin> TERMINAL_STATUSES" "user_wallet s (wr_user r) = Some w" "wallets s w = Some row"
      "pa_status a' = PA_FAILED" "pa_wr a' = pa_wr a"
      "pa_provider a' = pa_provider a" "pa_reference a' = pa_reference a" "pa_batch_id a' = pa_batch_id a"
      "s' = s\<lparr>wallets := (wallets s)(w \<mapsto> row\<lparr>available_balance := col2 (available_balance row + wr_amount r)\<rparr>),
              wallet_txs := txs,
              withdrawals := (withdrawals s)(pa_wr a \<mapsto>
                 r\<lparr>wr_status := WR_FAILED, wr_np_status := (if raw = '''' then ''FAILED'' else raw)\<rparr>),
              attempts := (attempts s)(k \<mapsto> a')\<rparr>"
proof -
  obtain a r w where a: "attempts s k = Some a" "withdrawals s (pa_wr a) = Some r" "user_wallet s (wr_user r) = Some w"
    using assms by (auto simp: apply_confirmed_failure_with_refund_def split: option.splits)
  show thesis
  proof (cases "pa_status a \<in> TERMINAL_STATUSES")
    case True
    with assms a show thesis by (intro noop) (auto simp: apply_confirmed_failure_with_refund_def)
  next
    case False
    obtain a1 s1 where t: "transition_payout_attempt now PA_FAILED reason raw pre (k, a) s = Inr (a1, s1)"
      using assms a False by (auto simp: apply_confirmed_failure_with_refund_def split: sum.splits)
    obtain s2 where y: "sync_withdrawal_request_status (pa_wr a) PA_FAILED s1 = Inr s2"
      using assms a False t by (auto simp: apply_confirmed_failure_with_refund_def split: sum.splits)
    note tr = t[unfolded transition_Inr]
    have s1: "s1 = s\<lparr>attempts := (attempts s)(k \<mapsto> a1)\<rparr>" and a1: "a1 = moved_attempt now PA_FAILED reason raw a"
      using tr by simp_all
    obtain st r' where d: "derive_withdrawal_status PA_FAILED = Inr st" and r': "withdrawals s1 (pa_wr a) = Some r'"
      and s2: "s2 = s1\<lparr>withdrawals := (withdrawals s1)(pa_wr a \<mapsto> r'\<lparr>wr_status := st\<rparr>)\<rparr>"
      using sync_state[OF y] by metis
    have "r' = r" "st = WR_FAILED" using r' a(2) s1 d by (simp_all add: derive_withdrawal_status_def)
    let ?a2 = "if pa_status a = PA_UNKNOWN then a1\<lparr>pa_reconciled_at := Some now\<rparr> else a1"
    let ?s3 = "set_attempt k ?a2 s2"
    obtain tx s4 where c: "credit_wallet w (wr_amount r) TX_CORRECTION None None ?s3 = Inr (tx, s4)"
      and res: "a' = ?a2" "s' = update_withdrawal (pa_wr a)
         (\<lambda>r. r\<lparr>wr_np_status := (if raw = '''' then ''FAILED'' else raw)\<rparr>) s4"
      using assms a False t y
      by (auto simp: apply_confirmed_failure_with_refund_def Let_def split: sum.splits prod.splits)
    obtain row where row: "wallets ?s3 w = Some row"
      and post: "post_wallet w (wr_amount r) (available_balance row + wr_amount r) TX_CORRECTION None None row ?s3 = (tx, s4)"
      using c by (auto simp: credit_wallet_Inr)
    have s4: "s4 = ?s3\<lparr>wallets := (wallets ?s3)(w \<mapsto> row\<lparr>available_balance := col2 (available_balance row + wr_amount r)\<rparr>),
        wallet_txs := wallet_txs ?s3 @ [tx]\<rparr>"
      by (rule post_wallet_state[OF post])
    have "wallets s w = Some row" using row s1 s2 by (simp add: set_attempt_def)
    moreover have "s' = s\<lparr>wallets := (wallets s)(w \<mapsto> row\<lparr>available_balance := col2 (available_balance row + wr_amount r)\<rparr>),
              wallet_txs := wallet_txs s @ [tx],
              withdrawals := (withdrawals s)(pa_wr a \<mapsto>
                 r\<lparr>wr_status := WR_FAILED, wr_np_status := (if raw = '''' then ''FAILED'' else raw)\<rparr>),
              attempts := (attempts s)(k \<mapsto> a')\<rparr>"
      by (rule payout_db.equality)
         (simp_all add: res s4 s2 s1 set_attempt_def update_withdrawal_def \<open>r' = r\<close> \<open>st = WR_FAILED\<close> fun_eq_iff)
    ultimately show thesis by (intro moved[OF a(1,2) False a(3)]) (simp_all add: res(1) a1)
  qed
qed

subsection \<open>The money of a user\<close>

definition bal :: "pk \<Rightarrow> 'a wallet_db_scheme \<Rightarrow> rat" where
  "bal u s = (case user_wallet s u of None \<Rightarrow> 0 | Some w \<Rightarrow> bal0 w s)"

text \<open>What a withdrawal holds back: its amount, from the debit until it fails or is rejected.\<close>

definition held_row :: "pk \<Rightarrow> withdrawal \<Rightarrow> rat" where
  "held_row u r =
     (if wr_user r = u \<and> wr_debit_tx r \<and> wr_status r \<notin> {WR_REJECTED, WR_FAILED} then wr_amount r else 0)"

definition held :: "pk \<Rightarrow> 'a payout_db_scheme \<Rightarrow> rat" where
  "held u s = (\<Sum>k < next_withdrawal s. case withdrawals s k of None \<Rightarrow> 0 | Some r \<Rightarrow> held_row u r)"

definition total :: "pk \<Rightarrow> 'a payout_db_scheme \<Rightarrow> rat" where
  "total u s = bal u s + held u s"

definition wal_ok :: "'a wallet_db_scheme \<Rightarrow> bool" where
  "wal_ok s \<longleftrightarrow>
     (\<forall>u w. user_wallet s u = Some w \<longrightarrow> w < next_wallet s \<and> wallets s w \<noteq> None)
     \<and> (\<forall>u v w. user_wallet s u = Some w \<and> user_wallet s v = Some w \<longrightarrow> u = v)
     \<and> (\<forall>w row. wallets s w = Some row \<longrightarrow> cents (available_balance row))"

lemma sum_update_point:
  fixes f :: "nat \<Rightarrow> 'a::ab_group_add"
  assumes "k < n" "\<And>i. i \<noteq> k \<Longrightarrow> g i = f i"
  shows "(\<Sum>i < n. g i) = (\<Sum>i < n. f i) - f k + g k"
proof -
  have "(\<Sum>i < n. h i) = h k + (\<Sum>i \<in> {..<n} - {k}. h i)" for h :: "nat \<Rightarrow> 'a"
    using assms(1) by (simp add: sum.remove)
  moreover have "(\<Sum>i \<in> {..<n} - {k}. g i) = (\<Sum>i \<in> {..<n} - {k}. f i)"
    using assms(2) by (intro sum.cong) auto
  ultimately show ?thesis by simp
qed

lemma held_update:
  assumes "withdrawals s k = Some r" "k < next_withdrawal s"
    and "withdrawals s' = (withdrawals s)(k \<mapsto> r')" "next_withdrawal s' = next_withdrawal s"
  shows "held u s' = held u s - held_row u r + held_row u r'"
  using sum_update_point[OF assms(2), of "\<lambda>k. case withdrawals s' k of None \<Rightarrow> 0 | Some r \<Rightarrow> held_row u r"
      "\<lambda>k. case withdrawals s k of None \<Rightarrow> 0 | Some r \<Rightarrow> held_row u r"] assms
  by (simp add: held_def)

lemma held_insert:
  assumes "withdrawals s' = (withdrawals s)(next_withdrawal s \<mapsto> r)"
    "next_withdrawal s' = Suc (next_withdrawal s)"
  shows "held u s' = held u s + held_row u r"
  using assms by (simp add: held_def)

text \<open>A posting on one wallet changes the balance of its owner only.\<close>

lemma bal_post:
  assumes w: "wal_ok s" and u: "user_wallet s u = Some w" "wallets s w = Some row" and c: "cents x"
    and s': "wallets s' = (wallets s)(w \<mapsto> row\<lparr>available_balance := col2 (available_balance row + x)\<rparr>)"
      "user_wallet s' = user_wallet s" "next_wallet s' = next_wallet s"
  shows "wal_ok s'" and "bal v s' = bal v s + (if v = u then x else 0)"
proof -
  have ca: "cents (available_balance row)" using w u(2) by (simp add: wal_ok_def)
  then have cb: "col2 (available_balance row + x) = available_balance row + x" using c by (rule cents_add)
  show "wal_ok s'"
    using w u(2) unfolding wal_ok_def s' by auto
  show "bal v s' = bal v s + (if v = u then x else 0)"
  proof (cases "user_wallet s v")
    case (Some w')
    have "w' = w \<Longrightarrow> v = u" using w u(1) Some by (simp add: wal_ok_def)
    then show ?thesis using Some u cb by (auto simp: bal_def bal0_def s')
  qed (use u(1) in \<open>auto simp: bal_def s'\<close>)
qed

lemma bal_get_wallet:
  assumes "wal_ok s"
  shows "wal_ok (snd (get_or_create_wallet u s))" and "bal v (snd (get_or_create_wallet u s)) = bal v s"
    and "user_wallet (snd (get_or_create_wallet u s)) u = Some (fst (fst (get_or_create_wallet u s)))"
proof -
  show "user_wallet (snd (get_or_create_wallet u s)) u = Some (fst (fst (get_or_create_wallet u s)))"
    by (simp add: get_or_create_wallet_def Let_def split: option.split)
  have fresh: "user_wallet s x \<noteq> Some (next_wallet s)" for x using assms by (auto simp: wal_ok_def)
  show "wal_ok (snd (get_or_create_wallet u s))"
  proof (cases "user_wallet s u")
    case None
    then show ?thesis using assms fresh
      by (auto simp: get_or_create_wallet_def Let_def wal_ok_def less_Suc_eq)
  qed (simp add: get_or_create_wallet_def assms)
  show "bal v (snd (get_or_create_wallet u s)) = bal v s"
  proof (cases "user_wallet s u")
    case None
    then show ?thesis using fresh[of v]
      by (auto simp: get_or_create_wallet_def Let_def bal_def bal0_def split: option.split)
  qed (simp add: get_or_create_wallet_def)
qed

subsection \<open>The invariant\<close>

definition att_row :: "payout_attempt \<Rightarrow> withdrawal \<Rightarrow> bool" where
  "att_row a r \<longleftrightarrow> derive_withdrawal_status (pa_status a) = Inr (wr_status r) \<and> wr_debit_tx r
     \<and> pa_provider a = ''nowpayments''
     \<and> wr_np_payout_id r = pa_reference a \<and> wr_np_batch_id r = pa_batch_id a
     \<and> (pa_status a \<in> {PA_SUBMITTED, PA_UNKNOWN} \<longrightarrow> pa_reference a = '''' \<and> pa_batch_id a = '''')"

definition free_of_attempts :: "pk \<Rightarrow> 'a payout_db_scheme \<Rightarrow> bool" where
  "free_of_attempts k s \<longleftrightarrow> (\<forall>j a. attempts s j = Some a \<longrightarrow> pa_wr a \<noteq> k)"

text \<open>Two administrators approved, or one approval is enough.\<close>

definition released :: "withdrawal \<Rightarrow> bool" where
  [simp]: "released r \<longleftrightarrow> wr_required_approvals r \<le> 1
     \<or> (\<exists>p q. wr_first_approved_by r = Some p \<and> wr_second_approved_by r = Some q \<and> p \<noteq> q)"

definition approvals_ok :: "withdrawal \<Rightarrow> bool" where
  [simp]: "approvals_ok r \<longleftrightarrow>
     (\<forall>q. wr_second_approved_by r = Some q \<longrightarrow> (\<exists>p. wr_first_approved_by r = Some p \<and> p \<noteq> q))"

definition wr_row :: "withdrawal \<Rightarrow> bool" where
  "wr_row r \<longleftrightarrow> cents (wr_amount r) \<and> approvals_ok r
     \<and> (wr_debit_tx r \<and> wr_status r \<notin> {WR_PENDING, WR_REJECTED} \<longrightarrow> released r)
     \<and> (wr_status r = WR_PENDING \<longrightarrow> wr_debit_tx r \<and> wr_np_payout_id r = '''' \<and> wr_np_batch_id r = '''')"

definition att_ok :: "'a payout_db_scheme \<Rightarrow> bool" where
  "att_ok s \<longleftrightarrow>
     (\<forall>j a. attempts s j = Some a \<longrightarrow> j < next_attempt s \<and> (\<exists>r. withdrawals s (pa_wr a) = Some r \<and> att_row a r))
     \<and> (\<forall>i j a b. attempts s i = Some a \<and> attempts s j = Some b \<and> pa_wr a = pa_wr b \<longrightarrow> i = j)"

definition wr_ok :: "'a payout_db_scheme \<Rightarrow> bool" where
  "wr_ok s \<longleftrightarrow> (\<forall>k r. withdrawals s k = Some r \<longrightarrow> k < next_withdrawal s \<and> wr_row r)"

definition funded_ok :: "'a funded_db_scheme \<Rightarrow> bool" where
  "funded_ok s \<longleftrightarrow>
     (\<forall>i f. funded_requests s i = Some f \<longrightarrow> i < next_funded s
        \<and> (fr_status f = FR_PENDING \<longrightarrow> fr_withdrawal f = None) \<and>
        (\<forall>k. fr_withdrawal f = Some k \<longrightarrow> (\<exists>r. withdrawals s k = Some r \<and> \<not> wr_debit_tx r)))
     \<and> (\<forall>k r. withdrawals s k = Some r \<and> \<not> wr_debit_tx r \<longrightarrow>
          (\<exists>i f. funded_requests s i = Some f \<and> fr_withdrawal f = Some k))"

definition pay_inv :: "'a funded_db_scheme \<Rightarrow> bool" where
  "pay_inv s \<longleftrightarrow> wal_ok s \<and> wr_ok s \<and> att_ok s \<and> funded_ok s"

text \<open>How a database may change: rows keep owner, amount and origin; finished rows stay finished.\<close>

definition row_evolves :: "withdrawal \<Rightarrow> withdrawal \<Rightarrow> bool" where
  "row_evolves r r' \<longleftrightarrow> wr_amount r' = wr_amount r \<and> wr_user r' = wr_user r \<and> wr_debit_tx r' = wr_debit_tx r
     \<and> (wr_status r \<in> WR_TERMINAL \<longrightarrow> wr_status r' = wr_status r)
     \<and> (wr_status r \<noteq> WR_PENDING \<longrightarrow> wr_status r' \<noteq> WR_PENDING) \<and> (released r \<longrightarrow> released r')"

definition pay_evolves :: "'a funded_db_scheme \<Rightarrow> 'a funded_db_scheme \<Rightarrow> bool" where
  "pay_evolves s t \<longleftrightarrow>
     (\<forall>k r. withdrawals s k = Some r \<longrightarrow> (\<exists>r'. withdrawals t k = Some r' \<and> row_evolves r r'
        \<and> (wr_status r \<noteq> WR_PENDING \<and> free_of_attempts k s \<longrightarrow> free_of_attempts k t)))
     \<and> (\<forall>u. total u t = total u s)"

lemma row_evolves_refl [simp]: "row_evolves r r"
  by (simp add: row_evolves_def)

lemma row_evolves_trans: "row_evolves a b \<Longrightarrow> row_evolves b c \<Longrightarrow> row_evolves a c"
  by (auto simp: row_evolves_def simp del: released_def)

lemma pay_evolves_refl [simp]: "pay_evolves s s"
  by (simp add: pay_evolves_def)

lemma pay_evolves_trans:
  assumes "pay_evolves s t" "pay_evolves t u"
  shows "pay_evolves s u"
  unfolding pay_evolves_def
proof (intro conjI allI impI)
  fix k r assume r: "withdrawals s k = Some r"
  then obtain r1 where r1: "withdrawals t k = Some r1" "row_evolves r r1"
    "wr_status r \<noteq> WR_PENDING \<and> free_of_attempts k s \<longrightarrow> free_of_attempts k t"
    using assms(1) unfolding pay_evolves_def by blast
  then obtain r2 where r2: "withdrawals u k = Some r2" "row_evolves r1 r2"
    "wr_status r1 \<noteq> WR_PENDING \<and> free_of_attempts k t \<longrightarrow> free_of_attempts k u"
    using assms(2) unfolding pay_evolves_def by blast
  have "wr_status r \<noteq> WR_PENDING \<longrightarrow> wr_status r1 \<noteq> WR_PENDING" using r1(2) by (simp add: row_evolves_def)
  with r1 r2 show "\<exists>r'. withdrawals u k = Some r' \<and> row_evolves r r'
      \<and> (wr_status r \<noteq> WR_PENDING \<and> free_of_attempts k s \<longrightarrow> free_of_attempts k u)"
    using row_evolves_trans by blast
qed (use assms in \<open>simp add: pay_evolves_def\<close>)

definition pay_keeps :: "'a funded_db_scheme \<Rightarrow> 'a funded_db_scheme \<Rightarrow> bool" where
  "pay_keeps s t \<longleftrightarrow> pay_inv t \<and> pay_evolves s t"

lemma pay_keeps_refl: "pay_inv s \<Longrightarrow> pay_keeps s s"
  by (simp add: pay_keeps_def)

subsection \<open>The two shapes of a change\<close>

definition fr_evolves :: "funded_request \<Rightarrow> funded_request \<Rightarrow> bool" where
  "fr_evolves f f' \<longleftrightarrow> fr_withdrawal f' = fr_withdrawal f \<and> (fr_status f' = FR_PENDING \<longrightarrow> fr_status f = FR_PENDING)"

lemma fr_same [simp]: "rel_option fr_evolves x x"
  by (cases x) (simp_all add: fr_evolves_def)

lemma funded_ok_row:
  assumes "funded_ok s" "withdrawals s k = Some r" "wr_debit_tx r' = wr_debit_tx r"
    and "withdrawals t = (withdrawals s)(k \<mapsto> r')" "next_funded t = next_funded s"
    and "\<And>i. rel_option fr_evolves (funded_requests s i) (funded_requests t i)"
  shows "funded_ok t"
proof -
  have bk: "\<exists>f0. funded_requests s i = Some f0 \<and> fr_evolves f0 f" if "funded_requests t i = Some f" for i f
    using assms(6)[of i] that by (cases "funded_requests s i") auto
  have fo: "\<exists>f0. funded_requests t i = Some f0 \<and> fr_withdrawal f0 = fr_withdrawal f"
    if "funded_requests s i = Some f" for i f
    using assms(6)[of i] that by (cases "funded_requests t i") (auto simp: fr_evolves_def)
  show ?thesis
    unfolding funded_ok_def
  proof (intro conjI allI impI)
    fix i f assume "funded_requests t i = Some f"
    then obtain f0 where f0: "funded_requests s i = Some f0" "fr_withdrawal f0 = fr_withdrawal f"
      "fr_status f = FR_PENDING \<longrightarrow> fr_status f0 = FR_PENDING"
      using bk unfolding fr_evolves_def by metis
    then show "i < next_funded t" "fr_status f = FR_PENDING \<Longrightarrow> fr_withdrawal f = None"
      using assms(1,5) by (auto simp: funded_ok_def)
    fix l assume "fr_withdrawal f = Some l"
    with f0 obtain q where "withdrawals s l = Some q" "\<not> wr_debit_tx q"
      using assms(1) unfolding funded_ok_def by metis
    then show "\<exists>q. withdrawals t l = Some q \<and> \<not> wr_debit_tx q"
      using assms(2-4) by (cases "l = k") auto
  next
    fix l q assume "withdrawals t l = Some q \<and> \<not> wr_debit_tx q"
    then have "\<exists>q. withdrawals s l = Some q \<and> \<not> wr_debit_tx q"
      using assms(2-4) by (cases "l = k") auto
    then show "\<exists>i f. funded_requests t i = Some f \<and> fr_withdrawal f = Some l"
      using assms(1) fo unfolding funded_ok_def by metis
  qed
qed

lemma att_move:
  assumes "att_ok s" "attempts s j = Some a" "withdrawals s (pa_wr a) = Some r"
    and "att_row a' r'" "pa_wr a' = pa_wr a"
    and "attempts t = (attempts s)(j \<mapsto> a')" "withdrawals t = (withdrawals s)(pa_wr a \<mapsto> r')"
    and "next_attempt t = next_attempt s"
  shows "att_ok t" and "free_of_attempts i s \<Longrightarrow> free_of_attempts i t"
proof -
  have uniq: "i = j" if "attempts s i = Some b" "pa_wr b = pa_wr a" for i b
    using assms(1,2) that unfolding att_ok_def by blast
  show "att_ok t"
    unfolding att_ok_def assms(6-8)
  proof (intro conjI allI impI)
    fix i b assume b: "((attempts s)(j \<mapsto> a')) i = Some b"
    show "i < next_attempt s" using b assms(1,2) by (auto simp: att_ok_def split: if_splits)
    show "\<exists>q. ((withdrawals s)(pa_wr a \<mapsto> r')) (pa_wr b) = Some q \<and> att_row b q"
    proof (cases "i = j")
      case False
      then have bs: "attempts s i = Some b" using b by simp
      then have "pa_wr b \<noteq> pa_wr a" using uniq False by blast
      with bs show ?thesis using assms(1) by (simp add: att_ok_def)
    qed (use b assms(4,5) in auto)
  next
    fix i l b c
    assume "((attempts s)(j \<mapsto> a')) i = Some b \<and> ((attempts s)(j \<mapsto> a')) l = Some c \<and> pa_wr b = pa_wr c"
    then show "i = l" using uniq assms(1,5) by (auto simp: att_ok_def split: if_splits)
  qed
  show "free_of_attempts i t" if "free_of_attempts i s"
    using that assms(2,5) by (auto simp: free_of_attempts_def assms(6) split: if_splits)
qed

lemma att_other:
  assumes "att_ok s" "free_of_attempts k s" "attempts t = attempts s"
    "withdrawals t = (withdrawals s)(k \<mapsto> r')" "next_attempt t = next_attempt s"
  shows "att_ok t"
  unfolding att_ok_def assms(3-5)
proof (intro conjI allI impI)
  fix j a assume a: "attempts s j = Some a"
  then show "j < next_attempt s" using assms(1) by (simp add: att_ok_def)
  have "pa_wr a \<noteq> k" using a assms(2) by (simp add: free_of_attempts_def)
  with a show "\<exists>r. ((withdrawals s)(k \<mapsto> r')) (pa_wr a) = Some r \<and> att_row a r"
    using assms(1) by (simp add: att_ok_def)
qed (use assms(1) in \<open>auto simp: att_ok_def\<close>)

lemma pending_free:
  assumes "att_ok s" "withdrawals s k = Some r" "wr_status r = WR_PENDING"
  shows "free_of_attempts k s"
  using assms derive_never_pending by (fastforce simp: att_ok_def att_row_def free_of_attempts_def)

text \<open>One withdrawal row changes, with whatever it releases or takes going to wallets.\<close>

lemma keep_row:
  assumes inv: "pay_inv s" and k: "withdrawals s k = Some r"
    and t: "withdrawals t = (withdrawals s)(k \<mapsto> r')" "next_withdrawal t = next_withdrawal s"
      "next_funded t = next_funded s"
      "\<And>i. rel_option fr_evolves (funded_requests s i) (funded_requests t i)"
    and row: "row_evolves r r'" "wr_row r'"
    and money: "wal_ok t" "\<And>v. bal v t = bal v s + (held_row v r - held_row v r')"
    and att: "att_ok t" "\<And>i. free_of_attempts i s \<Longrightarrow> free_of_attempts i t"
  shows "pay_keeps s t"
proof -
  have kn: "k < next_withdrawal s" using inv k by (simp add: pay_inv_def wr_ok_def)
  have "wr_ok t" using inv t(1,2) row(2) kn by (auto simp: pay_inv_def wr_ok_def)
  moreover have "funded_ok t"
    using inv row(1) by (intro funded_ok_row[OF _ k _ t(1,3,4)]) (simp_all add: pay_inv_def row_evolves_def)
  moreover have "total u t = total u s" for u
    using held_update[OF k kn t(1,2), of u] money(2)[of u] by (simp add: total_def)
  moreover have "\<exists>q'. withdrawals t i = Some q' \<and> row_evolves q q'
      \<and> (wr_status q \<noteq> WR_PENDING \<and> free_of_attempts i s \<longrightarrow> free_of_attempts i t)"
    if "withdrawals s i = Some q" for i q
    using that k row(1) att(2) by (cases "i = k") (auto simp: t(1))
  ultimately show ?thesis
    using money(1) att(1) by (simp add: pay_keeps_def pay_inv_def pay_evolves_def)
qed

text \<open>Nothing the invariant reads changes.\<close>

lemma keep_same:
  assumes "pay_inv s" "withdrawals t = withdrawals s" "next_withdrawal t = next_withdrawal s"
    "next_funded t = next_funded s"
    "\<And>i. rel_option fr_evolves (funded_requests s i) (funded_requests t i)"
    "wal_ok t" "\<And>v. bal v t = bal v s" "attempts t = attempts s" "next_attempt t = next_attempt s"
  shows "pay_keeps s t"
proof -
  have "total u t = total u s" for u using assms by (simp add: total_def held_def)
  moreover have "wr_ok t" "att_ok t" using assms by (simp_all add: pay_inv_def wr_ok_def att_ok_def)
  moreover have "funded_ok t"
  proof (cases "\<exists>k r. withdrawals s k = Some r")
    case True
    then obtain k r where kr: "withdrawals s k = Some r" by blast
    have "withdrawals t = (withdrawals s)(k \<mapsto> r)" unfolding assms(2) kr[symmetric] by simp
    moreover have "funded_ok s" using assms(1) by (simp add: pay_inv_def)
    ultimately show ?thesis using funded_ok_row[OF _ kr refl _ assms(4,5)] by blast
  next
    case False
    have bk: "\<exists>f0. funded_requests s i = Some f0 \<and> fr_withdrawal f = fr_withdrawal f0
        \<and> (fr_status f = FR_PENDING \<longrightarrow> fr_status f0 = FR_PENDING)"
      if "funded_requests t i = Some f" for i f
      using assms(5)[of i] that by (cases "funded_requests s i") (auto simp: fr_evolves_def)
    with False show ?thesis
      using assms(1,2,4) unfolding pay_inv_def funded_ok_def by metis
  qed
  ultimately show ?thesis
    using assms(2,6,8) by (auto simp: pay_keeps_def pay_inv_def pay_evolves_def free_of_attempts_def)
qed

subsection \<open>Every handler keeps the invariant and the money\<close>

lemma bal_cong:
  assumes "wallets t = wallets s" "user_wallet t = user_wallet s" "next_wallet t = next_wallet s"
  shows "wal_ok t = wal_ok s" "bal v t = bal v s"
  using assms by (simp_all add: wal_ok_def bal_def bal0_def split: option.split)

lemma wr_rowD: "pay_inv s \<Longrightarrow> withdrawals s k = Some r \<Longrightarrow> wr_row r"
  by (simp add: pay_inv_def wr_ok_def)

lemma att_rowD:
  assumes "pay_inv s" "attempts s j = Some a" "withdrawals s (pa_wr a) = Some r"
  shows "att_row a r"
proof -
  have "\<exists>q. withdrawals s (pa_wr a) = Some q \<and> att_row a q"
    using assms(1,2) unfolding pay_inv_def att_ok_def by blast
  with assms(3) show ?thesis by simp
qed

lemma active_held:
  assumes "att_row a r" "pa_status a \<notin> TERMINAL_STATUSES"
  shows "wr_status r = WR_PROCESSING"
  using assms by (cases "pa_status a") (simp_all add: att_row_def derive_withdrawal_status_def TERMINAL_STATUSES_def)

lemma keep_result:
  fixes s :: "'a funded_db_scheme"
  assumes inv: "pay_inv s" and ok: "apply_result_without_refund now j new reason raw conf s = Inr (a', s')"
    and new: "new \<noteq> PA_FAILED"
  shows "pay_keeps s s'"
  using ok
proof (cases rule: apply_result_effect)
  case noop
  then show ?thesis using inv by (simp add: pay_keeps_refl)
next
  case (moved a r st es)
  note ar = att_rowD[OF inv moved(1,2)]
  have pr: "wr_status r = WR_PROCESSING" by (rule active_held[OF ar moved(3)])
  have st: "st \<in> {WR_PROCESSING, WR_COMPLETED}"
    using moved(5) new by (cases new) (auto simp: derive_withdrawal_status_def)
  have u: "new \<in> {PA_SUBMITTED, PA_UNKNOWN} \<Longrightarrow> pa_status a = PA_SUBMITTED"
    using moved(4) ar by (cases "pa_status a") (auto simp: allowed_transitions_def att_row_def derive_withdrawal_status_def)
  have ar': "att_row a' (r\<lparr>wr_status := st\<rparr>)"
    using ar moved(5-10) u by (auto simp: att_row_def)
  have ao: "att_ok s" using inv by (simp add: pay_inv_def)
  have t: "attempts s' = (attempts s)(j \<mapsto> a')" "withdrawals s' = (withdrawals s)(pa_wr a \<mapsto> r\<lparr>wr_status := st\<rparr>)"
    "next_attempt s' = next_attempt s" by (simp_all add: moved(11))
  have c: "wallets s' = wallets s" "user_wallet s' = user_wallet s" "next_wallet s' = next_wallet s"
    by (simp_all add: moved(11))
  show ?thesis
  proof (rule keep_row[OF inv moved(2) t(2)])
    show "row_evolves r (r\<lparr>wr_status := st\<rparr>)" using pr st by (auto simp: row_evolves_def WR_TERMINAL_def)
    show "wr_row (r\<lparr>wr_status := st\<rparr>)" using wr_rowD[OF inv moved(2)] st pr by (auto simp: wr_row_def)
    show "wal_ok s'" using inv bal_cong(1)[OF c] by (simp add: pay_inv_def)
    show "bal v s' = bal v s + (held_row v r - held_row v (r\<lparr>wr_status := st\<rparr>))" for v
      using pr st bal_cong(2)[OF c, of v] by (auto simp: held_row_def)
    show "att_ok s'" by (rule att_move(1)[OF ao moved(1,2) ar' moved(7) t(1,2,3)])
    show "free_of_attempts i s \<Longrightarrow> free_of_attempts i s'" for i
      by (rule att_move(2)[OF ao moved(1,2) ar' moved(7) t(1,2,3)])
  qed (simp_all add: moved(11))
qed

lemma keep_success:
  fixes s :: "'a funded_db_scheme"
  assumes inv: "pay_inv s" and ok: "apply_submission_success now j res s = Inr (a', s')"
  shows "pay_keeps s s'"
  using ok
proof (cases rule: submission_success_effect)
  case noop
  then show ?thesis using inv by (simp add: pay_keeps_refl)
next
  case (moved a r)
  note ar = att_rowD[OF inv moved(1,2)]
  have pr: "wr_status r = WR_PROCESSING"
    using moved(3) by (intro active_held[OF ar]) (auto simp: TERMINAL_STATUSES_def)
  define r' where "r' = r\<lparr>wr_status := WR_PROCESSING, wr_np_batch_id := sr_batch res,
    wr_np_payout_id := sr_reference res, wr_np_status := sr_raw res,
    wr_crypto_amount := map_option col10 (sr_amount res)\<rparr>"
  have ar': "att_row a' r'"
    using ar moved(4-8) by (simp add: att_row_def r'_def derive_withdrawal_status_def)
  have ao: "att_ok s" using inv by (simp add: pay_inv_def)
  have t: "attempts s' = (attempts s)(j \<mapsto> a')" "withdrawals s' = (withdrawals s)(pa_wr a \<mapsto> r')"
    "next_attempt s' = next_attempt s" by (simp_all add: moved(9) r'_def)
  have c: "wallets s' = wallets s" "user_wallet s' = user_wallet s" "next_wallet s' = next_wallet s"
    by (simp_all add: moved(9))
  show ?thesis
  proof (rule keep_row[OF inv moved(2) t(2)])
    show "row_evolves r r'" using pr by (simp add: row_evolves_def r'_def WR_TERMINAL_def)
    show "wr_row r'" using wr_rowD[OF inv moved(2)] pr by (simp add: wr_row_def r'_def)
    show "wal_ok s'" using inv bal_cong(1)[OF c] by (simp add: pay_inv_def)
    show "bal v s' = bal v s + (held_row v r - held_row v r')" for v
      using pr bal_cong(2)[OF c, of v] by (simp add: held_row_def r'_def)
    show "att_ok s'" by (rule att_move(1)[OF ao moved(1,2) ar' moved(5) t])
    show "free_of_attempts i s \<Longrightarrow> free_of_attempts i s'" for i
      by (rule att_move(2)[OF ao moved(1,2) ar' moved(5) t])
  qed (simp_all add: moved(9))
qed

lemma keep_refund:
  fixes s :: "'a funded_db_scheme"
  assumes inv: "pay_inv s" and ok: "apply_confirmed_failure_with_refund now j reason pre raw s = Inr (a', s')"
  shows "pay_keeps s s'"
  using ok
proof (cases rule: refund_effect)
  case noop
  then show ?thesis using inv by (simp add: pay_keeps_refl)
next
  case (moved a r w row txs)
  note ar = att_rowD[OF inv moved(1,2)]
  have pr: "wr_status r = WR_PROCESSING" by (rule active_held[OF ar moved(3)])
  define r' where "r' = r\<lparr>wr_status := WR_FAILED, wr_np_status := (if raw = '''' then ''FAILED'' else raw)\<rparr>"
  have ar': "att_row a' r'"
    using ar moved(6-10) by (simp add: att_row_def r'_def derive_withdrawal_status_def)
  have ao: "att_ok s" and wo: "wal_ok s" using inv by (simp_all add: pay_inv_def)
  have rw: "wr_row r" by (rule wr_rowD[OF inv moved(2)])
  have t: "attempts s' = (attempts s)(j \<mapsto> a')" "withdrawals s' = (withdrawals s)(pa_wr a \<mapsto> r')"
    "next_attempt s' = next_attempt s" by (simp_all add: moved(11) r'_def)
  have c: "wallets s' = (wallets s)(w \<mapsto> row\<lparr>available_balance := col2 (available_balance row + wr_amount r)\<rparr>)"
    "user_wallet s' = user_wallet s" "next_wallet s' = next_wallet s"
    by (simp_all add: moved(11))
  have ca: "cents (wr_amount r)" using rw by (simp add: wr_row_def)
  note b = bal_post[OF wo moved(4,5) ca c]
  show ?thesis
  proof (rule keep_row[OF inv moved(2) t(2)])
    show "row_evolves r r'" using pr by (simp add: row_evolves_def r'_def WR_TERMINAL_def)
    show "wr_row r'" using rw pr by (simp add: wr_row_def r'_def)
    show "wal_ok s'" by (rule b(1))
    show "bal v s' = bal v s + (held_row v r - held_row v r')" for v
      using b(2)[of v] pr ar by (auto simp: held_row_def r'_def att_row_def)
    show "att_ok s'" by (rule att_move(1)[OF ao moved(1,2) ar' moved(7) t])
    show "free_of_attempts i s \<Longrightarrow> free_of_attempts i s'" for i
      by (rule att_move(2)[OF ao moved(1,2) ar' moved(7) t])
  qed (simp_all add: moved(11))
qed

text \<open>A row without attempts changes, and \<open>x\<close> goes to the wallet of its owner.\<close>

lemma keep_free_row:
  assumes inv: "pay_inv s" and k: "withdrawals s k = Some r" and fr: "free_of_attempts k s"
    and t: "withdrawals t = (withdrawals s)(k \<mapsto> r')" "next_withdrawal t = next_withdrawal s"
      "attempts t = attempts s" "next_attempt t = next_attempt s" "next_funded t = next_funded s"
      "\<And>i. rel_option fr_evolves (funded_requests s i) (funded_requests t i)"
    and row: "row_evolves r r'" "wr_row r'"
    and money: "wal_ok t" "\<And>v. bal v t = bal v s + (held_row v r - held_row v r')"
  shows "pay_keeps s t"
proof -
  have ao: "att_ok s" using inv by (simp add: pay_inv_def)
  show ?thesis
    by (rule keep_row[OF inv k t(1,2,5,6) row money att_other[OF ao fr t(3,1,4)]])
       (simp add: free_of_attempts_def t(3))
qed

lemma keep_free_quiet:
  assumes inv: "pay_inv s" and k: "withdrawals s k = Some r" and fr: "free_of_attempts k s"
    and t: "withdrawals t = (withdrawals s)(k \<mapsto> r')" "next_withdrawal t = next_withdrawal s"
      "attempts t = attempts s" "next_attempt t = next_attempt s" "next_funded t = next_funded s"
      "\<And>i. rel_option fr_evolves (funded_requests s i) (funded_requests t i)"
    and row: "row_evolves r r'" "wr_row r'"
    and same: "wallets t = wallets s" "user_wallet t = user_wallet s" "next_wallet t = next_wallet s"
      "\<And>v. held_row v r' = held_row v r"
  shows "pay_keeps s t"
proof (rule keep_free_row[OF inv k fr t row])
  show "wal_ok t" using inv bal_cong(1)[OF same(1-3)] by (simp add: pay_inv_def)
  show "bal v t = bal v s + (held_row v r - held_row v r')" for v
    using bal_cong(2)[OF same(1-3)] same(4) by simp
qed

lemma keep_first_approve:
  fixes s :: "'a funded_db_scheme"
  assumes inv: "pay_inv s"
  shows "pay_keeps s (first_approve k actor s)"
proof (cases "first_approve k actor s = s")
  case True
  then show ?thesis using inv by (simp add: pay_keeps_refl)
next
  case False
  then obtain r where r: "withdrawals s k = Some r" "wr_status r = WR_PENDING" "wr_first_approved_by r = None"
    and s': "first_approve k actor s = update_withdrawal k (\<lambda>r. r\<lparr>wr_first_approved_by := Some actor\<rparr>) s"
    by (auto simp: first_approve_def split: option.splits if_splits)
  have fr: "free_of_attempts k s" using inv r(1,2) by (intro pending_free) (simp_all add: pay_inv_def)
  show ?thesis unfolding s'
    by (rule keep_free_quiet[OF inv r(1) fr, where r' = "r\<lparr>wr_first_approved_by := Some actor\<rparr>"])
       (use r wr_rowD[OF inv r(1)] in \<open>simp_all add: row_evolves_def wr_row_def held_row_def update_withdrawal_def\<close>)
qed

lemma keep_second_approval:
  fixes s :: "'a funded_db_scheme"
  assumes inv: "pay_inv s"
  shows "pay_keeps s (snd (apply_second_approval k actor s))"
proof (cases "snd (apply_second_approval k actor s) = s")
  case True
  then show ?thesis using inv by (simp add: pay_keeps_refl)
next
  case False
  then obtain r p where r: "withdrawals s k = Some r" "wr_status r = WR_PENDING"
      "wr_first_approved_by r = Some p" "p \<noteq> actor" "wr_second_approved_by r = None"
    and s': "snd (apply_second_approval k actor s) = update_withdrawal k (\<lambda>r. r\<lparr>wr_second_approved_by := Some actor\<rparr>) s"
    by (auto simp: apply_second_approval_def split: option.splits if_splits)
  have fr: "free_of_attempts k s" using inv r(1,2) by (intro pending_free) (simp_all add: pay_inv_def)
  show ?thesis unfolding s'
    by (rule keep_free_quiet[OF inv r(1) fr, where r' = "r\<lparr>wr_second_approved_by := Some actor\<rparr>"])
       (use r wr_rowD[OF inv r(1)] in \<open>simp_all add: row_evolves_def wr_row_def held_row_def update_withdrawal_def\<close>)
qed

lemma get_wallet_funded [simp]:
  "funded_requests (snd (get_or_create_wallet u s)) = funded_requests s"
  "next_funded (snd (get_or_create_wallet u s)) = next_funded s"
  by (simp_all add: get_or_create_wallet_def Let_def split: option.splits)

lemma keep_get_wallet:
  fixes s :: "'a funded_db_scheme"
  assumes inv: "pay_inv s"
  shows "pay_keeps s (snd (get_or_create_wallet u s))"
  using inv bal_get_wallet(1,2)[where s = s and u = u] by (intro keep_same) (simp_all add: pay_inv_def)

lemma keep_trans: "pay_keeps s t \<Longrightarrow> (pay_inv t \<Longrightarrow> pay_keeps t u) \<Longrightarrow> pay_keeps s u"
  unfolding pay_keeps_def using pay_evolves_trans by blast

lemma keep_reject:
  fixes s :: "'a funded_db_scheme"
  assumes inv: "pay_inv s" and owner: "map_option wr_user (withdrawals s k) \<in> {None, Some u}"
  shows "pay_keeps s (snd (reject_withdrawal now k u admin s))"
proof -
  obtain w c s0 where g: "get_or_create_wallet u s = ((w, c), s0)" by (metis prod.exhaust)
  have s0: "s0 = snd (get_or_create_wallet u s)" and uw: "user_wallet s0 u = Some w"
    using g bal_get_wallet(3)[of s u] inv by (simp_all add: pay_inv_def)
  have w0: "withdrawals s0 = withdrawals s" by (simp add: s0)
  have "pay_keeps s0 (snd (reject_withdrawal now k u admin s))" if inv0: "pay_inv s0"
  proof (cases "snd (reject_withdrawal now k u admin s) = s0")
    case True
    then show ?thesis using inv0 by (simp add: pay_keeps_refl)
  next
    case False
    let ?f = "\<lambda>r. r\<lparr>wr_status := WR_REJECTED, wr_reviewed_by := Some admin, wr_reviewed_at := Some now\<rparr>"
    obtain r tx s1 where r: "withdrawals s0 k = Some r" "wr_status r = WR_PENDING"
      and c: "credit_wallet w (wr_amount r) TX_CORRECTION None None (update_withdrawal k ?f s0) = Inr (tx, s1)"
      and s': "snd (reject_withdrawal now k u admin s) = s1"
      using False g by (auto simp: reject_withdrawal_def split: option.splits if_splits sum.splits)
    obtain row where row: "wallets s0 w = Some row"
      and post: "post_wallet w (wr_amount r) (available_balance row + wr_amount r) TX_CORRECTION None None row
                   (update_withdrawal k ?f s0) = (tx, s1)"
      using c by (auto simp: credit_wallet_Inr)
    have e: "s1 = (update_withdrawal k ?f s0)\<lparr>wallets := (wallets s0)(w \<mapsto> row\<lparr>available_balance :=
        col2 (available_balance row + wr_amount r)\<rparr>), wallet_txs := wallet_txs s0 @ [tx]\<rparr>"
      using post_wallet_state[OF post] by simp
    have fr: "free_of_attempts k s0" using inv0 r by (intro pending_free) (simp_all add: pay_inv_def)
    have rr: "wr_row r" by (rule wr_rowD[OF inv0 r(1)])
    have wo: "wal_ok s0" using inv0 by (simp add: pay_inv_def)
    have ca: "cents (wr_amount r)" using rr by (simp add: wr_row_def)
    have us: "wr_user r = u" using owner r(1) w0 by simp
    have f: "wallets s1 = (wallets s0)(w \<mapsto> row\<lparr>available_balance := col2 (available_balance row + wr_amount r)\<rparr>)"
      "user_wallet s1 = user_wallet s0" "next_wallet s1 = next_wallet s0" by (simp_all add: e)
    note b = bal_post[OF wo uw row ca f]
    show ?thesis unfolding s'
    proof (rule keep_free_row[OF inv0 r(1) fr, where r' = "?f r"])
      show "wal_ok s1" by (rule b(1))
      show "bal v s1 = bal v s0 + (held_row v r - held_row v (?f r))" for v
        using b(2)[of v] us r(2) rr by (simp add: held_row_def wr_row_def)
    qed (use r rr in \<open>simp_all add: e row_evolves_def wr_row_def WR_TERMINAL_def update_withdrawal_def\<close>)
  qed
  with keep_get_wallet[OF inv, of u] show ?thesis unfolding s0[symmetric] by (rule keep_trans)
qed

text \<open>A webhook on a row of the time before payout attempts.\<close>

definition legacy_ok :: "pk \<Rightarrow> 'a payout_db_scheme \<Rightarrow> bool" where
  "legacy_ok k s \<longleftrightarrow> (\<exists>r. withdrawals s k = Some r \<and> wr_status r \<noteq> WR_PENDING \<and> wr_debit_tx r)
     \<and> free_of_attempts k s"

definition funded_row_ok :: "pk \<Rightarrow> 'a payout_db_scheme \<Rightarrow> bool" where
  "funded_row_ok k s \<longleftrightarrow> (\<exists>r. withdrawals s k = Some r \<and> \<not> wr_debit_tx r)"

lemma stamp_status_simps [simp]:
  "wr_amount (stamp_status ev st r) = wr_amount r" "wr_user (stamp_status ev st r) = wr_user r"
  "wr_debit_tx (stamp_status ev st r) = wr_debit_tx r"
  "wr_required_approvals (stamp_status ev st r) = wr_required_approvals r"
  "wr_first_approved_by (stamp_status ev st r) = wr_first_approved_by r"
  "wr_second_approved_by (stamp_status ev st r) = wr_second_approved_by r" "wr_status (stamp_status ev st r) = wr_text st"
  by (simp_all add: stamp_status_def Let_def)

lemma wr_text_not_pending [simp]: "wr_text st \<noteq> WR_PENDING" "wr_text st \<noteq> WR_REJECTED"
  by (cases st; simp add: wr_text_def)+

lemma stamp_rows:
  assumes "wr_row r" "wr_status r \<notin> WR_TERMINAL" "wr_status r \<noteq> WR_PENDING \<or> \<not> wr_debit_tx r"
  shows "row_evolves r (stamp_status ev st r)" "wr_row (stamp_status ev st r)"
  using assms by (auto simp: row_evolves_def wr_row_def WR_TERMINAL_def)

lemma keep_legacy:
  fixes s :: "'a funded_db_scheme"
  assumes inv: "pay_inv s" and l: "legacy_ok k s"
    and ok: "apply_legacy_withdrawal_webhook k st ev s = Inr s'"
  shows "pay_keeps s s'"
proof -
  obtain r where r: "withdrawals s k = Some r" "wr_debit_tx r" and np: "wr_status r \<noteq> WR_PENDING \<or> \<not> wr_debit_tx r"
    and fr: "free_of_attempts k s"
    using l by (auto simp: legacy_ok_def)
  have rr: "wr_row r" by (rule wr_rowD[OF inv r(1)])
  have wo: "wal_ok s" using inv by (simp add: pay_inv_def)
  consider (noop) "s' = s"
    | (fail) w tx s1 where "wr_status r \<notin> WR_TERMINAL" "wr_text st = WR_FAILED" "user_wallet s (wr_user r) = Some w"
        "credit_wallet w (wr_amount r) TX_CORRECTION None None s = Inr (tx, s1)"
        "s' = update_withdrawal k (stamp_status ev st) s1"
    | (other) "wr_status r \<notin> WR_TERMINAL" "wr_text st \<noteq> WR_FAILED" "s' = update_withdrawal k (stamp_status ev st) s"
    using ok r by (auto simp: apply_legacy_withdrawal_webhook_def split: if_splits option.splits sum.splits)
  then show ?thesis
  proof cases
    case noop
    then show ?thesis using inv by (simp add: pay_keeps_refl)
  next
    case fail
    obtain row where row: "wallets s w = Some row"
      and post: "post_wallet w (wr_amount r) (available_balance row + wr_amount r) TX_CORRECTION None None row s = (tx, s1)"
      using fail(4) by (auto simp: credit_wallet_Inr)
    have e: "s1 = s\<lparr>wallets := (wallets s)(w \<mapsto> row\<lparr>available_balance :=
        col2 (available_balance row + wr_amount r)\<rparr>), wallet_txs := wallet_txs s @ [tx]\<rparr>"
      by (rule post_wallet_state[OF post])
    have f: "wallets s' = (wallets s)(w \<mapsto> row\<lparr>available_balance := col2 (available_balance row + wr_amount r)\<rparr>)"
      "user_wallet s' = user_wallet s" "next_wallet s' = next_wallet s" by (simp_all add: fail(5) e)
    have ca: "cents (wr_amount r)" using rr by (simp add: wr_row_def)
    note b = bal_post[OF wo fail(3) row ca f]
    show ?thesis
    proof (rule keep_free_row[OF inv r(1) fr, where r' = "stamp_status ev st r"])
      show "wal_ok s'" by (rule b(1))
      show "bal v s' = bal v s + (held_row v r - held_row v (stamp_status ev st r))" for v
        using b(2)[of v] fail(1,2) r(2) by (auto simp: held_row_def WR_TERMINAL_def)
    qed (use r stamp_rows[OF rr fail(1) np] in \<open>simp_all add: fail(5) e update_withdrawal_def\<close>)
  next
    case other
    show ?thesis
      by (rule keep_free_quiet[OF inv r(1) fr, where r' = "stamp_status ev st r"])
         (use r stamp_rows[OF rr other(1) np] other in
           \<open>auto simp: held_row_def WR_TERMINAL_def update_withdrawal_def\<close>)
  qed
qed

text \<open>The webhook of a funded payout moves no user money: its row never held any.\<close>

lemma funded_webhook_frame:
  fixes s :: "'a funded_db_scheme"
  assumes "handle_internal_payout_webhook now k new s = Inr s'"
  shows "withdrawals s' = withdrawals s" "next_withdrawal s' = next_withdrawal s" "attempts s' = attempts s"
    "next_attempt s' = next_attempt s" "wallets s' = wallets s" "user_wallet s' = user_wallet s"
    "next_wallet s' = next_wallet s" "next_funded s' = next_funded s"
    "rel_option fr_evolves (funded_requests s i) (funded_requests s' i)"
proof -
  have bk: "next_funded (book_broker_cut now k f t) = next_funded t" for f and t :: "'a funded_db_scheme"
    using book_broker_cut_state[of now k f t] by auto
  have rc: "next_funded (reset_cycle acc b t) = next_funded t" for acc b and t :: "'a funded_db_scheme"
    by (simp add: reset_cycle_def)
  have c: "s' = s \<or> (\<exists>f (a :: trading_account). s' = book_broker_cut now k f
        (update_funded k (\<lambda>r. r\<lparr>fr_status := FR_COMPLETED, fr_cycle_reset_at := Some now\<rparr>)
          (reset_cycle (fr_account f) (balance a) s)))
    \<or> (\<exists>f (a :: trading_account). s' = update_funded k (\<lambda>r. r\<lparr>fr_status := FR_FAILED\<rparr>)
          (reverse_debit now k f ''NowPayments payout FAILED'' a s))"
    using assms by (auto simp: handle_internal_payout_webhook_def split: option.splits if_splits)
  show "withdrawals s' = withdrawals s" "next_withdrawal s' = next_withdrawal s" "attempts s' = attempts s"
    "next_attempt s' = next_attempt s" "wallets s' = wallets s" "user_wallet s' = user_wallet s"
    "next_wallet s' = next_wallet s" "next_funded s' = next_funded s"
    using c by (elim disjE exE; simp add: bk rc reverse_debit_def)+
  show "rel_option fr_evolves (funded_requests s i) (funded_requests s' i)"
    using c
  proof (elim disjE exE, goal_cases)
    case (2 f a)
    show ?case unfolding 2 by (cases "funded_requests s i") (auto simp: fr_evolves_def)
  next
    case (3 f a)
    show ?case unfolding 3 by (cases "funded_requests s i") (auto simp: reverse_debit_def fr_evolves_def)
  qed simp
qed

lemma keep_funded_webhook:
  fixes s :: "'a funded_db_scheme"
  assumes inv: "pay_inv s" and l: "funded_row_ok w s"
    and ok: "apply_funded_internal_webhook now w k st ev s = Inr s'"
  shows "pay_keeps s s'"
proof -
  obtain r where r: "withdrawals s w = Some r" "\<not> wr_debit_tx r"
    using l by (auto simp: funded_row_ok_def)
  have fr: "free_of_attempts w s"
    using inv r by (force simp: pay_inv_def att_ok_def free_of_attempts_def att_row_def)
  have rr: "wr_row r" by (rule wr_rowD[OF inv r(1)])
  consider (noop) "s' = s"
    | (other) s1 where "wr_status r \<notin> WR_TERMINAL" "handle_internal_payout_webhook now k (wr_text st) s = Inr s1"
       "s' = update_withdrawal w (stamp_status ev st) s1"
    using ok r by (auto simp: apply_funded_internal_webhook_def split: if_splits sum.splits)
  then show ?thesis
  proof cases
    case noop
    then show ?thesis using inv by (simp add: pay_keeps_refl)
  next
    case other
    note f = funded_webhook_frame[OF other(2)]
    show ?thesis
      by (rule keep_free_quiet[OF inv r(1) fr, where r' = "stamp_status ev st r"])
         (use r stamp_rows[OF rr other(1)] r(2) in \<open>simp_all add: other(3) f update_withdrawal_def held_row_def\<close>)
  qed
qed

lemma claim_effect:
  assumes "submit_claim now k actor basis amt s = Inr (j, s')"
  obtains r r' a where "withdrawals s k = Some r" "wr_status r = WR_PENDING" "j = next_attempt s"
    "r' = r\<lparr>wr_reviewed_by := actor, wr_reviewed_at := Some now, wr_status := WR_PROCESSING\<rparr>"
    "pa_wr a = k" "pa_status a = PA_SUBMITTED" "pa_provider a = ''nowpayments''"
    "pa_reference a = ''''" "pa_batch_id a = ''''" "pa_requested_usd a = col2 basis"
    "s' = s\<lparr>withdrawals := (withdrawals s)(k \<mapsto> r'), next_attempt := Suc j, attempts := (attempts s)(j \<mapsto> a)\<rparr>"
proof -
  let ?f = "\<lambda>r. r\<lparr>wr_reviewed_by := actor, wr_reviewed_at := Some now\<rparr>"
  obtain r j0 s1 where r: "withdrawals s k = Some r" "wr_status r = WR_PENDING"
    and c: "create_and_submit_payout_attempt now k ''nowpayments'' (wr_currency r) (wr_address r) basis
              (update_withdrawal k ?f s) = Inr (j0, s1)"
    and s': "j = j0" "s' = s1\<lparr>attempts := update_row j0 (\<lambda>a. a\<lparr>pa_provider_amount := Some (col10 amt)\<rparr>) (attempts s1)\<rparr>"
    using assms by (auto simp: submit_claim_def split: option.splits if_splits sum.splits)
  let ?u = "update_withdrawal k ?f s"
  let ?a = "new_attempt now k (next_attempt_number k ?u) ''nowpayments'' (wr_currency r) (wr_address r) basis"
  have j: "j0 = next_attempt s" and sy: "sync_withdrawal_request_status k PA_SUBMITTED (insert_attempt ?a ?u) = Inr s1"
    using c r by (auto simp: create_and_submit_payout_attempt_def split: option.splits if_splits sum.splits)
  obtain st q where q: "derive_withdrawal_status PA_SUBMITTED = Inr st" "withdrawals (insert_attempt ?a ?u) k = Some q"
    and s1: "s1 = (insert_attempt ?a ?u)\<lparr>withdrawals := (withdrawals (insert_attempt ?a ?u))(k \<mapsto> q\<lparr>wr_status := st\<rparr>)\<rparr>"
    using sync_state[OF sy] by metis
  have "st = WR_PROCESSING" "q = ?f r" using q r by (simp_all add: derive_withdrawal_status_def)
  let ?b = "?a\<lparr>pa_provider_amount := Some (col10 amt)\<rparr>"
  show thesis
  proof (rule that[OF r _ refl, where a = ?b])
    show "s' = s\<lparr>withdrawals := (withdrawals s)(k \<mapsto>
          r\<lparr>wr_reviewed_by := actor, wr_reviewed_at := Some now, wr_status := WR_PROCESSING\<rparr>),
        next_attempt := Suc j, attempts := (attempts s)(j \<mapsto> ?b)\<rparr>"
      by (rule payout_db.equality)
         (simp_all add: s' s1 \<open>q = ?f r\<close> \<open>st = WR_PROCESSING\<close> j r insert_attempt_def update_withdrawal_def fun_eq_iff)
  qed (simp_all add: s' j new_attempt_def)
qed

lemma keep_claim:
  fixes s :: "'a funded_db_scheme"
  assumes inv: "pay_inv s" and ok: "submit_claim now k actor basis amt s = Inr (j, s')"
    and rel: "\<And>r. withdrawals s k = Some r \<Longrightarrow> released r"
  shows "pay_keeps s s'"
proof -
  obtain r r' a where r: "withdrawals s k = Some r" "wr_status r = WR_PENDING" and j: "j = next_attempt s"
    and r': "r' = r\<lparr>wr_reviewed_by := actor, wr_reviewed_at := Some now, wr_status := WR_PROCESSING\<rparr>"
    and a: "pa_wr a = k" "pa_status a = PA_SUBMITTED" "pa_provider a = ''nowpayments''"
      "pa_reference a = ''''" "pa_batch_id a = ''''"
    and e: "s' = s\<lparr>withdrawals := (withdrawals s)(k \<mapsto> r'), next_attempt := Suc j, attempts := (attempts s)(j \<mapsto> a)\<rparr>"
    using claim_effect[OF ok] by metis
  have rr: "wr_row r" by (rule wr_rowD[OF inv r(1)])
  have rl: "released r" by (rule rel[OF r(1)])
  have ao: "att_ok s" using inv by (simp add: pay_inv_def)
  have fr: "free_of_attempts k s" by (rule pending_free[OF ao r])
  have ar: "att_row a r'" using a rr r(2) by (simp add: att_row_def r' derive_withdrawal_status_def wr_row_def)
  have fresh: "attempts s j = None" using ao j by (auto simp: att_ok_def) (metis less_irrefl option.exhaust)
  have ao': "att_ok s'"
    unfolding att_ok_def
  proof (intro conjI allI impI)
    fix i b assume b: "attempts s' i = Some b"
    show "i < next_attempt s'" using b ao j by (auto simp: e att_ok_def less_Suc_eq split: if_splits)
    show "\<exists>q. withdrawals s' (pa_wr b) = Some q \<and> att_row b q"
    proof (cases "i = j")
      case False
      then have bs: "attempts s i = Some b" using b by (simp add: e)
      then have "pa_wr b \<noteq> k" using fr by (simp add: free_of_attempts_def)
      with bs show ?thesis using ao by (simp add: e att_ok_def)
    qed (use b ar a(1) in \<open>simp add: e\<close>)
  next
    fix i l b c
    assume "attempts s' i = Some b \<and> attempts s' l = Some c \<and> pa_wr b = pa_wr c"
    then show "i = l" using ao fr a(1) unfolding att_ok_def free_of_attempts_def
      by (simp add: e split: if_splits) metis+
  qed
  have kn: "k < next_withdrawal s" using inv r(1) by (simp add: pay_inv_def wr_ok_def)
  have c: "wallets s' = wallets s" "user_wallet s' = user_wallet s" "next_wallet s' = next_wallet s"
    by (simp_all add: e)
  have "wr_row r'" using rr rl by (simp add: wr_row_def r')
  then have "wr_ok s'" using inv kn by (auto simp: pay_inv_def wr_ok_def e)
  moreover have "funded_ok s'"
    using inv by (intro funded_ok_row[OF _ r(1), of r' s']) (simp_all add: pay_inv_def e r')
  moreover have "wal_ok s'" using inv bal_cong(1)[OF c] by (simp add: pay_inv_def)
  moreover have "total u s' = total u s" for u
    using held_update[OF r(1) kn, of s' r' u] bal_cong(2)[OF c, of u] r(2)
    by (simp add: total_def e r' held_row_def)
  moreover have "\<exists>q'. withdrawals s' i = Some q' \<and> row_evolves q q'
      \<and> (wr_status q \<noteq> WR_PENDING \<and> free_of_attempts i s \<longrightarrow> free_of_attempts i s')"
    if "withdrawals s i = Some q" for i q
    using that r a(1) by (cases "i = k") (auto simp: e r' row_evolves_def WR_TERMINAL_def free_of_attempts_def)
  ultimately show ?thesis using ao' by (simp add: pay_keeps_def pay_inv_def pay_evolves_def)
qed

text \<open>A new withdrawal row.\<close>

lemma keep_insert:
  assumes inv: "pay_inv s"
    and t: "withdrawals t = (withdrawals s)(next_withdrawal s \<mapsto> r)"
      "next_withdrawal t = Suc (next_withdrawal s)" "attempts t = attempts s" "next_attempt t = next_attempt s"
    and row: "wr_row r" and money: "wal_ok t" "\<And>v. bal v t = bal v s - held_row v r"
    and fo: "funded_ok t"
  shows "pay_keeps s t"
proof -
  have none: "withdrawals s (next_withdrawal s) = None"
  proof (cases "withdrawals s (next_withdrawal s)")
    case (Some q)
    then show ?thesis using inv unfolding pay_inv_def wr_ok_def by (metis less_irrefl)
  qed
  have "wr_ok t" using inv row by (auto simp: pay_inv_def wr_ok_def t less_Suc_eq)
  moreover have "att_ok t"
  proof -
    have "pa_wr a \<noteq> next_withdrawal s" if "attempts s j = Some a" for j a
      using inv that none unfolding pay_inv_def att_ok_def by (metis option.distinct(1))
    then show ?thesis using inv unfolding pay_inv_def att_ok_def t by auto
  qed
  moreover have "total u t = total u s" for u
    using held_insert[OF t(1,2), of u] money(2)[of u] by (simp add: total_def)
  moreover have "\<exists>q'. withdrawals t i = Some q' \<and> row_evolves q q'
      \<and> (wr_status q \<noteq> WR_PENDING \<and> free_of_attempts i s \<longrightarrow> free_of_attempts i t)"
    if "withdrawals s i = Some q" for i q
    using that none by (cases "i = next_withdrawal s") (simp_all add: t free_of_attempts_def)
  ultimately show ?thesis using money(1) fo by (simp add: pay_keeps_def pay_inv_def pay_evolves_def)
qed

lemma finalize_effect:
  fixes s :: "'a payout_db_scheme"
  assumes "debit_and_create now u w amount kc s = Inr (k, s')"
  obtains row coin fees txs fc chs where "wallets s w = Some row" "0 < amount" "amount \<le> available_balance row"
    "k = next_withdrawal s"
    "s' = s\<lparr>wallets := (wallets s)(w \<mapsto> row\<lparr>available_balance := col2 (available_balance row - amount)\<rparr>),
            wallet_txs := txs, challenges := chs, next_withdrawal := Suc k, fee_config := fc,
            withdrawals := (withdrawals s)(k \<mapsto>
              new_withdrawal now u amount coin (ch_address (snd kc)) (fst kc) fees)\<rparr>"
proof -
  obtain coin fees s1 tx s2 where d: "currency_by_asset_network (ch_asset (snd kc), ch_network (snd kc)) = Some coin"
    and f: "calculate_withdrawal_fee amount s = (fees, s1)"
    and c: "debit_wallet w amount TX_WITHDRAW None s1 = Inr (tx, s2)"
    using assms
    by (auto simp: debit_and_create_def split: option.splits prod.splits sum.splits wallet_error.splits)
  have s1: "\<exists>fc. s1 = s\<lparr>fee_config := fc\<rparr>"
    using f by (auto simp: calculate_withdrawal_fee_def current_fee_config_def split: option.splits)
      (metis payout_db.surjective payout_db.update_convs(5))
  then obtain fc where s1: "s1 = s\<lparr>fee_config := fc\<rparr>" ..
  obtain row where row: "wallets s1 w = Some row" "0 < amount" "amount \<le> available_balance row"
    and post: "post_wallet w (- amount) (available_balance row - amount) TX_WITHDRAW None None row s1 = (tx, s2)"
    using c by (auto simp: debit_wallet_Inr)
  note s2 = post_wallet_state[OF post]
  let ?r = "new_withdrawal now u amount coin (ch_address (snd kc)) (fst kc) fees"
  have k: "k = next_withdrawal s2"
    and s': "mark_challenge_used now kc (snd (insert_withdrawal ?r s2)) = Inr s'"
    using assms by (auto simp: debit_and_create_def d f c insert_withdrawal_def split: if_splits sum.splits)
  then obtain chs where s'': "s' = (snd (insert_withdrawal ?r s2))\<lparr>challenges := chs\<rparr>"
    by (auto simp: mark_challenge_used_def update_challenge_def split: if_splits)
  show thesis
  proof (rule that[of row amount' for amount'])
    show "wallets s w = Some row" using row(1) by (simp add: s1)
    show "s' = s\<lparr>wallets := (wallets s)(w \<mapsto> row\<lparr>available_balance := col2 (available_balance row - amount)\<rparr>),
            wallet_txs := wallet_txs s @ [tx], challenges := chs, next_withdrawal := Suc k, fee_config := fc,
            withdrawals := (withdrawals s)(k \<mapsto> ?r)\<rparr>"
      by (rule payout_db.equality) (simp_all add: s'' insert_withdrawal_def s2 s1 k)
  qed (use row k in \<open>simp_all add: s2 s1\<close>)
qed

lemma keep_finalize:
  fixes s :: "'a funded_db_scheme"
  assumes inv: "pay_inv s" and amt: "\<And>a. ch_amount (snd kc) = Some a \<Longrightarrow> cents a"
  shows "pay_keeps s (snd (finalize_withdrawal now u kc s))"
proof -
  obtain w c s0 where g: "get_or_create_wallet u s = ((w, c), s0)" by (metis prod.exhaust)
  have s0: "s0 = snd (get_or_create_wallet u s)" and uw: "user_wallet s0 u = Some w"
    using g bal_get_wallet(3)[of s u] inv by (simp_all add: pay_inv_def)
  have "pay_keeps s0 (snd (finalize_withdrawal now u kc s))" if inv0: "pay_inv s0"
  proof (cases "snd (finalize_withdrawal now u kc s) = s0")
    case True
    then show ?thesis using inv0 by (simp add: pay_keeps_refl)
  next
    case False
    obtain row0 amount k s1 where row0: "wallets s0 w = Some row0"
      and am: "(if ch_withdraw_all (snd kc) then Some (available_balance row0) else ch_amount (snd kc)) = Some amount"
      and d: "debit_and_create now u w amount kc s0 = Inr (k, s1)"
      and s': "snd (finalize_withdrawal now u kc s) = s1"
      using False by (auto simp: finalize_withdrawal_def g split: option.splits if_splits sum.splits)
    have wo: "wal_ok s0" using inv0 by (simp add: pay_inv_def)
    have ca: "cents amount"
      using am amt wo row0 by (auto simp: wal_ok_def split: if_splits)
    obtain row coin fees txs fc chs where row: "wallets s0 w = Some row" and k: "k = next_withdrawal s0"
      and e: "s1 = s0\<lparr>wallets := (wallets s0)(w \<mapsto> row\<lparr>available_balance := col2 (available_balance row - amount)\<rparr>),
            wallet_txs := txs, challenges := chs, next_withdrawal := Suc k, fee_config := fc,
            withdrawals := (withdrawals s0)(k \<mapsto>
              new_withdrawal now u amount coin (ch_address (snd kc)) (fst kc) fees)\<rparr>"
      using finalize_effect[OF d] by metis
    let ?r = "new_withdrawal now u amount coin (ch_address (snd kc)) (fst kc) fees"
    have f: "wallets s1 = (wallets s0)(w \<mapsto> row\<lparr>available_balance := col2 (available_balance row + - amount)\<rparr>)"
      "user_wallet s1 = user_wallet s0" "next_wallet s1 = next_wallet s0" by (simp_all add: e)
    note b = bal_post[OF wo uw row cents_minus[OF ca] f]
    have none: "withdrawals s0 k = None"
      using inv0 unfolding pay_inv_def wr_ok_def k by (metis less_irrefl option.exhaust)
    have fo: "funded_ok s1"
      using inv0 none unfolding pay_inv_def funded_ok_def e
      by (simp add: new_withdrawal_def) (metis option.distinct(1))
    show ?thesis unfolding s'
    proof (rule keep_insert[OF inv0, where r = ?r])
      show "wal_ok s1" by (rule b(1))
      show "bal v s1 = bal v s0 - held_row v ?r" for v
        using b(2)[of v] ca by (simp add: held_row_def new_withdrawal_def)
      show "funded_ok s1" by (rule fo)
      show "wr_row ?r" using ca by (simp add: wr_row_def new_withdrawal_def)
    qed (simp_all add: e k)
  qed
  with keep_get_wallet[OF inv, of u] show ?thesis unfolding s0[symmetric] by (rule keep_trans)
qed

lemma keep_phase1:
  fixes s :: "'a funded_db_scheme"
  assumes inv: "pay_inv s" and ok: "internal_phase1 now k admin s = Inr ((f, w), s')"
  shows "pay_keeps s s'"
proof -
  obtain f0 a where c0: "claim_funded FUNDED_INTERNAL k s = Inr (f0, a)"
    using ok by (cases "claim_funded FUNDED_INTERNAL k s") (auto simp: internal_phase1_def)
  note ok' = ok[unfolded internal_phase1_def c0 insert_withdrawal_def sum.case prod.case]
  have c: "claim_funded FUNDED_INTERNAL k s = Inr (f, a)" and f0: "f0 = f"
    using ok' c0 by simp_all
  have w: "w = next_withdrawal s" using ok' by (simp add: debit_funded_def)
  have s': "s' = update_funded k (\<lambda>r. r\<lparr>fr_status := FR_APPROVED, fr_withdrawal := Some w,
        fr_ledger_entry := Some (length (ledger s)), fr_reviewed_by := Some admin, fr_reviewed_at := Some now\<rparr>)
       (snd (insert_withdrawal (internal_withdrawal now admin f) (debit_funded now k f a s)))"
    using ok' unfolding insert_withdrawal_def snd_conv f0 sum.inject prod.inject by blast
  have fk: "funded_requests s k = Some f" "fr_status f = FR_PENDING"
    using c by (auto simp: claim_funded_def split: option.splits if_splits)
  have fw: "fr_withdrawal f = None" using inv fk by (simp add: pay_inv_def funded_ok_def)
  let ?r = "internal_withdrawal now admin f"
  have none: "withdrawals s w = None"
    using inv unfolding pay_inv_def wr_ok_def w by (metis less_irrefl option.exhaust)
  have e: "withdrawals s' = (withdrawals s)(w \<mapsto> ?r)" "next_withdrawal s' = Suc w" "attempts s' = attempts s"
    "next_attempt s' = next_attempt s" "wallets s' = wallets s" "user_wallet s' = user_wallet s"
    "next_wallet s' = next_wallet s" "next_funded s' = next_funded s"
    by (simp_all add: s' w insert_withdrawal_def debit_funded_def)
  have fe: "funded_requests s' i = (if i = k then Some (f\<lparr>fr_status := FR_APPROVED, fr_withdrawal := Some w,
        fr_ledger_entry := Some (length (ledger s)), fr_reviewed_by := Some admin, fr_reviewed_at := Some now\<rparr>)
      else funded_requests s i)" for i
    by (simp add: s' insert_withdrawal_def debit_funded_def fk(1))
  have nd: "\<not> wr_debit_tx ?r" by (simp add: internal_withdrawal_def)
  have fo: "funded_ok s'"
    unfolding funded_ok_def
  proof (intro conjI allI impI)
    fix i g assume g: "funded_requests s' i = Some g"
    show "i < next_funded s'" using inv g fk(1) by (auto simp: pay_inv_def funded_ok_def fe e split: if_splits)
    show "fr_status g = FR_PENDING \<Longrightarrow> fr_withdrawal g = None"
      using inv g by (auto simp: pay_inv_def funded_ok_def fe split: if_splits)
    fix l assume l: "fr_withdrawal g = Some l"
    show "\<exists>q. withdrawals s' l = Some q \<and> \<not> wr_debit_tx q"
    proof (cases "i = k")
      case False
      then have "\<exists>q. withdrawals s l = Some q \<and> \<not> wr_debit_tx q"
        using inv g l unfolding pay_inv_def funded_ok_def fe by simp
      then show ?thesis using none by (auto simp: e)
    qed (use g l nd in \<open>auto simp: fe e\<close>)
  next
    fix l q assume q: "withdrawals s' l = Some q \<and> \<not> wr_debit_tx q"
    show "\<exists>i g. funded_requests s' i = Some g \<and> fr_withdrawal g = Some l"
    proof (cases "l = w")
      case False
      then obtain i g where "funded_requests s i = Some g" "fr_withdrawal g = Some l"
        using inv q unfolding pay_inv_def funded_ok_def e by auto
      moreover from this have "i \<noteq> k" using fk(1) fw by auto
      ultimately show ?thesis by (auto simp: fe)
    qed (auto simp: fe intro!: exI[of _ k])
  qed
  show ?thesis
  proof (rule keep_insert[OF inv, where r = ?r])
    show "wal_ok s'" using inv bal_cong(1)[OF e(5-7)] by (simp add: pay_inv_def)
    show "bal v s' = bal v s - held_row v ?r" for v using bal_cong(2)[OF e(5-7), of v] nd by (simp add: held_row_def)
    show "funded_ok s'" by (rule fo)
    show "wr_row ?r" by (simp add: wr_row_def internal_withdrawal_def)
  qed (simp_all add: e w)
qed

text \<open>Phase 2 writes the row of phase 1, which nothing else touches while it is APPROVED.\<close>

lemma keep_phase2:
  fixes s :: "'a funded_db_scheme"
  assumes inv: "pay_inv s" and fk: "funded_requests s k = Some g" "fr_withdrawal g = Some w"
    and r: "withdrawals s w = Some r" "wr_status r = WR_APPROVED"
  shows "pay_keeps s (snd (internal_phase2 np pers now k f w s))"
proof -
  have nd: "\<not> wr_debit_tx r" using inv fk r(1) unfolding pay_inv_def funded_ok_def by (metis option.inject)
  have fr: "free_of_attempts w s"
    using inv r(1) nd by (force simp: pay_inv_def att_ok_def free_of_attempts_def att_row_def)
  have rr: "wr_row r" by (rule wr_rowD[OF inv r(1)])
  have amb: "pay_keeps s (mark_ambiguous k tag s)" for tag
  proof (rule keep_same[OF inv])
    have c: "wallets (mark_ambiguous k tag s) = wallets s" "user_wallet (mark_ambiguous k tag s) = user_wallet s"
      "next_wallet (mark_ambiguous k tag s) = next_wallet s" by (simp_all add: mark_ambiguous_def)
    show "wal_ok (mark_ambiguous k tag s)" using inv bal_cong(1)[OF c] by (simp add: pay_inv_def)
    show "bal v (mark_ambiguous k tag s) = bal v s" for v by (rule bal_cong(2)[OF c])
    show "rel_option fr_evolves (funded_requests s i) (funded_requests (mark_ambiguous k tag s) i)" for i
      using fk by (auto simp: mark_ambiguous_def fr_evolves_def)
  qed (simp_all add: mark_ambiguous_def)
  have rev: "pay_keeps s (reverse_and_fail now k f w reason s)" for reason
  proof (cases "accounts s (fr_account f)")
    case None
    then show ?thesis using inv by (simp add: reverse_and_fail_def pay_keeps_refl)
  next
    case (Some a)
    show ?thesis
      by (rule keep_free_quiet[OF inv r(1) fr, where r' = "r\<lparr>wr_status := WR_FAILED\<rparr>"])
         (use Some r nd rr fk in \<open>auto simp: reverse_and_fail_def reverse_debit_def row_evolves_def WR_TERMINAL_def
            wr_row_def held_row_def fr_evolves_def\<close>)
  qed
  have fin: "pay_keeps s (update_funded k (\<lambda>r. r\<lparr>fr_status := FR_PROCESSING\<rparr>)
      (update_withdrawal w (\<lambda>r. r\<lparr>wr_status := WR_PROCESSING, wr_np_batch_id := b, wr_np_payout_id := p,
          wr_np_status := st, wr_crypto_amount := ca\<rparr>) s))" for b p st ca
    by (rule keep_free_quiet[OF inv r(1) fr, where r' = "r\<lparr>wr_status := WR_PROCESSING, wr_np_batch_id := b,
          wr_np_payout_id := p, wr_np_status := st, wr_crypto_amount := ca\<rparr>"])
       (use r nd rr fk in \<open>auto simp: row_evolves_def WR_TERMINAL_def wr_row_def held_row_def fr_evolves_def\<close>)
  show ?thesis
    using amb rev fin inv by (auto simp: internal_phase2_def split: sum.splits option.splits)
qed

end
