(* ===== verification/PayoutRuns.thy ===== *)
theory PayoutRuns
  imports PayoutSafety
begin

section \<open>Interleaved payout handlers\<close>

text \<open>
  \<open>runs s t\<close>: the database can go from \<open>s\<close> to \<open>t\<close> by committed transactions of the
  withdrawal and payout handlers, in any interleaving. The handlers that leave their
  transaction appear as the transactions they are made of: a submission is a claim
  and, after any number of other steps, its outcome; a webhook is correlated on up to
  three earlier databases and applied to a later one.
\<close>

inductive runs :: "'a funded_db_scheme \<Rightarrow> 'a funded_db_scheme \<Rightarrow> bool" where
  here: "runs s s"
| request: "runs s t \<Longrightarrow> (\<forall>a. ch_amount (snd kc) = Some a \<longrightarrow> cents a)
    \<Longrightarrow> runs s (snd (finalize_withdrawal now u kc t))"
| approve1: "runs s t \<Longrightarrow> runs s (first_approve k actor t)"
| approve2: "runs s t \<Longrightarrow> runs s (snd (apply_second_approval k actor t))"
| reject: "runs s t \<Longrightarrow> map_option wr_user (withdrawals t k) \<in> {None, Some u}
    \<Longrightarrow> runs s (snd (reject_withdrawal now k u admin t))"
| claim_auto: "runs s t \<Longrightarrow> withdrawals t k = Some r \<Longrightarrow> wr_required_approvals r = 1
    \<Longrightarrow> submit_claim now k None basis amt t = Inr (j, t') \<Longrightarrow> runs s t'"
| claim_admin: "runs s s0 \<Longrightarrow> apply_second_approval k actor s0 = (Some Approved, s1) \<Longrightarrow> runs s1 t
    \<Longrightarrow> submit_claim now k (Some actor) basis amt t = Inr (j, t') \<Longrightarrow> runs s t'"
| outcome: "runs s t \<Longrightarrow> submit_finish now j answer t = Inr (out, t') \<Longrightarrow> runs s t'"
| verified: "runs s t \<Longrightarrow> submit_payout_verification (np :: np_client) now j code t = Inr t'
    \<Longrightarrow> runs s t'"
| aged: "runs s t \<Longrightarrow> apply_result_without_refund now j PA_UNKNOWN reason raw conf t = Inr (a, t') \<Longrightarrow> runs s t'"
| checked: "runs s t \<Longrightarrow> runs s (set_checked now j t)"
| looked_up: "runs s t \<Longrightarrow> apply_lookup_outcome parse now j res t = Inr (b, t') \<Longrightarrow> runs s t'"
| webhook: "runs s s0 \<Longrightarrow> (\<forall>x \<in> set later. runs s0 x \<and> runs x t) \<Longrightarrow> runs s0 t
    \<Longrightarrow> ev_provider ev = ''nowpayments''
    \<Longrightarrow> apply_target parse now (resolve_payout_target ev s0 later) st ev t = Inr (o', t') \<Longrightarrow> runs s t'"
| funded1: "runs s t \<Longrightarrow> internal_phase1 now k admin t = Inr (fw, t') \<Longrightarrow> runs s t'"
| funded2: "runs s t \<Longrightarrow> funded_requests t k = Some f \<Longrightarrow> fr_withdrawal f = Some w
    \<Longrightarrow> map_option wr_status (withdrawals t w) = Some WR_APPROVED
    \<Longrightarrow> runs s (snd (internal_phase2 np pers now k f w t))"

subsection \<open>Correlation only finds rows that are safe to settle\<close>

lemma correlate_legacy:
  assumes "correlate am wm s = LegacyWithdrawalMatch w"
  shows "am = []" "w \<in> set wm" "funded_of w s = None"
  using assms
  by (auto simp: correlate_def classify_legacy_wr_def split: if_splits list.splits option.splits)

lemma correlate_funded:
  assumes "correlate am wm s = FundedInternalMatch w k"
  shows "funded_of w s = Some k"
  using assms
  by (auto simp: correlate_def classify_legacy_wr_def split: if_splits list.splits option.splits)

lemma funded_of_Some:
  assumes "pay_inv s" "funded_of w s = Some k"
  shows "funded_row_ok w s"
proof -
  have "k \<in> set (rows_where (next_funded s) (funded_requests s) (\<lambda>f. fr_withdrawal f = Some w))"
    using assms(2) by (auto simp: funded_of_def split: list.splits)
  then show ?thesis
    using assms(1) by (auto simp: set_rows_where funded_row_ok_def pay_inv_def funded_ok_def)
qed

lemma funded_of_None:
  assumes "pay_inv s" "withdrawals s w = Some r" "funded_of w s = None"
  shows "wr_debit_tx r"
proof (rule ccontr)
  assume "\<not> wr_debit_tx r"
  then obtain i f where "funded_requests s i = Some f" "fr_withdrawal f = Some w" "i < next_funded s"
    using assms(1,2) unfolding pay_inv_def funded_ok_def by metis
  then have "i \<in> set (rows_where (next_funded s) (funded_requests s) (\<lambda>f. fr_withdrawal f = Some w))"
    by (simp add: set_rows_where)
  with assms(3) show False by (auto simp: funded_of_def split: list.splits)
qed

lemma layer_legacy:
  assumes inv: "pay_inv s" and ne: "x \<noteq> ''''"
    and c: "correlate
       (rows_where (next_attempt s) (attempts s) (\<lambda>a. pa_provider a = ''nowpayments'' \<and> p a = x))
       (rows_where (next_withdrawal s) (withdrawals s) (\<lambda>r. q r = x)) s = LegacyWithdrawalMatch w"
    and pq: "\<And>a r. att_row a r \<Longrightarrow> q r = p a" "\<And>r. wr_row r \<Longrightarrow> wr_status r = WR_PENDING \<Longrightarrow> q r = ''''"
  shows "legacy_ok w s"
proof -
  note l = correlate_legacy[OF c]
  obtain r where r: "withdrawals s w = Some r" "q r = x" using l(2) by (auto simp: set_rows_where)
  have np: "wr_status r \<noteq> WR_PENDING" using pq(2)[OF wr_rowD[OF inv r(1)]] r(2) ne by auto
  have "pa_wr a \<noteq> w" if a: "attempts s j = Some a" for j a
  proof
    assume w: "pa_wr a = w"
    have ar: "att_row a r" using att_rowD[OF inv a] r(1) w by simp
    have "p a = x" using pq(1)[OF ar] r(2) by simp
    moreover have "pa_provider a = ''nowpayments''" using ar by (simp add: att_row_def)
    moreover have "j < next_attempt s" using inv a by (simp add: pay_inv_def att_ok_def)
    ultimately have "j \<in> set (rows_where (next_attempt s) (attempts s) (\<lambda>a. pa_provider a = ''nowpayments'' \<and> p a = x))"
      using a by (simp add: set_rows_where)
    with l(1) show False by simp
  qed
  with np r(1) funded_of_None[OF inv r(1) l(3)] show ?thesis
    by (auto simp: legacy_ok_def free_of_attempts_def)
qed

lemma by_reference_legacy:
  assumes "pay_inv s" "ev_reference ev \<noteq> ''''" "ev_provider ev = ''nowpayments''"
    "by_reference ev s = LegacyWithdrawalMatch w"
  shows "legacy_ok w s"
  using assms(4) unfolding by_reference_def assms(3)
  by (rule layer_legacy[OF assms(1,2)]) (simp_all add: att_row_def wr_row_def)

lemma by_batch_legacy:
  assumes "pay_inv s" "ev_batch ev \<noteq> ''''" "ev_provider ev = ''nowpayments''"
    "by_batch ev s = LegacyWithdrawalMatch w"
  shows "legacy_ok w s"
  using assms(4) unfolding by_batch_def assms(3)
  by (rule layer_legacy[OF assms(1,2)]) (simp_all add: att_row_def wr_row_def)

lemma resolve_reference_hit:
  "resolve_reference ev ss = t \<Longrightarrow> t \<noteq> Orphan \<Longrightarrow> \<exists>s \<in> set ss. by_reference ev s = t"
  by (induction ss) (auto split: target.splits)

lemma resolved_safe:
  assumes inv: "\<And>x. x \<in> insert s0 (set later) \<Longrightarrow> pay_inv x" and p: "ev_provider ev = ''nowpayments''"
  shows "resolve_payout_target ev s0 later = LegacyWithdrawalMatch w \<Longrightarrow> \<exists>x \<in> insert s0 (set later). legacy_ok w x"
    and "resolve_payout_target ev s0 later = FundedInternalMatch w k \<Longrightarrow> \<exists>x \<in> insert s0 (set later). funded_row_ok w x"
proof -
  have sub: "set (s0 # take 2 later) \<subseteq> insert s0 (set later)" using set_take_subset by fastforce
  assume r: "resolve_payout_target ev s0 later = LegacyWithdrawalMatch w"
  show "\<exists>x \<in> insert s0 (set later). legacy_ok w x"
  proof (cases "ev_reference ev = ''''")
    case True
    then show ?thesis using r by_batch_legacy[OF inv _ p] by (auto simp: resolve_payout_target_def split: if_splits)
  next
    case False
    then obtain x where x: "x \<in> set (s0 # take 2 later)" "by_reference ev x = LegacyWithdrawalMatch w"
      using r resolve_reference_hit[of ev "s0 # take 2 later"] by (auto simp: resolve_payout_target_def split: if_splits)
    have xi: "x \<in> insert s0 (set later)" using x(1) sub by blast
    show ?thesis using by_reference_legacy[OF inv[OF xi] False p x(2)] xi by blast
  qed
next
  have sub: "set (s0 # take 2 later) \<subseteq> insert s0 (set later)" using set_take_subset by fastforce
  assume r: "resolve_payout_target ev s0 later = FundedInternalMatch w k"
  show "\<exists>x \<in> insert s0 (set later). funded_row_ok w x"
  proof (cases "ev_reference ev = ''''")
    case True
    then have "by_batch ev s0 = FundedInternalMatch w k"
      using r by (auto simp: resolve_payout_target_def split: if_splits)
    then show ?thesis
      using funded_of_Some[OF inv] correlate_funded unfolding by_batch_def by blast
  next
    case False
    then obtain x where x: "x \<in> set (s0 # take 2 later)" "by_reference ev x = FundedInternalMatch w k"
      using r resolve_reference_hit[of ev "s0 # take 2 later"] by (auto simp: resolve_payout_target_def split: if_splits)
    have xi: "x \<in> insert s0 (set later)" using x(1) sub by blast
    show ?thesis using funded_of_Some[OF inv[OF xi]] correlate_funded x(2) xi unfolding by_reference_def by blast
  qed
qed

lemma legacy_stable:
  assumes "legacy_ok w s" "pay_evolves s t"
  shows "legacy_ok w t"
proof -
  obtain r where r: "withdrawals s w = Some r" "wr_status r \<noteq> WR_PENDING" "wr_debit_tx r" "free_of_attempts w s"
    using assms(1) by (auto simp: legacy_ok_def)
  then obtain r' where r': "withdrawals t w = Some r'" "row_evolves r r'" "free_of_attempts w t"
    using assms(2) unfolding pay_evolves_def by blast
  have "wr_status r' \<noteq> WR_PENDING" "wr_debit_tx r'" using r' (2) r(2,3) by (simp_all add: row_evolves_def)
  then show ?thesis unfolding legacy_ok_def using r'(1,3) by blast
qed

lemma funded_row_stable:
  assumes "funded_row_ok w s" "pay_evolves s t"
  shows "funded_row_ok w t"
proof -
  obtain r where r: "withdrawals s w = Some r" "\<not> wr_debit_tx r" using assms(1) by (auto simp: funded_row_ok_def)
  then obtain r' where r': "withdrawals t w = Some r'" "row_evolves r r'"
    using assms(2) unfolding pay_evolves_def by blast
  then have "\<not> wr_debit_tx r'" using r(2) by (simp add: row_evolves_def)
  then show ?thesis unfolding funded_row_ok_def using r'(1) by blast
qed

subsection \<open>Every run keeps the invariant and the money\<close>

lemma second_approval_releases:
  assumes "pay_inv s" "apply_second_approval k actor s = (Some Approved, s1)"
  obtains r where "withdrawals s1 k = Some r" "released r"
proof -
  obtain r where r: "withdrawals s k = Some r" using assms(2)
    by (auto simp: apply_second_approval_def split: option.splits)
  have "approvals_ok r" using wr_rowD[OF assms(1) r] by (simp add: wr_row_def)
  then show thesis
    using assms(2) r that[of "the (withdrawals s1 k)"]
    by (auto simp: apply_second_approval_def update_withdrawal_def split: if_splits)
qed

lemma keep_attempt_note:
  fixes s :: "'a funded_db_scheme"
  assumes inv: "pay_inv s" and a: "attempts s j = Some a"
    and a': "pa_wr a' = pa_wr a" "pa_status a' = pa_status a" "pa_provider a' = pa_provider a"
      "pa_reference a' = pa_reference a" "pa_batch_id a' = pa_batch_id a"
  shows "pay_keeps s (set_attempt j a' s)"
proof -
  obtain r where r: "withdrawals s (pa_wr a) = Some r" "att_row a r"
    using inv a unfolding pay_inv_def att_ok_def by blast
  have ao: "att_ok s" and wo: "wal_ok s" using inv by (simp_all add: pay_inv_def)
  have ar: "att_row a' r" using r(2) a' by (simp add: att_row_def)
  have t: "attempts (set_attempt j a' s) = (attempts s)(j \<mapsto> a')"
    "withdrawals (set_attempt j a' s) = (withdrawals s)(pa_wr a \<mapsto> r)"
    "next_attempt (set_attempt j a' s) = next_attempt s"
    using r(1) by (simp_all add: set_attempt_def fun_upd_idem)
  have c: "wallets (set_attempt j a' s) = wallets s" "user_wallet (set_attempt j a' s) = user_wallet s"
    "next_wallet (set_attempt j a' s) = next_wallet s" by (simp_all add: set_attempt_def)
  show ?thesis
  proof (rule keep_row[OF inv r(1) t(2)])
    show "wal_ok (set_attempt j a' s)" using wo bal_cong(1)[OF c] by simp
    show "bal v (set_attempt j a' s) = bal v s + (held_row v r - held_row v r)" for v
      using bal_cong(2)[OF c] by simp
    show "att_ok (set_attempt j a' s)" by (rule att_move(1)[OF ao a r(1) ar a'(1) t])
    show "free_of_attempts i s \<Longrightarrow> free_of_attempts i (set_attempt j a' s)" for i
      by (rule att_move(2)[OF ao a r(1) ar a'(1) t])
  qed (use wr_rowD[OF inv r(1)] in \<open>simp_all add: set_attempt_def\<close>)
qed

lemma keep_finish:
  fixes s :: "'a funded_db_scheme"
  assumes inv: "pay_inv s" and ok: "submit_finish now j answer s = Inr (out, s')"
  shows "pay_keeps s s'"
proof (cases answer)
  case (Inl e)
  show ?thesis
  proof (cases "e = ProviderAuthError")
    case True
    then obtain a where "apply_confirmed_failure_with_refund now j ''auth failed'' True '''' s = Inr (a, s')"
      using ok Inl by (auto simp: submit_finish_def map_sum_def split: sum.splits)
    then show ?thesis by (rule keep_refund[OF inv])
  next
    case False
    then obtain a where "apply_result_without_refund now j PA_UNKNOWN ''provider error'' '''' (None, '''') s = Inr (a, s')"
      using ok Inl by (cases e) (auto simp: submit_finish_def map_sum_def split: sum.splits)
    then show ?thesis by (rule keep_result[OF inv]) simp
  qed
next
  case (Inr res)
  then obtain a where "apply_submission_success now j res s = Inr (a, s')"
    using ok by (auto simp: submit_finish_def map_sum_def split: sum.splits)
  then show ?thesis by (rule keep_success[OF inv])
qed

lemma keep_lookup:
  fixes s :: "'a funded_db_scheme"
  assumes inv: "pay_inv s" and ok: "apply_lookup_outcome parse now j res s = Inr (b, s')"
  shows "pay_keeps s s'"
proof -
  consider "s' = s" | a where "apply_result_without_refund now j PA_PROCESSING '''' (lr_raw res) (None, '''') s = Inr (a, s')"
    | a where "apply_result_without_refund now j PA_COMPLETED '''' (lr_raw res) (extract_confirmed parse (lr_meta res)) s = Inr (a, s')"
    | a where "apply_confirmed_failure_with_refund now j ''reconciliation: provider confirms FAILED'' False (lr_raw res) s = Inr (a, s')"
    using ok by (auto simp: apply_lookup_outcome_def map_sum_def split: lookup_outcome.splits if_splits sum.splits)
  then show ?thesis
    by cases (use keep_result[OF inv] keep_refund[OF inv] pay_keeps_refl[OF inv] in auto)
qed

lemma keep_attempt_webhook:
  fixes s :: "'a funded_db_scheme"
  assumes inv: "pay_inv s" and ok: "apply_attempt_webhook parse now j st ev s = Inr (a, s')"
  shows "pay_keeps s s'"
  using ok keep_result[OF inv] keep_refund[OF inv]
  by (auto simp: apply_attempt_webhook_def split: if_splits)

lemma keep_target:
  fixes s :: "'a funded_db_scheme"
  assumes inv: "pay_inv s" and ok: "apply_target parse now tg st ev s = Inr (o', s')"
    and l: "\<And>w. tg = LegacyWithdrawalMatch w \<Longrightarrow> legacy_ok w s"
    and f: "\<And>w k. tg = FundedInternalMatch w k \<Longrightarrow> funded_row_ok w s"
  shows "pay_keeps s s'"
proof (cases tg)
  case (AttemptMatch j)
  then obtain a where "apply_attempt_webhook parse now j st ev s = Inr (a, s')"
    using ok by (auto simp: apply_target_def map_sum_def split: sum.splits)
  then show ?thesis by (rule keep_attempt_webhook[OF inv])
next
  case (FundedInternalMatch w k)
  then have "apply_funded_internal_webhook now w k st ev s = Inr s'"
    using ok by (auto simp: apply_target_def map_sum_def split: sum.splits)
  then show ?thesis by (rule keep_funded_webhook[OF inv f[OF FundedInternalMatch]])
next
  case (LegacyWithdrawalMatch w)
  then have "apply_legacy_withdrawal_webhook w st ev s = Inr s'"
    using ok by (auto simp: apply_target_def map_sum_def split: sum.splits)
  then show ?thesis by (rule keep_legacy[OF inv l[OF LegacyWithdrawalMatch]])
qed (use ok inv pay_keeps_refl in \<open>auto simp: apply_target_def\<close>)

lemma keep_verified:
  fixes s :: "'a funded_db_scheme"
  assumes inv: "pay_inv s" and ok: "submit_payout_verification np now j code s = Inr s'"
  shows "pay_keeps s s'"
proof -
  obtain a where "attempts s j = Some a" "s' = set_attempt j (a\<lparr>pa_verified_at := Some now\<rparr>) s"
    using ok by (auto simp: submit_payout_verification_def split: if_splits option.splits)
  then show ?thesis using keep_attempt_note[OF inv, of j a "a\<lparr>pa_verified_at := Some now\<rparr>"] by simp
qed

lemma keep_checked:
  fixes s :: "'a funded_db_scheme"
  assumes inv: "pay_inv s"
  shows "pay_keeps s (set_checked now j s)"
proof (cases "attempts s j")
  case None
  then show ?thesis using inv by (simp add: set_checked_def pay_keeps_refl)
next
  case (Some a)
  then have "set_checked now j s = set_attempt j (a\<lparr>pa_checked_at := Some now\<rparr>) s"
    by (simp add: set_checked_def set_attempt_def)
  then show ?thesis using keep_attempt_note[OF inv Some, of "a\<lparr>pa_checked_at := Some now\<rparr>"] by simp
qed

lemma runs_keep: "runs s t \<Longrightarrow> pay_inv s \<Longrightarrow> pay_keeps s t"
proof (induction rule: runs.induct)
  case (here s)
  then show ?case by (rule pay_keeps_refl)
next
  case (request s t kc now u)
  then show ?case using keep_trans[OF request.IH keep_finalize] by blast
next
  case (approve1 s t k actor)
  then show ?case using keep_trans[OF approve1.IH keep_first_approve] by blast
next
  case (approve2 s t k actor)
  then show ?case using keep_trans[OF approve2.IH keep_second_approval] by blast
next
  case (reject s t k u now admin)
  then show ?case using keep_trans[OF reject.IH keep_reject] by blast
next
  case (claim_auto s t k r now basis amt j t')
  then have "\<And>q. withdrawals t k = Some q \<Longrightarrow> released q" by simp
  then show ?case using keep_trans[OF claim_auto.IH keep_claim[OF _ claim_auto.hyps(4)]] claim_auto.prems by blast
next
  case (claim_admin s s0 k actor s1 t now basis amt j t')
  have k0: "pay_keeps s s0" by (rule claim_admin.IH(1)[OF claim_admin.prems])
  have k1: "pay_keeps s0 s1"
    using keep_second_approval[of s0 k actor] k0 claim_admin.hyps(2) by (simp add: pay_keeps_def)
  then have i1: "pay_inv s1" by (simp add: pay_keeps_def)
  have k2: "pay_keeps s1 t" by (rule claim_admin.IH(2)[OF i1])
  obtain r where r: "withdrawals s1 k = Some r" "released r"
    using second_approval_releases[OF _ claim_admin.hyps(2)] k0 by (auto simp: pay_keeps_def)
  then have rel: "\<And>q. withdrawals t k = Some q \<Longrightarrow> released q"
    using k2 unfolding pay_keeps_def pay_evolves_def row_evolves_def by (metis option.inject)
  have "pay_keeps t t'" using keep_claim[OF _ claim_admin.hyps(4) rel] k2 by (simp add: pay_keeps_def)
  then show ?case using k0 k1 k2 pay_evolves_trans unfolding pay_keeps_def by blast
next
  case (outcome s t now j answer out t')
  then show ?case using keep_trans[OF outcome.IH keep_finish] by blast
next
  case (verified s t np now j code t')
  then show ?case using keep_trans[OF verified.IH keep_verified] by blast
next
  case (aged s t now j reason raw conf a t')
  then show ?case using keep_trans[OF aged.IH keep_result[OF _ aged.hyps(2)]] by blast
next
  case (checked s t now j)
  then show ?case using keep_trans[OF checked.IH keep_checked] by blast
next
  case (looked_up s t parse now j res b t')
  then show ?case using keep_trans[OF looked_up.IH keep_lookup] by blast
next
  case (webhook s s0 later t ev parse now st o' t')
  have k0: "pay_keeps s s0" by (rule webhook.IH(1)[OF webhook.prems])
  then have i0: "pay_inv s0" by (simp add: pay_keeps_def)
  have k1: "pay_keeps s0 t" by (rule webhook.IH(3)[OF i0])
  then have it: "pay_inv t" by (simp add: pay_keeps_def)
  have xs: "pay_inv x \<and> pay_evolves x t" if "x \<in> insert s0 (set later)" for x
    using that webhook.IH(2) i0 k1 unfolding pay_keeps_def by blast
  have inv: "\<And>x. x \<in> insert s0 (set later) \<Longrightarrow> pay_inv x" using xs by blast
  have l: "legacy_ok w t" if "resolve_payout_target ev s0 later = LegacyWithdrawalMatch w" for w
    using resolved_safe(1)[OF inv webhook.hyps(3) that] xs legacy_stable by blast
  have f: "funded_row_ok w t" if "resolve_payout_target ev s0 later = FundedInternalMatch w k" for w k
    using resolved_safe(2)[OF inv webhook.hyps(3) that] xs funded_row_stable by blast
  have "pay_keeps t t'" by (rule keep_target[OF it webhook.hyps(4) l f])
  then show ?case using k0 k1 pay_evolves_trans unfolding pay_keeps_def by blast
next
  case (funded1 s t now k admin fw t')
  then show ?case using keep_trans[OF funded1.IH keep_phase1] by (metis prod.collapse)
next
  case (funded2 s t k f w np pers now)
  then show ?case using keep_trans[OF funded2.IH keep_phase2[OF _ funded2.hyps(2,3)]] by auto
qed

subsection \<open>Properties\<close>

text \<open>
  C3. No interleaving of withdrawal requests, approvals, rejections, submissions,
  provider outcomes, webhooks, reconciliations and funded payouts creates or loses
  user money: for every user, wallet balance plus the withdrawals still held is
  the same before and after; every withdrawal keeps its owner and amount, and a
  COMPLETED, REJECTED or FAILED withdrawal never changes status again, so its money is
  given back at most once.
\<close>

theorem payouts_conserve_money:
  assumes "runs s t" and "pay_inv s"
  shows "pay_inv t \<and> (\<forall>u. bal u t + held u t = bal u s + held u s)
    \<and> (\<forall>k r. withdrawals s k = Some r \<longrightarrow> (\<exists>r'. withdrawals t k = Some r'
         \<and> wr_amount r' = wr_amount r \<and> wr_user r' = wr_user r
         \<and> (wr_status r \<in> WR_TERMINAL \<longrightarrow> wr_status r' = wr_status r)))"
  using runs_keep[OF assms]
  unfolding pay_keeps_def pay_evolves_def row_evolves_def total_def by blast

text \<open>The refund of a live attempt cannot fail: owner and wallet exist, the transition is allowed.\<close>

lemma refund_succeeds:
  assumes "attempts s k = Some a" "withdrawals s (pa_wr a) = Some r" "user_wallet s (wr_user r) = Some w"
    "wallets s w \<noteq> None" "0 < wr_amount r" "PA_FAILED \<in> allowed_transitions (pa_status a)"
    "pa_status a = PA_SUBMITTED \<Longrightarrow> pre"
  shows "\<exists>a' s'. apply_confirmed_failure_with_refund now k reason pre raw s = Inr (a', s')"
proof -
  have nt: "pa_status a \<notin> TERMINAL_STATUSES" using assms(6) allowed_from_terminal by blast
  let ?a1 = "moved_attempt now PA_FAILED reason raw a"
  let ?s1 = "s\<lparr>attempts := (attempts s)(k \<mapsto> ?a1)\<rparr>"
  have t: "transition_payout_attempt now PA_FAILED reason raw pre (k, a) s = Inr (?a1, ?s1)"
    using assms(6,7) by (simp add: transition_Inr)
  obtain s2 where y: "sync_withdrawal_request_status (pa_wr a) PA_FAILED ?s1 = Inr s2"
    using assms(2) by (simp add: sync_withdrawal_request_status_def derive_withdrawal_status_def)
  let ?a2 = "if pa_status a = PA_UNKNOWN then ?a1\<lparr>pa_reconciled_at := Some now\<rparr> else ?a1"
  have "wallets (set_attempt k ?a2 s2) w \<noteq> None" using sync_frame(3)[OF y] assms(4) by (simp add: set_attempt_def)
  then obtain row where row: "wallets (set_attempt k ?a2 s2) w = Some row" by blast
  obtain tx s3 where c: "credit_wallet w (wr_amount r) TX_CORRECTION None None (set_attempt k ?a2 s2) = Inr (tx, s3)"
    using row assms(5) by (auto simp: credit_wallet_def) (metis prod.collapse)
  show ?thesis using assms(1-3) nt t y c by (simp add: apply_confirmed_failure_with_refund_def Let_def)
qed

lemma demo_fdb_pay_inv: "pay_inv demo_fdb"
  unfolding pay_inv_def
proof (intro conjI)
  show "wal_ok demo_fdb" by (simp add: wal_ok_def)
  show "wr_ok demo_fdb" by (simp add: wr_ok_def wr_row_def demo_wr_def)
  show "att_ok demo_fdb" by (simp add: att_ok_def)
  show "funded_ok demo_fdb"
    by (simp add: funded_ok_def demo_fdb_def payout_db.defs demo_funded_request_def demo_wr_def
        demo_payouts_def otp_db.defs)
qed

lemma demo_refund_run:
  obtains t where "runs demo_fdb t" "withdrawals t = [0 \<mapsto> demo_wr\<lparr>wr_reviewed_by := None,
      wr_reviewed_at := Some 5, wr_status := WR_FAILED, wr_np_status := ''FAILED''\<rparr>]" "next_withdrawal t = 1"
proof -
  have "isOk (submit_claim 5 0 None (197/2) 1 demo_fdb)"
    by (simp add: submit_claim_def create_and_submit_payout_attempt_def update_withdrawal_def demo_wr_def
        attempts_of_def rows_where_def sync_withdrawal_request_status_def derive_withdrawal_status_def)
  then obtain j t1 where c: "submit_claim 5 0 None (197/2) 1 demo_fdb = Inr (j, t1)"
    by (cases "submit_claim 5 0 None (197/2) 1 demo_fdb") auto
  have r1: "runs demo_fdb t1"
    by (rule claim_auto[OF here _ _ c, where r = demo_wr]) (simp_all add: demo_wr_def)
  obtain r r' a where e: "withdrawals demo_fdb 0 = Some r"
    "r' = r\<lparr>wr_reviewed_by := None, wr_reviewed_at := Some 5, wr_status := WR_PROCESSING\<rparr>"
    "pa_wr a = 0" "pa_status a = PA_SUBMITTED" "j = 0"
    "t1 = demo_fdb\<lparr>withdrawals := (withdrawals demo_fdb)(0 \<mapsto> r'), next_attempt := Suc j,
            attempts := (attempts demo_fdb)(j \<mapsto> a)\<rparr>"
    using claim_effect[OF c] by simp metis
  have rd: "r = demo_wr" using e(1) by simp
  have a: "attempts t1 0 = Some a" "withdrawals t1 0 = Some r'" "user_wallet t1 3 = Some 0"
    "wallets t1 0 = Some \<lparr>available_balance = 250, pending_balance = 0\<rparr>" "wr_user r' = 3" "wr_amount r' = 100"
    using e(2-6) by (simp_all add: rd) (simp_all add: demo_wr_def)
  obtain b t where g: "apply_confirmed_failure_with_refund 6 0 ''auth failed'' True '''' t1 = Inr (b, t)"
    using refund_succeeds[of t1 0 a r' 0 True 6 "''auth failed''" "''''"] a e(3,4)
    by (auto simp: allowed_transitions_def)
  then have f: "submit_finish 6 0 (Inl ProviderAuthError) t1 = Inr (OUT_FAILED 0, t)"
    by (simp add: submit_finish_def)
  have r2: "runs demo_fdb t" by (rule outcome[OF r1 f])
  from g show thesis
  proof (cases rule: refund_effect)
    case noop
    then show thesis using a(1) e(4) by (simp add: TERMINAL_STATUSES_def)
  next
    case (moved a0 r0 w row txs)
    have "a0 = a" "r0 = r'" using moved(1,2) a e(3) by auto
    then show thesis
      using e(2-6) by (intro that[OF r2]) (simp_all add: moved(11) rd fun_eq_iff)
  qed
qed

theorem payouts_conserve_money_witness:
  "\<exists>t. runs demo_fdb t \<and> map_option wr_status (withdrawals t 0) = Some WR_FAILED \<and> bal 3 t = 350"
proof -
  obtain t where t: "runs demo_fdb t" "withdrawals t = [0 \<mapsto> demo_wr\<lparr>wr_reviewed_by := None,
      wr_reviewed_at := Some 5, wr_status := WR_FAILED, wr_np_status := ''FAILED''\<rparr>]" "next_withdrawal t = 1"
    by (rule demo_refund_run)
  have "bal 3 t + held 3 t = bal 3 demo_fdb + held 3 demo_fdb"
    using payouts_conserve_money[OF t(1) demo_fdb_pay_inv] by blast
  moreover have "held 3 t = 0" using t(2,3) by (simp add: held_def held_row_def)
  moreover have "bal 3 demo_fdb = 250" "held 3 demo_fdb = 100"
    by (simp_all add: bal_def bal0_def held_def held_row_def demo_wr_def)
  ultimately show ?thesis using t(1,2) by auto
qed

text \<open>
  C7. Dual control and single payout: in every run, two attempts never belong to the
  same withdrawal, an attempt is only made for a withdrawal that left PENDING, and
  one above the limit (two required approvals) has a payout attempt only when two
  different administrators approved it.
\<close>

theorem one_payout_and_two_approvals:
  assumes "runs s t" and "pay_inv s"
  shows "(\<forall>i j a b. attempts t i = Some a \<and> attempts t j = Some b \<and> pa_wr a = pa_wr b \<longrightarrow> i = j)
    \<and> (\<forall>j a. attempts t j = Some a \<longrightarrow> (\<exists>r. withdrawals t (pa_wr a) = Some r \<and> wr_status r \<noteq> WR_PENDING
         \<and> (1 < wr_required_approvals r \<longrightarrow> (\<exists>p q. wr_first_approved_by r = Some p
              \<and> wr_second_approved_by r = Some q \<and> p \<noteq> q))))"
proof -
  have inv: "pay_inv t" using runs_keep[OF assms] by (simp add: pay_keeps_def)
  have one: "i = j" if "attempts t i = Some a" "attempts t j = Some b" "pa_wr a = pa_wr b" for i j a b
    using inv that unfolding pay_inv_def att_ok_def by blast
  have two: "\<exists>r. withdrawals t (pa_wr a) = Some r \<and> wr_status r \<noteq> WR_PENDING
       \<and> (1 < wr_required_approvals r \<longrightarrow> (\<exists>p q. wr_first_approved_by r = Some p
            \<and> wr_second_approved_by r = Some q \<and> p \<noteq> q))" if "attempts t j = Some a" for j a
  proof -
    have "\<exists>r. withdrawals t (pa_wr a) = Some r \<and> att_row a r"
      using inv that unfolding pay_inv_def att_ok_def by blast
    then obtain r where r: "withdrawals t (pa_wr a) = Some r" "att_row a r" by blast
    have "wr_status r \<in> {WR_PROCESSING, WR_COMPLETED, WR_FAILED}" "wr_debit_tx r"
      using r(2) derive_never_pending unfolding att_row_def by blast+
    then show ?thesis using r(1) wr_rowD[OF inv r(1)] by (auto simp: wr_row_def)
  qed
  show ?thesis using one two by blast
qed

theorem one_payout_and_two_approvals_witness:
  "\<exists>t r. runs demo_fdb t \<and> withdrawals t 0 = Some r \<and> wr_status r = WR_FAILED
     \<and> (\<forall>i j a b. attempts t i = Some a \<and> attempts t j = Some b \<and> pa_wr a = pa_wr b \<longrightarrow> i = j)"
proof -
  obtain t where t: "runs demo_fdb t" "withdrawals t = [0 \<mapsto> demo_wr\<lparr>wr_reviewed_by := None,
      wr_reviewed_at := Some 5, wr_status := WR_FAILED, wr_np_status := ''FAILED''\<rparr>]" "next_withdrawal t = 1"
    by (rule demo_refund_run)
  then show ?thesis using one_payout_and_two_approvals[OF t(1) demo_fdb_pay_inv] by auto
qed

end
