(* ===== verification/PayoutInbox.thy ===== *)
theory PayoutInbox
  imports PayoutRuns
begin

section \<open>The webhook inbox and the reconciliation passes\<close>

text \<open>
  What the periodic tasks and the callback do to a database that satisfies the
  invariant of the payout tables: retries and back-off of an uncorrelated event, the
  effect of a redelivery, an event that stops the replay run, and what the
  reconciliation of UNKNOWN attempts can and cannot find out.
\<close>

subsection \<open>Back-off\<close>

definition orphaned :: "payout_settings \<Rightarrow> string \<Rightarrow> int list \<Rightarrow> webhook_event \<Rightarrow> webhook_event" where
  "orphaned cfg err ts e = fold (\<lambda>t. unresolved cfg t err True) ts e"

lemma unresolved_fields:
  assumes "we_correlation e \<noteq> CORR_RESOLVED"
  shows "we_retry_count (unresolved cfg t err True e) = Suc (we_retry_count e)"
    and "we_next_retry_at (unresolved cfg t err True e)
           = Some (t + int (retry_delay cfg (Suc (we_retry_count e))) * second_us)"
    and "we_correlation (unresolved cfg t err True e)
           = (if max_auto_retries cfg \<le> Suc (we_retry_count e) then CORR_MANUAL_REVIEW else we_correlation e)"
    and "we_correlation (unresolved cfg t err b e) \<noteq> CORR_RESOLVED"
  using assms by (simp_all add: unresolved_def Let_def)

lemma retry_delay_mono: "1 \<le> m \<Longrightarrow> m \<le> n \<Longrightarrow> retry_delay cfg m \<le> retry_delay cfg n"
  unfolding retry_delay_def by (intro min.mono mult_le_mono2 power_increasing) simp_all

lemma orphaned_fields:
  assumes "we_correlation e \<noteq> CORR_RESOLVED"
  shows "we_retry_count (orphaned cfg err ts e) = we_retry_count e + length ts
    \<and> we_correlation (orphaned cfg err ts e) =
        (if ts \<noteq> [] \<and> max_auto_retries cfg \<le> we_retry_count e + length ts then CORR_MANUAL_REVIEW
         else we_correlation e)"
  using assms
proof (induction ts arbitrary: e)
  case Nil
  then show ?case by (simp add: orphaned_def)
next
  case (Cons t ts)
  let ?e = "unresolved cfg t err True e"
  note f = unresolved_fields[OF Cons.prems]
  have "orphaned cfg err (t # ts) e = orphaned cfg err ts ?e" by (simp add: orphaned_def)
  then show ?case using Cons.IH[of ?e] f(4)[of cfg t err True] by (auto simp: f(1,3))
qed

text \<open>
  C13. An event that never correlates is retried with delays that grow, never exceed
  the configured maximum, and stop being automatic at exactly the configured number
  of retries: before it the event stays PENDING, from it on it is in MANUAL_REVIEW;
  its count is the number of runs, and it is never marked RESOLVED.
\<close>

theorem orphan_event_backs_off:
  assumes "we_correlation e = CORR_PENDING" "we_retry_count e = 0" "1 \<le> max_auto_retries cfg"
  shows "we_retry_count (orphaned cfg err (ts @ [t]) e) = Suc (length ts)
    \<and> we_next_retry_at (orphaned cfg err (ts @ [t]) e)
        = Some (t + int (min (replay_base_seconds cfg * 2 ^ length ts) (replay_max_seconds cfg)) * second_us)
    \<and> we_correlation (orphaned cfg err ts e)
        = (if length ts < max_auto_retries cfg then CORR_PENDING else CORR_MANUAL_REVIEW)
    \<and> retry_delay cfg (Suc (length ts)) \<le> retry_delay cfg (Suc (Suc (length ts)))"
proof -
  have nr: "we_correlation e \<noteq> CORR_RESOLVED" using assms(1) by simp
  have nr': "we_correlation (orphaned cfg err ts e) \<noteq> CORR_RESOLVED"
    using orphaned_fields[OF nr, of cfg err ts] assms(1) by simp
  have "orphaned cfg err (ts @ [t]) e = unresolved cfg t err True (orphaned cfg err ts e)"
    by (simp add: orphaned_def)
  then have "we_next_retry_at (orphaned cfg err (ts @ [t]) e)
      = Some (t + int (retry_delay cfg (Suc (length ts))) * second_us)"
    using unresolved_fields(2)[OF nr'] orphaned_fields[OF nr, of cfg err ts] assms(2) by simp
  moreover have "we_retry_count (orphaned cfg err (ts @ [t]) e) = Suc (length ts)"
    using orphaned_fields[OF nr, of cfg err "ts @ [t]"] assms(2) by simp
  moreover have "we_correlation (orphaned cfg err ts e)
      = (if length ts < max_auto_retries cfg then CORR_PENDING else CORR_MANUAL_REVIEW)"
    using orphaned_fields[OF nr, of cfg err ts] assms by (cases ts) auto
  moreover have "retry_delay cfg (Suc (length ts)) \<le> retry_delay cfg (Suc (Suc (length ts)))"
    by (rule retry_delay_mono) simp_all
  ultimately show ?thesis by (simp add: retry_delay_def)
qed

definition demo_event :: "string \<Rightarrow> attempt_status option \<Rightarrow> webhook_event" where
  "demo_event r st = fresh_event 0 (''fp'' @ r)
     \<lparr>ev_provider = ''nowpayments'', ev_reference = r, ev_batch = ''b'', ev_status = st,
      ev_raw = ''ROLLING'', ev_payload = no_payload\<rparr>"

definition demo_payout_settings :: payout_settings where
  "demo_payout_settings = \<lparr>replay_base_seconds = 300, replay_max_seconds = 21600, max_auto_retries = 10,
     submitted_aged_seconds = 300, processing_aged_seconds = 600\<rparr>"

theorem orphan_event_backs_off_witness:
  "we_correlation (orphaned demo_payout_settings ''orphan'' (replicate 9 0) (demo_event ''p1'' (Some PA_FAILED))) = CORR_PENDING
   \<and> we_correlation (orphaned demo_payout_settings ''orphan'' (replicate 10 0) (demo_event ''p1'' (Some PA_FAILED)))
      = CORR_MANUAL_REVIEW
   \<and> we_next_retry_at (orphaned demo_payout_settings ''orphan'' (replicate 9 0 @ [0]) (demo_event ''p1'' (Some PA_FAILED)))
      = Some (21600 * second_us)"
  using orphan_event_backs_off[of "demo_event ''p1'' (Some PA_FAILED)" demo_payout_settings "''orphan''" "replicate 9 0" 0]
    orphan_event_backs_off[of "demo_event ''p1'' (Some PA_FAILED)" demo_payout_settings "''orphan''" "replicate 10 0" 0]
  by (simp add: demo_event_def fresh_event_def demo_payout_settings_def)

subsection \<open>An in-flight status on a PROCESSING attempt\<close>

text \<open>
  C17. A webhook that reports an in-flight status (ROLLING or CREATED) for an attempt
  that is already PROCESSING raises \<open>InvalidPayoutAttemptTransition\<close> inside the applier:
  the event stays as it is, and a replay run in which it comes first ends with that
  exception and changes nothing, so every later due event waits behind it in this and
  all further runs.
\<close>

theorem in_flight_event_blocks_replay:
  assumes e: "webhook_events s k = Some e" "we_correlation e = CORR_PENDING" "we_status e = Some PA_PROCESSING"
    and t: "resolve_payout_target (to_provider_event e) s [s, s] = AttemptMatch j"
    and a: "attempts s j = Some a" "pa_status a = PA_PROCESSING" "withdrawals s (pa_wr a) \<noteq> None"
  shows "process_webhook_event cfg parse now k s [s, s] s
           = (Inl (InvalidPayoutAttemptTransition PA_PROCESSING PA_PROCESSING), s)
    \<and> (\<forall>ks. due_events now batch s = k # ks \<longrightarrow> replay_payout_webhook_events cfg parse now batch s
           = (Inl (InvalidPayoutAttemptTransition PA_PROCESSING PA_PROCESSING), s))"
proof -
  obtain r where r: "withdrawals s (pa_wr a) = Some r" using a(3) by blast
  have "apply_target parse now (AttemptMatch j) PA_PROCESSING (to_provider_event e) s
      = Inl (InvalidPayoutAttemptTransition PA_PROCESSING PA_PROCESSING)"
    using a(1,2) r by (simp add: apply_target_def apply_attempt_webhook_def apply_result_without_refund_def
        transition_payout_attempt_def allowed_transitions_def TERMINAL_STATUSES_def)
  then have "process_webhook_event cfg parse now k s [s, s] s
      = (Inl (InvalidPayoutAttemptTransition PA_PROCESSING PA_PROCESSING), s)"
    using e t by (simp add: process_webhook_event_def Let_def) (simp add: to_provider_event_def e(3))
  then show ?thesis by (simp add: replay_payout_webhook_events_def)
qed

definition demo_live_attempt :: payout_attempt where
  "demo_live_attempt = (demo_attempt PA_PROCESSING)\<lparr>pa_reference := ''p1'', pa_batch_id := ''b''\<rparr>"

definition demo_live_wr :: withdrawal where
  "demo_live_wr = demo_wr\<lparr>wr_status := WR_PROCESSING, wr_np_payout_id := ''p1'', wr_np_batch_id := ''b''\<rparr>"

definition demo_inbox :: inbox_db where
  "demo_inbox = funded_db.extend (demo_fdb\<lparr>withdrawals := [0 \<mapsto> demo_live_wr],
       attempts := [0 \<mapsto> demo_live_attempt], next_attempt := 1\<rparr>)
     \<lparr>webhook_events = [0 \<mapsto> demo_event ''p1'' (Some PA_FAILED), 1 \<mapsto> demo_event ''p1'' (Some PA_PROCESSING)],
      next_event = 2\<rparr>"

lemma demo_inbox_simps [simp]:
  "webhook_events demo_inbox = [0 \<mapsto> demo_event ''p1'' (Some PA_FAILED), 1 \<mapsto> demo_event ''p1'' (Some PA_PROCESSING)]"
  "next_event demo_inbox = 2" "attempts demo_inbox = [0 \<mapsto> demo_live_attempt]" "next_attempt demo_inbox = 1"
  "withdrawals demo_inbox = [0 \<mapsto> demo_live_wr]" "next_withdrawal demo_inbox = 1"
  "wallets demo_inbox = [0 \<mapsto> \<lparr>available_balance = 250, pending_balance = 0\<rparr>]"
  "user_wallet demo_inbox = [3 \<mapsto> 0]" "next_wallet demo_inbox = 1"
  by (simp_all add: demo_inbox_def funded_db.defs demo_fdb_def payout_db.defs demo_payouts_def otp_db.defs
      demo_otp_def demo_books_def books_db.defs demo_funded_eq wallet_db.defs db.defs)

lemma demo_inbox_target:
  "ev_provider ev = ''nowpayments'' \<Longrightarrow> ev_reference ev = ''p1'' \<Longrightarrow>
     resolve_payout_target ev demo_inbox later = AttemptMatch 0"
  by (simp add: resolve_payout_target_def by_reference_def correlate_def rows_where_def attempt_row_def
      demo_live_attempt_def demo_live_wr_def demo_attempt_def new_attempt_def)

theorem in_flight_event_blocks_replay_witness:
  "process_webhook_event demo_payout_settings (\<lambda>_. None) 9 1 demo_inbox [demo_inbox, demo_inbox] demo_inbox
     = (Inl (InvalidPayoutAttemptTransition PA_PROCESSING PA_PROCESSING), demo_inbox)"
  using in_flight_event_blocks_replay[of demo_inbox 1 "demo_event ''p1'' (Some PA_PROCESSING)" 0 demo_live_attempt
      demo_payout_settings "\<lambda>_. None" 9 0]
    demo_inbox_target[of "to_provider_event (demo_event ''p1'' (Some PA_PROCESSING))" "[demo_inbox, demo_inbox]"]
  by (simp add: demo_event_def fresh_event_def to_provider_event_def demo_live_attempt_def demo_attempt_def
      new_attempt_def)

subsection \<open>Redelivery\<close>

definition inbox_keys :: "'a inbox_db_scheme \<Rightarrow> bool" where
  "inbox_keys s \<longleftrightarrow>
     (\<forall>k e. webhook_events s k = Some e \<longrightarrow> k < next_event s)
     \<and> (\<forall>i j d e. webhook_events s i = Some d \<and> webhook_events s j = Some e
          \<and> we_fingerprint d = we_fingerprint e \<longrightarrow> i = j)"

lemma find_stored_event:
  assumes "inbox_keys s" "webhook_events s k = Some e" "we_fingerprint e = compute_webhook_event_fingerprint sha ev"
  shows "get_or_create_webhook_event sha now ev s = ((k, False), s)"
proof -
  let ?ks = "rows_where (next_event s) (webhook_events s) (\<lambda>e. we_fingerprint e = compute_webhook_event_fingerprint sha ev)"
  have "k \<in> set ?ks" using assms by (auto simp: set_rows_where inbox_keys_def)
  moreover have "i = k" if i: "i \<in> set ?ks" for i
  proof -
    obtain d where "webhook_events s i = Some d" "we_fingerprint d = we_fingerprint e"
      using i assms(3) by (auto simp: set_rows_where)
    then show ?thesis using assms(1,2) unfolding inbox_keys_def by blast
  qed
  moreover obtain x xs where xs: "?ks = x # xs" using calculation(1) by (cases ?ks) auto
  ultimately have "x = k" by (metis list.set_intros(1))
  with xs have "?ks = k # xs" by simp
  then show ?thesis by (simp add: get_or_create_webhook_event_def)
qed

lemma get_or_create_keys:
  assumes "inbox_keys s"
  shows "inbox_keys (snd (get_or_create_webhook_event sha now ev s))"
proof (cases "rows_where (next_event s) (webhook_events s) (\<lambda>e. we_fingerprint e = compute_webhook_event_fingerprint sha ev)")
  case Nil
  then have n: "webhook_events s i = Some d \<Longrightarrow> we_fingerprint d \<noteq> compute_webhook_event_fingerprint sha ev" for i d
    using assms by (auto simp: rows_where_empty inbox_keys_def)
  then have n': "webhook_events s i = Some d \<Longrightarrow> compute_webhook_event_fingerprint sha ev \<noteq> we_fingerprint d" for i d
    by metis
  have f: "webhook_events s (next_event s) = None"
    using assms unfolding inbox_keys_def by (metis less_irrefl option.exhaust)
  show ?thesis using Nil assms n n' f
    by (auto simp: get_or_create_webhook_event_def Let_def inbox_keys_def fresh_event_def less_Suc_eq split: if_splits)
qed (use assms in \<open>simp add: get_or_create_webhook_event_def\<close>)

text \<open>
  Redelivery is harmless: once an event is RESOLVED, delivering it again, any
  number of times and at any later moment, finds the stored row and leaves the whole
  database as it is.
\<close>

theorem redelivery_changes_nothing:
  assumes "inbox_keys s" "webhook_events s k = Some e" "we_correlation e = CORR_RESOLVED"
    and "we_fingerprint e = compute_webhook_event_fingerprint sha ev"
  shows "deliver_events cfg sha parse now (replicate n ev) s = s"
proof (induction n)
  case (Suc n)
  have "process_webhook_event cfg parse now k s [s, s] s = (Inr None, s)"
    using assms(2,3) by (simp add: process_webhook_event_def)
  then show ?case using Suc find_stored_event[OF assms(1,2,4)] by simp
qed simp

definition demo_resolved :: inbox_db where
  "demo_resolved = update_event 0 (resolve_event 7 (Some 0)) demo_inbox"

theorem redelivery_changes_nothing_witness:
  "deliver_events demo_payout_settings (\<lambda>x. ''fpp1'') (\<lambda>_. None) 8
     (replicate 3 (to_provider_event (demo_event ''p1'' (Some PA_FAILED))))
     (demo_resolved\<lparr>webhook_events := (webhook_events demo_resolved)(1 := None)\<rparr>)
   = demo_resolved\<lparr>webhook_events := (webhook_events demo_resolved)(1 := None)\<rparr>"
proof (rule redelivery_changes_nothing[where k = 0 and e = "resolve_event 7 (Some 0) (demo_event ''p1'' (Some PA_FAILED))"])
  show "inbox_keys (demo_resolved\<lparr>webhook_events := (webhook_events demo_resolved)(1 := None)\<rparr>)"
    by (auto simp: inbox_keys_def demo_resolved_def update_event_def)
qed (simp_all add: demo_resolved_def update_event_def resolve_event_def demo_event_def fresh_event_def
    compute_webhook_event_fingerprint_def)

subsection \<open>Reconciliation of UNKNOWN attempts\<close>

lemma lookup_unknown:
  assumes "pay_inv s" "attempts s j = Some a" "pa_status a = PA_UNKNOWN"
  shows "provider_registry (pa_provider a)" "lookup_payout np a = lookup_of UNSUPPORTED"
proof -
  obtain r where "att_row a r" using assms(1,2) unfolding pay_inv_def att_ok_def by blast
  then have "pa_reference a = ''''" "pa_provider a = ''nowpayments''" using assms(3) by (simp_all add: att_row_def)
  then show "provider_registry (pa_provider a)" "lookup_payout np a = lookup_of UNSUPPORTED"
    by (simp_all add: provider_registry_def lookup_payout_def)
qed

definition all_unknown :: "pk list \<Rightarrow> 'a payout_db_scheme \<Rightarrow> bool" where
  "all_unknown js s \<longleftrightarrow> (\<forall>j \<in> set js. map_option pa_status (attempts s j) = Some PA_UNKNOWN)"

lemma set_checked_status [simp]:
  "map_option pa_status (attempts (set_checked now j s) i) = map_option pa_status (attempts s i)"
  by (simp add: set_checked_def update_row_apply option.map_comp comp_def)

lemma lookup_loop_unknown:
  fixes s :: "'a funded_db_scheme"
  assumes "pay_inv s" "all_unknown js s"
  shows "\<exists>s'. lookup_loop np parse now js (c, r, u) s = (Inr (c + length js, r, u + length js), s')
    \<and> pay_keeps s s' \<and> (\<forall>i. map_option pa_status (attempts s' i) = map_option pa_status (attempts s i))"
  using assms
proof (induction js arbitrary: c u s)
  case Nil
  then show ?case by (simp add: pay_keeps_refl)
next
  case (Cons j js)
  then obtain a where a: "attempts s j = Some a" "pa_status a = PA_UNKNOWN" by (auto simp: all_unknown_def)
  note l = lookup_unknown(1)[OF Cons.prems(1) a] lookup_unknown(2)[OF Cons.prems(1) a, of np]
  let ?s = "set_checked now j s"
  have k: "pay_keeps s ?s" by (rule keep_checked[OF Cons.prems(1)])
  then have inv: "pay_inv ?s" by (simp add: pay_keeps_def)
  have au: "all_unknown js ?s" using Cons.prems(2) by (simp add: all_unknown_def)
  have "lookup_loop np parse now (j # js) (c, r, u) s = lookup_loop np parse now js (Suc c, r, Suc u) ?s"
    using a l by (simp add: has_lookup_capability_def apply_lookup_outcome_def lookup_of_def)
  moreover obtain s' where s': "lookup_loop np parse now js (Suc c, r, Suc u) ?s
      = (Inr (Suc c + length js, r, Suc u + length js), s')" "pay_keeps ?s s'"
    "\<forall>i. map_option pa_status (attempts s' i) = map_option pa_status (attempts ?s i)"
    using Cons.IH[OF inv au, of "Suc c" "Suc u"] by blast
  moreover have "pay_keeps s s'" using k s'(2) pay_evolves_trans unfolding pay_keeps_def by blast
  ultimately show ?case by auto
qed

lemma age_one:
  fixes s :: "'a funded_db_scheme"
  assumes "pay_inv s" "attempts s j = Some a" "pa_status a = PA_SUBMITTED"
  shows "\<exists>a' s'. apply_result_without_refund now j PA_UNKNOWN reason raw conf s = Inr (a', s')
    \<and> pa_status a' = PA_UNKNOWN \<and> pay_keeps s s'
    \<and> (\<forall>i. map_option pa_status (attempts s' i) = (if i = j then Some PA_UNKNOWN else map_option pa_status (attempts s i)))"
proof -
  have "\<exists>r. withdrawals s (pa_wr a) = Some r" using assms(1,2) unfolding pay_inv_def att_ok_def by blast
  then obtain r where r: "withdrawals s (pa_wr a) = Some r" ..
  have "isOk (apply_result_without_refund now j PA_UNKNOWN reason raw conf s)"
    using assms(2,3) r by (simp add: apply_result_without_refund_def transition_payout_attempt_def
        allowed_transitions_def TERMINAL_STATUSES_def sync_withdrawal_request_status_def
        derive_withdrawal_status_def Let_def)
  then obtain a' s' where ok: "apply_result_without_refund now j PA_UNKNOWN reason raw conf s = Inr (a', s')"
    by (cases "apply_result_without_refund now j PA_UNKNOWN reason raw conf s") auto
  have k: "pay_keeps s s'" by (rule keep_result[OF assms(1) ok]) simp
  from ok show ?thesis
  proof (cases rule: apply_result_effect)
    case noop
    then show ?thesis using assms(2,3) by (simp add: TERMINAL_STATUSES_def)
  next
    case (moved a0 r0 st es)
    then have "pa_status a' = PA_UNKNOWN" "\<forall>i. map_option pa_status (attempts s' i)
        = (if i = j then Some PA_UNKNOWN else map_option pa_status (attempts s i))" by simp_all
    with ok k show ?thesis by blast
  qed
qed

lemma age_loop_unknown:
  fixes s :: "'a funded_db_scheme"
  assumes "pay_inv s" "distinct js" "\<forall>j \<in> set js. map_option pa_status (attempts s j) = Some PA_SUBMITTED"
  shows "\<exists>s'. age_loop now js n s = (Inr (n + length js), s') \<and> pay_keeps s s'
    \<and> (\<forall>i. map_option pa_status (attempts s' i)
         = (if i \<in> set js then Some PA_UNKNOWN else map_option pa_status (attempts s i)))"
  using assms
proof (induction js arbitrary: n s)
  case Nil
  then show ?case by (simp add: pay_keeps_refl)
next
  case (Cons j js)
  then obtain a where a: "attempts s j = Some a" "pa_status a = PA_SUBMITTED" by auto
  obtain a1 s1 where s1: "apply_result_without_refund now j PA_UNKNOWN ''aged SUBMITTED'' '''' (None, '''') s = Inr (a1, s1)"
    "pa_status a1 = PA_UNKNOWN" "pay_keeps s s1"
    "\<forall>i. map_option pa_status (attempts s1 i) = (if i = j then Some PA_UNKNOWN else map_option pa_status (attempts s i))"
    using age_one[OF Cons.prems(1) a] by blast
  have "pay_inv s1" using s1(3) by (simp add: pay_keeps_def)
  moreover have "distinct js" "\<forall>i \<in> set js. map_option pa_status (attempts s1 i) = Some PA_SUBMITTED"
    using Cons.prems(2,3) s1(4) by auto
  ultimately obtain s' where s': "age_loop now js (Suc n) s1 = (Inr (Suc n + length js), s')" "pay_keeps s1 s'"
    "\<forall>i. map_option pa_status (attempts s' i)
       = (if i \<in> set js then Some PA_UNKNOWN else map_option pa_status (attempts s1 i))"
    using Cons.IH[of s1 "Suc n"] by blast
  have "pay_keeps s s'" using s1(3) s'(2) pay_evolves_trans unfolding pay_keeps_def by blast
  moreover have "age_loop now (j # js) n s = (Inr (n + length (j # js)), s')" using s1(1,2) s'(1) by simp
  moreover have "map_option pa_status (attempts s' i)
      = (if i \<in> set (j # js) then Some PA_UNKNOWN else map_option pa_status (attempts s i))" for i
    using s'(3) s1(4) by auto
  ultimately show ?case by blast
qed

lemma unknown_rows:
  "all_unknown (take n (by_checked s (rows_where m (attempts s) (\<lambda>a. pa_status a = PA_UNKNOWN)))) s"
proof -
  have "set (by_checked s xs) \<subseteq> set xs" for xs by (auto simp: by_checked_def)
  then show ?thesis using set_take_subset by (fastforce simp: all_unknown_def set_rows_where)
qed



end
