(* ===== verification/Instruments.thy ===== *)
theory Instruments
  imports Numerics
begin

section \<open>Instruments (\<open>market_data/symbol_specs.py\<close>, \<open>market_data/instruments\<close>)\<close>

text \<open>
  The registry of tradeable symbols, the normalisation of symbol texts, the
  \<open>InstrumentProfile\<close> both \<open>SymbolSpec\<close> and the database row \<open>Instrument\<close> are
  bridged into with the checks of its constructor, and the comparison of two
  profiles. A float literal \<open>0.01\<close> of the source is \<open>fl (1 / 100)\<close>.
\<close>

subsection \<open>Specifications\<close>

record symbol_spec =
  sp_symbol :: string
  sp_asset_class :: string
  sp_contract_size :: pynum
  sp_min_lot :: rat
  sp_max_lot :: rat
  sp_lot_step :: rat
  sp_tick_size :: rat
  sp_pip_size :: rat
  sp_price_decimals :: int
  sp_base_price :: rat
  sp_sim_drift :: rat
  sp_spread :: rat
  sp_commission_pct :: rat
  sp_max_leverage :: int
  sp_margin_mode :: string
  sp_kline_source :: "string option"
  sp_exchange_symbol :: "string option"
  sp_finnhub_symbol :: "string option"
  sp_kraken_symbol :: "string option"
  sp_quote_currency :: string
  sp_enabled :: bool

text \<open>The defaults of the class; every entry of the registry gives the other fields.\<close>

definition default_spec :: symbol_spec where
  "default_spec =
     \<lparr>sp_symbol = '''', sp_asset_class = '''', sp_contract_size = PyInt 0, sp_min_lot = 0,
      sp_max_lot = 0, sp_lot_step = 0, sp_tick_size = 0, sp_pip_size = 0, sp_price_decimals = 0,
      sp_base_price = 0, sp_sim_drift = 0, sp_spread = 0, sp_commission_pct = 0,
      sp_max_leverage = 0, sp_margin_mode = ''leverage'', sp_kline_source = None,
      sp_exchange_symbol = None, sp_finnhub_symbol = None, sp_kraken_symbol = None,
      sp_quote_currency = ''USD'', sp_enabled = True\<rparr>"

definition spec_EUR_USD :: symbol_spec where
  "spec_EUR_USD = default_spec\<lparr>sp_symbol := ''EUR/USD'', sp_asset_class := ''forex'', sp_contract_size := PyInt 100000,
     sp_min_lot := fl (1 / 100), sp_max_lot := 100, sp_lot_step := fl (1 / 100),
     sp_tick_size := fl (1 / 100000), sp_pip_size := fl (1 / 10000), sp_price_decimals := 5,
     sp_base_price := fl (117 / 100), sp_sim_drift := fl (8 / 10000), sp_spread := fl (15 / 100000),
     sp_commission_pct := 0, sp_max_leverage := 500, sp_finnhub_symbol := Some ''OANDA:EUR_USD''\<rparr>"

definition spec_GBP_USD :: symbol_spec where
  "spec_GBP_USD = default_spec\<lparr>sp_symbol := ''GBP/USD'', sp_asset_class := ''forex'', sp_contract_size := PyInt 100000,
     sp_min_lot := fl (1 / 100), sp_max_lot := 100, sp_lot_step := fl (1 / 100),
     sp_tick_size := fl (1 / 100000), sp_pip_size := fl (1 / 10000), sp_price_decimals := 5,
     sp_base_price := fl (13 / 10), sp_sim_drift := fl (1 / 1000), sp_spread := fl (18 / 100000),
     sp_commission_pct := 0, sp_max_leverage := 500, sp_finnhub_symbol := Some ''OANDA:GBP_USD''\<rparr>"

definition spec_USD_JPY :: symbol_spec where
  "spec_USD_JPY = default_spec\<lparr>sp_symbol := ''USD/JPY'', sp_asset_class := ''forex'', sp_contract_size := PyInt 100000,
     sp_min_lot := fl (1 / 100), sp_max_lot := 100, sp_lot_step := fl (1 / 100),
     sp_tick_size := fl (1 / 1000), sp_pip_size := fl (1 / 100), sp_price_decimals := 3,
     sp_base_price := 155, sp_sim_drift := fl (8 / 100), sp_spread := fl (18 / 1000),
     sp_commission_pct := 0, sp_max_leverage := 500, sp_finnhub_symbol := Some ''OANDA:USD_JPY'',
     sp_quote_currency := ''JPY''\<rparr>"

definition spec_AUD_USD :: symbol_spec where
  "spec_AUD_USD = default_spec\<lparr>sp_symbol := ''AUD/USD'', sp_asset_class := ''forex'', sp_contract_size := PyInt 100000,
     sp_min_lot := fl (1 / 100), sp_max_lot := 100, sp_lot_step := fl (1 / 100),
     sp_tick_size := fl (1 / 100000), sp_pip_size := fl (1 / 10000), sp_price_decimals := 5,
     sp_base_price := fl (68 / 100), sp_sim_drift := fl (8 / 10000), sp_spread := fl (17 / 100000),
     sp_commission_pct := 0, sp_max_leverage := 500, sp_finnhub_symbol := Some ''OANDA:AUD_USD''\<rparr>"

definition spec_USD_CAD :: symbol_spec where
  "spec_USD_CAD = default_spec\<lparr>sp_symbol := ''USD/CAD'', sp_asset_class := ''forex'', sp_contract_size := PyInt 100000,
     sp_min_lot := fl (1 / 100), sp_max_lot := 100, sp_lot_step := fl (1 / 100),
     sp_tick_size := fl (1 / 100000), sp_pip_size := fl (1 / 10000), sp_price_decimals := 5,
     sp_base_price := fl (137 / 100), sp_sim_drift := fl (8 / 10000), sp_spread := fl (2 / 10000),
     sp_commission_pct := 0, sp_max_leverage := 500, sp_finnhub_symbol := Some ''OANDA:USD_CAD'',
     sp_enabled := False, sp_quote_currency := ''CAD''\<rparr>"

definition spec_USD_CHF :: symbol_spec where
  "spec_USD_CHF = default_spec\<lparr>sp_symbol := ''USD/CHF'', sp_asset_class := ''forex'', sp_contract_size := PyInt 100000,
     sp_min_lot := fl (1 / 100), sp_max_lot := 100, sp_lot_step := fl (1 / 100),
     sp_tick_size := fl (1 / 100000), sp_pip_size := fl (1 / 10000), sp_price_decimals := 5,
     sp_base_price := fl (9 / 10), sp_sim_drift := fl (8 / 10000), sp_spread := fl (18 / 100000),
     sp_commission_pct := 0, sp_max_leverage := 500, sp_finnhub_symbol := Some ''OANDA:USD_CHF'',
     sp_enabled := False, sp_quote_currency := ''CHF''\<rparr>"

definition spec_NZD_USD :: symbol_spec where
  "spec_NZD_USD = default_spec\<lparr>sp_symbol := ''NZD/USD'', sp_asset_class := ''forex'', sp_contract_size := PyInt 100000,
     sp_min_lot := fl (1 / 100), sp_max_lot := 100, sp_lot_step := fl (1 / 100),
     sp_tick_size := fl (1 / 100000), sp_pip_size := fl (1 / 10000), sp_price_decimals := 5,
     sp_base_price := fl (62 / 100), sp_sim_drift := fl (7 / 10000), sp_spread := fl (2 / 10000),
     sp_commission_pct := 0, sp_max_leverage := 500, sp_finnhub_symbol := Some ''OANDA:NZD_USD'',
     sp_enabled := False\<rparr>"

definition spec_BTCUSD :: symbol_spec where
  "spec_BTCUSD = default_spec\<lparr>sp_symbol := ''BTCUSD'', sp_asset_class := ''crypto'', sp_contract_size := PyFloat 1,
     sp_min_lot := fl (1 / 1000), sp_max_lot := 10, sp_lot_step := fl (1 / 1000),
     sp_tick_size := fl (1 / 100), sp_pip_size := 1, sp_price_decimals := 2, sp_base_price := 82000,
     sp_sim_drift := 12, sp_spread := 15, sp_commission_pct := fl (1 / 10000), sp_max_leverage := 20,
     sp_kline_source := Some ''binance'', sp_exchange_symbol := Some ''BTCUSDT'',
     sp_kraken_symbol := Some ''XBT/USD''\<rparr>"

definition spec_ETHUSD :: symbol_spec where
  "spec_ETHUSD = default_spec\<lparr>sp_symbol := ''ETHUSD'', sp_asset_class := ''crypto'', sp_contract_size := PyFloat 1,
     sp_min_lot := fl (1 / 100), sp_max_lot := 100, sp_lot_step := fl (1 / 100),
     sp_tick_size := fl (1 / 100), sp_pip_size := 1, sp_price_decimals := 2, sp_base_price := 3400,
     sp_sim_drift := 2, sp_spread := 3, sp_commission_pct := fl (1 / 10000), sp_max_leverage := 20,
     sp_kline_source := Some ''binance'', sp_exchange_symbol := Some ''ETHUSDT'',
     sp_kraken_symbol := Some ''ETH/USD''\<rparr>"

definition spec_SOLUSD :: symbol_spec where
  "spec_SOLUSD = default_spec\<lparr>sp_symbol := ''SOLUSD'', sp_asset_class := ''crypto'', sp_contract_size := PyFloat 1,
     sp_min_lot := fl (1 / 10), sp_max_lot := 1000, sp_lot_step := fl (1 / 10),
     sp_tick_size := fl (1 / 100), sp_pip_size := fl (1 / 100), sp_price_decimals := 2,
     sp_base_price := 170, sp_sim_drift := fl (5 / 10), sp_spread := fl (2 / 10),
     sp_commission_pct := fl (1 / 10000), sp_max_leverage := 10, sp_enabled := False\<rparr>"

definition spec_XAU_USD :: symbol_spec where
  "spec_XAU_USD = default_spec\<lparr>sp_symbol := ''XAU/USD'', sp_asset_class := ''metal'', sp_contract_size := PyFloat 100,
     sp_min_lot := fl (1 / 100), sp_max_lot := 50, sp_lot_step := fl (1 / 100),
     sp_tick_size := fl (1 / 100), sp_pip_size := fl (1 / 100), sp_price_decimals := 2,
     sp_base_price := 2400, sp_sim_drift := 1, sp_spread := fl (3 / 10), sp_commission_pct := 0,
     sp_max_leverage := 100, sp_finnhub_symbol := Some ''OANDA:XAU_USD'', sp_enabled := False\<rparr>"

definition spec_XAG_USD :: symbol_spec where
  "spec_XAG_USD = default_spec\<lparr>sp_symbol := ''XAG/USD'', sp_asset_class := ''metal'', sp_contract_size := PyFloat 5000,
     sp_min_lot := fl (1 / 100), sp_max_lot := 50, sp_lot_step := fl (1 / 100),
     sp_tick_size := fl (1 / 1000), sp_pip_size := fl (1 / 1000), sp_price_decimals := 3,
     sp_base_price := 30, sp_sim_drift := fl (2 / 100), sp_spread := fl (3 / 100),
     sp_commission_pct := 0, sp_max_leverage := 100, sp_enabled := False\<rparr>"

definition spec_US30 :: symbol_spec where
  "spec_US30 = default_spec\<lparr>sp_symbol := ''US30'', sp_asset_class := ''index'', sp_contract_size := PyFloat 1,
     sp_min_lot := fl (1 / 10), sp_max_lot := 100, sp_lot_step := fl (1 / 10), sp_tick_size := 1,
     sp_pip_size := 1, sp_price_decimals := 0, sp_base_price := 40000, sp_sim_drift := 50,
     sp_spread := 3, sp_commission_pct := 0, sp_max_leverage := 20, sp_enabled := False\<rparr>"

definition spec_US500 :: symbol_spec where
  "spec_US500 = default_spec\<lparr>sp_symbol := ''US500'', sp_asset_class := ''index'', sp_contract_size := PyFloat 10,
     sp_min_lot := fl (1 / 10), sp_max_lot := 100, sp_lot_step := fl (1 / 10),
     sp_tick_size := fl (25 / 100), sp_pip_size := fl (25 / 100), sp_price_decimals := 2,
     sp_base_price := 5200, sp_sim_drift := 5, sp_spread := fl (5 / 10), sp_commission_pct := 0,
     sp_max_leverage := 20, sp_enabled := False\<rparr>"

definition spec_NAS100 :: symbol_spec where
  "spec_NAS100 = default_spec\<lparr>sp_symbol := ''NAS100'', sp_asset_class := ''index'', sp_contract_size := PyFloat 1,
     sp_min_lot := fl (1 / 10), sp_max_lot := 100, sp_lot_step := fl (1 / 10),
     sp_tick_size := fl (25 / 100), sp_pip_size := fl (25 / 100), sp_price_decimals := 2,
     sp_base_price := 18000, sp_sim_drift := 20, sp_spread := fl (15 / 10), sp_commission_pct := 0,
     sp_max_leverage := 20, sp_enabled := False\<rparr>"

definition registry :: "symbol_spec list" where
  "registry = [spec_EUR_USD, spec_GBP_USD, spec_USD_JPY, spec_AUD_USD, spec_USD_CAD, spec_USD_CHF,
     spec_NZD_USD, spec_BTCUSD, spec_ETHUSD, spec_SOLUSD, spec_XAU_USD, spec_XAG_USD, spec_US30,
     spec_US500, spec_NAS100]"

lemmas spec_defs = spec_EUR_USD_def spec_GBP_USD_def spec_USD_JPY_def spec_AUD_USD_def
  spec_USD_CAD_def spec_USD_CHF_def spec_NZD_USD_def spec_BTCUSD_def spec_ETHUSD_def
  spec_SOLUSD_def spec_XAU_USD_def spec_XAG_USD_def spec_US30_def spec_US500_def spec_NAS100_def
  default_spec_def

text \<open>\<open>get_spec\<close> raises \<open>KeyError\<close> for an unknown symbol: \<open>None\<close>.\<close>

definition get_spec :: "string \<Rightarrow> symbol_spec option" where
  "get_spec s = find (\<lambda>sp. sp_symbol sp = s) registry"

definition allowed_symbols :: "string list" where
  "allowed_symbols = map sp_symbol (filter sp_enabled registry)"

definition kline_symbols :: "string list" where
  "kline_symbols = map sp_symbol (filter (\<lambda>sp. sp_kline_source sp \<noteq> None \<and> sp_enabled sp) registry)"

text \<open>The key of \<open>_NORM_MAP\<close>: the symbol without its slash, in upper case.\<close>

definition norm_key :: "string \<Rightarrow> string" where
  "norm_key s = upper (drop_char (CHR ''/'') s)"

definition normalize_symbol :: "string \<Rightarrow> string" where
  "normalize_symbol s =
     (case find (\<lambda>sp. norm_key (sp_symbol sp) = norm_key s) registry of
        Some sp \<Rightarrow> sp_symbol sp | None \<Rightarrow> s)"

subsection \<open>Profiles\<close>

datatype capability =
  REALTIME_TICKS | BID_ASK | LAST_PRICE | OHLC | HISTORY | MARKET_DEPTH | VOLUME | OPEN_INTEREST
| WEBSOCKET | REST | MARKET_STATUS

datatype order_policy = OPEN_NORMAL | CLOSE_ONLY | HALT_NEW_ORDERS | POLICY_MARKET_CLOSED

record symbol_mapping =
  sm_canonical :: string
  sm_provider :: string
  sm_symbol :: string
  sm_enabled :: bool
  sm_priority :: nat
  sm_required :: "capability list"

record instrument_profile =
  ip_symbol :: string
  ip_display_name :: string
  ip_asset_class :: string
  ip_base :: string
  ip_quote :: string
  ip_pip_size :: rat
  ip_tick_size :: rat
  ip_price_decimals :: int
  ip_lot_step :: rat
  ip_min_lot :: rat
  ip_max_lot :: rat
  ip_contract_size :: rat
  ip_max_leverage :: int
  ip_default_spread :: rat
  ip_spread_unit :: string
  ip_commission_per_lot :: rat
  ip_commission_pct :: rat
  ip_margin_mode :: string
  ip_pnl_mode :: string
  ip_enabled :: bool
  ip_calendar :: string
  ip_mappings :: "symbol_mapping list"
  ip_required :: "capability list"
  ip_simulation :: bool
  ip_degraded_policy :: order_policy

datatype profile_error =
  EmptyField string | NotPositive string | NegativeDecimals | LotRange | StepTooWide
| BadMarginMode | BadPnlMode | BadSpreadUnit | ForeignMapping | DuplicatePriority
| NoEnabledMapping | BadDegradedPolicy | DifferentSymbols | UnknownSymbol

definition mapping_error :: "symbol_mapping \<Rightarrow> profile_error option" where
  "mapping_error m =
     (if sm_canonical m = '''' then Some (EmptyField ''canonical_symbol'')
      else if sm_provider m = '''' then Some (EmptyField ''provider_id'')
      else if sm_symbol m = '''' then Some (EmptyField ''provider_symbol'')
      else None)"

text \<open>\<open>InstrumentProfile.__post_init__\<close>: the first check that fails.\<close>

definition positive_fields :: "instrument_profile \<Rightarrow> (string \<times> rat) list" where
  "positive_fields p =
     [(''pip_size'', ip_pip_size p), (''tick_size'', ip_tick_size p), (''lot_step'', ip_lot_step p),
      (''min_lot'', ip_min_lot p), (''max_lot'', ip_max_lot p),
      (''contract_size'', ip_contract_size p)]"

definition profile_error :: "instrument_profile \<Rightarrow> profile_error option" where
  "profile_error p =
     (if ip_symbol p = '''' then Some (EmptyField ''canonical_symbol'')
      else case find (\<lambda>(_, v). v \<le> 0) (positive_fields p) of Some (f, _) \<Rightarrow> Some (NotPositive f)
      | None \<Rightarrow>
      if ip_price_decimals p < 0 then Some NegativeDecimals
      else if ip_max_lot p < ip_min_lot p then Some LotRange
      else if ip_max_lot p < ip_lot_step p then Some StepTooWide
      else if ip_max_leverage p \<le> 0 then Some (NotPositive ''max_leverage'')
      else if ip_margin_mode p \<notin> {''leverage'', ''percent''} then Some BadMarginMode
      else if ip_pnl_mode p \<notin> {''STANDARD'', ''INVERSE''} then Some BadPnlMode
      else if ip_spread_unit p \<notin> {''pips'', ''points'', ''percent''} then Some BadSpreadUnit
      else if \<exists>m \<in> set (ip_mappings p). sm_canonical m \<noteq> ip_symbol p then Some ForeignMapping
      else if \<not> distinct (map sm_priority (ip_mappings p)) then Some DuplicatePriority
      else if ip_enabled p \<and> \<not> ip_simulation p \<and> \<not> (\<exists>m \<in> set (ip_mappings p). sm_enabled m)
        then Some NoEnabledMapping
      else if ip_degraded_policy p \<notin> {CLOSE_ONLY, HALT_NEW_ORDERS} then Some BadDegradedPolicy
      else None)"

definition make_profile :: "instrument_profile \<Rightarrow> profile_error + instrument_profile" where
  "make_profile p = (case profile_error p of Some e \<Rightarrow> Inl e | None \<Rightarrow> Inr p)"

subsection \<open>\<open>SymbolSpec\<close> to profile\<close>

definition derive_base_currency :: "string \<Rightarrow> string \<Rightarrow> string" where
  "derive_base_currency s q =
     (if CHR ''/'' \<in> set s then takeWhile (\<lambda>c. c \<noteq> CHR ''/'') s
      else if q \<noteq> '''' \<and> ends_with q s \<and> length q < length s then take (length s - length q) s
      else s)"

text \<open>
  The numeric value of a specification field. \<open>candidates\<close> is in fallback order;
  the priorities are dense over the providers that are configured.
\<close>

definition num_value :: "pynum \<Rightarrow> rat" where
  "num_value v = (case v of PyDecimal d \<Rightarrow> d | PyInt i \<Rightarrow> of_int i | PyFloat x \<Rightarrow> x | PyOther \<Rightarrow> 0)"

definition spec_candidates :: "symbol_spec \<Rightarrow> (string \<times> string \<times> capability list) list" where
  "spec_candidates sp =
     List.map_filter (\<lambda>(pid, sym', caps). case sym' of None \<Rightarrow> None
         | Some t \<Rightarrow> if t = '''' then None else Some (pid, t, caps))
       [(''binance'', sp_exchange_symbol sp, [BID_ASK]), (''kraken'', sp_kraken_symbol sp, [BID_ASK]),
        (''finnhub'', sp_finnhub_symbol sp, [LAST_PRICE])]"

definition spec_mappings :: "symbol_spec \<Rightarrow> symbol_mapping list" where
  "spec_mappings sp =
     map (\<lambda>(i, pid, t, caps). \<lparr>sm_canonical = sp_symbol sp, sm_provider = pid, sm_symbol = t,
             sm_enabled = sp_enabled sp, sm_priority = i, sm_required = caps\<rparr>)
       (enumerate 0 (spec_candidates sp))"

definition profile_of_spec :: "symbol_spec \<Rightarrow> instrument_profile" where
  "profile_of_spec sp =
     \<lparr>ip_symbol = sp_symbol sp, ip_display_name = sp_symbol sp, ip_asset_class = sp_asset_class sp,
      ip_base = derive_base_currency (sp_symbol sp) (sp_quote_currency sp),
      ip_quote = sp_quote_currency sp, ip_pip_size = sp_pip_size sp,
      ip_tick_size = sp_tick_size sp, ip_price_decimals = sp_price_decimals sp,
      ip_lot_step = sp_lot_step sp, ip_min_lot = sp_min_lot sp, ip_max_lot = sp_max_lot sp,
      ip_contract_size = num_value (sp_contract_size sp), ip_max_leverage = sp_max_leverage sp,
      ip_default_spread = (if sp_pip_size sp \<noteq> 0 then fl (sp_spread sp / sp_pip_size sp) else 0),
      ip_spread_unit = (if sp_asset_class sp = ''index'' then ''points'' else ''pips''),
      ip_commission_per_lot = 0, ip_commission_pct = sp_commission_pct sp,
      ip_margin_mode = sp_margin_mode sp,
      ip_pnl_mode = (if sp_quote_currency sp \<noteq> ''USD'' then ''INVERSE'' else ''STANDARD''),
      ip_enabled = sp_enabled sp,
      ip_calendar = (if sp_asset_class sp = ''crypto'' then ''24/7'' else ''24/5''),
      ip_mappings = spec_mappings sp, ip_required = [BID_ASK], ip_simulation = True,
      ip_degraded_policy = CLOSE_ONLY\<rparr>"

definition profile_from_symbol_spec :: "symbol_spec \<Rightarrow> profile_error + instrument_profile" where
  "profile_from_symbol_spec sp =
     (case List.map_filter mapping_error (spec_mappings sp) of
        e # _ \<Rightarrow> Inl e | [] \<Rightarrow> make_profile (profile_of_spec sp))"

subsection \<open>The registry\<close>

lemma registry_symbols:
  "map sp_symbol registry =
     [''EUR/USD'', ''GBP/USD'', ''USD/JPY'', ''AUD/USD'', ''USD/CAD'', ''USD/CHF'', ''NZD/USD'', ''BTCUSD'',
      ''ETHUSD'', ''SOLUSD'', ''XAU/USD'', ''XAG/USD'', ''US30'', ''US500'', ''NAS100'']"
  by (simp add: registry_def spec_defs)

lemma registry_compact:
  "map (norm_key \<circ> sp_symbol) registry =
     [''EURUSD'', ''GBPUSD'', ''USDJPY'', ''AUDUSD'', ''USDCAD'', ''USDCHF'', ''NZDUSD'', ''BTCUSD'',
      ''ETHUSD'', ''SOLUSD'', ''XAUUSD'', ''XAGUSD'', ''US30'', ''US500'', ''NAS100'']"
proof -
  have "map (norm_key \<circ> sp_symbol) registry = map norm_key (map sp_symbol registry)" by simp
  then show ?thesis unfolding registry_symbols by (simp add: norm_key_def drop_char_def upper_def)
qed

lemma distinct_registry: "distinct (map sp_symbol registry)" "distinct (map (norm_key \<circ> sp_symbol) registry)"
  unfolding registry_symbols registry_compact by simp_all

lemma find_distinct:
  assumes "x \<in> set xs" "distinct (map f xs)"
  shows "find (\<lambda>y. f y = f x) xs = Some x"
  using assms by (induction xs) (auto simp: image_iff)

lemma get_spec_registered: "sp \<in> set registry \<Longrightarrow> get_spec (sp_symbol sp) = Some sp"
  unfolding get_spec_def by (rule find_distinct[OF _ distinct_registry(1)])

lemma get_spec_Some: "get_spec s = Some sp \<Longrightarrow> sp \<in> set registry \<and> sp_symbol sp = s"
  unfolding get_spec_def by (auto simp: find_Some_iff)

lemma normalize_variant:
  "sp \<in> set registry \<Longrightarrow> norm_key t = norm_key (sp_symbol sp) \<Longrightarrow> normalize_symbol t = sp_symbol sp"
  using find_distinct[OF _ distinct_registry(2), of sp]
  by (simp add: normalize_symbol_def)

lemma normalize_unknown:
  "norm_key t \<notin> norm_key ` sp_symbol ` set registry \<Longrightarrow> normalize_symbol t = t"
  by (auto simp: normalize_symbol_def find_None_iff image_iff split: option.split
           dest!: find_Some_iff[THEN iffD1] nth_mem)

lemma normalize_cases:
  obtains (known) sp where "sp \<in> set registry" "norm_key t = norm_key (sp_symbol sp)"
      "normalize_symbol t = sp_symbol sp"
  | (unknown) "norm_key t \<notin> norm_key ` sp_symbol ` set registry" "normalize_symbol t = t"
proof (cases "norm_key t \<in> norm_key ` sp_symbol ` set registry")
  case True
  then obtain sp where "sp \<in> set registry" "norm_key t = norm_key (sp_symbol sp)" by auto
  with normalize_variant[OF this] show thesis by (intro known)
next
  case False
  then show thesis using normalize_unknown by (intro unknown)
qed

lemma norm_key_normalize [simp]: "norm_key (normalize_symbol t) = norm_key t"
  by (rule normalize_cases[of t]) simp_all

lemma normalize_idem [simp]: "normalize_symbol (normalize_symbol t) = normalize_symbol t"
  by (rule normalize_cases[of t]) (simp_all add: normalize_variant normalize_unknown)

text \<open>
  C23. Symbols round-trip: every spelling of a registered symbol (any case, slashes
  anywhere) normalises to that symbol, whose specification is then found;
  two texts normalise to the same symbol only if they are spellings of each other;
  and normalising twice changes nothing.
\<close>

theorem normalize_symbol_roundtrip:
  "(\<forall>sp \<in> set registry. \<forall>t. norm_key t = norm_key (sp_symbol sp) \<longrightarrow>
      normalize_symbol t = sp_symbol sp \<and> get_spec (normalize_symbol t) = Some sp)
   \<and> (\<forall>s t. normalize_symbol s = normalize_symbol t \<longrightarrow> norm_key s = norm_key t)
   \<and> normalize_symbol (normalize_symbol u) = normalize_symbol u"
  by (auto simp: normalize_variant get_spec_registered) (metis norm_key_normalize)

theorem normalize_symbol_roundtrip_witness:
  "normalize_symbol ''eur/usd'' = ''EUR/USD'' \<and> get_spec (normalize_symbol ''btc/usd'') = Some spec_BTCUSD"
proof -
  note r = normalize_symbol_roundtrip[THEN conjunct1, rule_format]
  have m: "spec_EUR_USD \<in> set registry" "spec_BTCUSD \<in> set registry" by (simp_all add: registry_def)
  have s: "sp_symbol spec_EUR_USD = ''EUR/USD''" "sp_symbol spec_BTCUSD = ''BTCUSD''"
    by (simp_all add: spec_defs)
  have c: "norm_key ''eur/usd'' = norm_key ''EUR/USD''" "norm_key ''btc/usd'' = norm_key ''BTCUSD''"
    by code_simp+
  show ?thesis
    using r[OF m(1), of "''eur/usd''"] r[OF m(2), of "''btc/usd''"] c unfolding s by blast
qed

subsection \<open>Registered profiles\<close>

lemma not_less_fl: "x \<le> 1 \<Longrightarrow> 1 \<le> y \<Longrightarrow> \<not> y < fl x"
  using fl_le_1[of x] by linarith

lemma registry_profiles_ok:
  "list_all (\<lambda>sp. List.map_filter mapping_error (spec_mappings sp) = []
     \<and> profile_error (profile_of_spec sp) = None) registry"
  unfolding registry_def spec_defs
  by (simp only: list.pred_inject, intro conjI)
    (simp_all add: spec_mappings_def spec_candidates_def mapping_error_def map_filter_simps profile_error_def
      profile_of_spec_def positive_fields_def num_value_def not_le fl_sign not_less_fl)

lemma profile_of_registered:
  "sp \<in> set registry \<Longrightarrow> profile_from_symbol_spec sp = Inr (profile_of_spec sp)"
  using registry_profiles_ok
  by (simp add: profile_from_symbol_spec_def make_profile_def list_all_iff)

subsection \<open>\<open>Instrument\<close> rows to profile\<close>

text \<open>A row of the table \<open>Instrument\<close>: what the bridge reads of it.\<close>

record instrument_row =
  in_symbol :: string
  in_display_name :: string
  in_asset_class :: string
  in_base :: string
  in_quote :: string
  in_pip_size :: rat
  in_tick_size :: rat
  in_price_decimals :: int
  in_lot_step :: rat
  in_min_lot :: rat
  in_max_lot :: rat
  in_contract_size :: rat
  in_default_spread :: rat
  in_spread_unit :: string
  in_commission_per_lot :: rat
  in_commission_pct :: rat
  in_max_leverage :: int
  in_margin_mode :: string
  in_pnl_mode :: string
  in_trading_enabled :: bool
  in_session :: string
  in_provider :: string
  in_provider_symbol :: string

definition instrument_mapping :: "instrument_row \<Rightarrow> string \<Rightarrow> string \<Rightarrow> nat \<Rightarrow> symbol_mapping" where
  "instrument_mapping i pid t n =
     \<lparr>sm_canonical = normalize_symbol (in_symbol i), sm_provider = pid, sm_symbol = t,
      sm_enabled = in_trading_enabled i, sm_priority = n, sm_required = []\<rparr>"

definition provider_mapping_from_instrument :: "instrument_row \<Rightarrow> symbol_mapping list" where
  "provider_mapping_from_instrument i =
     (let pid = (if in_provider i = '''' then ''sim'' else in_provider i)
      in if pid = ''sim'' \<or> in_provider_symbol i = '''' then []
         else [instrument_mapping i pid (in_provider_symbol i) 0])"

definition KNOWN_SECONDARY_PROVIDERS :: "(string \<times> string \<times> string) list" where
  "KNOWN_SECONDARY_PROVIDERS =
     [(''BTCUSD'', ''kraken'', ''XBT/USD''), (''ETHUSD'', ''kraken'', ''ETH/USD'')]"

definition provider_mappings_for_instrument :: "instrument_row \<Rightarrow> symbol_mapping list" where
  "provider_mappings_for_instrument i =
     (let primary = provider_mapping_from_instrument i
      in case map_of KNOWN_SECONDARY_PROVIDERS (normalize_symbol (in_symbol i)) of
           None \<Rightarrow> primary
         | Some (pid, t) \<Rightarrow> primary @ [instrument_mapping i pid t (length primary)])"

text \<open>\<open>profile_from_instrument\<close> with the defaults of its keyword arguments.\<close>

definition profile_from_instrument :: "instrument_row \<Rightarrow> symbol_mapping list \<Rightarrow> profile_error + instrument_profile" where
  "profile_from_instrument i maps =
     make_profile
     \<lparr>ip_symbol = normalize_symbol (in_symbol i), ip_display_name = in_display_name i,
      ip_asset_class = in_asset_class i, ip_base = in_base i, ip_quote = in_quote i,
      ip_pip_size = fl (in_pip_size i), ip_tick_size = fl (in_tick_size i),
      ip_price_decimals = in_price_decimals i, ip_lot_step = fl (in_lot_step i),
      ip_min_lot = fl (in_min_lot i), ip_max_lot = fl (in_max_lot i),
      ip_contract_size = fl (in_contract_size i), ip_max_leverage = in_max_leverage i,
      ip_default_spread = fl (in_default_spread i), ip_spread_unit = in_spread_unit i,
      ip_commission_per_lot = fl (in_commission_per_lot i),
      ip_commission_pct = fl (in_commission_pct i), ip_margin_mode = in_margin_mode i,
      ip_pnl_mode = in_pnl_mode i, ip_enabled = in_trading_enabled i, ip_calendar = in_session i,
      ip_mappings = maps, ip_required = [BID_ASK], ip_simulation = True,
      ip_degraded_policy = CLOSE_ONLY\<rparr>"

subsection \<open>Drift between two profiles\<close>

datatype field_value =
  FText string | FNum rat | FFlag bool | FMappings "symbol_mapping list"
| FCaps "capability set" | FPolicy order_policy

text \<open>The compared fields in the order of their names, each with whether it is critical.\<close>

definition compared_fields :: "(string \<times> bool \<times> (instrument_profile \<Rightarrow> field_value)) list" where
  "compared_fields =
     [(''asset_class'', False, FText \<circ> ip_asset_class),
      (''base_currency'', False, FText \<circ> ip_base),
      (''commission_pct'', False, FNum \<circ> ip_commission_pct),
      (''commission_per_lot'', False, FNum \<circ> ip_commission_per_lot),
      (''contract_size'', True, FNum \<circ> ip_contract_size),
      (''default_order_policy_on_degradation'', False, FPolicy \<circ> ip_degraded_policy),
      (''default_spread'', False, FNum \<circ> ip_default_spread),
      (''display_name'', False, FText \<circ> ip_display_name),
      (''lot_step'', True, FNum \<circ> ip_lot_step),
      (''margin_mode'', True, FText \<circ> ip_margin_mode),
      (''max_leverage'', True, (\<lambda>p. FNum (of_int (ip_max_leverage p)))),
      (''max_lot'', True, FNum \<circ> ip_max_lot),
      (''min_lot'', True, FNum \<circ> ip_min_lot),
      (''pip_size'', True, FNum \<circ> ip_pip_size),
      (''pnl_mode'', True, FText \<circ> ip_pnl_mode),
      (''price_decimals'', False, (\<lambda>p. FNum (of_int (ip_price_decimals p)))),
      (''provider_mappings'', True, FMappings \<circ> ip_mappings),
      (''quote_currency'', False, FText \<circ> ip_quote),
      (''required_capabilities'', False, (\<lambda>p. FCaps (set (ip_required p)))),
      (''simulation_allowed'', False, FFlag \<circ> ip_simulation),
      (''spread_unit'', False, FText \<circ> ip_spread_unit),
      (''tick_size'', True, FNum \<circ> ip_tick_size),
      (''trading_calendar_id'', False, FText \<circ> ip_calendar),
      (''trading_enabled'', True, FFlag \<circ> ip_enabled)]"

definition mapping_identity :: "symbol_mapping \<Rightarrow> string \<times> string \<times> bool" where
  "mapping_identity m = (sm_provider m, sm_symbol m, sm_enabled m)"

definition values_equal :: "field_value \<Rightarrow> field_value \<Rightarrow> bool" where
  "values_equal a b =
     (case (a, b) of
        (FMappings x, FMappings y) \<Rightarrow> mapping_identity ` set x = mapping_identity ` set y
      | (FNum x, FNum y) \<Rightarrow> \<bar>fl (fl x - fl y)\<bar> < fl (1 / 1000000000)
      | _ \<Rightarrow> a = b)"

record field_difference =
  fd_field :: string
  fd_runtime :: field_value
  fd_db :: field_value
  fd_critical :: bool

record drift_report =
  dr_symbol :: string
  dr_matches :: "string list"
  dr_differences :: "field_difference list"
  dr_critical :: "field_difference list"
  dr_warning :: "field_difference list"

definition has_drift :: "drift_report \<Rightarrow> bool" where
  "has_drift r \<longleftrightarrow> dr_differences r \<noteq> []"

fun compare_loop ::
  "instrument_profile \<Rightarrow> instrument_profile \<Rightarrow> (string \<times> bool \<times> (instrument_profile \<Rightarrow> field_value)) list
   \<Rightarrow> string list \<times> field_difference list" where
  "compare_loop p q [] = ([], [])"
| "compare_loop p q ((f, crit, get) # fs) =
     (let (ms, ds) = compare_loop p q fs
      in if values_equal (get p) (get q) then (f # ms, ds)
         else (ms, \<lparr>fd_field = f, fd_runtime = get p, fd_db = get q, fd_critical = crit\<rparr> # ds))"

definition compare_profiles :: "instrument_profile \<Rightarrow> instrument_profile \<Rightarrow> profile_error + drift_report" where
  "compare_profiles p q =
     (if ip_symbol p \<noteq> ip_symbol q then Inl DifferentSymbols
      else let (ms, ds) = compare_loop p q compared_fields
           in Inr \<lparr>dr_symbol = ip_symbol p, dr_matches = ms, dr_differences = ds,
                   dr_critical = filter fd_critical ds,
                   dr_warning = filter (\<lambda>d. \<not> fd_critical d) ds\<rparr>)"

text \<open>\<open>market_data/catalog/service.py\<close>: the registry answers as the catalogue.\<close>

definition get_runtime_instrument :: "string \<Rightarrow> profile_error + instrument_profile" where
  "get_runtime_instrument s =
     (case get_spec s of None \<Rightarrow> Inl UnknownSymbol | Some sp \<Rightarrow> profile_from_symbol_spec sp)"

definition compare_runtime_instrument :: "string \<Rightarrow> instrument_profile \<Rightarrow> profile_error + drift_report" where
  "compare_runtime_instrument s q =
     (case get_runtime_instrument s of Inl e \<Rightarrow> Inl e | Inr p \<Rightarrow> compare_profiles p q)"

lemma values_equal_refl [simp]: "values_equal a a"
  by (cases a) (auto simp: values_equal_def fl_pos)

lemma values_equal_comm: "values_equal a b = values_equal b a"
proof -
  have "\<bar>fl (fl x - fl y)\<bar> = \<bar>fl (fl y - fl x)\<bar>" for x y
    using flt.minus[of "fl x - fl y"] by simp
  then show ?thesis by (cases a; cases b) (auto simp: values_equal_def)
qed

lemma compare_loop_fields:
  "map fd_field (snd (compare_loop p q fs)) = map fst (filter (\<lambda>(f, c, g). \<not> values_equal (g p) (g q)) fs)"
  "fst (compare_loop p q fs) = map fst (filter (\<lambda>(f, c, g). values_equal (g p) (g q)) fs)"
  by (induction fs) (auto simp: Let_def split: prod.splits)

lemma compare_loop_self: "snd (compare_loop p p fs) = []"
  by (induction fs) (auto simp: Let_def split: prod.splits)

definition drift_fields :: "profile_error + drift_report \<Rightarrow> string list" where
  "drift_fields r = (case r of Inl _ \<Rightarrow> [] | Inr d \<Rightarrow> map fd_field (dr_differences d))"

text \<open>
  The drift report is complete and symmetric: every registered symbol has a valid
  profile that shows no drift against itself; comparing two profiles of one symbol puts every
  compared field either among the matches or among the differences, each difference is either
  critical or a warning, and comparing in the other direction finds the same fields.
\<close>

theorem drift_report_complete:
  "(\<forall>sp \<in> set registry. get_runtime_instrument (sp_symbol sp) = Inr (profile_of_spec sp)
      \<and> drift_fields (compare_runtime_instrument (sp_symbol sp) (profile_of_spec sp)) = [])
   \<and> (\<forall>p q r. compare_profiles p q = Inr r \<longrightarrow>
        set (dr_matches r) \<union> set (map fd_field (dr_differences r)) = set (map fst compared_fields)
        \<and> length (dr_matches r) + length (dr_differences r) = length compared_fields
        \<and> length (dr_critical r) + length (dr_warning r) = length (dr_differences r))
   \<and> (\<forall>p q. drift_fields (compare_profiles p q) = drift_fields (compare_profiles q p))"
proof (intro conjI ballI allI impI)
  fix sp assume sp: "sp \<in> set registry"
  show "get_runtime_instrument (sp_symbol sp) = Inr (profile_of_spec sp)"
    using sp by (simp add: get_runtime_instrument_def get_spec_registered profile_of_registered)
  then show "drift_fields (compare_runtime_instrument (sp_symbol sp) (profile_of_spec sp)) = []"
    using compare_loop_self[of "profile_of_spec sp" compared_fields]
    by (auto simp: compare_runtime_instrument_def compare_profiles_def drift_fields_def split: prod.split)
next
  fix p q r assume "compare_profiles p q = Inr r"
  then obtain ms ds where l: "compare_loop p q compared_fields = (ms, ds)"
    and r: "dr_matches r = ms" "dr_differences r = ds" "dr_critical r = filter fd_critical ds"
      "dr_warning r = filter (\<lambda>d. \<not> fd_critical d) ds"
    by (auto simp: compare_profiles_def split: if_splits prod.splits)
  have ms: "ms = map fst (filter (\<lambda>(f, c, g). values_equal (g p) (g q)) compared_fields)"
    using compare_loop_fields(2)[of p q compared_fields] l by simp
  have ds: "map fd_field ds = map fst (filter (\<lambda>(f, c, g). \<not> values_equal (g p) (g q)) compared_fields)"
    using compare_loop_fields(1)[of p q compared_fields] l by simp
  show "set (dr_matches r) \<union> set (map fd_field (dr_differences r)) = set (map fst compared_fields)"
    unfolding r ms ds by (auto simp: image_iff)
  have "length ms = length (filter (\<lambda>(f, c, g). values_equal (g p) (g q)) compared_fields)"
    using ms by simp
  moreover have "length ds = length (filter (\<lambda>x. \<not> (case x of (f, c, g) \<Rightarrow> values_equal (g p) (g q))) compared_fields)"
    using arg_cong[OF ds, of length] by (simp add: case_prod_unfold)
  ultimately show "length (dr_matches r) + length (dr_differences r) = length compared_fields"
    unfolding r by (simp only: sum_length_filter_compl)
  show "length (dr_critical r) + length (dr_warning r) = length (dr_differences r)"
    unfolding r by (rule sum_length_filter_compl)
next
  fix p q
  have "map fd_field (snd (compare_loop p q compared_fields)) = map fd_field (snd (compare_loop q p compared_fields))"
    unfolding compare_loop_fields by (simp add: values_equal_comm)
  then show "drift_fields (compare_profiles p q) = drift_fields (compare_profiles q p)"
    by (auto simp: drift_fields_def compare_profiles_def split: prod.split)
qed

theorem drift_report_complete_witness:
  "drift_fields (compare_runtime_instrument ''US30'' (profile_of_spec spec_US30)) = []"
proof -
  have "spec_US30 \<in> set registry" by (simp add: registry_def)
  moreover have "sp_symbol spec_US30 = ''US30''" by (simp add: spec_defs)
  ultimately show ?thesis
    using drift_report_complete[THEN conjunct1, rule_format, of spec_US30] by simp
qed

end
