(* ===== verification/PnlEngine.thy ===== *)
theory PnlEngine
  imports Instruments
begin

section \<open>Profit, loss and margin in the account's currency (\<open>simulator/pnl_engine.py\<close>)\<close>

text \<open>
  A profit or a notional is computed in the instrument's quote currency and then
  converted: not at all, by dividing by the instrument's own price, or by an
  explicit rate. Each \<open>Decimal\<close> operation rounds to the default context
  (\<open>dec_ctx\<close>); \<open>None\<close> in the place of a value is an argument that is no number.
  A result carries either a converted amount or an error code.
\<close>

subsection \<open>Results\<close>

datatype conversion_mode =
  NO_CONVERSION | BASE_ACCOUNT_INVERSE | EXPLICIT_RATE | UNSUPPORTED_CONVERSION

datatype pnl_error = NO_CONVERSION_RATE | INVALID_PNL_INPUT

record pnl_result =
  pr_quote_amount :: rat
  pr_quote_currency :: string
  pr_account_amount :: "rat option"
  pr_account_currency :: string
  pr_mode :: conversion_mode
  pr_rate :: "rat option"
  pr_rate_symbol :: "string option"
  pr_converted :: bool
  pr_error :: "pnl_error option"

definition unconverted :: "rat \<Rightarrow> string \<Rightarrow> string \<Rightarrow> string option \<Rightarrow> pnl_error \<Rightarrow> pnl_result" where
  "unconverted amount quote acc tag e =
     \<lparr>pr_quote_amount = amount, pr_quote_currency = quote, pr_account_amount = None,
      pr_account_currency = acc, pr_mode = UNSUPPORTED_CONVERSION, pr_rate = None,
      pr_rate_symbol = tag, pr_converted = False, pr_error = Some e\<rparr>"

definition converted ::
  "rat \<Rightarrow> string \<Rightarrow> rat \<Rightarrow> string \<Rightarrow> conversion_mode \<Rightarrow> rat \<Rightarrow> string option \<Rightarrow> pnl_result" where
  "converted amount quote result acc mode rate tag =
     \<lparr>pr_quote_amount = amount, pr_quote_currency = quote, pr_account_amount = Some result,
      pr_account_currency = acc, pr_mode = mode, pr_rate = Some rate,
      pr_rate_symbol = tag, pr_converted = True, pr_error = None\<rparr>"

subsection \<open>Operations\<close>

text \<open>\<open>str(side).strip().lower() == "buy"\<close>.\<close>

definition is_buy :: "string \<Rightarrow> bool" where
  "is_buy side \<longleftrightarrow> lower (py_strip side) = ''buy''"

definition dec_mult :: "rat \<Rightarrow> rat \<Rightarrow> rat" where
  "dec_mult x y = dec_ctx (x * y)"

definition calculate_quote_pnl :: "string \<Rightarrow> pynum \<Rightarrow> pynum \<Rightarrow> pynum \<Rightarrow> pynum \<Rightarrow> rat" where
  "calculate_quote_pnl side entry close qty cs =
     (case (to_decimal entry, to_decimal close, to_decimal qty, to_decimal cs) of
        (Some e, Some c, Some q, Some n) \<Rightarrow>
          (let diff = (if is_buy side then dec_ctx (c - e) else dec_ctx (e - c))
           in dec_mult (dec_mult diff q) n)
      | _ \<Rightarrow> 0)"

text \<open>
  A rate is usable when it is a number other than zero. \<open>try_pairs\<close> is the loop over the
  two spellings of the cross pair; a rate that is no number is skipped.
\<close>

definition usable_rate :: "pynum \<Rightarrow> rat option" where
  "usable_rate v = (case to_decimal v of None \<Rightarrow> None | Some r \<Rightarrow> if r = 0 then None else Some r)"

definition pair_text :: "string \<Rightarrow> string \<Rightarrow> string" where
  "pair_text a b = a @ CHR ''/'' # b"

definition try_pair ::
  "rat \<Rightarrow> string \<Rightarrow> string \<Rightarrow> (string \<Rightarrow> pynum option) \<Rightarrow> string \<Rightarrow> pnl_result option" where
  "try_pair amount quote acc prices pair =
     (case prices pair of None \<Rightarrow> None
      | Some v \<Rightarrow> (case usable_rate v of None \<Rightarrow> None
         | Some r \<Rightarrow> Some (converted amount quote
             (if starts_with quote pair then dec_mult amount r else dec_ctx (amount / r))
             acc EXPLICIT_RATE r (Some pair))))"

definition convert_pnl_to_account_currency ::
  "pynum \<Rightarrow> string \<Rightarrow> string \<Rightarrow> string \<Rightarrow> (string \<Rightarrow> pynum option) \<Rightarrow> string option \<Rightarrow> pnl_result" where
  "convert_pnl_to_account_currency pnl base quote acc prices tag =
     (case to_decimal pnl of
        None \<Rightarrow> unconverted 0 quote acc tag INVALID_PNL_INPUT
      | Some amount \<Rightarrow>
          if quote = acc then converted amount quote amount acc NO_CONVERSION 1 None
          else if base = acc then
            (case (case tag of None \<Rightarrow> None | Some t \<Rightarrow> if t = '''' then None else prices t) of
               None \<Rightarrow> unconverted amount quote acc tag NO_CONVERSION_RATE
             | Some v \<Rightarrow>
                 (case usable_rate v of
                    None \<Rightarrow> unconverted amount quote acc tag NO_CONVERSION_RATE
                  | Some r \<Rightarrow> converted amount quote (dec_ctx (amount / r)) acc
                                BASE_ACCOUNT_INVERSE r tag))
          else (case try_pair amount quote acc prices (pair_text quote acc) of
                  Some res \<Rightarrow> res
                | None \<Rightarrow>
                   (case try_pair amount quote acc prices (pair_text acc quote) of
                      Some res \<Rightarrow> res
                    | None \<Rightarrow> unconverted amount quote acc None NO_CONVERSION_RATE)))"

definition invalid_result :: "string \<Rightarrow> pnl_result" where
  "invalid_result acc = unconverted 0 '''' acc None INVALID_PNL_INPUT"

definition calculate_position_pnl ::
  "string \<Rightarrow> pynum \<Rightarrow> pynum \<Rightarrow> pynum \<Rightarrow> string \<Rightarrow> string \<Rightarrow> pnl_result" where
  "calculate_position_pnl side entry close qty symbol acc =
     (let canonical = normalize_symbol symbol
      in case get_spec canonical of None \<Rightarrow> invalid_result acc
       | Some sp \<Rightarrow> (case profile_from_symbol_spec sp of Inl _ \<Rightarrow> invalid_result acc
          | Inr p \<Rightarrow>
             convert_pnl_to_account_currency
               (PyDecimal (calculate_quote_pnl side entry close qty (sp_contract_size sp)))
               (ip_base p) (ip_quote p) acc [canonical \<mapsto> close] (Some canonical)))"

definition position_pnl_float ::
  "string \<Rightarrow> pynum \<Rightarrow> pynum \<Rightarrow> pynum \<Rightarrow> string \<Rightarrow> string \<Rightarrow> rat" where
  "position_pnl_float side entry close qty symbol acc =
     (let r = calculate_position_pnl side entry close qty symbol acc
      in if \<not> pr_converted r then 0
         else case pr_account_amount r of None \<Rightarrow> 0 | Some x \<Rightarrow> fl x)"

text \<open>
  \<open>MarginNotionalResult\<close> carries the fields of \<open>pnl_result\<close> under other names and is
  that record here.
\<close>

definition calculate_margin_notional_account_currency ::
  "string \<Rightarrow> pynum \<Rightarrow> pynum \<Rightarrow> string \<Rightarrow> pnl_result" where
  "calculate_margin_notional_account_currency symbol price qty acc =
     (let canonical = normalize_symbol symbol
      in case get_spec canonical of None \<Rightarrow> invalid_result acc
       | Some sp \<Rightarrow> (case profile_from_symbol_spec sp of Inl _ \<Rightarrow> invalid_result acc
          | Inr p \<Rightarrow>
             (case (to_decimal price, to_decimal qty, to_decimal (sp_contract_size sp)) of
                (Some pd, Some q, Some cs) \<Rightarrow>
                  convert_pnl_to_account_currency
                    (PyDecimal \<bar>dec_mult (dec_mult pd q) cs\<bar>)
                    (ip_base p) (ip_quote p) acc [canonical \<mapsto> price] (Some canonical)
              | _ \<Rightarrow> invalid_result acc)))"

definition calculate_required_margin ::
  "string \<Rightarrow> pynum \<Rightarrow> pynum \<Rightarrow> int \<Rightarrow> string \<Rightarrow> pnl_error + rat" where
  "calculate_required_margin symbol price qty lev acc =
     (let r = calculate_margin_notional_account_currency symbol price qty acc
      in case (if pr_converted r then pr_account_amount r else None) of
           None \<Rightarrow> Inl (case pr_error r of Some e \<Rightarrow> e | None \<Rightarrow> NO_CONVERSION_RATE)
         | Some x \<Rightarrow> Inr (fl (dec_ctx (\<bar>x\<bar> / of_int (max 1 lev)))))"

subsection \<open>Quote currency\<close>

lemma quote_pnl_eq:
  assumes "to_decimal entry = Some e" "to_decimal close = Some c" "to_decimal qty = Some q"
    "to_decimal cs = Some n"
  shows "calculate_quote_pnl side entry close qty cs =
    dec_mult (dec_mult (dec_ctx (if is_buy side then c - e else e - c)) q) n"
  using assms by (simp add: calculate_quote_pnl_def Let_def)

lemma dec_mult_minus: "dec_mult (- x) y = - dec_mult x y"
  by (simp add: dec_mult_def dctx.minus)

lemma dec_mult_sign:
  assumes "0 < y"
  shows "0 < dec_mult x y \<longleftrightarrow> 0 < x" "dec_mult x y = 0 \<longleftrightarrow> x = 0"
  using assms by (simp_all add: dec_mult_def dec_ctx_sign zero_less_mult_iff)

lemma dec_mult_mono: "x \<le> x' \<Longrightarrow> 0 \<le> y \<Longrightarrow> dec_mult x y \<le> dec_mult x' y"
  unfolding dec_mult_def by (intro dctx.mono mult_right_mono)

lemma quote_pnl_sign:
  assumes "to_decimal entry = Some e" "to_decimal close = Some c" "to_decimal qty = Some q"
    "to_decimal cs = Some n" "0 < q" "0 < n"
  shows "0 < calculate_quote_pnl side entry close qty cs \<longleftrightarrow> (if is_buy side then e < c else c < e)"
    and "calculate_quote_pnl side entry close qty cs = 0 \<longleftrightarrow> e = c"
  by (auto simp: quote_pnl_eq[OF assms(1-4)] dec_mult_sign[OF assms(5)] dec_mult_sign[OF assms(6)]
        dec_ctx_sign)

text \<open>
  A position earns exactly when the price moved in its favour: for numeric arguments
  with positive quantity and contract size, a buy has a profit iff the close is above the entry, a
  sell iff it is below, and the result is zero only at the entry price; the two sides of a
  trade are exact opposites, and a buy earns at least as much at a higher close. The
  28-digit rounding of the three \<open>Decimal\<close> operations breaks none of this.
\<close>

theorem quote_pnl_follows_price:
  assumes "to_decimal entry = Some e" "to_decimal close = Some c" "to_decimal qty = Some q"
    "to_decimal cs = Some n" "0 < q" "0 < n"
    and "is_buy buyer" "\<not> is_buy seller" "to_decimal close' = Some c'" "c \<le> c'"
  shows "(0 < calculate_quote_pnl buyer entry close qty cs \<longleftrightarrow> e < c)
    \<and> (0 < calculate_quote_pnl seller entry close qty cs \<longleftrightarrow> c < e)
    \<and> (calculate_quote_pnl buyer entry close qty cs = 0 \<longleftrightarrow> e = c)
    \<and> calculate_quote_pnl seller entry close qty cs = - calculate_quote_pnl buyer entry close qty cs
    \<and> calculate_quote_pnl buyer entry close qty cs \<le> calculate_quote_pnl buyer entry close' qty cs"
proof -
  have "dec_ctx (e - c) = - dec_ctx (c - e)" using dctx.minus[of "c - e"] by simp
  then have opp: "calculate_quote_pnl seller entry close qty cs = - calculate_quote_pnl buyer entry close qty cs"
    using assms by (simp add: quote_pnl_eq dec_mult_minus)
  have "dec_ctx (c - e) \<le> dec_ctx (c' - e)" using assms(10) by (intro dctx.mono) simp
  then have mono: "calculate_quote_pnl buyer entry close qty cs \<le> calculate_quote_pnl buyer entry close' qty cs"
    using assms by (simp add: quote_pnl_eq dec_mult_mono)
  show ?thesis
    using quote_pnl_sign[OF assms(1-6), of buyer] quote_pnl_sign[OF assms(1-6), of seller] assms(7,8) opp mono
    by auto
qed

theorem quote_pnl_follows_price_witness:
  "0 < calculate_quote_pnl '' BUY '' (PyDecimal 100) (PyInt 101) (PyDecimal (1 / 2)) (PyInt 100000)
   \<and> calculate_quote_pnl ''SELL'' (PyDecimal 100) (PyInt 101) (PyDecimal (1 / 2)) (PyInt 100000) < 0"
proof -
  have "is_buy '' BUY ''" "\<not> is_buy ''SELL''" by code_simp+
  then show ?thesis
    using quote_pnl_follows_price[of "PyDecimal 100" 100 "PyInt 101" 101 "PyDecimal (1 / 2)" "1 / 2"
        "PyInt 100000" 100000 "'' BUY ''" "''SELL''" "PyInt 102" 102] by simp
qed

subsection \<open>Conversion\<close>

definition result_ok :: "pnl_result \<Rightarrow> bool" where
  "result_ok r \<longleftrightarrow> (pr_converted r \<longleftrightarrow> pr_account_amount r \<noteq> None)
     \<and> (pr_converted r \<longleftrightarrow> pr_error r = None)
     \<and> (pr_converted r \<longleftrightarrow> pr_mode r \<noteq> UNSUPPORTED_CONVERSION)
     \<and> (pr_converted r \<longleftrightarrow> (\<exists>x. pr_rate r = Some x \<and> x \<noteq> 0))"

lemma result_ok_cases [simp]:
  "result_ok (unconverted a q c t e)"
  "m \<noteq> UNSUPPORTED_CONVERSION \<Longrightarrow> x \<noteq> 0 \<Longrightarrow> result_ok (converted a q r c m x t)"
  by (simp_all add: result_ok_def unconverted_def converted_def)

lemma usable_rate_nonzero: "usable_rate v = Some r \<Longrightarrow> r \<noteq> 0"
  by (auto simp: usable_rate_def split: option.splits if_splits)

lemma try_pair_ok: "try_pair a q c prices p = Some r \<Longrightarrow> result_ok r"
  by (auto simp: try_pair_def usable_rate_nonzero split: option.splits)

lemma convert_ok: "result_ok (convert_pnl_to_account_currency pnl base quote acc prices tag)"
  unfolding convert_pnl_to_account_currency_def
  by (auto simp: usable_rate_nonzero try_pair_ok split: option.split)

text \<open>
  A result is never a fabricated number: whatever the arguments, the result of the
  conversion, of the profit and of the margin notional says it is converted exactly when it
  carries an amount, exactly when it carries no error, and exactly when it names a conversion
  mode and a rate other than zero; and an amount already in the account's currency is returned unchanged.
\<close>

theorem conversion_results_consistent:
  "result_ok (convert_pnl_to_account_currency pnl base quote acc prices tag)
   \<and> result_ok (calculate_position_pnl side entry close qty symbol acc)
   \<and> result_ok (calculate_margin_notional_account_currency symbol price qty acc)
   \<and> pr_account_amount (convert_pnl_to_account_currency (PyDecimal x) base acc acc prices tag) = Some x"
  by (auto simp: convert_ok calculate_position_pnl_def calculate_margin_notional_account_currency_def
        invalid_result_def Let_def convert_pnl_to_account_currency_def[of "PyDecimal x"] converted_def
      split: option.split sum.split)

subsection \<open>Registered instruments and dollar accounts\<close>

definition dollar_convertible :: "symbol_spec \<Rightarrow> bool" where
  "dollar_convertible sp \<longleftrightarrow>
     (sp_quote_currency sp = ''USD'' \<or> derive_base_currency (sp_symbol sp) (sp_quote_currency sp) = ''USD'')
     \<and> (case to_decimal (sp_contract_size sp) of None \<Rightarrow> False | Some n \<Rightarrow> 0 < n)
     \<and> sp_symbol sp \<noteq> ''''"

lemma registry_dollar_convertible: "list_all dollar_convertible registry"
  unfolding registry_def spec_defs
  by (simp only: list.pred_inject, intro conjI)
    (simp_all add: dollar_convertible_def derive_base_currency_def)

lemma registered:
  assumes "sp \<in> set registry"
  shows registered_contract: "\<exists>n. to_decimal (sp_contract_size sp) = Some n \<and> 0 < n"
    and registered_symbol: "sp_symbol sp \<noteq> ''''"
    and registered_base: "sp_quote_currency sp = ''USD''
      \<or> derive_base_currency (sp_symbol sp) (sp_quote_currency sp) = ''USD''"
  using registry_dollar_convertible assms
  by (auto simp: list_all_iff dollar_convertible_def split: option.splits)

lemma convert_to_dollars:
  assumes "quote = ''USD'' \<or> base = ''USD''" "tag \<noteq> ''''" "to_decimal price = Some c" "c \<noteq> 0"
  shows "convert_pnl_to_account_currency (PyDecimal x) base quote ''USD'' [tag \<mapsto> price] (Some tag) =
    (if quote = ''USD'' then converted x quote x ''USD'' NO_CONVERSION 1 None
     else converted x quote (dec_ctx (x / c)) ''USD'' BASE_ACCOUNT_INVERSE c (Some tag))"
  using assms by (auto simp: convert_pnl_to_account_currency_def usable_rate_def)

definition in_dollars :: "symbol_spec \<Rightarrow> rat \<Rightarrow> rat \<Rightarrow> rat" where
  "in_dollars sp price x = (if sp_quote_currency sp = ''USD'' then x else dec_ctx (x / price))"

lemma in_dollars_sign: "0 < c \<Longrightarrow> 0 < in_dollars sp c x \<longleftrightarrow> 0 < x" "0 < c \<Longrightarrow> in_dollars sp c x = 0 \<longleftrightarrow> x = 0"
  "0 < c \<Longrightarrow> 0 \<le> x \<Longrightarrow> 0 \<le> in_dollars sp c x"
  by (auto simp: in_dollars_def dec_ctx_sign zero_less_divide_iff intro!: dctx.nonneg)

lemma position_pnl_dollars:
  fixes side :: string and entry qty :: pynum
  assumes sp: "sp \<in> set registry" and s: "norm_key symbol = norm_key (sp_symbol sp)"
    and c: "to_decimal close = Some c" "c \<noteq> 0"
  defines "q \<equiv> calculate_quote_pnl side entry close qty (sp_contract_size sp)"
  shows "pr_converted (calculate_position_pnl side entry close qty symbol ''USD'')"
    and "pr_account_amount (calculate_position_pnl side entry close qty symbol ''USD'') = Some (in_dollars sp c q)"
proof -
  note r = registered_symbol[OF sp] registered_base[OF sp]
  have "calculate_position_pnl side entry close qty symbol ''USD'' =
    convert_pnl_to_account_currency (PyDecimal q) (ip_base (profile_of_spec sp)) (ip_quote (profile_of_spec sp))
      ''USD'' [sp_symbol sp \<mapsto> close] (Some (sp_symbol sp))"
    using sp by (simp add: calculate_position_pnl_def normalize_variant[OF sp s] get_spec_registered
        profile_of_registered q_def Let_def)
  also have "\<dots> = (if sp_quote_currency sp = ''USD'' then converted q (sp_quote_currency sp) q ''USD'' NO_CONVERSION 1 None
     else converted q (sp_quote_currency sp) (dec_ctx (q / c)) ''USD'' BASE_ACCOUNT_INVERSE c (Some (sp_symbol sp)))"
    using r(2) by (subst convert_to_dollars[OF _ r(1) c]) (auto simp: profile_of_spec_def)
  finally show "pr_converted (calculate_position_pnl side entry close qty symbol ''USD'')"
    and "pr_account_amount (calculate_position_pnl side entry close qty symbol ''USD'') = Some (in_dollars sp c q)"
    by (auto simp: converted_def in_dollars_def)
qed

text \<open>
  C24. No registered instrument ever falls into the silent zero of \<open>position_pnl_float\<close>: for
  every specification, every spelling of its symbol, a dollar account, numeric prices and
  quantity with a positive close and quantity, the result is converted, the float returned
  is the rounding of the converted amount, and it is positive, negative or zero exactly as the price moved
  for or against the position.
\<close>

theorem position_pnl_never_silently_zero:
  assumes "sp \<in> set registry" "norm_key symbol = norm_key (sp_symbol sp)"
    and "to_decimal entry = Some e" "to_decimal close = Some c" "to_decimal qty = Some q" "0 < c" "0 < q"
  shows "pr_converted (calculate_position_pnl side entry close qty symbol ''USD'')
    \<and> (0 < position_pnl_float side entry close qty symbol ''USD'' \<longleftrightarrow> (if is_buy side then e < c else c < e))
    \<and> (position_pnl_float side entry close qty symbol ''USD'' = 0 \<longleftrightarrow> e = c)"
proof -
  obtain n where n: "to_decimal (sp_contract_size sp) = Some n" "0 < n"
    using registered_contract[OF assms(1)] by blast
  have "c \<noteq> 0" using assms(6) by simp
  note p = position_pnl_dollars[OF assms(1,2,4) this, of side entry qty]
  note s = quote_pnl_sign[OF assms(3-5) n(1) assms(7) n(2), of side]
  show ?thesis
    using p s assms(6) by (simp add: position_pnl_float_def Let_def fl_sign in_dollars_sign)
qed

theorem position_pnl_never_silently_zero_witness:
  "0 < position_pnl_float ''buy'' (PyInt 150) (PyInt 155) (PyInt 1) ''usdjpy'' ''USD''"
proof -
  have "spec_USD_JPY \<in> set registry" by (simp add: registry_def)
  moreover have "norm_key ''usdjpy'' = norm_key (sp_symbol spec_USD_JPY)"
    by (simp add: spec_defs) code_simp
  moreover have "is_buy ''buy''" by code_simp
  ultimately show ?thesis
    using position_pnl_never_silently_zero[of spec_USD_JPY "''usdjpy''" "PyInt 150" 150 "PyInt 155" 155 "PyInt 1" 1 "''buy''"]
    by simp
qed

subsection \<open>Margin\<close>

lemma margin_notional_dollars:
  assumes sp: "sp \<in> set registry" and s: "norm_key symbol = norm_key (sp_symbol sp)"
    and a: "to_decimal price = Some c" "c \<noteq> 0" "to_decimal qty = Some q"
    and n: "to_decimal (sp_contract_size sp) = Some n"
  defines "m \<equiv> \<bar>dec_mult (dec_mult c q) n\<bar>"
  shows "pr_converted (calculate_margin_notional_account_currency symbol price qty ''USD'')"
    and "pr_account_amount (calculate_margin_notional_account_currency symbol price qty ''USD'') = Some (in_dollars sp c m)"
proof -
  note r = registered_symbol[OF sp] registered_base[OF sp]
  have "calculate_margin_notional_account_currency symbol price qty ''USD'' =
    convert_pnl_to_account_currency (PyDecimal m) (ip_base (profile_of_spec sp)) (ip_quote (profile_of_spec sp))
      ''USD'' [sp_symbol sp \<mapsto> price] (Some (sp_symbol sp))"
    using sp a n by (simp add: calculate_margin_notional_account_currency_def normalize_variant[OF sp s]
        get_spec_registered profile_of_registered m_def Let_def)
  also have "\<dots> = (if sp_quote_currency sp = ''USD'' then converted m (sp_quote_currency sp) m ''USD'' NO_CONVERSION 1 None
     else converted m (sp_quote_currency sp) (dec_ctx (m / c)) ''USD'' BASE_ACCOUNT_INVERSE c (Some (sp_symbol sp)))"
    using r(2) by (subst convert_to_dollars[OF _ r(1) a(1,2)]) (auto simp: profile_of_spec_def)
  finally show "pr_converted (calculate_margin_notional_account_currency symbol price qty ''USD'')"
    and "pr_account_amount (calculate_margin_notional_account_currency symbol price qty ''USD'') = Some (in_dollars sp c m)"
    by (auto simp: converted_def in_dollars_def)
qed

text \<open>A value with at most 28 significant digits: the context leaves it unchanged.\<close>

abbreviation dec_exact :: "rat \<Rightarrow> bool" where
  "dec_exact x \<equiv> dec_ctx x = x"

text \<open>
  C25. Required margin is fail-closed and currency-aware: for every registered instrument
  and a dollar account with numeric positive price and quantity, a margin is always found and is
  positive; more leverage never requires more of it, and a leverage below 1 counts as 1; and
  for an instrument quoted in another currency (base USD) whose product of price, quantity and contract size fits in 28
  digits, it is quantity times contract size over leverage, whatever the price.
\<close>

theorem required_margin_behaviour:
  assumes "sp \<in> set registry" "norm_key symbol = norm_key (sp_symbol sp)"
    and "to_decimal price = Some c" "to_decimal qty = Some q" "0 < c" "0 < q" "lev \<le> lev'"
    and "to_decimal (sp_contract_size sp) = Some n"
  shows "\<exists>m m'. calculate_required_margin symbol price qty lev ''USD'' = Inr m
    \<and> calculate_required_margin symbol price qty lev' ''USD'' = Inr m'
    \<and> 0 < m' \<and> m' \<le> m
    \<and> (lev' \<le> 1 \<longrightarrow> m = m')
    \<and> (sp_quote_currency sp \<noteq> ''USD'' \<and> dec_exact (c * q) \<and> dec_exact (c * q * n) \<and> dec_exact (q * n)
        \<longrightarrow> m = fl (dec_ctx (q * n / of_int (max 1 lev))))"
proof -
  let ?N = "\<bar>dec_mult (dec_mult c q) n\<bar>"
  let ?m = "\<lambda>l. fl (dec_ctx (\<bar>in_dollars sp c ?N\<bar> / of_int (max 1 l)))"
  obtain n' where "to_decimal (sp_contract_size sp) = Some n'" "0 < n'" using registered_contract[OF assms(1)] by blast
  then have n: "0 < n" using assms(8) by simp
  have c: "c \<noteq> 0" using assms(5) by simp
  note p = margin_notional_dollars[OF assms(1,2,3) c assms(4) assms(8)]
  have m: "calculate_required_margin symbol price qty l ''USD'' = Inr (?m l)" for l
    using p by (simp add: calculate_required_margin_def Let_def)
  have "?N \<noteq> 0" using assms(5,6) n by (simp add: dec_mult_sign dec_mult_def dec_ctx_sign)
  then have pos: "0 < \<bar>in_dollars sp c ?N\<bar>" using in_dollars_sign(2)[OF assms(5)] by simp
  have "0 < ?m lev'" using pos by (simp add: fl_sign dec_ctx_sign zero_less_divide_iff)
  moreover have "?m lev' \<le> ?m lev"
    using pos assms(7) by (intro flt.mono dctx.mono divide_left_mono mult_pos_pos) auto
  moreover have "lev' \<le> 1 \<longrightarrow> ?m lev = ?m lev'" using assms(7) by auto
  moreover have "\<bar>in_dollars sp c ?N\<bar> = q * n"
    if "sp_quote_currency sp \<noteq> ''USD''" "dec_exact (c * q)" "dec_exact (c * q * n)" "dec_exact (q * n)"
  proof -
    have "?N = c * q * n" using that assms(5,6) n by (simp add: dec_mult_def)
    then show ?thesis using that assms(5,6) n by (simp add: in_dollars_def field_simps)
  qed
  ultimately show ?thesis using m by auto
qed

theorem required_margin_behaviour_witness:
  "\<exists>m. calculate_required_margin ''USDJPY'' (PyInt 155) (PyInt 1) 100 ''USD'' = Inr m \<and> 0 < m"
proof -
  have "spec_USD_JPY \<in> set registry" by (simp add: registry_def)
  moreover have "norm_key ''USDJPY'' = norm_key (sp_symbol spec_USD_JPY)"
    by (simp add: spec_defs) code_simp
  moreover have "to_decimal (sp_contract_size spec_USD_JPY) = Some 100000" by (simp add: spec_defs)
  ultimately show ?thesis
    using required_margin_behaviour[of spec_USD_JPY "''USDJPY''" "PyInt 155" 155 "PyInt 1" 1 100 100 100000]
    by auto
qed

end
