(* ===== verification/RiskEngine.thy ===== *)
theory RiskEngine
  imports BrokerBook PnlEngine
begin

section \<open>Risk rules, stop-out and trader classes (\<open>simulator/risk_engine.py\<close>)\<close>

text \<open>
  The limits of an account, the gate before an order, the evaluation after a
  close, the daily snapshot, the stop-out test, the margin figures and the
  classification of a trader. A function that is given the account object gets it
  as the record \<open>a\<close> beside its key and returns it as it leaves it; the row is in the
  database. Percentages are \<open>Decimal\<close>, live figures \<open>float\<close>. JSON details of a
  violation and message texts are left out.
\<close>

subsection \<open>Tables\<close>

record risk_rule =
  rr_max_daily_loss :: rat
  rr_max_drawdown :: rat
  rr_max_lot :: rat
  rr_max_positions :: nat
  rr_max_exposure :: rat

datatype violation_type =
  MAX_DRAWDOWN | MAX_DAILY_LOSS | MAX_LOT_SIZE | MAX_EXPOSURE | RATE_LIMITED | MARTINGALE_PATTERN

record violation =
  vi_account :: pk
  vi_type :: violation_type
  vi_value :: rat
  vi_limit :: rat
  vi_created_at :: int

record dd_snapshot =
  ds_start :: rat
  ds_end :: rat
  ds_pnl :: rat
  ds_pnl_pct :: rat
  ds_peak :: rat
  ds_drawdown :: rat

datatype trader_class = NORMAL | RISKY | MARTINGALE | TOXIC | CONSISTENT | ELITE | GAMBLER | SCALPER

record trader_score =
  ts_class :: trader_class
  ts_win_rate :: rat
  ts_profit_factor :: rat
  ts_avg_lot :: rat
  ts_consistency :: rat
  ts_martingale :: rat
  ts_evaluated :: int

record risk_db = books_db +
  risk_rules :: "risk_rule table"
  violations :: "violation list"
  snapshots :: "pk \<times> int \<Rightarrow> dd_snapshot option"
  scores :: "trader_score table"

subsection \<open>Limits\<close>

definition BLOCKED_STATUSES :: "acc_status list" where
  "BLOCKED_STATUSES = [Suspendido, Violado, Cerrado]"

text \<open>\<open>_pct\<close>: a percentage with two decimals, ties away from zero; zero over zero is zero.\<close>

definition pct :: "rat \<Rightarrow> rat \<Rightarrow> rat" where
  "pct x y = (if y = 0 then 0 else quantize_hu 2 (dec_ctx (dec_ctx (x / y) * 100)))"

record limits =
  lim_daily :: rat
  lim_drawdown :: rat
  lim_lot :: rat
  lim_positions :: nat

definition tier_limits :: "tier option \<Rightarrow> limits" where
  "tier_limits t =
     (if t = Some T50K then \<lparr>lim_daily = 4, lim_drawdown = 8, lim_lot = 20, lim_positions = 40\<rparr>
      else if t = Some T100K then \<lparr>lim_daily = 3, lim_drawdown = 6, lim_lot = 40, lim_positions = 50\<rparr>
      else \<lparr>lim_daily = 5, lim_drawdown = 10, lim_lot = 5, lim_positions = 30\<rparr>)"

definition tier_crypto_lot :: "tier option \<Rightarrow> rat" where
  "tier_crypto_lot t = (if t = Some T50K then 1 else if t = Some T100K then 2 else 1 / 4)"

definition is_crypto :: "string \<Rightarrow> bool" where
  "is_crypto s = (case get_spec s of None \<Rightarrow> False | Some sp \<Rightarrow> sp_asset_class sp = ''crypto'')"

definition clamp :: "rat \<Rightarrow> rat \<Rightarrow> rat \<Rightarrow> rat" where
  "clamp v lo hi = max lo (min hi v)"

definition retail_limits :: "rat \<Rightarrow> limits" where
  "retail_limits b = \<lparr>lim_daily = 5, lim_drawdown = 10, lim_lot = clamp (dec_ctx (b / 1000)) (1 / 100) 5,
                      lim_positions = 20\<rparr>"

definition retail_crypto_lot :: "rat \<Rightarrow> rat" where
  "retail_crypto_lot b = clamp (dec_ctx (b / 100000)) (1 / 1000) 2"

definition is_retail :: "trading_account \<Rightarrow> bool" where
  "is_retail a \<longleftrightarrow> acc_type a \<in> set MARGIN_ENGINE_TYPES"

definition reference_balance :: "trading_account \<Rightarrow> rat" where
  "reference_balance a = or_num (initial_balance a) (or_num (Some (balance a)) 1000)"

definition account_limits :: "trading_account \<Rightarrow> limits" where
  "account_limits a = (if is_retail a then retail_limits (reference_balance a) else tier_limits (acc_tier a))"

definition crypto_max_lot :: "trading_account \<Rightarrow> rat" where
  "crypto_max_lot a = (if is_retail a then retail_crypto_lot (reference_balance a)
                       else tier_crypto_lot (acc_tier a))"

text \<open>
  The rule of an account. A rule created here is returned as it was computed; its row
  has the columns' two decimals.
\<close>

definition store_rule :: "risk_rule \<Rightarrow> risk_rule" where
  "store_rule r =
     r\<lparr>rr_max_daily_loss := col2 (rr_max_daily_loss r), rr_max_drawdown := col2 (rr_max_drawdown r),
       rr_max_lot := col2 (rr_max_lot r), rr_max_exposure := col2 (rr_max_exposure r)\<rparr>"

definition default_rule :: "trading_account \<Rightarrow> risk_rule" where
  "default_rule a =
     (let l = account_limits a
      in \<lparr>rr_max_daily_loss = lim_daily l, rr_max_drawdown = lim_drawdown l, rr_max_lot = lim_lot l,
          rr_max_positions = lim_positions l, rr_max_exposure = balance a * (1 / 2)\<rparr>)"

definition get_or_create_risk_rule ::
  "pk \<Rightarrow> trading_account \<Rightarrow> 'a risk_db_scheme \<Rightarrow> risk_rule \<times> 'a risk_db_scheme" where
  "get_or_create_risk_rule k a s =
     (case risk_rules s k of
        Some r \<Rightarrow> (r, s)
      | None \<Rightarrow> (default_rule a, s\<lparr>risk_rules := (risk_rules s)(k \<mapsto> store_rule (default_rule a))\<rparr>))"

subsection \<open>What both evaluations read and write\<close>

text \<open>The realised result of the account since midnight.\<close>

definition today_pnl :: "int \<Rightarrow> pk \<Rightarrow> 'a risk_db_scheme \<Rightarrow> rat" where
  "today_pnl now k s =
     sum_list (map le_amount (filter (\<lambda>e. le_account e = k \<and> le_event e = EV_REALIZED
        \<and> midnight (date_of now) \<le> le_created_at e
        \<and> le_created_at e < midnight (date_of now) + day_us) (ledger s)))"

definition record_violation ::
  "int \<Rightarrow> pk \<Rightarrow> violation_type \<Rightarrow> rat \<Rightarrow> rat \<Rightarrow> 'a risk_db_scheme \<Rightarrow> 'a risk_db_scheme" where
  "record_violation now k ty v limit s =
     s\<lparr>violations := violations s @
        [\<lparr>vi_account = k, vi_type = ty, vi_value = quantize_hu 4 v, vi_limit = quantize_hu 4 limit,
          vi_created_at = now\<rparr>]\<rparr>"

definition violation_text :: "violation_type \<Rightarrow> string" where
  "violation_text t =
     (case t of MAX_DRAWDOWN \<Rightarrow> ''MAX_DRAWDOWN'' | MAX_DAILY_LOSS \<Rightarrow> ''MAX_DAILY_LOSS''
      | MAX_LOT_SIZE \<Rightarrow> ''MAX_LOT_SIZE'' | MAX_EXPOSURE \<Rightarrow> ''MAX_EXPOSURE''
      | RATE_LIMITED \<Rightarrow> ''RATE_LIMITED'' | MARTINGALE_PATTERN \<Rightarrow> ''MARTINGALE_PATTERN'')"

definition punish ::
  "int \<Rightarrow> pk \<Rightarrow> acc_status \<Rightarrow> string \<Rightarrow> violation_type list \<Rightarrow> trading_account
   \<Rightarrow> 'a risk_db_scheme \<Rightarrow> trading_account \<times> 'a risk_db_scheme" where
  "punish now k st reason vs a s =
     (if vs = [] then (a, s)
      else (a\<lparr>acc_status := st\<rparr>,
        add_ledger \<lparr>le_account = k, le_event = EV_ADJUST, le_amount = 0, le_balance_after = balance a,
          le_meta = [(''reason'', MStr reason), (''violations'', MList (map violation_text vs))],
          le_created_at = now\<rparr> (update_account k (\<lambda>r. r\<lparr>acc_status := st\<rparr>) s)))"

text \<open>
  One limit: the percentage \<open>p\<close> of a breach of the limit \<open>limit\<close>, if there is one. Drawdown is
  measured from the peak, the daily loss is today's realised loss over the peak.
\<close>

definition drawdown_breach :: "risk_rule \<Rightarrow> trading_account \<Rightarrow> rat option" where
  "drawdown_breach r a =
     (if 0 < peak_balance a \<and> rr_max_drawdown r \<le> pct (peak_balance a - balance a) (peak_balance a)
      then Some (pct (peak_balance a - balance a) (peak_balance a)) else None)"

definition daily_breach :: "risk_rule \<Rightarrow> trading_account \<Rightarrow> rat \<Rightarrow> rat option" where
  "daily_breach r a pnl =
     (if 0 < peak_balance a \<and> pnl < 0 \<and> rr_max_daily_loss r \<le> pct \<bar>pnl\<bar> (peak_balance a)
      then Some (pct \<bar>pnl\<bar> (peak_balance a)) else None)"

subsection \<open>Before an order\<close>

datatype order_error_code =
  AccountBlocked | LotWarning | MaxLotSize | MaxPositions | DailyLossWarning | DailyLossLimit
| DrawdownWarning | MaxDrawdown

record order_error =
  oe_code :: order_error_code
  oe_blocking :: bool

abbreviation warning :: "order_error_code \<Rightarrow> order_error" where
  "warning c \<equiv> \<lparr>oe_code = c, oe_blocking = False\<rparr>"

abbreviation rejection :: "order_error_code \<Rightarrow> order_error" where
  "rejection c \<equiv> \<lparr>oe_code = c, oe_blocking = True\<rparr>"

text \<open>
  The checks in order. Each takes the database, adds to the errors and, for an account
  that is not retail, records the violation; \<open>hard\<close> collects those that suspend.
\<close>

definition lot_check ::
  "int \<Rightarrow> pk \<Rightarrow> trading_account \<Rightarrow> rat \<Rightarrow> rat \<Rightarrow> 'a risk_db_scheme \<Rightarrow> order_error list \<times> 'a risk_db_scheme" where
  "lot_check now k a lot mx s =
     (if lot \<le> mx then ([], s)
      else if is_retail a then ([warning LotWarning], s)
      else ([rejection MaxLotSize], record_violation now k MAX_LOT_SIZE lot mx s))"

definition breach_check ::
  "int \<Rightarrow> pk \<Rightarrow> trading_account \<Rightarrow> rat option \<Rightarrow> rat \<Rightarrow> violation_type \<Rightarrow> order_error_code \<Rightarrow> order_error_code
   \<Rightarrow> 'a risk_db_scheme \<Rightarrow> order_error list \<times> violation_type list \<times> 'a risk_db_scheme" where
  "breach_check now k a breach limit ty warn rej s =
     (case breach of None \<Rightarrow> ([], [], s)
      | Some p \<Rightarrow> if is_retail a then ([warning warn], [], s)
                  else ([rejection rej], [ty], record_violation now k ty p limit s))"

definition validate_order_risk ::
  "int \<Rightarrow> pk \<Rightarrow> rat \<Rightarrow> nat \<Rightarrow> string \<Rightarrow> trading_account \<Rightarrow> 'a risk_db_scheme
   \<Rightarrow> order_error list \<times> trading_account \<times> 'a risk_db_scheme" where
  "validate_order_risk now k lot_size open_count symbol a s =
     (if acc_status a \<in> set BLOCKED_STATUSES then ([rejection AccountBlocked], a, s)
      else let (rule, s0) = get_or_create_risk_rule k a s;
               mx = (if is_crypto symbol then crypto_max_lot a else rr_max_lot rule);
               (e1, s1) = lot_check now k a (py_repr lot_size) mx s0;
               e2 = (if rr_max_positions rule \<le> open_count then [rejection MaxPositions] else []);
               (e3, h3, s3) = breach_check now k a (daily_breach rule a (today_pnl now k s1))
                                (rr_max_daily_loss rule) MAX_DAILY_LOSS DailyLossWarning DailyLossLimit s1;
               (e4, h4, s4) = breach_check now k a (drawdown_breach rule a)
                                (rr_max_drawdown rule) MAX_DRAWDOWN DrawdownWarning MaxDrawdown s3;
               (a', s5) = punish now k Violado ''pre_trade_violation'' (h3 @ h4) a s4
           in (e1 @ e2 @ e3 @ e4, a', s5))"

subsection \<open>After a close\<close>

definition raise_peak :: "pk \<Rightarrow> trading_account \<Rightarrow> 'a risk_db_scheme \<Rightarrow> trading_account \<times> 'a risk_db_scheme" where
  "raise_peak k a s =
     (let s' = update_account k (\<lambda>r. r\<lparr>peak_balance := (if peak_balance r < balance a then col2 (balance a)
                                                         else peak_balance r)\<rparr>) s
      in (case accounts s' k of None \<Rightarrow> a | Some r \<Rightarrow> a\<lparr>peak_balance := peak_balance r\<rparr>, s'))"

definition upsert_daily_snapshot ::
  "int \<Rightarrow> pk \<Rightarrow> trading_account \<Rightarrow> rat \<Rightarrow> 'a risk_db_scheme \<Rightarrow> 'a risk_db_scheme" where
  "upsert_daily_snapshot today k a pnl s =
     (let dd = (if 0 < peak_balance a then pct (peak_balance a - balance a) (peak_balance a) else 0)
      in s\<lparr>snapshots := (snapshots s)((k, today) \<mapsto>
           (case snapshots s (k, today) of
              None \<Rightarrow> \<lparr>ds_start = col2 (balance a), ds_end = col2 (balance a), ds_pnl = col2 pnl,
                       ds_pnl_pct = 0, ds_peak = col2 (peak_balance a), ds_drawdown = dd\<rparr>
            | Some d \<Rightarrow> d\<lparr>ds_end := col2 (balance a), ds_pnl := col2 pnl, ds_peak := col2 (peak_balance a),
                          ds_drawdown := dd,
                          ds_pnl_pct := (if ds_start d \<noteq> 0 then pct pnl (ds_start d)
                                         else ds_pnl_pct d)\<rparr>))\<rparr>)"

definition enforce_check ::
  "int \<Rightarrow> pk \<Rightarrow> trading_account \<Rightarrow> rat option \<Rightarrow> rat \<Rightarrow> violation_type \<Rightarrow> 'a risk_db_scheme
   \<Rightarrow> violation_type list \<times> 'a risk_db_scheme" where
  "enforce_check now k a breach limit ty s =
     (case breach of None \<Rightarrow> ([], s)
      | Some p \<Rightarrow> if is_retail a then ([], s) else ([ty], record_violation now k ty p limit s))"

definition check_and_enforce_risk ::
  "int \<Rightarrow> pk \<Rightarrow> trading_account \<Rightarrow> 'a risk_db_scheme
   \<Rightarrow> violation_type list \<times> trading_account \<times> 'a risk_db_scheme" where
  "check_and_enforce_risk now k a s =
     (let (rule, s0) = get_or_create_risk_rule k a s;
          (a1, s1) = raise_peak k a s0;
          (v2, s2) = enforce_check now k a1 (drawdown_breach rule a1) (rr_max_drawdown rule) MAX_DRAWDOWN s1;
          pnl = today_pnl now k s2;
          (v3, s3) = enforce_check now k a1 (daily_breach rule a1 pnl) (rr_max_daily_loss rule) MAX_DAILY_LOSS s2;
          (a4, s4) = punish now k Suspendido ''auto_suspend'' (v2 @ v3) a1 s3
      in (v2 @ v3, a4, upsert_daily_snapshot (date_of now) k a4 pnl s4))"

subsection \<open>Live figures\<close>

text \<open>\<open>compute_margin_state\<close>; arguments are floats.\<close>

record margin_state =
  ms_used :: rat
  ms_new :: rat
  ms_after :: rat
  ms_free :: rat
  ms_used_pct :: rat
  ms_level :: rat
  ms_maintenance :: rat
  ms_distance :: rat

definition floor_equity :: "rat \<Rightarrow> rat" where
  "floor_equity e = max e (fl (1 / 100))"

definition compute_margin_state :: "rat \<Rightarrow> rat \<Rightarrow> rat \<Rightarrow> rat \<Rightarrow> margin_state" where
  "compute_margin_state equity0 used new stopout =
     (let e = floor_equity equity0;
          after = fl (used + new);
          maint = fl (after * fl (stopout / 100))
      in \<lparr>ms_used = py_round 2 used, ms_new = py_round 2 new, ms_after = py_round 2 after,
          ms_free = py_round 2 (fl (e - after)),
          ms_used_pct = py_round 2 (if 0 < e then fl (fl (after / e) * 100) else 100),
          ms_level = py_round 2 (if 0 < after then fl (fl (e / after) * 100) else 0),
          ms_maintenance = py_round 2 maint,
          ms_distance = py_round 2 (max 0 (fl (e - maint)))\<rparr>)"

text \<open>
  \<open>check_equity_stopout\<close>. The account object may be missing; the type text may be empty.
\<close>

definition retail_stopout :: "rat \<Rightarrow> rat \<Rightarrow> rat \<Rightarrow> bool" where
  "retail_stopout equity0 used level \<longleftrightarrow> 0 < used \<and> fl (fl (equity0 / used) * 100) < level"

definition drawdown_stopout :: "rat \<Rightarrow> rat \<Rightarrow> rat \<Rightarrow> bool" where
  "drawdown_stopout equity0 peak max_dd \<longleftrightarrow> equity0 \<le> fl (peak * fl (1 - fl (fl max_dd / 100)))"

definition check_equity_stopout ::
  "rat \<Rightarrow> rat \<Rightarrow> tier option \<Rightarrow> trading_account option \<Rightarrow> account_type option \<Rightarrow> rat \<Rightarrow> rat \<Rightarrow> bool" where
  "check_equity_stopout equity0 peak t acc ty used level =
     (if (case ty of None \<Rightarrow> False | Some x \<Rightarrow> x \<in> set MARGIN_ENGINE_TYPES)
         \<or> (case acc of None \<Rightarrow> False | Some a \<Rightarrow> is_retail a)
      then retail_stopout equity0 used level
      else drawdown_stopout equity0 peak
             (lim_drawdown (case acc of Some a \<Rightarrow> account_limits a | None \<Rightarrow> tier_limits t)))"

text \<open>
  \<open>evaluate_position_risk\<close>. \<open>live\<close> is what the exposure engine's price cache answers
  (\<open>None\<close> when the call raises); the leverage of the account is an integer.
\<close>

datatype risk_level = RISK_LOW | RISK_MEDIUM | RISK_HIGH | RISK_EXTREME

record position_risk =
  pk_level :: risk_level
  pk_exposure_pct :: rat
  pk_notional :: rat
  pk_adverse :: rat
  pk_dd_impact :: rat
  pk_dd_remaining :: rat
  pk_recommended :: rat
  pk_margin_required :: "rat option"
  pk_margin_after_pct :: "rat option"
  pk_margin :: "margin_state option"

definition level_of :: "rat \<Rightarrow> rat \<Rightarrow> rat \<Rightarrow> rat \<Rightarrow> risk_level" where
  "level_of x extreme high medium =
     (if extreme \<le> x then RISK_EXTREME else if high \<le> x then RISK_HIGH
      else if medium \<le> x then RISK_MEDIUM else RISK_LOW)"

definition risk_price :: "rat option \<Rightarrow> symbol_spec option \<Rightarrow> rat" where
  "risk_price live sp =
     (let base = (case sp of None \<Rightarrow> 1 | Some x \<Rightarrow> sp_base_price x);
          p = (case live of None \<Rightarrow> base | Some x \<Rightarrow> x)
      in if p \<le> 0 then base else p)"

definition evaluate_position_risk ::
  "rat option \<Rightarrow> trading_account \<Rightarrow> string \<Rightarrow> rat \<Rightarrow> rat \<Rightarrow> rat \<Rightarrow> int \<Rightarrow> position_risk" where
  "evaluate_position_risk live a symbol lot equity0 used lev =
     (let sp = get_spec symbol;
          price = risk_price live sp;
          cs = (case sp of None \<Rightarrow> 1 | Some x \<Rightarrow> num_value (sp_contract_size x));
          eff = max 1 (min lev (case sp of None \<Rightarrow> lev | Some x \<Rightarrow> sp_max_leverage x));
          notional = fl (fl (lot * price) * cs);
          new = (case calculate_required_margin symbol (PyFloat price) (PyFloat lot) eff
                   (if currency a = '''' then ''USD'' else currency a) of Inl _ \<Rightarrow> 0 | Inr m \<Rightarrow> m);
          bl = fl (balance a);
          peak = (if 0 < fl (peak_balance a) then fl (peak_balance a) else bl);
          e = floor_equity equity0;
          budget = fl (peak * fl (fl (lim_drawdown (account_limits a)) / 100));
          dd_used = max 0 (fl (peak - bl));
          dd_left = max 0 (fl (budget - dd_used));
          exposure = (if 0 < e then fl (fl (notional / e) * 100) else 999);
          after_pct = (if 0 < e then fl (fl (fl (used + new) / e) * 100) else 100);
          move = (if is_crypto symbol then 2 else fl (1 / 2));
          adverse = fl (notional * fl (move / 100));
          impact = (if 0 < peak then fl (fl (adverse / peak) * 100) else 0);
          recommended = (if 0 < price then py_round 3 (fl (fl (e * fl (1 / 5)) / price)) else fl (1 / 100));
          base = \<lparr>pk_level = RISK_LOW, pk_exposure_pct = py_round 1 exposure,
                  pk_notional = py_round 2 notional, pk_adverse = py_round 2 adverse,
                  pk_dd_impact = py_round 2 impact, pk_dd_remaining = py_round 2 dd_left,
                  pk_recommended = recommended, pk_margin_required = None,
                  pk_margin_after_pct = None, pk_margin = None\<rparr>
      in if is_retail a
         then let m = compute_margin_state e used new (fl (or_num (stopout_level_snapshot a) 50))
              in base\<lparr>pk_level := level_of (ms_used_pct m) 80 50 20, pk_margin := Some m\<rparr>
         else base\<lparr>pk_level := level_of exposure 100 60 25,
                   pk_margin_required := Some (py_round 2 new),
                   pk_margin_after_pct := Some (py_round 1 after_pct)\<rparr>)"

subsection \<open>Trader classes\<close>

text \<open>
  \<open>sum\<close> of floats is compensated (Neumaier) since CPython 3.12, the version deployed.
  \<open>pow\<close> is the C library's power function, a parameter.
\<close>

fun py_sum_loop :: "rat \<Rightarrow> rat \<Rightarrow> rat list \<Rightarrow> rat" where
  "py_sum_loop f c [] = (if c = 0 then f else fl (f + c))"
| "py_sum_loop f c (x # xs) =
     (let t = fl (f + x)
      in py_sum_loop t (fl (c + (if \<bar>x\<bar> \<le> \<bar>f\<bar> then fl (fl (f - t) + x) else fl (fl (x - t) + f)))) xs)"

definition py_sum :: "rat list \<Rightarrow> rat" where
  "py_sum xs = py_sum_loop 0 0 xs"

record trader_metrics =
  tm_win_rate :: rat
  tm_profit_factor :: rat
  tm_avg_lot :: rat
  tm_martingale :: rat
  tm_consistency :: rat

definition last_closed :: "pk \<Rightarrow> 'a books_db_scheme \<Rightarrow> trade list" where
  "last_closed k s =
     take 50 (sort_key (\<lambda>t. - the (tr_closed_at t))
       (List.map_filter (trades s)
         (rows_where (next_trade s) (trades s) (\<lambda>t. tr_account t = k \<and> tr_closed_at t \<noteq> None))))"

definition trade_pnl :: "trade \<Rightarrow> rat" where
  "trade_pnl t = fl (or_num (tr_pnl t) 0)"

text \<open>Neighbours in the list: the newer trade comes first.\<close>

fun martingale_triggers :: "trade list \<Rightarrow> nat" where
  "martingale_triggers (newer # older # ts) =
     (if trade_pnl older < 0 \<and> fl (fl (tr_lots older) * fl (3 / 2)) < fl (tr_lots newer) then 1 else 0)
     + martingale_triggers (older # ts)"
| "martingale_triggers _ = 0"

definition raw_metrics :: "(rat \<Rightarrow> rat \<Rightarrow> rat) \<Rightarrow> trade list \<Rightarrow> trader_metrics" where
  "raw_metrics pow ts =
     (let n = of_nat (length ts); pnls = map trade_pnl ts;
          wins = of_nat (length (filter (\<lambda>p. 0 < p) pnls));
          gain = py_sum (filter (\<lambda>p. 0 < p) pnls);
          loss = \<bar>py_sum (filter (\<lambda>p. p < 0) pnls)\<bar>;
          mean = fl (py_sum pnls / n);
          variance = fl (py_sum (map (\<lambda>p. pow (fl (p - mean)) 2) pnls) / of_nat (max (length ts - 1) 1));
          std = pow variance (1 / 2)
      in \<lparr>tm_win_rate = fl (fl (wins / n) * 100),
          tm_profit_factor = (if 0 < loss then fl (gain / loss) else 999),
          tm_avg_lot = fl (py_sum (map (\<lambda>t. fl (tr_lots t)) ts) / n),
          tm_martingale = fl (of_nat (martingale_triggers ts) / of_nat (max (length ts - 1) 1)),
          tm_consistency = max 0 (fl (100 - fl (fl (std / fl (\<bar>mean\<bar> + 1)) * 5)))\<rparr>)"

definition shown_metrics :: "trader_metrics \<Rightarrow> trader_metrics" where
  "shown_metrics m =
     \<lparr>tm_win_rate = py_round 2 (tm_win_rate m),
      tm_profit_factor = py_round 2 (min (tm_profit_factor m) 999),
      tm_avg_lot = py_round 4 (tm_avg_lot m), tm_martingale = py_round 3 (tm_martingale m),
      tm_consistency = py_round 2 (tm_consistency m)\<rparr>"

definition class_of :: "rat \<Rightarrow> trader_metrics \<Rightarrow> trader_class" where
  "class_of max_lot m =
     (if tm_win_rate m < 30 \<and> tm_profit_factor m < fl (7 / 10) then TOXIC
      else if fl (1 / 4) < tm_martingale m then MARTINGALE
      else if fl (fl max_lot * fl (4 / 5)) < tm_avg_lot m then RISKY
      else if 65 < tm_win_rate m \<and> 2 < tm_profit_factor m \<and> 75 < tm_consistency m then ELITE
      else if 55 < tm_win_rate m \<and> fl (3 / 2) < tm_profit_factor m \<and> 60 < tm_consistency m then CONSISTENT
      else NORMAL)"

text \<open>
  The rule is looked up (and created) only when neither of the first two classes applies.
\<close>

definition classify_trader ::
  "(rat \<Rightarrow> rat \<Rightarrow> rat) \<Rightarrow> pk \<Rightarrow> trading_account \<Rightarrow> 'a risk_db_scheme
   \<Rightarrow> (trader_class \<times> trader_metrics option) \<times> 'a risk_db_scheme" where
  "classify_trader pow k a s =
     (let ts = last_closed k s
      in if length ts < 5 then ((NORMAL, None), s)
         else let m = raw_metrics pow ts
              in if tm_win_rate m < 30 \<and> tm_profit_factor m < fl (7 / 10) \<or> fl (1 / 4) < tm_martingale m
                 then ((class_of 0 m, Some (shown_metrics m)), s)
                 else let (rule, s') = get_or_create_risk_rule k a s
                      in ((class_of (rr_max_lot rule) m, Some (shown_metrics m)), s'))"

text \<open>
  \<open>update_trader_score\<close>: the five columns are filled from the metrics, whose defaults
  are 0 and, for the profit factor, 1.
\<close>

definition score_row :: "int \<Rightarrow> trader_class \<Rightarrow> trader_metrics option \<Rightarrow> trader_score" where
  "score_row now c m =
     (case m of
        None \<Rightarrow> \<lparr>ts_class = c, ts_win_rate = 0, ts_profit_factor = 1, ts_avg_lot = 0, ts_consistency = 0,
                 ts_martingale = 0, ts_evaluated = now\<rparr>
      | Some x \<Rightarrow>
         \<lparr>ts_class = c, ts_win_rate = quantize_hu 2 (py_repr (tm_win_rate x)),
          ts_profit_factor = quantize_hu 2 (py_repr (min (tm_profit_factor x) 999)),
          ts_avg_lot = quantize_hu 4 (py_repr (tm_avg_lot x)),
          ts_consistency = quantize_hu 2 (py_repr (tm_consistency x)),
          ts_martingale = quantize_hu 3 (py_repr (tm_martingale x)), ts_evaluated = now\<rparr>)"

definition update_trader_score ::
  "(rat \<Rightarrow> rat \<Rightarrow> rat) \<Rightarrow> int \<Rightarrow> pk \<Rightarrow> trading_account \<Rightarrow> 'a risk_db_scheme \<Rightarrow> 'a risk_db_scheme" where
  "update_trader_score pow now k a s =
     (let ((c, m), s') = classify_trader pow k a s
      in s'\<lparr>scores := (scores s')(k \<mapsto> score_row now c m)\<rparr>)"

subsection \<open>Percentages\<close>

text \<open>
  \<open>x / y * 100\<close> as \<open>Decimal\<close> computes it, compared with a limit of two decimals,
  \<open>m\<close> hundredths of a percent.
\<close>

definition percent :: "rat \<Rightarrow> rat \<Rightarrow> rat" where
  "percent x y = dec_ctx (dec_ctx (x / y) * 100)"

lemma pct_percent: "pct x y = (if y = 0 then 0 else quantize_hu 2 (percent x y))"
  by (simp add: pct_def percent_def)

lemma percent_reaches:
  assumes "0 < y" "of_int m / 100 * y \<le> x * 100" "\<bar>m\<bar> < 10 ^ 28"
  shows "of_int m / 100 \<le> percent x y"
proof -
  have "of_int m / 10 ^ 4 \<le> x / y" using assms(1,2) by (simp add: field_simps)
  from dctx.ge_repr[OF dec_ctx_fixed[OF assms(3)] this]
  have "of_int m / 10 ^ 2 \<le> dec_ctx (x / y) * 100" by simp
  from dctx.ge_repr[OF dec_ctx_fixed[OF assms(3)] this] show ?thesis by (simp add: percent_def)
qed

lemma percent_below:
  assumes "0 < y" "x * 100 \<le> (of_int m / 100 - 6 / 1000) * y" "\<bar>10 * m - 6\<bar> < 10 ^ 28"
  shows "percent x y \<le> of_int m / 100 - 6 / 1000"
proof -
  let ?n = "10 * m - 6"
  have eq: "of_int m / 100 - 6 / 1000 = (of_int ?n / 1000 :: rat)" by simp
  have "x / y \<le> of_int ?n / 10 ^ 5" using assms(1,2) unfolding eq by (simp add: field_simps)
  from dctx.le_repr[OF dec_ctx_fixed[OF assms(3)] this]
  have "dec_ctx (x / y) * 100 \<le> of_int ?n / 10 ^ 3" by simp
  from dctx.le_repr[OF dec_ctx_fixed[OF assms(3)] this]
  show ?thesis unfolding eq percent_def by simp
qed

lemma pct_reaches:
  assumes "0 < y" "of_int m / 100 * y \<le> x * 100" "\<bar>m\<bar> < 10 ^ 28"
  shows "of_int m / 100 \<le> pct x y"
  using qhu.ge_repr[OF quantize_hu_int_div[of 2 m]] percent_reaches[OF assms] assms(1)
  by (simp add: pct_percent)

lemma pct_below:
  assumes "0 < y" "x * 100 \<le> (of_int m / 100 - 6 / 1000) * y" "\<bar>10 * m - 6\<bar> < 10 ^ 28"
  shows "pct x y < of_int m / 100"
proof -
  have "\<bar>quantize_hu 2 (percent x y) - percent x y\<bar> \<le> 1 / 200"
    using quantize_hu_near[of 2 "percent x y"] by simp
  then have "quantize_hu 2 (percent x y) < of_int m / 100" using percent_below[OF assms] by linarith
  then show ?thesis using assms(1) by (simp add: pct_percent)
qed

subsection \<open>Evaluation after a close\<close>

lemma rule_effect:
  assumes "get_or_create_risk_rule k a s = (rule, s')"
  shows "accounts s' = accounts s" "ledger s' = ledger s" "violations s' = violations s"
    "snapshots s' = snapshots s" "trades s' = trades s" "scores s' = scores s"
    "risk_rules s' k \<noteq> None" "risk_rules s k = Some r \<Longrightarrow> rule = r \<and> s' = s"
  using assms by (auto simp: get_or_create_risk_rule_def split: option.splits)

lemma record_violation_simps [simp]:
  "accounts (record_violation now k ty v l s) = accounts s"
  "ledger (record_violation now k ty v l s) = ledger s"
  "snapshots (record_violation now k ty v l s) = snapshots s"
  "risk_rules (record_violation now k ty v l s) = risk_rules s"
  "length (violations (record_violation now k ty v l s)) = Suc (length (violations s))"
  by (simp_all add: record_violation_def)

lemma risk_update_account [simp]:
  "violations (update_account k f s) = violations s" "snapshots (update_account k f s) = snapshots s"
  "risk_rules (update_account k f s) = risk_rules s"
  "violations (add_ledger e s) = violations s" "snapshots (add_ledger e s) = snapshots s"
  by (auto simp: update_account_def add_ledger_def split: option.splits)

lemma today_pnl_cong: "ledger s' = ledger s \<Longrightarrow> today_pnl now k s' = today_pnl now k s"
  by (simp add: today_pnl_def)

lemma raise_peak_effect:
  assumes "accounts s k = Some a" "cents (balance a)"
  shows "raise_peak k a s =
    (a\<lparr>peak_balance := max (peak_balance a) (balance a)\<rparr>,
     s\<lparr>accounts := (accounts s)(k \<mapsto> a\<lparr>peak_balance := max (peak_balance a) (balance a)\<rparr>)\<rparr>)"
  using assms by (auto simp: raise_peak_def update_account_def Let_def max_def)

lemma enforce_check_effect:
  assumes "enforce_check now k a b l ty s = (vs, s')"
  shows "vs = (if b = None \<or> is_retail a then [] else [ty])"
    and "accounts s' = accounts s" "ledger s' = ledger s" "snapshots s' = snapshots s"
    and "length (violations s') = length (violations s) + length vs"
  using assms by (auto simp: enforce_check_def split: option.splits if_splits)

lemma punish_effect:
  assumes "punish now k st reason vs a s = (a', s')" "accounts s k = Some a"
  shows "a' = (if vs = [] then a else a\<lparr>acc_status := st\<rparr>)"
    and "accounts s' = (accounts s)(k \<mapsto> a')"
    and "map le_amount (ledger s') = map le_amount (ledger s) @ (if vs = [] then [] else [0])"
    and "violations s' = violations s" "snapshots s' = snapshots s"
  using assms by (auto simp: punish_def split: if_splits)

lemma upsert_effect:
  assumes "cents (balance a)" "cents (peak_balance a)"
  shows "\<exists>d. snapshots (upsert_daily_snapshot day k a pnl s) (k, day) = Some d
      \<and> ds_end d = balance a \<and> ds_peak d = peak_balance a"
    and "accounts (upsert_daily_snapshot day k a pnl s) = accounts s"
    "ledger (upsert_daily_snapshot day k a pnl s) = ledger s"
    "violations (upsert_daily_snapshot day k a pnl s) = violations s"
  using assms by (auto simp: upsert_daily_snapshot_def Let_def split: option.split)

lemma cents_max: "cents x \<Longrightarrow> cents y \<Longrightarrow> cents (max x y)"
  by (simp add: max_def)

text \<open>
  What the evaluation after a close does to a fresh account: the peak becomes the
  larger of peak and balance and the row agrees with the object; the balance is untouched;
  violations are recorded iff the account is not retail and a limit of its rule is breached at
  the new peak; the account is suspended iff violations were recorded, with one ledger row
  of amount zero, and otherwise keeps its status; and today's snapshot ends at the balance.
\<close>

theorem post_trade_enforcement:
  assumes "accounts s k = Some a" "cents (balance a)" "cents (peak_balance a)"
    and "check_and_enforce_risk now k a s = (vs, a', s')"
    and "get_or_create_risk_rule k a s = (rule, s0)"
    and "risen = a\<lparr>peak_balance := max (peak_balance a) (balance a)\<rparr>"
  shows "a' = (if vs = [] then risen else risen\<lparr>acc_status := Suspendido\<rparr>)
    \<and> accounts s' = (accounts s)(k \<mapsto> a')
    \<and> (vs \<noteq> [] \<longleftrightarrow> \<not> is_retail a \<and> (drawdown_breach rule risen \<noteq> None
          \<or> daily_breach rule risen (today_pnl now k s) \<noteq> None))
    \<and> length (violations s') = length (violations s) + length vs
    \<and> map le_amount (ledger s') = map le_amount (ledger s) @ (if vs = [] then [] else [0])
    \<and> (\<exists>d. snapshots s' (k, date_of now) = Some d \<and> ds_end d = balance a \<and> ds_peak d = peak_balance risen)"
proof -
  note r = rule_effect[OF assms(5)]
  have row0: "accounts s0 k = Some a" using assms(1) r(1) by simp
  note rp = raise_peak_effect[OF row0 assms(2), folded assms(6)]
  define s1 where "s1 = s0\<lparr>accounts := (accounts s0)(k \<mapsto> risen)\<rparr>"
  obtain v2 s2 where e2: "enforce_check now k risen (drawdown_breach rule risen) (rr_max_drawdown rule) MAX_DRAWDOWN s1 = (v2, s2)"
    by fastforce
  define pnl where "pnl = today_pnl now k s2"
  obtain v3 s3 where e3: "enforce_check now k risen (daily_breach rule risen pnl) (rr_max_daily_loss rule) MAX_DAILY_LOSS s2 = (v3, s3)"
    by fastforce
  obtain a4 s4 where p: "punish now k Suspendido ''auto_suspend'' (v2 @ v3) risen s3 = (a4, s4)" by fastforce
  have res: "vs = v2 @ v3" "a' = a4" "s' = upsert_daily_snapshot (date_of now) k a4 pnl s4"
    using assms(4) by (auto simp add: check_and_enforce_risk_def assms(5) rp s1_def[symmetric] e2 e3 p pnl_def[symmetric] Let_def)
  note f2 = enforce_check_effect[OF e2] and f3 = enforce_check_effect[OF e3]
  have pnl: "pnl = today_pnl now k s" unfolding pnl_def by (rule today_pnl_cong) (simp add: f2 s1_def r)
  have ret: "is_retail risen = is_retail a" by (simp add: assms(6) is_retail_def)
  have row3: "accounts s3 k = Some risen" by (simp add: f2 f3 s1_def)
  note f4 = punish_effect[OF p row3]
  have money: "cents (balance a4)" "cents (peak_balance a4)" "balance a4 = balance a" "peak_balance a4 = peak_balance risen"
    using assms(2,3) by (simp_all add: f4(1) assms(6) cents_max)
  note f5 = upsert_effect[OF money(1,2), of "date_of now" k pnl s4, folded res(3)]
  have "a' = (if vs = [] then risen else risen\<lparr>acc_status := Suspendido\<rparr>)" using res f4(1) by simp
  moreover have "accounts s' = (accounts s)(k \<mapsto> a')"
    by (simp add: f5(2) f4(2) res(2) f3 f2 s1_def r(1))
  moreover have "vs \<noteq> [] \<longleftrightarrow> \<not> is_retail a \<and> (drawdown_breach rule risen \<noteq> None
          \<or> daily_breach rule risen (today_pnl now k s) \<noteq> None)"
    by (simp add: res(1) f2(1) f3(1) ret pnl)
  moreover have "length (violations s') = length (violations s) + length vs"
    by (simp add: f5(4) f4(4) f3(5) f2(5) s1_def r(3) res(1))
  moreover have "map le_amount (ledger s') = map le_amount (ledger s) @ (if vs = [] then [] else [0])"
    by (simp add: f5(3) f4(3) f3(3) f2(3) s1_def r(2) res(1))
  moreover have "\<exists>d. snapshots s' (k, date_of now) = Some d \<and> ds_end d = balance a \<and> ds_peak d = peak_balance risen"
    using f5(1) money by simp
  ultimately show ?thesis by blast
qed

subsection \<open>A concrete account\<close>

definition demo_challenge_account :: trading_account where
  "demo_challenge_account = demo_account\<lparr>acc_type := CHALLENGE, acc_tier := Some T100K, balance := 93000,
     equity := 93000, peak_balance := 100000, initial_balance := Some 100000\<rparr>"

definition demo_rule :: risk_rule where
  "demo_rule = \<lparr>rr_max_daily_loss = 5, rr_max_drawdown = 7, rr_max_lot = 5, rr_max_positions = 30,
     rr_max_exposure = 100000\<rparr>"

definition demo_risk :: risk_db where
  "demo_risk =
     \<lparr>accounts = [1 \<mapsto> demo_challenge_account], next_account = 2, positions = Map.empty, next_position = 0,
      ledger = [], wallets = Map.empty, user_wallet = Map.empty, next_wallet = 0, wallet_txs = [],
      transfers = Map.empty, next_transfer = 0, broker_ledger = [], trades = Map.empty, next_trade = 0,
      adjustments = [], risk_rules = [1 \<mapsto> demo_rule], violations = [], snapshots = Map.empty,
      scores = Map.empty\<rparr>"

lemmas demo_risk_defs = demo_risk_def demo_challenge_account_def demo_rule_def demo_account_def

lemma demo_risk_rows:
  "accounts demo_risk 1 = Some demo_challenge_account" "risk_rules demo_risk 1 = Some demo_rule"
  "balance demo_challenge_account = 93000" "peak_balance demo_challenge_account = 100000"
  "rr_max_drawdown demo_rule = 7" "\<not> is_retail demo_challenge_account"
  "acc_status demo_challenge_account = Activo" "get_or_create_risk_rule 1 a demo_risk = (demo_rule, demo_risk)"
  by (simp_all add: demo_risk_defs is_retail_def MARGIN_ENGINE_TYPES_def get_or_create_risk_rule_def)

lemma drawdown_breach_reached:
  assumes "0 < peak_balance a" "rr_max_drawdown r = of_int m / 100" "\<bar>m\<bar> < 10 ^ 20"
    and "of_int m / 100 * peak_balance a \<le> (peak_balance a - balance a) * 100"
  shows "drawdown_breach r a \<noteq> None"
  using pct_reaches[OF assms(1,4)] assms by (simp add: drawdown_breach_def)

lemma no_drawdown_breach:
  assumes "0 < peak_balance a" "rr_max_drawdown r = of_int m / 100" "\<bar>m\<bar> < 10 ^ 20"
    and "(peak_balance a - balance a) * 100 \<le> (of_int m / 100 - 6 / 1000) * peak_balance a"
  shows "drawdown_breach r a = None"
proof -
  have "\<bar>10 * m - 6\<bar> < 10 ^ 28" using assms(3) by simp
  from pct_below[OF assms(1,4) this] assms(2) show ?thesis by (simp add: drawdown_breach_def)
qed

theorem post_trade_enforcement_witness:
  "\<exists>vs a' s'. check_and_enforce_risk 0 1 demo_challenge_account demo_risk = (vs, a', s')
     \<and> vs \<noteq> [] \<and> acc_status a' = Suspendido"
proof -
  let ?t = "demo_challenge_account\<lparr>peak_balance := max (peak_balance demo_challenge_account) (balance demo_challenge_account)\<rparr>"
  obtain vs a' s' where r: "check_and_enforce_risk 0 1 demo_challenge_account demo_risk = (vs, a', s')"
    by (metis prod_cases3)
  have "drawdown_breach demo_rule ?t \<noteq> None"
    by (rule drawdown_breach_reached[of _ _ 700]) (simp_all add: demo_risk_rows)
  then have "vs \<noteq> []" "a' = ?t\<lparr>acc_status := Suspendido\<rparr>"
    using post_trade_enforcement[OF demo_risk_rows(1) _ _ r demo_risk_rows(8) refl]
    by (auto simp: demo_risk_rows)
  with r show ?thesis by auto
qed

text \<open>
  The drawdown limit of the rule is enforced at the right place: after a close of an
  account that is not retail, with a limit of two decimals, the account is suspended whenever
  its loss from the (updated) peak is at least the limit; and if that loss is at least 0.006
  percentage points below the limit and there is no daily breach, its status does not change.
  The roundings of the percentage cannot move the threshold further than that.
\<close>

theorem drawdown_limit_precise:
  assumes "accounts s k = Some a" "cents (balance a)" "cents (peak_balance a)" "\<not> is_retail a"
    and "check_and_enforce_risk now k a s = (vs, a', s')"
    and "risk_rules s k = Some rule" "rr_max_drawdown rule = of_int m / 100" "\<bar>m\<bar> < 10 ^ 20"
    and "P = max (peak_balance a) (balance a)" "0 < P"
  shows "(of_int m / 100 * P \<le> (P - balance a) * 100 \<longrightarrow> acc_status a' = Suspendido)
    \<and> ((P - balance a) * 100 \<le> (of_int m / 100 - 6 / 1000) * P
        \<and> daily_breach rule (a\<lparr>peak_balance := P\<rparr>) (today_pnl now k s) = None \<longrightarrow> acc_status a' = acc_status a)"
proof -
  let ?t = "a\<lparr>peak_balance := P\<rparr>"
  have g: "get_or_create_risk_rule k a s = (rule, s)"
    using assms(6) by (simp add: get_or_create_risk_rule_def)
  note e = post_trade_enforcement[OF assms(1-3,5) g refl, folded assms(9)]
  have hit: "of_int m / 100 * P \<le> (P - balance a) * 100 \<Longrightarrow> drawdown_breach rule ?t \<noteq> None"
    by (rule drawdown_breach_reached[of _ _ m]) (use assms(7,8,10) in auto)
  have miss: "(P - balance a) * 100 \<le> (of_int m / 100 - 6 / 1000) * P \<Longrightarrow> drawdown_breach rule ?t = None"
    by (rule no_drawdown_breach[of _ _ m]) (use assms(7,8,10) in auto)
  have a': "acc_status a' = (if vs = [] then acc_status a else Suspendido)"
    using e[THEN conjunct1] by simp
  have vs: "vs \<noteq> [] \<longleftrightarrow> drawdown_breach rule ?t \<noteq> None \<or> daily_breach rule ?t (today_pnl now k s) \<noteq> None"
    using e[THEN conjunct2, THEN conjunct2, THEN conjunct1] assms(4) by blast
  show ?thesis using a' vs hit miss by metis
qed

theorem drawdown_limit_precise_witness:
  "\<exists>vs a' s'. check_and_enforce_risk 0 1 demo_challenge_account demo_risk = (vs, a', s')
     \<and> acc_status a' = Suspendido"
proof -
  obtain vs a' s' where r: "check_and_enforce_risk 0 1 demo_challenge_account demo_risk = (vs, a', s')"
    by (metis prod_cases3)
  have m: "rr_max_drawdown demo_rule = of_int 700 / 100" "\<bar>700 :: int\<bar> < 10 ^ 20" "(0 :: rat) < 100000"
    "(100000 :: rat) = max (peak_balance demo_challenge_account) (balance demo_challenge_account)"
    "cents (balance demo_challenge_account)" "cents (peak_balance demo_challenge_account)"
    "of_int 700 / 100 * (100000 :: rat) \<le> (100000 - balance demo_challenge_account) * 100"
    by (simp_all add: demo_risk_rows)
  have "acc_status a' = Suspendido"
    by (rule drawdown_limit_precise[OF demo_risk_rows(1) m(5,6) demo_risk_rows(6) r demo_risk_rows(2) m(1,2,4,3),
          THEN conjunct1, rule_format, OF m(7)])
  with r show ?thesis by blast
qed



subsection \<open>The gate before an order\<close>

abbreviation refused :: "order_error list \<Rightarrow> bool" where
  "refused es \<equiv> \<exists>e \<in> set es. oe_blocking e"

lemma lot_check_effect:
  assumes "lot_check now k a lot mx s = (es, s')"
  shows "accounts s' = accounts s" "ledger s' = ledger s" "snapshots s' = snapshots s"
    and "is_retail a \<Longrightarrow> \<not> refused es \<and> s' = s"
    and "\<not> is_retail a \<Longrightarrow> \<not> refused es \<Longrightarrow> lot \<le> mx \<and> s' = s"
  using assms by (auto simp: lot_check_def split: if_splits)

lemma breach_check_effect:
  assumes "breach_check now k a b l ty w rj s = (es, hs, s')"
  shows "accounts s' = accounts s" "ledger s' = ledger s" "snapshots s' = snapshots s"
    and "is_retail a \<Longrightarrow> \<not> refused es \<and> hs = [] \<and> s' = s"
    and "\<not> refused es \<Longrightarrow> hs = [] \<and> s' = s"
    and "\<not> is_retail a \<Longrightarrow> \<not> refused es \<Longrightarrow> b = None"
  using assms by (auto simp: breach_check_def split: option.splits if_splits)

text \<open>
  What the gate guarantees of an order on an account that is not blocked: an accepted
  order of a challenge or funded account is within the lot limit, the number of positions, the
  drawdown and the daily loss of the rule, and nothing but a missing rule is written; a retail order is
  refused only for the number of positions, and records nothing; and whenever the gate changes
  the status of an account it refuses the order, and the account becomes \<open>Violado\<close>.
\<close>

theorem pre_trade_gate:
  assumes "acc_status a \<notin> set BLOCKED_STATUSES" "accounts s k = Some a"
    and "validate_order_risk now k lot n symbol a s = (es, a', s')"
    and "get_or_create_risk_rule k a s = (rule, s0)"
  shows "(\<not> refused es \<and> \<not> is_retail a \<longrightarrow>
            py_repr lot \<le> (if is_crypto symbol then crypto_max_lot a else rr_max_lot rule)
            \<and> n < rr_max_positions rule \<and> drawdown_breach rule a = None
            \<and> daily_breach rule a (today_pnl now k s) = None \<and> s' = s0 \<and> a' = a)
    \<and> (is_retail a \<longrightarrow> (refused es \<longleftrightarrow> rr_max_positions rule \<le> n) \<and> s' = s0 \<and> a' = a)
    \<and> (acc_status a' \<noteq> acc_status a \<longrightarrow> refused es \<and> acc_status a' = Violado \<and> accounts s' k = Some a')"
proof -
  let ?mx = "if is_crypto symbol then crypto_max_lot a else rr_max_lot rule"
  let ?e2 = "if rr_max_positions rule \<le> n then [rejection MaxPositions] else []"
  obtain e1 s1 where l: "lot_check now k a (py_repr lot) ?mx s0 = (e1, s1)" by fastforce
  obtain e3 h3 s3 where b3: "breach_check now k a (daily_breach rule a (today_pnl now k s1))
      (rr_max_daily_loss rule) MAX_DAILY_LOSS DailyLossWarning DailyLossLimit s1 = (e3, h3, s3)"
    by (metis prod_cases3)
  obtain e4 h4 s4 where b4: "breach_check now k a (drawdown_breach rule a)
      (rr_max_drawdown rule) MAX_DRAWDOWN DrawdownWarning MaxDrawdown s3 = (e4, h4, s4)"
    by (metis prod_cases3)
  obtain b s5 where p: "punish now k Violado ''pre_trade_violation'' (h3 @ h4) a s4 = (b, s5)" by fastforce
  have "(es, a', s') = (e1 @ ?e2 @ e3 @ e4, b, s5)"
    unfolding assms(3)[symmetric] validate_order_risk_def
    using assms(1) by (simp only: assms(4) l b3 b4 p Let_def prod.case if_False if_cancel)
  then have res: "es = e1 @ ?e2 @ e3 @ e4" "a' = b" "s' = s5" by simp_all
  note f1 = lot_check_effect[OF l] and f3 = breach_check_effect[OF b3] and f4 = breach_check_effect[OF b4]
  note r = rule_effect[OF assms(4)]
  have row: "accounts s4 k = Some a" using assms(2) by (simp add: f4(1) f3(1) f1(1) r(1))
  note fp = punish_effect[OF p row]
  have quiet: "h3 @ h4 = [] \<Longrightarrow> b = a \<and> s5 = s4" using p by (simp add: punish_def)
  have day: "today_pnl now k s1 = today_pnl now k s"
    by (rule today_pnl_cong) (simp add: f1(2) r(2))
  have day0: "today_pnl now k s0 = today_pnl now k s"
    by (rule today_pnl_cong) (rule r(2))
  have acc: "py_repr lot \<le> ?mx \<and> n < rr_max_positions rule \<and> drawdown_breach rule a = None
        \<and> daily_breach rule a (today_pnl now k s) = None \<and> s' = s0 \<and> a' = a"
    if "\<not> refused es" "\<not> is_retail a"
  proof -
    have q: "\<not> refused e1" "\<not> refused ?e2" "\<not> refused e3" "\<not> refused e4" using that(1) res(1) by auto
    show ?thesis
      using f1(5)[OF that(2) q(1)] f3(5)[OF q(3)] f3(6)[OF that(2) q(3)] f4(5)[OF q(4)] f4(6)[OF that(2) q(4)]
        q(2) quiet res(2,3) by (simp add: day day0 split: if_splits)
  qed
  have ret: "(refused es \<longleftrightarrow> rr_max_positions rule \<le> n) \<and> s' = s0 \<and> a' = a" if "is_retail a"
    using f1(4)[OF that] f3(4)[OF that] f4(4)[OF that] quiet res by auto
  have viol: "refused es \<and> acc_status a' = Violado \<and> accounts s' k = Some a'" if "acc_status a' \<noteq> acc_status a"
  proof -
    have h: "h3 @ h4 \<noteq> []" using that fp(1) res(2) by auto
    then have "refused e3 \<or> refused e4" using f3(5) f4(5) by auto
    with h show ?thesis using fp(1,2) res by auto
  qed
  show ?thesis using acc ret viol by blast
qed

theorem pre_trade_gate_witness:
  "\<exists>es a' s'. validate_order_risk 0 1 1 0 ''EUR/USD'' (demo_challenge_account\<lparr>acc_type := RETAIL\<rparr>)
     (demo_risk\<lparr>accounts := [1 \<mapsto> demo_challenge_account\<lparr>acc_type := RETAIL\<rparr>]\<rparr>) = (es, a', s') \<and> \<not> refused es"
proof -
  let ?a = "demo_challenge_account\<lparr>acc_type := RETAIL\<rparr>"
  let ?s = "demo_risk\<lparr>accounts := [1 \<mapsto> ?a]\<rparr>"
  obtain es a' s' where r: "validate_order_risk 0 1 1 0 ''EUR/USD'' ?a ?s = (es, a', s')"
    by (metis prod_cases3)
  have g: "get_or_create_risk_rule 1 ?a ?s = (demo_rule, ?s)"
    by (simp add: get_or_create_risk_rule_def demo_risk_def)
  have st: "acc_status ?a \<notin> set BLOCKED_STATUSES" "accounts ?s 1 = Some ?a" "is_retail ?a"
    "\<not> rr_max_positions demo_rule \<le> 0"
    by (simp_all add: demo_risk_defs BLOCKED_STATUSES_def is_retail_def MARGIN_ENGINE_TYPES_def)
  have "\<not> refused es"
    using pre_trade_gate[OF st(1,2) r g, THEN conjunct2, THEN conjunct1] st(3,4) by blast
  with r show ?thesis by blast
qed

subsection \<open>The live stop-out\<close>

text \<open>
  The stop-out is monotone: for a given account and margin, an equity that triggers it
  keeps triggering it when it falls, and for a retail account more margin in use never
  un-triggers it; a retail account without positions is never stopped out, at whatever equity.
\<close>

theorem stopout_monotone:
  "(equity' \<le> equity0 \<and> check_equity_stopout equity0 peak t acc ty used level
      \<longrightarrow> check_equity_stopout equity' peak t acc ty used level)
   \<and> (0 \<le> equity0 \<and> 0 < used \<and> used \<le> used' \<and> x \<in> set MARGIN_ENGINE_TYPES
      \<and> check_equity_stopout equity0 peak t acc (Some x) used level
      \<longrightarrow> check_equity_stopout equity0 peak t acc (Some x) used' level)
   \<and> (x \<in> set MARGIN_ENGINE_TYPES \<longrightarrow> \<not> check_equity_stopout equity0 peak t acc (Some x) 0 level)"
proof -
  have m: "fl (fl (equity' / used) * 100) \<le> fl (fl (equity0 / used) * 100)" if "equity' \<le> equity0" "0 < used"
    using that by (intro flt.mono mult_right_mono divide_right_mono) auto
  have u: "fl (fl (equity0 / used') * 100) \<le> fl (fl (equity0 / used) * 100)" if "0 \<le> equity0" "0 < used" "used \<le> used'"
    using that by (intro flt.mono mult_right_mono divide_left_mono) auto
  show ?thesis
    using m u by (auto simp: check_equity_stopout_def retail_stopout_def drawdown_stopout_def split: if_splits)
qed

theorem stopout_monotone_witness:
  "\<not> check_equity_stopout 0 100 None None (Some RETAIL) 0 50"
proof -
  have "RETAIL \<in> set MARGIN_ENGINE_TYPES" by (simp add: MARGIN_ENGINE_TYPES_def)
  then show ?thesis
    by (rule stopout_monotone[of 0 0 100 None None None 0 50 0 RETAIL, THEN conjunct2, THEN conjunct2, rule_format])
qed

subsection \<open>Scores fit their columns\<close>

lemma fl_range: "a \<le> x \<Longrightarrow> x \<le> b \<Longrightarrow> fl a = a \<Longrightarrow> fl b = b \<Longrightarrow> a \<le> fl x \<and> fl x \<le> b"
  using flt.ge_repr flt.le_repr by blast

lemma fl_of_nat_div: "m \<le> n \<Longrightarrow> 0 < n \<Longrightarrow> 0 \<le> fl (of_nat m / of_nat n) \<and> fl (of_nat m / of_nat n) \<le> 1"
  by (intro fl_range) (simp_all add: divide_le_eq_1)

lemma martingale_triggers_le: "martingale_triggers ts \<le> length ts - 1"
  by (induction ts rule: martingale_triggers.induct) auto

lemma py_round_range:
  assumes "0 \<le> x" "x \<le> of_int b" "\<bar>b\<bar> < 2 ^ 53"
  shows "0 \<le> py_round n x \<and> py_round n x \<le> of_int b"
proof -
  have "quantize_he n (of_int b) = of_int b"
    using quantize_he_int_div[of n "b * 10 ^ n"] by simp
  from qhe.le_repr[OF this assms(2)] show ?thesis
    unfolding py_round_def using assms(1,3) by (intro fl_range) (auto simp: fl_int qhe.nonneg)
qed

lemma py_repr_range:
  assumes "0 \<le> x" "x \<le> 10 ^ j"
  shows "0 \<le> py_repr x \<and> py_repr x \<le> 10 ^ j"
proof (rule py_repr_cases[of x])
  fix n :: nat assume n: "0 < n" "py_repr x = round_sig 10 n x"
  have R: "rounding (round_sig 10 n)" using n(1) by (intro round_sig_rounding) auto
  have "1 < (10 :: int) ^ n" using n(1) by (intro one_less_power) auto
  then have "round_sig 10 n (10 ^ j) = 10 ^ j"
    using round_sig_repr[of 10 n 1 "int j"] n(1) by simp
  from rounding.le_repr[OF R this assms(2)] rounding.nonneg[OF R assms(1)] n(2) show ?thesis by simp
qed (use assms in simp)

definition unit_interval :: "rat \<Rightarrow> rat \<Rightarrow> bool" where
  "unit_interval b x \<longleftrightarrow> 0 \<le> x \<and> x \<le> b"

lemma column_range:
  assumes "0 \<le> x" "x \<le> 10 ^ j" "(10 :: int) ^ j < 2 ^ 53"
  shows "0 \<le> quantize_hu n (py_repr (py_round m x)) \<and> quantize_hu n (py_repr (py_round m x)) \<le> 10 ^ j"
proof -
  have "0 \<le> py_round m x \<and> py_round m x \<le> of_int (10 ^ j)"
    using assms by (intro py_round_range) auto
  then have r: "0 \<le> py_repr (py_round m x) \<and> py_repr (py_round m x) \<le> 10 ^ j"
    by (intro py_repr_range) auto
  have "quantize_hu n (10 ^ j) = 10 ^ j"
    using quantize_hu_int_div[of n "10 ^ j * 10 ^ n"] by simp
  with r show ?thesis using qhu.le_repr qhu.nonneg by blast
qed

lemma raw_metrics_range:
  assumes "5 \<le> length ts" "\<And>x y. 0 \<le> pow x y"
  shows "0 \<le> tm_win_rate (raw_metrics pow ts) \<and> tm_win_rate (raw_metrics pow ts) \<le> 100"
    and "0 \<le> tm_martingale (raw_metrics pow ts) \<and> tm_martingale (raw_metrics pow ts) \<le> 1"
    and "0 \<le> tm_consistency (raw_metrics pow ts) \<and> tm_consistency (raw_metrics pow ts) \<le> 100"
proof -
  let ?w = "length (filter (\<lambda>p. 0 < p) (map trade_pnl ts))"
  have "?w \<le> length ts" using length_filter_le[of "\<lambda>p. 0 < p" "map trade_pnl ts"] by simp
  then have "0 \<le> fl (of_nat ?w / of_nat (length ts)) \<and> fl (of_nat ?w / of_nat (length ts)) \<le> 1"
    using assms(1) by (intro fl_of_nat_div) auto
  then show "0 \<le> tm_win_rate (raw_metrics pow ts) \<and> tm_win_rate (raw_metrics pow ts) \<le> 100"
    by (simp add: raw_metrics_def Let_def) (intro fl_range, auto)
  show "0 \<le> tm_martingale (raw_metrics pow ts) \<and> tm_martingale (raw_metrics pow ts) \<le> 1"
    using fl_of_nat_div[of "martingale_triggers ts" "max (length ts - 1) 1"] martingale_triggers_le[of ts]
    by (simp add: raw_metrics_def Let_def)
  have "fl (100 - fl (fl (pow v (1/2) / fl (\<bar>m\<bar> + 1)) * 5)) \<le> 100" for v m
    using assms(2) by (intro flt.le_repr) (auto intro!: flt.nonneg mult_nonneg_nonneg divide_nonneg_nonneg)
  then show "0 \<le> tm_consistency (raw_metrics pow ts) \<and> tm_consistency (raw_metrics pow ts) \<le> 100"
    by (simp add: raw_metrics_def Let_def)
qed

text \<open>
  Scores fit their columns: if the power function returns no negative number, the
  row that a refresh writes has a win rate and a consistency between 0 and 100, a martingale rate
  between 0 and 1, whatever the trades; and fewer than five closed trades give
  \<open>NORMAL\<close>.
\<close>

theorem score_fits_columns:
  assumes "\<And>x y. 0 \<le> pow x y"
  shows "\<exists>row. scores (update_trader_score pow now k a s) k = Some row
      \<and> unit_interval 100 (ts_win_rate row) \<and> unit_interval 100 (ts_consistency row)
      \<and> unit_interval 1 (ts_martingale row)
      \<and> (length (last_closed k s) < 5 \<longrightarrow> ts_class row = NORMAL)"
proof -
  obtain c m s' where cl: "classify_trader pow k a s = ((c, m), s')" by (metis prod.exhaust)
  have row: "scores (update_trader_score pow now k a s) k = Some (score_row now c m)"
    by (simp add: update_trader_score_def cl)
  show ?thesis
  proof (cases "length (last_closed k s) < 5")
    case True
    then have "c = NORMAL" "m = None" using cl by (simp_all add: classify_trader_def)
    with row show ?thesis by (simp add: score_row_def unit_interval_def)
  next
    case False
    then have m: "m = Some (shown_metrics (raw_metrics pow (last_closed k s)))"
      using cl by (auto simp: classify_trader_def Let_def split: if_splits prod.splits)
    note rng = raw_metrics_range[of "last_closed k s" pow]
    have "unit_interval 100 (ts_win_rate (score_row now c m))" "unit_interval 100 (ts_consistency (score_row now c m))"
      "unit_interval 1 (ts_martingale (score_row now c m))"
      using column_range[of _ 2] column_range[of _ 0] rng False assms
      by (auto simp: m score_row_def shown_metrics_def unit_interval_def)
    with row False show ?thesis by blast
  qed
qed

theorem score_fits_columns_witness:
  "\<exists>row. scores (update_trader_score (\<lambda>x y. \<bar>x\<bar>) 0 1 demo_challenge_account demo_risk) 1 = Some row
     \<and> unit_interval 100 (ts_win_rate row)"
proof -
  have "\<And>x y. 0 \<le> \<bar>x :: rat\<bar>" by simp
  from score_fits_columns[of "\<lambda>x y. \<bar>x\<bar>", OF this] show ?thesis by blast
qed

end
