(* ===== verification/ChallengeEngine.thy ===== *)
theory ChallengeEngine
  imports RiskEngine
begin

section \<open>Challenge phases (\<open>simulator/challenge_engine.py\<close>)\<close>

text \<open>
  An enrollment goes from phase 1 over phase 2 to a funded account. Each phase has an
  account and a risk rule of its own, created from the product; an evaluation compares the
  account of the current phase with the product's rules and advances or fails the
  enrollment. The money arithmetic is \<open>Decimal\<close>: products and quotients are rounded
  to the context, \<open>quantize\<close> rounds half to even. The commercial pricing JSON of an account, and the texts of
  failures (a datatype here), are left out.
\<close>

subsection \<open>Tables\<close>

record phase_rules =
  ph_target_pct :: rat
  ph_max_drawdown :: rat
  ph_max_daily :: rat
  ph_min_days :: nat
  ph_max_days :: int

record challenge_product =
  cp_tier :: tier
  cp_size :: rat
  cp_phase1 :: phase_rules
  cp_phase2 :: phase_rules
  cp_split :: rat
  cp_max_lot :: rat
  cp_max_positions :: nat
  cp_spread_markup :: rat
  cp_commission_per_lot :: rat

datatype enrollment_status = ST_PHASE_1 | ST_PHASE_2 | ST_FUNDED | ST_FAILED | ST_WITHDRAWN

datatype fail_reason =
  NoActiveAccount | NotEvaluable | DrawdownExceeded rat rat | DailyLossExceeded rat rat
| DurationExceeded int int | NothingToEvaluate enrollment_status

record enrollment =
  en_product :: pk
  en_phase1 :: "pk option"
  en_phase2 :: "pk option"
  en_funded :: "pk option"
  en_status :: enrollment_status
  en_failed_at :: "enrollment_status option"
  en_reason :: "fail_reason option"
  en_phase1_passed :: "int option"
  en_phase2_passed :: "int option"
  en_funded_at :: "int option"

record funded_config =
  fc_internal :: bool
  fc_split :: rat
  fc_min_payout :: rat
  fc_min_days :: nat
  fc_cycle_days :: nat
  fc_max_monthly_dd :: rat
  fc_active :: bool

record challenge_db = risk_db +
  products :: "challenge_product table"
  enrollments :: "enrollment table"
  funded_configs :: "funded_config table"

datatype challenge_error =
  EnrollmentMissing | ProductMissing | AccountMissing | CannotAdvance enrollment_status
| RuleExists | ConfigExists

definition active_account :: "enrollment \<Rightarrow> pk option" where
  "active_account e =
     (case en_status e of ST_PHASE_1 \<Rightarrow> en_phase1 e | ST_PHASE_2 \<Rightarrow> en_phase2 e
      | ST_FUNDED \<Rightarrow> en_funded e | _ \<Rightarrow> None)"

subsection \<open>Figures\<close>

text \<open>\<open>(size * pct / 100).quantize(0.01)\<close>: the profit target and the drawdown limit in dollars.\<close>

definition percent_of :: "rat \<Rightarrow> rat \<Rightarrow> rat" where
  "percent_of amount p = quantize_he 2 (dec_ctx (dec_mult amount p / 100))"

definition ta_tier_for_product :: "challenge_product \<Rightarrow> tier option" where
  "ta_tier_for_product p = (if cp_tier p \<in> {T10K, T50K, T100K} then Some (cp_tier p) else None)"

definition peak_of :: "trading_account \<Rightarrow> rat" where
  "peak_of a = or_num (Some (peak_balance a)) (or_num (Some (balance a)) 1)"

definition trading_days :: "pk \<Rightarrow> 'a books_db_scheme \<Rightarrow> nat" where
  "trading_days k s =
     length (remdups (map (\<lambda>t. date_of (the (tr_closed_at t)))
       (List.map_filter (trades s)
         (rows_where (next_trade s) (trades s) (\<lambda>t. tr_account t = k \<and> tr_closed_at t \<noteq> None)))))"

definition realized_dd_pct :: "trading_account \<Rightarrow> rat" where
  "realized_dd_pct a =
     (if peak_of a \<le> 0 then 0 else max 0 (percent (peak_of a - balance a) (peak_of a)))"

definition realized_today :: "int \<Rightarrow> pk \<Rightarrow> 'a db_scheme \<Rightarrow> rat" where
  "realized_today now k s =
     sum_list (map le_amount (filter (\<lambda>e. le_account e = k \<and> le_event e = EV_REALIZED
        \<and> date_of (le_created_at e) = date_of now) (ledger s)))"

definition daily_realized_dd_pct :: "int \<Rightarrow> pk \<Rightarrow> trading_account \<Rightarrow> 'a db_scheme \<Rightarrow> rat" where
  "daily_realized_dd_pct now k a s =
     (let pnl = realized_today now k s
      in if 0 \<le> pnl then 0 else if peak_of a \<le> 0 then 0
         else quantize_he 2 (percent \<bar>pnl\<bar> (peak_of a)))"

definition days_elapsed :: "int \<Rightarrow> trading_account \<Rightarrow> int" where
  "days_elapsed now a = date_of now - date_of (acc_created_at a)"

definition profit_pct :: "trading_account \<Rightarrow> rat" where
  "profit_pct a =
     (case profit_target a of None \<Rightarrow> 0
      | Some t \<Rightarrow> if t \<le> 0 then 0
                  else quantize_he 2 (percent (balance a - or_num (initial_balance a) (balance a)) t))"

definition rules_of_phase :: "challenge_product \<Rightarrow> enrollment_status \<Rightarrow> phase_rules option" where
  "rules_of_phase p st =
     (case st of ST_PHASE_1 \<Rightarrow> Some (cp_phase1 p) | ST_PHASE_2 \<Rightarrow> Some (cp_phase2 p) | _ \<Rightarrow> None)"

subsection \<open>Evaluation\<close>

datatype eval_status = IN_PROGRESS | PASSED | FAILED

record eval_result =
  ev_status :: eval_status
  ev_reason :: "fail_reason option"

abbreviation failed :: "fail_reason \<Rightarrow> eval_result" where
  "failed r \<equiv> \<lparr>ev_status = FAILED, ev_reason = Some r\<rparr>"

definition evaluate_account ::
  "int \<Rightarrow> pk \<Rightarrow> trading_account \<Rightarrow> phase_rules \<Rightarrow> 'a books_db_scheme \<Rightarrow> eval_result" where
  "evaluate_account now k a r s =
     (if ph_max_drawdown r \<le> realized_dd_pct a
        then failed (DrawdownExceeded (realized_dd_pct a) (ph_max_drawdown r))
      else if ph_max_daily r \<le> daily_realized_dd_pct now k a s
        then failed (DailyLossExceeded (daily_realized_dd_pct now k a s) (ph_max_daily r))
      else if ph_max_days r < days_elapsed now a
        then failed (DurationExceeded (days_elapsed now a) (ph_max_days r))
      else if ph_target_pct r \<le> profit_pct a \<and> ph_min_days r \<le> trading_days k s
        then \<lparr>ev_status = PASSED, ev_reason = None\<rparr>
      else \<lparr>ev_status = IN_PROGRESS, ev_reason = None\<rparr>)"

definition evaluate_phase ::
  "int \<Rightarrow> enrollment \<Rightarrow> 'a challenge_db_scheme \<Rightarrow> challenge_error + eval_result" where
  "evaluate_phase now e s =
     (case active_account e of
        None \<Rightarrow> Inr (failed NoActiveAccount)
      | Some k \<Rightarrow>
         (case accounts s k of None \<Rightarrow> Inl AccountMissing
          | Some a \<Rightarrow>
             (case products s (en_product e) of None \<Rightarrow> Inl ProductMissing
              | Some p \<Rightarrow>
                 (case rules_of_phase p (en_status e) of None \<Rightarrow> Inr (failed NotEvaluable)
                  | Some r \<Rightarrow> Inr (evaluate_account now k a r s)))))"

subsection \<open>Creating the account of a phase\<close>

definition phase_account ::
  "challenge_product \<Rightarrow> account_type \<Rightarrow> phase \<Rightarrow> rat option \<Rightarrow> phase_rules \<Rightarrow> trading_account" where
  "phase_account p ty ph target r =
     \<lparr>acc_type = ty, acc_tier = ta_tier_for_product p, acc_phase = ph, balance = 10000, equity = 10000,
      peak_balance = 10000, drawdown = 0, initial_balance = Some (cp_size p), profit_target = target,
      max_drawdown = percent_of (cp_size p) (ph_max_drawdown r), currency = ''USD'', leverage = 50,
      stopout_level_snapshot = None, spread_pips_snapshot = Some (cp_spread_markup p),
      commission_per_lot_snapshot = Some (cp_commission_per_lot p), acc_status = Activo,
      acc_created_at = 0\<rparr>"

definition product_rule :: "challenge_product \<Rightarrow> phase_rules \<Rightarrow> risk_rule" where
  "product_rule p r =
     \<lparr>rr_max_daily_loss = ph_max_daily r, rr_max_drawdown = ph_max_drawdown r, rr_max_lot = cp_max_lot p,
      rr_max_positions = cp_max_positions p, rr_max_exposure = cp_size p\<rparr>"

definition create_rule ::
  "pk \<Rightarrow> risk_rule \<Rightarrow> 'a risk_db_scheme \<Rightarrow> challenge_error + 'a risk_db_scheme" where
  "create_rule k r s =
     (if risk_rules s k \<noteq> None then Inl RuleExists
      else Inr (s\<lparr>risk_rules := (risk_rules s)(k \<mapsto> store_rule r)\<rparr>))"

definition open_phase ::
  "int \<Rightarrow> challenge_product \<Rightarrow> account_type \<Rightarrow> phase \<Rightarrow> rat option \<Rightarrow> phase_rules
   \<Rightarrow> 'a risk_db_scheme \<Rightarrow> challenge_error + (pk \<times> 'a risk_db_scheme)" where
  "open_phase now p ty ph target r s =
     (let (k, s1) = create_account now (phase_account p ty ph target r) s
      in map_sum id (Pair k) (create_rule k (product_rule p r) s1))"

definition save_enrollment :: "pk \<Rightarrow> enrollment \<Rightarrow> 'a challenge_db_scheme \<Rightarrow> 'a challenge_db_scheme" where
  "save_enrollment n e s = s\<lparr>enrollments := (enrollments s)(n \<mapsto> e)\<rparr>"

definition complete_account :: "pk option \<Rightarrow> 'a db_scheme \<Rightarrow> 'a db_scheme" where
  "complete_account k s =
     (case k of None \<Rightarrow> s | Some j \<Rightarrow> update_account j (\<lambda>a. a\<lparr>acc_status := Completado\<rparr>) s)"

text \<open>\<open>select_for_update().select_related("product").get(pk)\<close>\<close>

definition locked ::
  "pk \<Rightarrow> 'a challenge_db_scheme \<Rightarrow> challenge_error + (enrollment \<times> challenge_product)" where
  "locked n s =
     (case enrollments s n of None \<Rightarrow> Inl EnrollmentMissing
      | Some e \<Rightarrow> (case products s (en_product e) of None \<Rightarrow> Inl ProductMissing | Some p \<Rightarrow> Inr (e, p)))"

definition existing :: "pk \<Rightarrow> 'a challenge_db_scheme \<Rightarrow> challenge_error + (pk \<times> 'a challenge_db_scheme)" where
  "existing k s = (if accounts s k = None then Inl AccountMissing else Inr (k, s))"

definition activate_challenge_enrollment ::
  "int \<Rightarrow> pk \<Rightarrow> 'a challenge_db_scheme \<Rightarrow> challenge_error + (pk \<times> 'a challenge_db_scheme)" where
  "activate_challenge_enrollment now n s =
     (case locked n s of Inl err \<Rightarrow> Inl err
      | Inr (e, p) \<Rightarrow>
         (case en_phase1 e of Some k \<Rightarrow> existing k s
          | None \<Rightarrow>
             (case open_phase now p CHALLENGE Fase1
                     (Some (percent_of (cp_size p) (ph_target_pct (cp_phase1 p)))) (cp_phase1 p) s of
                Inl err \<Rightarrow> Inl err
              | Inr (k, s1) \<Rightarrow>
                  Inr (k, save_enrollment n (e\<lparr>en_phase1 := Some k, en_status := ST_PHASE_1\<rparr>) s1))))"

definition advance_to_phase2 ::
  "int \<Rightarrow> pk \<Rightarrow> 'a challenge_db_scheme \<Rightarrow> challenge_error + (pk \<times> 'a challenge_db_scheme)" where
  "advance_to_phase2 now n s =
     (case locked n s of Inl err \<Rightarrow> Inl err
      | Inr (e, p) \<Rightarrow>
         (case en_phase2 e of Some k \<Rightarrow> existing k s
          | None \<Rightarrow>
             if en_status e \<noteq> ST_PHASE_1 then Inl (CannotAdvance (en_status e))
             else (case open_phase now p CHALLENGE Fase2
                     (Some (percent_of (cp_size p) (ph_target_pct (cp_phase2 p)))) (cp_phase2 p) s of
                Inl err \<Rightarrow> Inl err
              | Inr (k, s1) \<Rightarrow>
                  Inr (k, save_enrollment n
                    (e\<lparr>en_phase2 := Some k, en_status := ST_PHASE_2, en_phase1_passed := Some now\<rparr>)
                    (complete_account (en_phase1 e) s1)))))"

definition sim_config :: "challenge_product \<Rightarrow> funded_config" where
  "sim_config p =
     \<lparr>fc_internal = False, fc_split = cp_split p, fc_min_payout = 50, fc_min_days = 5,
      fc_cycle_days = 14, fc_max_monthly_dd = 5, fc_active = True\<rparr>"

definition advance_to_funded ::
  "int \<Rightarrow> pk \<Rightarrow> 'a challenge_db_scheme \<Rightarrow> challenge_error + (pk \<times> 'a challenge_db_scheme)" where
  "advance_to_funded now n s =
     (case locked n s of Inl err \<Rightarrow> Inl err
      | Inr (e, p) \<Rightarrow>
         (case en_funded e of Some k \<Rightarrow> existing k s
          | None \<Rightarrow>
             if en_status e \<noteq> ST_PHASE_2 then Inl (CannotAdvance (en_status e))
             else (case open_phase now p FUNDED FundedPhase None (cp_phase2 p) s of
                Inl err \<Rightarrow> Inl err
              | Inr (k, s1) \<Rightarrow>
                  if funded_configs s1 n \<noteq> None then Inl ConfigExists
                  else Inr (k, save_enrollment n
                    (e\<lparr>en_funded := Some k, en_status := ST_FUNDED, en_phase2_passed := Some now,
                      en_funded_at := Some now\<rparr>)
                    (complete_account (en_phase2 e)
                      (s1\<lparr>funded_configs := (funded_configs s1)(n \<mapsto> sim_config p)\<rparr>))))))"

definition mark_failed ::
  "pk \<Rightarrow> enrollment \<Rightarrow> fail_reason option \<Rightarrow> enrollment_status \<Rightarrow> 'a challenge_db_scheme \<Rightarrow> 'a challenge_db_scheme" where
  "mark_failed n e reason stage s =
     save_enrollment n (e\<lparr>en_status := ST_FAILED, en_failed_at := Some stage, en_reason := reason\<rparr>)
       (case active_account e of None \<Rightarrow> s
        | Some k \<Rightarrow> update_account k (\<lambda>a. a\<lparr>acc_status := Suspendido\<rparr>) s)"

definition evaluate_enrollment_now ::
  "int \<Rightarrow> pk \<Rightarrow> 'a challenge_db_scheme \<Rightarrow> challenge_error + (eval_result \<times> 'a challenge_db_scheme)" where
  "evaluate_enrollment_now now n s =
     (case locked n s of Inl err \<Rightarrow> Inl err
      | Inr (e, p) \<Rightarrow>
          if en_status e \<notin> {ST_PHASE_1, ST_PHASE_2}
          then Inr (\<lparr>ev_status = IN_PROGRESS, ev_reason = Some (NothingToEvaluate (en_status e))\<rparr>, s)
          else (case evaluate_phase now e s of Inl err \<Rightarrow> Inl err
            | Inr r \<Rightarrow>
               (case ev_status r of
                  PASSED \<Rightarrow> map_sum id (\<lambda>(_, s'). (r, s'))
                    (if en_status e = ST_PHASE_1 then advance_to_phase2 now n s else advance_to_funded now n s)
                | FAILED \<Rightarrow> Inr (r, mark_failed n e (ev_reason r) (en_status e) s)
                | IN_PROGRESS \<Rightarrow> Inr (r, s))))"

subsection \<open>When a phase is passed\<close>

lemma profit_pct_reaches:
  assumes "profit_target a = Some t" "0 < t" "initial_balance a = Some i" "i \<noteq> 0"
    and "of_int m / 100 * t \<le> (balance a - i) * 100" "\<bar>m\<bar> < 10 ^ 20"
  shows "of_int m / 100 \<le> profit_pct a"
proof -
  have "of_int m / 10 ^ 2 \<le> percent (balance a - i) t"
    using percent_reaches[OF assms(2,5)] assms(6) by simp
  from qhe.ge_repr[OF quantize_he_int_div this] show ?thesis
    using assms by (simp add: profit_pct_def)
qed

lemma profit_pct_below:
  assumes "profit_target a = Some t" "0 < t" "initial_balance a = Some i" "i \<noteq> 0"
    and "(balance a - i) * 100 \<le> (of_int m / 100 - 6 / 1000) * t" "\<bar>m\<bar> < 10 ^ 20"
  shows "profit_pct a < of_int m / 100"
proof -
  have "\<bar>10 * m - 6\<bar> < 10 ^ 28" using assms(6) by simp
  from percent_below[OF assms(2,5) this]
  have "percent (balance a - i) t \<le> of_int m / 100 - 6 / 1000" .
  moreover have "\<bar>quantize_he 2 (percent (balance a - i) t) - percent (balance a - i) t\<bar> \<le> 1 / 200"
    using quantize_he_near[of 2 "percent (balance a - i) t"] by simp
  ultimately have "quantize_he 2 (percent (balance a - i) t) < of_int m / 100" by linarith
  then show ?thesis using assms(1-4) by (simp add: profit_pct_def)
qed

definition not_failed :: "int \<Rightarrow> pk \<Rightarrow> trading_account \<Rightarrow> phase_rules \<Rightarrow> 'a books_db_scheme \<Rightarrow> bool" where
  "not_failed now k a r s \<longleftrightarrow> realized_dd_pct a < ph_max_drawdown r
     \<and> daily_realized_dd_pct now k a s < ph_max_daily r \<and> days_elapsed now a \<le> ph_max_days r"

text \<open>
  C27. A phase is passed at a percentage of its target, not at the target: the figure
  \<open>profit_pct\<close> is the gain as a percentage of the target in dollars, but it is compared with
  the target percentage of the account. An account within all limits and with enough trading days is therefore PASSED as soon as
  its gain is \<open>ph_target_pct\<close> percent of the target (8% of 800 dollars for the default
  product of 10000), and not passed when the gain is 0.006 points below that.
\<close>

theorem phase_passed_at_percentage_of_target:
  assumes "profit_target a = Some t" "0 < t" "initial_balance a = Some i" "i \<noteq> 0"
    and "ph_target_pct r = of_int m / 100" "\<bar>m\<bar> < 10 ^ 20"
    and "not_failed now k a r s" "ph_min_days r \<le> trading_days k s"
  shows "(of_int m / 100 * t \<le> (balance a - i) * 100 \<longrightarrow> ev_status (evaluate_account now k a r s) = PASSED)
    \<and> ((balance a - i) * 100 \<le> (of_int m / 100 - 6 / 1000) * t
        \<longrightarrow> ev_status (evaluate_account now k a r s) = IN_PROGRESS)"
proof -
  note hit = profit_pct_reaches[OF assms(1-4) _ assms(6)] and miss = profit_pct_below[OF assms(1-4) _ assms(6)]
  have e: "evaluate_account now k a r s =
    (if ph_target_pct r \<le> profit_pct a then \<lparr>ev_status = PASSED, ev_reason = None\<rparr>
     else \<lparr>ev_status = IN_PROGRESS, ev_reason = None\<rparr>)"
    using assms(7,8) by (simp add: evaluate_account_def not_failed_def)
  show ?thesis
  proof (intro conjI impI)
    assume "of_int m / 100 * t \<le> (balance a - i) * 100"
    from hit[OF this] show "ev_status (evaluate_account now k a r s) = PASSED" by (simp only: e assms(5) if_True eval_result.simps)
  next
    assume "(balance a - i) * 100 \<le> (of_int m / 100 - 6 / 1000) * t"
    from miss[OF this] have "\<not> of_int m / 100 \<le> profit_pct a" by (simp only: not_le)
    then show "ev_status (evaluate_account now k a r s) = IN_PROGRESS" by (simp only: e assms(5) if_False eval_result.simps)
  qed
qed

definition demo_rules :: phase_rules where
  "demo_rules = \<lparr>ph_target_pct = 8, ph_max_drawdown = 10, ph_max_daily = 5, ph_min_days = 0, ph_max_days = 30\<rparr>"

definition demo_product :: challenge_product where
  "demo_product = \<lparr>cp_tier = T10K, cp_size = 10000, cp_phase1 = demo_rules, cp_phase2 = demo_rules, cp_split = 80,
     cp_max_lot = 5, cp_max_positions = 30, cp_spread_markup = 0, cp_commission_per_lot = 0\<rparr>"

definition demo_gain :: trading_account where
  "demo_gain = demo_account\<lparr>acc_type := CHALLENGE, balance := 10064, equity := 10064, peak_balance := 10064,
     initial_balance := Some 10000, profit_target := Some 800\<rparr>"

theorem phase_passed_at_percentage_of_target_witness:
  "ev_status (evaluate_account 0 1 demo_gain demo_rules demo_risk) = PASSED"
proof -
  have p: "profit_target demo_gain = Some 800" "initial_balance demo_gain = Some 10000"
    "ph_target_pct demo_rules = of_int 800 / 100" "balance demo_gain = 10064" "ph_min_days demo_rules = 0"
    by (simp_all add: demo_gain_def demo_rules_def)
  have f: "not_failed 0 1 demo_gain demo_rules demo_risk"
    by (simp add: not_failed_def realized_dd_pct_def peak_of_def demo_gain_def demo_rules_def percent_def dctx.zero
        daily_realized_dd_pct_def realized_today_def demo_risk_def days_elapsed_def demo_account_def or_num_def)
  show ?thesis
    using phase_passed_at_percentage_of_target[OF p(1) _ p(2) _ p(3) _ f] p(4,5) by simp
qed

subsection \<open>Effects\<close>

definition opened ::
  "int \<Rightarrow> challenge_product \<Rightarrow> account_type \<Rightarrow> phase \<Rightarrow> rat option \<Rightarrow> phase_rules \<Rightarrow> 'a risk_db_scheme \<Rightarrow> 'a risk_db_scheme" where
  "opened now p ty ph t r s =
     s\<lparr>next_account := Suc (next_account s),
       accounts := (accounts s)(next_account s \<mapsto>
         store_account (sync_balances True ((phase_account p ty ph t r)\<lparr>acc_created_at := now\<rparr>))),
       risk_rules := (risk_rules s)(next_account s \<mapsto> store_rule (product_rule p r))\<rparr>"

lemma open_phase_eq:
  "open_phase now p ty ph t r s =
     (if risk_rules s (next_account s) \<noteq> None then Inl RuleExists
      else Inr (next_account s, opened now p ty ph t r s))"
  by (simp add: open_phase_def create_account_def save_account_def create_rule_def opened_def Let_def)

lemma locked_Inr: "locked n s = Inr (e, p) \<longleftrightarrow> enrollments s n = Some e \<and> products s (en_product e) = Some p"
  by (auto simp: locked_def split: option.splits)

lemma locked_cases:
  assumes "(case locked n s of Inl err \<Rightarrow> Inl err | Inr (e, p) \<Rightarrow> f e p) = Inr y"
  obtains e p where "enrollments s n = Some e" "products s (en_product e) = Some p" "f e p = Inr y"
  using assms by (cases "locked n s") (auto simp: locked_Inr)

lemma existing_Inr: "existing j s = Inr (k, s') \<longleftrightarrow> accounts s j \<noteq> None \<and> k = j \<and> s' = s"
  by (auto simp: existing_def)

definition activated :: "int \<Rightarrow> pk \<Rightarrow> enrollment \<Rightarrow> challenge_product \<Rightarrow> 'a challenge_db_scheme \<Rightarrow> 'a challenge_db_scheme" where
  "activated now n e p s =
     save_enrollment n (e\<lparr>en_phase1 := Some (next_account s), en_status := ST_PHASE_1\<rparr>)
       (opened now p CHALLENGE Fase1 (Some (percent_of (cp_size p) (ph_target_pct (cp_phase1 p)))) (cp_phase1 p) s)"

definition in_phase2 :: "int \<Rightarrow> pk \<Rightarrow> enrollment \<Rightarrow> challenge_product \<Rightarrow> 'a challenge_db_scheme \<Rightarrow> 'a challenge_db_scheme" where
  "in_phase2 now n e p s =
     save_enrollment n (e\<lparr>en_phase2 := Some (next_account s), en_status := ST_PHASE_2, en_phase1_passed := Some now\<rparr>)
       (complete_account (en_phase1 e)
         (opened now p CHALLENGE Fase2 (Some (percent_of (cp_size p) (ph_target_pct (cp_phase2 p)))) (cp_phase2 p) s))"

definition in_funded :: "int \<Rightarrow> pk \<Rightarrow> enrollment \<Rightarrow> challenge_product \<Rightarrow> 'a challenge_db_scheme \<Rightarrow> 'a challenge_db_scheme" where
  "in_funded now n e p s =
     save_enrollment n (e\<lparr>en_funded := Some (next_account s), en_status := ST_FUNDED, en_phase2_passed := Some now,
             en_funded_at := Some now\<rparr>)
       (complete_account (en_phase2 e)
         ((opened now p FUNDED FundedPhase None (cp_phase2 p) s)
            \<lparr>funded_configs := (funded_configs s)(n \<mapsto> sim_config p)\<rparr>))"

lemma opened_configs [simp]:
  "funded_configs (opened now p ty ph t r s) = funded_configs s"
  "enrollments (opened now p ty ph t r s) = enrollments s"
  "products (opened now p ty ph t r s) = products s"
  by (simp_all add: opened_def)

text \<open>Either the account of the phase exists and nothing changes, or it is created.\<close>

lemma activate_effect:
  assumes "activate_challenge_enrollment now n s = Inr (k, s')"
  shows "\<exists>e p. enrollments s n = Some e \<and> products s (en_product e) = Some p \<and>
    (en_phase1 e = Some k \<and> accounts s k \<noteq> None \<and> s' = s
     \<or> en_phase1 e = None \<and> k = next_account s \<and> risk_rules s k = None \<and> s' = activated now n e p s)"
proof -
  obtain e p where ep: "enrollments s n = Some e" "products s (en_product e) = Some p"
    and f: "(case en_phase1 e of Some k \<Rightarrow> existing k s
          | None \<Rightarrow>
             (case open_phase now p CHALLENGE Fase1
                     (Some (percent_of (cp_size p) (ph_target_pct (cp_phase1 p)))) (cp_phase1 p) s of
                Inl err \<Rightarrow> Inl err
              | Inr (k, s1) \<Rightarrow>
                  Inr (k, save_enrollment n (e\<lparr>en_phase1 := Some k, en_status := ST_PHASE_1\<rparr>) s1))) = Inr (k, s')"
    using assms unfolding activate_challenge_enrollment_def by (rule locked_cases)
  show ?thesis
  proof (cases "en_phase1 e")
    case None
    then show ?thesis using f ep by (auto simp add: open_phase_eq activated_def split: if_splits)
  next
    case (Some j)
    then show ?thesis using f ep by (simp add: existing_Inr)
  qed
qed

lemma advance2_effect:
  assumes "advance_to_phase2 now n s = Inr (k, s')"
  shows "\<exists>e p. enrollments s n = Some e \<and> products s (en_product e) = Some p \<and>
    (en_phase2 e = Some k \<and> accounts s k \<noteq> None \<and> s' = s
     \<or> en_phase2 e = None \<and> en_status e = ST_PHASE_1 \<and> k = next_account s \<and> risk_rules s k = None
       \<and> s' = in_phase2 now n e p s)"
proof -
  obtain e p where ep: "enrollments s n = Some e" "products s (en_product e) = Some p"
    and f: "(case en_phase2 e of Some k \<Rightarrow> existing k s
          | None \<Rightarrow>
             if en_status e \<noteq> ST_PHASE_1 then Inl (CannotAdvance (en_status e))
             else (case open_phase now p CHALLENGE Fase2
                     (Some (percent_of (cp_size p) (ph_target_pct (cp_phase2 p)))) (cp_phase2 p) s of
                Inl err \<Rightarrow> Inl err
              | Inr (k, s1) \<Rightarrow>
                  Inr (k, save_enrollment n
                    (e\<lparr>en_phase2 := Some k, en_status := ST_PHASE_2, en_phase1_passed := Some now\<rparr>)
                    (complete_account (en_phase1 e) s1)))) = Inr (k, s')"
    using assms unfolding advance_to_phase2_def by (rule locked_cases)
  show ?thesis
  proof (cases "en_phase2 e")
    case None
    then show ?thesis using f ep by (auto simp add: open_phase_eq in_phase2_def split: if_splits)
  next
    case (Some j)
    then show ?thesis using f ep by (simp add: existing_Inr)
  qed
qed

lemma advance_funded_effect:
  assumes "advance_to_funded now n s = Inr (k, s')"
  shows "\<exists>e p. enrollments s n = Some e \<and> products s (en_product e) = Some p \<and>
    (en_funded e = Some k \<and> accounts s k \<noteq> None \<and> s' = s
     \<or> en_funded e = None \<and> en_status e = ST_PHASE_2 \<and> k = next_account s \<and> risk_rules s k = None
       \<and> funded_configs s n = None \<and> s' = in_funded now n e p s)"
proof -
  obtain e p where ep: "enrollments s n = Some e" "products s (en_product e) = Some p"
    and f: "(case en_funded e of Some k \<Rightarrow> existing k s
          | None \<Rightarrow>
             if en_status e \<noteq> ST_PHASE_2 then Inl (CannotAdvance (en_status e))
             else (case open_phase now p FUNDED FundedPhase None (cp_phase2 p) s of
                Inl err \<Rightarrow> Inl err
              | Inr (k, s1) \<Rightarrow>
                  if funded_configs s1 n \<noteq> None then Inl ConfigExists
                  else Inr (k, save_enrollment n
                    (e\<lparr>en_funded := Some k, en_status := ST_FUNDED, en_phase2_passed := Some now,
                      en_funded_at := Some now\<rparr>)
                    (complete_account (en_phase2 e)
                      (s1\<lparr>funded_configs := (funded_configs s1)(n \<mapsto> sim_config p)\<rparr>))))) = Inr (k, s')"
    using assms unfolding advance_to_funded_def by (rule locked_cases)
  show ?thesis
  proof (cases "en_funded e")
    case None
    then show ?thesis using f ep by (auto simp add: open_phase_eq in_funded_def split: if_splits)
  next
    case (Some j)
    then show ?thesis using f ep by (simp add: existing_Inr)
  qed
qed

lemma evaluate_effect:
  assumes "evaluate_enrollment_now now n s = Inr (r, s')"
  shows "\<exists>e. enrollments s n = Some e \<and>
    (s' = s
     \<or> en_status e \<in> {ST_PHASE_1, ST_PHASE_2} \<and> s' = mark_failed n e (ev_reason r) (en_status e) s
     \<or> en_status e = ST_PHASE_1 \<and> en_phase1 e \<noteq> None \<and> (\<exists>k. advance_to_phase2 now n s = Inr (k, s'))
     \<or> en_status e = ST_PHASE_2 \<and> en_phase2 e \<noteq> None \<and> (\<exists>k. advance_to_funded now n s = Inr (k, s')))"
proof -
  obtain e p where e: "enrollments s n = Some e" and
    f: "(if en_status e \<notin> {ST_PHASE_1, ST_PHASE_2}
          then Inr (\<lparr>ev_status = IN_PROGRESS, ev_reason = Some (NothingToEvaluate (en_status e))\<rparr>, s)
          else (case evaluate_phase now e s of Inl err \<Rightarrow> Inl err
            | Inr r \<Rightarrow>
               (case ev_status r of
                  PASSED \<Rightarrow> map_sum id (\<lambda>(_, s'). (r, s'))
                    (if en_status e = ST_PHASE_1 then advance_to_phase2 now n s else advance_to_funded now n s)
                | FAILED \<Rightarrow> Inr (r, mark_failed n e (ev_reason r) (en_status e) s)
                | IN_PROGRESS \<Rightarrow> Inr (r, s)))) = Inr (r, s')"
    using assms unfolding evaluate_enrollment_now_def by (rule locked_cases)
  show ?thesis
  proof (cases "en_status e \<in> {ST_PHASE_1, ST_PHASE_2}")
    case False
    then show ?thesis using f e by simp
  next
    case st: True
    then obtain q where q: "evaluate_phase now e s = Inr q"
      using f by (cases "evaluate_phase now e s") auto
    have act: "ev_status q = PASSED \<Longrightarrow> active_account e \<noteq> None"
      using q by (cases "active_account e") (auto simp: evaluate_phase_def)
    show ?thesis
    proof (cases "ev_status q")
      case PASSED
      then have a: "active_account e \<noteq> None" by (rule act)
      show ?thesis
      proof (cases "en_status e = ST_PHASE_1")
        case True
        then have "map_sum id (\<lambda>(_, s'). (q, s')) (advance_to_phase2 now n s) = Inr (r, s')"
          using f st q PASSED by simp
        then have "\<exists>k. advance_to_phase2 now n s = Inr (k, s')"
          by (cases "advance_to_phase2 now n s") auto
        then show ?thesis using e True a by (simp add: active_account_def)
      next
        case False
        then have "map_sum id (\<lambda>(_, s'). (q, s')) (advance_to_funded now n s) = Inr (r, s')"
          using f st q PASSED by simp
        then have "\<exists>k. advance_to_funded now n s = Inr (k, s')"
          by (cases "advance_to_funded now n s") auto
        then show ?thesis using e False st a by (simp add: active_account_def)
      qed
    qed (use f e st q in auto)
  qed
qed

subsection \<open>The life of enrollments\<close>

definition phase_ids :: "enrollment \<Rightarrow> pk list" where
  "phase_ids e = List.map_filter id [en_phase1 e, en_phase2 e, en_funded e]"

definition enroll_ok :: "pk \<Rightarrow> enrollment \<Rightarrow> 'a challenge_db_scheme \<Rightarrow> bool" where
  "enroll_ok n e s \<longleftrightarrow>
     (en_phase1 e = None \<longrightarrow> en_phase2 e = None \<and> en_status e \<in> {ST_PHASE_1, ST_FAILED})
     \<and> (en_status e = ST_PHASE_1 \<longrightarrow> en_phase2 e = None)
     \<and> (en_status e = ST_PHASE_2 \<longrightarrow> en_phase2 e \<noteq> None)
     \<and> (en_status e = ST_FUNDED \<longleftrightarrow> en_funded e \<noteq> None)
     \<and> (en_phase2 e \<noteq> None \<longrightarrow> en_phase1_passed e \<noteq> None)
     \<and> (en_funded e \<noteq> None \<longrightarrow> en_phase2 e \<noteq> None \<and> en_phase2_passed e \<noteq> None)
     \<and> (funded_configs s n \<noteq> None \<longleftrightarrow> en_funded e \<noteq> None)
     \<and> distinct (phase_ids e)
     \<and> (\<forall>k \<in> set (phase_ids e). k < next_account s \<and> accounts s k \<noteq> None \<and> risk_rules s k \<noteq> None)"

definition challenge_inv :: "'a challenge_db_scheme \<Rightarrow> bool" where
  "challenge_inv s \<longleftrightarrow>
     (\<forall>n e. enrollments s n = Some e \<longrightarrow> enroll_ok n e s)
     \<and> (\<forall>n m e d. enrollments s n = Some e \<and> enrollments s m = Some d \<and> n \<noteq> m
          \<longrightarrow> set (phase_ids e) \<inter> set (phase_ids d) = {})"

definition new_enrollment :: "pk \<Rightarrow> enrollment" where
  "new_enrollment p =
     \<lparr>en_product = p, en_phase1 = None, en_phase2 = None, en_funded = None, en_status = ST_PHASE_1,
      en_failed_at = None, en_reason = None, en_phase1_passed = None, en_phase2_passed = None,
      en_funded_at = None\<rparr>"

text \<open>
  What the rest of the system may do between two steps: trade, pay, open other accounts,
  suspend; it never deletes an account or a rule and does not write the tables of this component.
\<close>

definition outside :: "challenge_db \<Rightarrow> challenge_db \<Rightarrow> bool" where
  "outside s s' \<longleftrightarrow> enrollments s' = enrollments s \<and> funded_configs s' = funded_configs s
     \<and> next_account s \<le> next_account s' \<and> dom (accounts s) \<subseteq> dom (accounts s')
     \<and> dom (risk_rules s) \<subseteq> dom (risk_rules s')"

inductive challenge_step :: "challenge_db \<Rightarrow> challenge_db \<Rightarrow> bool" where
  grant: "enrollments s n = None \<Longrightarrow> funded_configs s n = None \<Longrightarrow>
    challenge_step s (save_enrollment n (new_enrollment p) s)"
| activate: "activate_challenge_enrollment now n s = Inr (k, s') \<Longrightarrow> challenge_step s s'"
| evaluate: "evaluate_enrollment_now now n s = Inr (r, s') \<Longrightarrow> challenge_step s s'"
| others: "outside s s' \<Longrightarrow> challenge_step s s'"

text \<open>A row only grows, and an activated enrollment that is over never changes.\<close>

definition row_grows :: "enrollment \<Rightarrow> enrollment \<Rightarrow> bool" where
  "row_grows e e' \<longleftrightarrow>
     (en_phase1 e \<noteq> None \<longrightarrow> en_phase1 e' = en_phase1 e) \<and> (en_phase2 e \<noteq> None \<longrightarrow> en_phase2 e' = en_phase2 e)
     \<and> (en_funded e \<noteq> None \<longrightarrow> en_funded e' = en_funded e)
     \<and> (en_phase1 e \<noteq> None \<and> en_status e \<notin> {ST_PHASE_1, ST_PHASE_2} \<longrightarrow> e' = e)"

definition enrollments_grow :: "'a challenge_db_scheme \<Rightarrow> 'a challenge_db_scheme \<Rightarrow> bool" where
  "enrollments_grow s s' \<longleftrightarrow>
     (\<forall>n e. enrollments s n = Some e \<longrightarrow> (\<exists>e'. enrollments s' n = Some e' \<and> row_grows e e'))"

lemma row_grows_refl [simp]: "row_grows e e"
  by (simp add: row_grows_def)

lemma row_grows_trans: "row_grows e e' \<Longrightarrow> row_grows e' e'' \<Longrightarrow> row_grows e e''"
  unfolding row_grows_def by (metis (no_types))

lemma grow_refl [simp]: "enrollments_grow s s"
  by (simp add: enrollments_grow_def)

lemma grow_trans: "enrollments_grow s s' \<Longrightarrow> enrollments_grow s' s'' \<Longrightarrow> enrollments_grow s s''"
  unfolding enrollments_grow_def by (meson row_grows_trans)

text \<open>One row changes, and gains at most the next account.\<close>

lemma enroll_ok_ids:
  "enroll_ok n e s \<Longrightarrow> k \<in> set (phase_ids e) \<Longrightarrow>
     k < next_account s \<and> accounts s k \<noteq> None \<and> risk_rules s k \<noteq> None"
  unfolding enroll_ok_def by blast

lemma one_row_changes:
  assumes inv: "challenge_inv s" and e: "enrollments s n = Some e \<or> enrollments s n = None \<and> phase_ids e = []"
    and en: "enrollments s' = (enrollments s)(n \<mapsto> e')"
    and cfg: "\<And>m. m \<noteq> n \<Longrightarrow> funded_configs s' m = funded_configs s m"
    and nx: "next_account s \<le> next_account s'"
    and dm: "dom (accounts s) \<subseteq> dom (accounts s')" "dom (risk_rules s) \<subseteq> dom (risk_rules s')"
    and ok: "enroll_ok n e' s'" and ids: "set (phase_ids e') \<subseteq> insert (next_account s) (set (phase_ids e))"
  shows "challenge_inv s'"
proof -
  have old: "enroll_ok m d s" if "enrollments s m = Some d" for m d
    using inv that by (simp add: challenge_inv_def)
  have lt: "k < next_account s" if "enrollments s m = Some d" "k \<in> set (phase_ids d)" for m d k
    using enroll_ok_ids[OF old[OF that(1)] that(2)] by blast
  have keep: "enroll_ok m d s'" if "enrollments s m = Some d" "m \<noteq> n" for m d
  proof -
    have "k < next_account s' \<and> accounts s' k \<noteq> None \<and> risk_rules s' k \<noteq> None" if k: "k \<in> set (phase_ids d)" for k
      using enroll_ok_ids[OF old[OF \<open>enrollments s m = Some d\<close>] k] nx dm by (auto simp: subset_iff)
    then show ?thesis using old[OF that(1)] unfolding enroll_ok_def cfg[OF that(2)] by blast
  qed
  have apart0: "set (phase_ids x) \<inter> set (phase_ids y) = {}"
    if "enrollments s a = Some x" "enrollments s b = Some y" "a \<noteq> b" for a b x y
    using inv that unfolding challenge_inv_def by blast
  have apart: "set (phase_ids e') \<inter> set (phase_ids d) = {}" if "enrollments s m = Some d" "m \<noteq> n" for m d
  proof -
    have "next_account s \<notin> set (phase_ids d)" using lt[OF that(1)] by auto
    moreover have "set (phase_ids e) \<inter> set (phase_ids d) = {}"
      using e apart0[OF _ that(1), of n e] that(2) by auto
    ultimately show ?thesis using ids by auto
  qed
  show ?thesis
    unfolding challenge_inv_def
  proof (intro conjI allI impI, goal_cases)
    case (1 m d)
    then show ?case using ok keep by (cases "m = n") (auto simp: en)
  next
    case (2 m m' d d')
    then show ?case
      using apart[of m d] apart[of m' d'] apart0[of m d m' d']
      by (cases "m = n"; cases "m' = n") (auto simp: en)
  qed
qed

lemma complete_account_simps [simp]:
  "next_account (complete_account k s) = next_account s"
  "enrollments (complete_account k c) = enrollments c"
  "funded_configs (complete_account k c) = funded_configs c"
  "products (complete_account k c) = products c"
  "risk_rules (complete_account k r) = risk_rules r"
  "dom (accounts (complete_account k s)) = dom (accounts s)"
  by (auto simp: complete_account_def update_account_def split: option.splits)

lemma complete_account_None [simp]: "accounts (complete_account k s) j = None \<longleftrightarrow> accounts s j = None"
  by (auto simp: complete_account_def update_account_def split: option.splits)

lemma opened_simps [simp]:
  "next_account (opened now p ty ph t r s) = Suc (next_account s)"
  "accounts (opened now p ty ph t r s) j = None \<longleftrightarrow> j \<noteq> next_account s \<and> accounts s j = None"
  "risk_rules (opened now p ty ph t r s) j = None \<longleftrightarrow> j \<noteq> next_account s \<and> risk_rules s j = None"
  by (auto simp: opened_def)

lemma opened_dom [simp]:
  "dom (accounts s) \<subseteq> dom (accounts (opened now p ty ph t r s))"
  "dom (risk_rules s) \<subseteq> dom (risk_rules (opened now p ty ph t r s))"
  by (auto simp: opened_def)

lemma save_enrollment_simps [simp]:
  "enrollments (save_enrollment n e s) = (enrollments s)(n \<mapsto> e)"
  "funded_configs (save_enrollment n e s) = funded_configs s"
  "next_account (save_enrollment n e s) = next_account s"
  "accounts (save_enrollment n e s) = accounts s"
  "risk_rules (save_enrollment n e s) = risk_rules s"
  "products (save_enrollment n e s) = products s"
  by (simp_all add: save_enrollment_def)

lemma phase_ids_set:
  "set (phase_ids e) = {k. en_phase1 e = Some k \<or> en_phase2 e = Some k \<or> en_funded e = Some k}"
  by (auto simp: phase_ids_def map_filter_simps split: option.splits)

lemma distinct_phase_ids:
  "distinct (phase_ids e) \<longleftrightarrow>
     (en_phase1 e \<noteq> None \<longrightarrow> en_phase1 e \<noteq> en_phase2 e \<and> en_phase1 e \<noteq> en_funded e)
     \<and> (en_phase2 e \<noteq> None \<longrightarrow> en_phase2 e \<noteq> en_funded e)"
  by (auto simp: phase_ids_def map_filter_simps split: option.splits)

lemma activated_keeps:
  assumes inv: "challenge_inv s" and e: "enrollments s n = Some e" "en_phase1 e = None"
  shows "challenge_inv (activated now n e p s)" "enrollments_grow s (activated now n e p s)"
proof -
  let ?e = "e\<lparr>en_phase1 := Some (next_account s), en_status := ST_PHASE_1\<rparr>"
  have ok: "enroll_ok n e s" using inv e by (simp add: challenge_inv_def)
  then have none: "en_phase2 e = None" "en_funded e = None" "funded_configs s n = None"
    using e(2) by (auto simp: enroll_ok_def)
  then have ids: "phase_ids ?e = [next_account s]" by (simp add: phase_ids_def map_filter_simps)
  have "enroll_ok n ?e (activated now n e p s)"
    unfolding enroll_ok_def ids using none ok by (simp add: activated_def enroll_ok_def)
  then show "challenge_inv (activated now n e p s)"
    using one_row_changes[OF inv disjI1[OF e(1)], of "activated now n e p s" ?e]
    by (auto simp: activated_def ids)
  show "enrollments_grow s (activated now n e p s)"
    using e none by (auto simp: enrollments_grow_def activated_def row_grows_def)
qed

lemma in_phase2_keeps:
  assumes inv: "challenge_inv s" and e: "enrollments s n = Some e" "en_phase2 e = None"
    "en_status e = ST_PHASE_1" "en_phase1 e \<noteq> None"
  shows "challenge_inv (in_phase2 now n e p s)" "enrollments_grow s (in_phase2 now n e p s)"
proof -
  let ?e = "e\<lparr>en_phase2 := Some (next_account s), en_status := ST_PHASE_2, en_phase1_passed := Some now\<rparr>"
  obtain k where k: "en_phase1 e = Some k" using e(4) by blast
  have ok: "enroll_ok n e s" using inv e by (simp add: challenge_inv_def)
  then have none: "en_funded e = None" "funded_configs s n = None"
    using e(3) by (auto simp: enroll_ok_def)
  have ids: "phase_ids ?e = [k, next_account s]" "phase_ids e = [k]"
    using none e(2) k by (simp_all add: phase_ids_def map_filter_simps)
  have "k < next_account s \<and> accounts s k \<noteq> None \<and> risk_rules s k \<noteq> None"
    using enroll_ok_ids[OF ok] ids(2) by simp
  then have "enroll_ok n ?e (in_phase2 now n e p s)"
    unfolding enroll_ok_def ids using none k by (simp add: in_phase2_def)
  then show "challenge_inv (in_phase2 now n e p s)"
    using one_row_changes[OF inv disjI1[OF e(1)], of "in_phase2 now n e p s" ?e]
    by (auto simp: in_phase2_def ids)
  show "enrollments_grow s (in_phase2 now n e p s)"
    using e none by (auto simp: enrollments_grow_def in_phase2_def row_grows_def)
qed

lemma in_funded_keeps:
  assumes inv: "challenge_inv s" and e: "enrollments s n = Some e" "en_funded e = None"
    "en_status e = ST_PHASE_2" "en_phase2 e \<noteq> None"
  shows "challenge_inv (in_funded now n e p s)" "enrollments_grow s (in_funded now n e p s)"
proof -
  let ?e = "e\<lparr>en_funded := Some (next_account s), en_status := ST_FUNDED, en_phase2_passed := Some now,
     en_funded_at := Some now\<rparr>"
  have ok: "enroll_ok n e s" using inv e by (simp add: challenge_inv_def)
  have "en_phase1 e \<noteq> None" using ok e(4) by (auto simp: enroll_ok_def)
  then obtain k j where k: "en_phase1 e = Some k" "en_phase2 e = Some j" using e(4) by blast
  have ids: "phase_ids ?e = [k, j, next_account s]" "phase_ids e = [k, j]"
    using e(2) k by (simp_all add: phase_ids_def map_filter_simps)
  have d: "k \<noteq> j" "en_phase1_passed e \<noteq> None" using ok ids(2) k by (auto simp: enroll_ok_def)
  have "k < next_account s \<and> accounts s k \<noteq> None \<and> risk_rules s k \<noteq> None"
    "j < next_account s \<and> accounts s j \<noteq> None \<and> risk_rules s j \<noteq> None"
    using enroll_ok_ids[OF ok] ids(2) by simp_all
  then have "enroll_ok n ?e (in_funded now n e p s)"
    unfolding enroll_ok_def ids using k d by (simp add: in_funded_def)
  then show "challenge_inv (in_funded now n e p s)"
    using one_row_changes[OF inv disjI1[OF e(1)], of "in_funded now n e p s" ?e]
    by (auto simp: in_funded_def ids)
  show "enrollments_grow s (in_funded now n e p s)"
    using e by (auto simp: enrollments_grow_def in_funded_def row_grows_def)
qed

lemma mark_failed_simps [simp]:
  "enrollments (mark_failed n e r st s) = (enrollments s)(n \<mapsto> e\<lparr>en_status := ST_FAILED, en_failed_at := Some st, en_reason := r\<rparr>)"
  "funded_configs (mark_failed n e r st s) = funded_configs s"
  "next_account (mark_failed n e r st s) = next_account s"
  "risk_rules (mark_failed n e r st s) = risk_rules s"
  "dom (accounts (mark_failed n e r st s)) = dom (accounts s)"
  by (auto simp: mark_failed_def update_account_def split: option.splits)

lemma mark_failed_None [simp]: "accounts (mark_failed n e r st s) j = None \<longleftrightarrow> accounts s j = None"
  by (auto simp: mark_failed_def update_account_def split: option.splits)

lemma mark_failed_keeps:
  assumes inv: "challenge_inv s" and e: "enrollments s n = Some e" "en_status e \<in> {ST_PHASE_1, ST_PHASE_2}"
  shows "challenge_inv (mark_failed n e r st s)" "enrollments_grow s (mark_failed n e r st s)"
proof -
  let ?e = "e\<lparr>en_status := ST_FAILED, en_failed_at := Some st, en_reason := r\<rparr>"
  have ok: "enroll_ok n e s" using inv e by (simp add: challenge_inv_def)
  have ids: "phase_ids ?e = phase_ids e" by (simp add: phase_ids_def)
  have "en_funded e = None" using ok e(2) by (auto simp: enroll_ok_def)
  then have "enroll_ok n ?e (mark_failed n e r st s)"
    unfolding enroll_ok_def ids using ok by (simp add: enroll_ok_def)
  then show "challenge_inv (mark_failed n e r st s)"
    using one_row_changes[OF inv disjI1[OF e(1)], of "mark_failed n e r st s" ?e]
    by (auto simp: ids)
  show "enrollments_grow s (mark_failed n e r st s)"
    using e by (auto simp: enrollments_grow_def row_grows_def)
qed

lemma outside_keeps:
  assumes "challenge_inv s" "outside s s'"
  shows "challenge_inv s'" "enrollments_grow s s'"
proof -
  have "enroll_ok n e s'" if ok: "enroll_ok n e s" for n e
  proof -
    have "k < next_account s' \<and> accounts s' k \<noteq> None \<and> risk_rules s' k \<noteq> None" if "k \<in> set (phase_ids e)" for k
      using enroll_ok_ids[OF ok that] assms(2) by (auto simp: outside_def subset_iff)
    moreover have "funded_configs s' = funded_configs s" using assms(2) by (simp add: outside_def)
    ultimately show ?thesis using ok by (simp add: enroll_ok_def)
  qed
  then show "challenge_inv s'" using assms by (simp add: challenge_inv_def outside_def)
  show "enrollments_grow s s'" using assms(2) by (simp add: enrollments_grow_def outside_def)
qed

lemma grant_keeps:
  assumes "challenge_inv s" "enrollments s n = None" "funded_configs s n = None"
  shows "challenge_inv (save_enrollment n (new_enrollment p) s)"
    "enrollments_grow s (save_enrollment n (new_enrollment p) s)"
proof -
  have ids: "phase_ids (new_enrollment p) = []" by (simp add: phase_ids_def new_enrollment_def map_filter_simps)
  have "enroll_ok n (new_enrollment p) (save_enrollment n (new_enrollment p) s)"
    unfolding enroll_ok_def ids using assms(3) by (simp add: new_enrollment_def)
  then show "challenge_inv (save_enrollment n (new_enrollment p) s)"
    using one_row_changes[OF assms(1) disjI2, of n "new_enrollment p" "save_enrollment n (new_enrollment p) s"
        "new_enrollment p"] assms(2) ids by auto
  show "enrollments_grow s (save_enrollment n (new_enrollment p) s)"
    using assms(2) by (auto simp: enrollments_grow_def)
qed

lemma challenge_step_keeps:
  assumes "challenge_step s s'" "challenge_inv s"
  shows "challenge_inv s' \<and> enrollments_grow s s'"
  using assms
proof cases
  case (grant n p)
  with grant_keeps[OF assms(2) grant(2,3)] show ?thesis by blast
next
  case (activate now n k)
  from activate_effect[OF activate] activated_keeps[OF assms(2)] assms(2) show ?thesis by auto
next
  case (evaluate now n r)
  from evaluate_effect[OF evaluate] obtain e where e: "enrollments s n = Some e"
    and c: "s' = s
     \<or> en_status e \<in> {ST_PHASE_1, ST_PHASE_2} \<and> s' = mark_failed n e (ev_reason r) (en_status e) s
     \<or> en_status e = ST_PHASE_1 \<and> en_phase1 e \<noteq> None \<and> (\<exists>k. advance_to_phase2 now n s = Inr (k, s'))
     \<or> en_status e = ST_PHASE_2 \<and> en_phase2 e \<noteq> None \<and> (\<exists>k. advance_to_funded now n s = Inr (k, s'))"
    by blast
  from c show ?thesis
  proof (elim disjE conjE exE)
    assume "s' = s" then show ?thesis using assms(2) by simp
  next
    assume "en_status e \<in> {ST_PHASE_1, ST_PHASE_2}" "s' = mark_failed n e (ev_reason r) (en_status e) s"
    then show ?thesis using mark_failed_keeps[OF assms(2) e] by simp
  next
    fix k assume "en_status e = ST_PHASE_1" "en_phase1 e \<noteq> None" "advance_to_phase2 now n s = Inr (k, s')"
    with advance2_effect[OF this(3)] e in_phase2_keeps[OF assms(2) e] assms(2) show ?thesis by auto
  next
    fix k assume "en_status e = ST_PHASE_2" "en_phase2 e \<noteq> None" "advance_to_funded now n s = Inr (k, s')"
    with advance_funded_effect[OF this(3)] e in_funded_keeps[OF assms(2) e] assms(2) show ?thesis by auto
  qed
next
  case others
  with outside_keeps[OF assms(2) others] show ?thesis by blast
qed

lemma challenge_steps_keep:
  "challenge_step\<^sup>*\<^sup>* s s' \<Longrightarrow> challenge_inv s \<Longrightarrow> challenge_inv s' \<and> enrollments_grow s s'"
  by (induction rule: rtranclp_induct) (use challenge_step_keeps grow_trans in \<open>auto, blast\<close>)

lemma cents_percent_of [simp]: "cents (percent_of x p)"
proof -
  have "percent_of x p = of_int (round_half_even (dec_ctx (dec_mult x p / 100) * 10\<^sup>2)) / 100"
    by (simp add: percent_of_def quantize_he_def)
  then show ?thesis by (simp only: col2_of_int_div)
qed

lemma challenge_inv_empty:
  "enrollments s = Map.empty \<Longrightarrow> challenge_inv s"
  by (simp add: challenge_inv_def)


text \<open>
  Each phase opens its account once: activation and both promotions return the same
  account and change nothing when they are repeated; an account opened for phase 1 starts with the size of the product
  as balance, equity, peak and initial balance, active, with the product's target and the product's limits in its rule.
\<close>

theorem phase_accounts_opened_once:
  "(activate_challenge_enrollment now n s = Inr (k, s') \<longrightarrow> activate_challenge_enrollment now' n s' = Inr (k, s'))
   \<and> (advance_to_phase2 now n s = Inr (k, s') \<longrightarrow> advance_to_phase2 now' n s' = Inr (k, s'))
   \<and> (advance_to_funded now n s = Inr (k, s') \<longrightarrow> advance_to_funded now' n s' = Inr (k, s'))
   \<and> (activate_challenge_enrollment now n s = Inr (k, s') \<and> accounts s k = None
        \<and> enrollments s n = Some e \<and> products s (en_product e) = Some p \<and> cents (cp_size p) \<longrightarrow>
        (\<exists>a. accounts s' k = Some a \<and> balance a = cp_size p \<and> equity a = cp_size p
           \<and> peak_balance a = cp_size p \<and> initial_balance a = Some (cp_size p) \<and> acc_status a = Activo
           \<and> profit_target a = Some (percent_of (cp_size p) (ph_target_pct (cp_phase1 p)))
           \<and> risk_rules s' k = Some (store_rule (product_rule p (cp_phase1 p)))))"
proof (intro conjI impI)
  assume "activate_challenge_enrollment now n s = Inr (k, s')"
  from activate_effect[OF this] obtain e p where ep: "enrollments s n = Some e" "products s (en_product e) = Some p"
    and c: "en_phase1 e = Some k \<and> accounts s k \<noteq> None \<and> s' = s
       \<or> en_phase1 e = None \<and> k = next_account s \<and> risk_rules s k = None \<and> s' = activated now n e p s" by blast
  then show "activate_challenge_enrollment now' n s' = Inr (k, s')"
    by (auto simp: activate_challenge_enrollment_def locked_def existing_def activated_def)
next
  assume "advance_to_phase2 now n s = Inr (k, s')"
  from advance2_effect[OF this] show "advance_to_phase2 now' n s' = Inr (k, s')"
    by (auto simp: advance_to_phase2_def locked_def existing_def in_phase2_def)
next
  assume "advance_to_funded now n s = Inr (k, s')"
  from advance_funded_effect[OF this] show "advance_to_funded now' n s' = Inr (k, s')"
    by (auto simp: advance_to_funded_def locked_def existing_def in_funded_def)
next
  assume a: "activate_challenge_enrollment now n s = Inr (k, s') \<and> accounts s k = None
        \<and> enrollments s n = Some e \<and> products s (en_product e) = Some p \<and> cents (cp_size p)"
  then have c: "k = next_account s" "s' = activated now n e p s"
    using activate_effect[of now n s k s'] by auto
  show "\<exists>a. accounts s' k = Some a \<and> balance a = cp_size p \<and> equity a = cp_size p
           \<and> peak_balance a = cp_size p \<and> initial_balance a = Some (cp_size p) \<and> acc_status a = Activo
           \<and> profit_target a = Some (percent_of (cp_size p) (ph_target_pct (cp_phase1 p)))
           \<and> risk_rules s' k = Some (store_rule (product_rule p (cp_phase1 p)))"
    using a[THEN conjunct2, THEN conjunct2, THEN conjunct2, THEN conjunct2] unfolding c
    by (simp add: activated_def opened_def store_account_def sync_balances_def
        starting_balance_def phase_account_def Let_def)
qed

text \<open>
  C28. An enrollment that is evaluated before it is activated is lost: a fresh grant has no
  account yet but has the status the batch looks for, so its evaluation fails it with the reason that there is
  no active account; activating it afterwards puts it back into phase 1, with the failure still recorded.
\<close>

theorem unactivated_grant_fails:
  assumes "enrollments s n = Some (new_enrollment q)" "products s q = Some p" "risk_rules s (next_account s) = None"
  shows "\<exists>r s' k s''. evaluate_enrollment_now now n s = Inr (r, s') \<and> ev_status r = FAILED
     \<and> map_option en_status (enrollments s' n) = Some ST_FAILED
     \<and> activate_challenge_enrollment now n s' = Inr (k, s'')
     \<and> map_option en_status (enrollments s'' n) = Some ST_PHASE_1
     \<and> map_option en_reason (enrollments s'' n) = Some (Some NoActiveAccount)"
proof -
  let ?e = "new_enrollment q"
  let ?s = "mark_failed n ?e (Some NoActiveAccount) ST_PHASE_1 s"
  have r: "evaluate_phase now ?e s = Inr (failed NoActiveAccount)"
    by (simp add: evaluate_phase_def active_account_def new_enrollment_def)
  have e: "evaluate_enrollment_now now n s = Inr (failed NoActiveAccount, ?s)"
    using assms(1,2) r by (simp add: evaluate_enrollment_now_def locked_def new_enrollment_def)
  have p: "products ?s q = Some p" "en_product ?e = q" "en_phase1 ?e = None"
    using assms(2) by (simp_all add: mark_failed_def save_enrollment_def active_account_def new_enrollment_def)
  have "activate_challenge_enrollment now n ?s = Inr (next_account s,
      activated now n (?e\<lparr>en_status := ST_FAILED, en_failed_at := Some ST_PHASE_1, en_reason := Some NoActiveAccount\<rparr>) p ?s)"
    using p assms(3) by (simp add: activate_challenge_enrollment_def locked_def open_phase_eq activated_def)
  then show ?thesis using e
    by (intro exI[of _ "failed NoActiveAccount"] exI[of _ ?s] exI conjI) (assumption | simp add: activated_def)+
qed

subsection \<open>The abstract course of a challenge\<close>

datatype stage = Granted | InPhase1 | InPhase2 | InFunded | Forfeited | Lost | Withdrawn

definition stage_of :: "enrollment \<Rightarrow> stage" where
  "stage_of e =
     (case en_status e of
        ST_PHASE_1 \<Rightarrow> (if en_phase1 e = None then Granted else InPhase1)
      | ST_PHASE_2 \<Rightarrow> InPhase2 | ST_FUNDED \<Rightarrow> InFunded
      | ST_FAILED \<Rightarrow> (if en_phase1 e = None then Forfeited else Lost) | ST_WITHDRAWN \<Rightarrow> Withdrawn)"

inductive stage_step :: "stage \<Rightarrow> stage \<Rightarrow> bool" where
  "stage_step Granted InPhase1"
| "stage_step Granted Forfeited"
| "stage_step Forfeited InPhase1"
| "stage_step InPhase1 InPhase2"
| "stage_step InPhase1 Lost"
| "stage_step InPhase2 InFunded"
| "stage_step InPhase2 Lost"

inductive_simps stage_step_simps [simp]:
  "stage_step Granted y" "stage_step Forfeited y" "stage_step InPhase1 y" "stage_step InPhase2 y"
  "stage_step InFunded y" "stage_step Lost y" "stage_step Withdrawn y"

definition refines :: "'a challenge_db_scheme \<Rightarrow> 'a challenge_db_scheme \<Rightarrow> bool" where
  "refines s s' \<longleftrightarrow>
     (\<forall>n e. enrollments s n = Some e \<longrightarrow>
        (\<exists>e'. enrollments s' n = Some e' \<and> stage_step\<^sup>*\<^sup>* (stage_of e) (stage_of e')))"

lemma refines_refl [simp]: "refines s s"
  by (simp add: refines_def)

lemma refines_trans: "refines s s' \<Longrightarrow> refines s' s'' \<Longrightarrow> refines s s''"
  unfolding refines_def by (meson rtranclp_trans)

lemma refines_row:
  assumes "enrollments s n = Some e" "enrollments s' = (enrollments s)(n \<mapsto> e')"
    "stage_step (stage_of e) (stage_of e')"
  shows "refines s s'"
  using assms by (auto simp: refines_def)

lemma challenge_step_refines:
  assumes "challenge_step s s'" "challenge_inv s"
  shows "refines s s'"
  using assms
proof cases
  case (grant n p)
  then show ?thesis by (auto simp: refines_def)
next
  case (activate now n k)
  from activate_effect[OF activate] obtain e p where e: "enrollments s n = Some e"
    and c: "s' = s \<or> en_phase1 e = None \<and> s' = activated now n e p s" by blast
  have "enroll_ok n e s" using assms(2) e by (simp add: challenge_inv_def)
  then have "en_phase1 e = None \<Longrightarrow> en_status e = ST_PHASE_1 \<or> en_status e = ST_FAILED"
    by (simp add: enroll_ok_def)
  then have "en_phase1 e = None \<Longrightarrow> refines s (activated now n e p s)"
    by (intro refines_row[OF e]) (auto simp: activated_def stage_of_def)
  with c show ?thesis by auto
next
  case (evaluate now n r)
  from evaluate_effect[OF evaluate] obtain e where e: "enrollments s n = Some e"
    and c: "s' = s
     \<or> en_status e \<in> {ST_PHASE_1, ST_PHASE_2} \<and> s' = mark_failed n e (ev_reason r) (en_status e) s
     \<or> en_status e = ST_PHASE_1 \<and> en_phase1 e \<noteq> None \<and> (\<exists>k. advance_to_phase2 now n s = Inr (k, s'))
     \<or> en_status e = ST_PHASE_2 \<and> en_phase2 e \<noteq> None \<and> (\<exists>k. advance_to_funded now n s = Inr (k, s'))"
    by blast
  have ok: "enroll_ok n e s" using assms(2) e by (simp add: challenge_inv_def)
  from c show ?thesis
  proof (elim disjE conjE exE)
    assume h: "en_status e \<in> {ST_PHASE_1, ST_PHASE_2}" "s' = mark_failed n e (ev_reason r) (en_status e) s"
    moreover have "en_phase1 e = None \<Longrightarrow> en_status e \<noteq> ST_PHASE_2" using ok by (auto simp: enroll_ok_def)
    ultimately have "stage_step (stage_of e) (if en_phase1 e = None then Forfeited else Lost)"
      by (auto simp: stage_of_def)
    moreover have "stage_of (e\<lparr>en_status := ST_FAILED, en_failed_at := Some (en_status e), en_reason := ev_reason r\<rparr>)
        = (if en_phase1 e = None then Forfeited else Lost)"
      by (simp add: stage_of_def)
    ultimately show ?thesis
      by (intro refines_row[OF e, of _ "e\<lparr>en_status := ST_FAILED, en_failed_at := Some (en_status e), en_reason := ev_reason r\<rparr>"])
        (simp_all only: h mark_failed_simps)
  next
    fix k assume h: "en_status e = ST_PHASE_1" "en_phase1 e \<noteq> None" "advance_to_phase2 now n s = Inr (k, s')"
    have "refines s (in_phase2 now n e p s)" for p
      using h(1,2) by (intro refines_row[OF e]) (auto simp: in_phase2_def stage_of_def)
    with advance2_effect[OF h(3)] e show ?thesis by auto
  next
    fix k assume h: "en_status e = ST_PHASE_2" "en_phase2 e \<noteq> None" "advance_to_funded now n s = Inr (k, s')"
    have "refines s (in_funded now n e p s)" for p
      using h(1,2) by (intro refines_row[OF e]) (auto simp: in_funded_def stage_of_def)
    with advance_funded_effect[OF h(3)] e show ?thesis by auto
  qed simp
next
  case others
  then show ?thesis by (auto simp: refines_def outside_def)
qed

text \<open>
  C6. The engine refines the course a challenge is meant to take: over every sequence of
  its operations, interleaved with the rest of the system, the stage of an enrollment moves only
  along granted, phase 1, phase 2, funded, with a failure from either phase (and the
  forfeit of a grant that was never activated); no other move, backwards or skipping a phase, is possible.
\<close>

theorem challenge_refines_stages:
  assumes "enrollments s0 = Map.empty" "challenge_step\<^sup>*\<^sup>* s0 s" "challenge_step\<^sup>*\<^sup>* s s'"
    and "enrollments s n = Some e"
  shows "\<exists>e'. enrollments s' n = Some e' \<and> stage_step\<^sup>*\<^sup>* (stage_of e) (stage_of e')"
proof -
  have inv: "challenge_inv s" using challenge_steps_keep[OF assms(2)] challenge_inv_empty[OF assms(1)] by blast
  have "refines s s'"
    using assms(3)
  proof (induction rule: rtranclp_induct)
    case (step s1 s2)
    have "challenge_inv s1" using challenge_steps_keep[OF step(1) inv] by blast
    with step challenge_step_refines refines_trans show ?case by blast
  qed simp
  with assms(4) show ?thesis by (simp add: refines_def)
qed

subsection \<open>Concrete instances\<close>

definition demo_challenges :: challenge_db where
  "demo_challenges =
     \<lparr>accounts = [1 \<mapsto> demo_challenge_account], next_account = 2, positions = Map.empty, next_position = 0,
      ledger = [], wallets = Map.empty, user_wallet = Map.empty, next_wallet = 0, wallet_txs = [],
      transfers = Map.empty, next_transfer = 0, broker_ledger = [], trades = Map.empty, next_trade = 0,
      adjustments = [], risk_rules = [1 \<mapsto> demo_rule], violations = [], snapshots = Map.empty,
      scores = Map.empty, products = [5 \<mapsto> demo_product], enrollments = Map.empty,
      funded_configs = Map.empty\<rparr>"

lemma demo_challenges_rows:
  "enrollments demo_challenges = Map.empty" "funded_configs demo_challenges = Map.empty"
  "products demo_challenges 5 = Some demo_product" "next_account demo_challenges = 2"
  "risk_rules demo_challenges 2 = None" "accounts demo_challenges 2 = None"
  by (simp_all add: demo_challenges_def)

lemma activate_fresh:
  assumes "enrollments s n = Some e" "products s (en_product e) = Some p" "en_phase1 e = None"
    "risk_rules s (next_account s) = None"
  shows "activate_challenge_enrollment now n s = Inr (next_account s, activated now n e p s)"
  using assms by (simp add: activate_challenge_enrollment_def locked_def open_phase_eq activated_def)

definition demo_granted :: challenge_db where
  "demo_granted = save_enrollment 0 (new_enrollment 5) demo_challenges"

lemma demo_granted_rows:
  "enrollments demo_granted 0 = Some (new_enrollment 5)" "products demo_granted 5 = Some demo_product"
  "en_product (new_enrollment 5) = 5" "en_phase1 (new_enrollment 5) = None" "next_account demo_granted = 2"
  "risk_rules demo_granted 2 = None" "accounts demo_granted 2 = None"
  by (simp_all add: demo_granted_def demo_challenges_rows new_enrollment_def)

lemma demo_activation:
  "activate_challenge_enrollment 0 0 demo_granted = Inr (2, activated 0 0 (new_enrollment 5) demo_product demo_granted)"
  using activate_fresh[of demo_granted 0 "new_enrollment 5" demo_product 0] by (simp add: demo_granted_rows)


theorem challenge_refines_stages_witness:
  "\<exists>e'. enrollments (activated 0 0 (new_enrollment 5) demo_product demo_granted) 0 = Some e'
     \<and> stage_step\<^sup>*\<^sup>* Granted (stage_of e')"
proof -
  have "challenge_step demo_challenges demo_granted"
    unfolding demo_granted_def by (rule challenge_step.grant) (simp_all add: demo_challenges_rows)
  moreover have "challenge_step demo_granted (activated 0 0 (new_enrollment 5) demo_product demo_granted)"
    by (rule challenge_step.activate[OF demo_activation])
  moreover have "stage_of (new_enrollment 5) = Granted" by (simp add: stage_of_def new_enrollment_def)
  ultimately show ?thesis
    using challenge_refines_stages[OF demo_challenges_rows(1) _ _ demo_granted_rows(1)] by auto
qed

theorem phase_accounts_opened_once_witness:
  "\<exists>s. activate_challenge_enrollment 0 0 demo_granted = Inr (2, s)
     \<and> activate_challenge_enrollment 99 0 s = Inr (2, s)
     \<and> map_option balance (accounts s 2) = Some 10000"
proof -
  let ?s = "activated 0 0 (new_enrollment 5) demo_product demo_granted"
  have size: "cp_size demo_product = 10000" by (simp add: demo_product_def)
  have "\<exists>a. accounts ?s 2 = Some a \<and> balance a = cp_size demo_product"
    using phase_accounts_opened_once[of 0 0 demo_granted 2 ?s 99 "new_enrollment 5" demo_product, THEN conjunct2,
        THEN conjunct2, THEN conjunct2] demo_activation by (auto simp: demo_granted_rows size)
  moreover have "activate_challenge_enrollment 99 0 ?s = Inr (2, ?s)"
    using phase_accounts_opened_once[THEN conjunct1, rule_format, OF demo_activation] .
  ultimately show ?thesis using demo_activation size by auto
qed

theorem unactivated_grant_fails_witness:
  "\<exists>r s'. evaluate_enrollment_now 0 0 demo_granted = Inr (r, s') \<and> ev_status r = FAILED"
  using unactivated_grant_fails[OF demo_granted_rows(1,2), of 0] by (auto simp: demo_granted_rows)

end
