(* ===== verification/ProviderRouter.thy ===== *)
theory ProviderRouter
  imports Instruments "HOL-Library.Product_Lexorder"
begin

section \<open>Price provider router (\<open>market_data/router\<close>, \<open>runtime_router\<close>, \<open>contracts\<close>)\<close>

text \<open>
  Which price provider serves a symbol: the capability registry, route plans with their checks, the
  circuit breaker of one provider and symbol, the decision, and the process-wide state around it.
  \<open>now\<close> is the clock in seconds. The store of breakers is a map from provider and symbol; a
  \<open>ValueError\<close> is \<open>Inl\<close>. Log lines are left out.
\<close>

subsection \<open>Capability registry (\<open>providers/registry.py\<close> and the adapters)\<close>

definition provider_profiles :: "(string \<times> capability list) list" where
  "provider_profiles =
     [(''binance'', [REALTIME_TICKS, BID_ASK, OHLC, HISTORY, WEBSOCKET, REST]),
      (''kraken'', [REALTIME_TICKS, BID_ASK, OHLC, HISTORY, WEBSOCKET, REST]),
      (''finnhub'', [REALTIME_TICKS, LAST_PRICE, WEBSOCKET, REST])]"

definition get_profile :: "string \<Rightarrow> capability list option" where
  "get_profile p = map_of provider_profiles p"

definition supports :: "string \<Rightarrow> capability \<Rightarrow> bool option" where
  "supports p c = map_option (\<lambda>cs. c \<in> set cs) (get_profile p)"

subsection \<open>Plans (\<open>router/models.py\<close>)\<close>

datatype source_state = LIVE | SECONDARY | SIMULATION | RECOVERY | STALE | SOURCE_CLOSED

datatype route_reason =
  PRIMARY_SELECTED | SECONDARY_SELECTED | PROVIDER_DISABLED | CAPABILITY_MISMATCH | CIRCUIT_OPEN
| HALF_OPEN_PROBE | SIMULATION_FALLBACK | NO_PROVIDER_AVAILABLE

record route_entry =
  re_provider :: string
  re_canonical :: string
  re_symbol :: string
  re_priority :: int
  re_required :: "capability list"
  re_enabled :: bool

record route_plan =
  rp_symbol :: string
  rp_entries :: "route_entry list"
  rp_simulation :: bool
  rp_degraded_policy :: order_policy
  rp_max_failures :: int
  rp_cooldown :: int
  rp_successes :: int

datatype route_error =
  EmptyRouteField string | NegativePriority | ForeignEntry string | PrioritiesNotUnique
| NeedsEnabledEntry | BadThreshold string | BadRoutePolicy | UnknownProvider string
| LacksCapabilities string | BadProfile profile_error

definition entry_error :: "route_entry \<Rightarrow> route_error option" where
  "entry_error e =
     (if re_provider e = '''' then Some (EmptyRouteField ''provider_id'')
      else if re_canonical e = '''' then Some (EmptyRouteField ''canonical_symbol'')
      else if re_symbol e = '''' then Some (EmptyRouteField ''provider_symbol'')
      else if re_priority e < 0 then Some NegativePriority
      else None)"

definition plan_error :: "route_plan \<Rightarrow> route_error option" where
  "plan_error p =
     (if rp_symbol p = '''' then Some (EmptyRouteField ''canonical_symbol'')
      else case find (\<lambda>e. re_canonical e \<noteq> rp_symbol p) (rp_entries p) of
        Some e \<Rightarrow> Some (ForeignEntry (re_provider e))
      | None \<Rightarrow>
      if \<not> distinct (map re_priority (rp_entries p)) then Some PrioritiesNotUnique
      else if \<not> rp_simulation p \<and> \<not> (\<exists>e \<in> set (rp_entries p). re_enabled e) then Some NeedsEnabledEntry
      else if rp_max_failures p < 1 then Some (BadThreshold ''max_failures'')
      else if rp_cooldown p \<le> 0 then Some (BadThreshold ''open_cooldown_seconds'')
      else if rp_successes p < 1 then Some (BadThreshold ''half_open_successes_required'')
      else if rp_degraded_policy p \<notin> {CLOSE_ONLY, HALT_NEW_ORDERS} then Some BadRoutePolicy
      else None)"

subsection \<open>From a profile to a plan (\<open>instruments/routing.py\<close>)\<close>

record router_policy =
  po_failures :: int
  po_cooldown :: int
  po_successes :: int

definition default_policy_for_asset_class :: "string \<Rightarrow> router_policy" where
  "default_policy_for_asset_class a =
     (case map_of
        [(''crypto'', \<lparr>po_failures = 3, po_cooldown = 10, po_successes = 2\<rparr>),
         (''forex'', \<lparr>po_failures = 3, po_cooldown = 15, po_successes = 2\<rparr>),
         (''metal'', \<lparr>po_failures = 3, po_cooldown = 15, po_successes = 2\<rparr>),
         (''energy'', \<lparr>po_failures = 3, po_cooldown = 20, po_successes = 2\<rparr>),
         (''index'', \<lparr>po_failures = 3, po_cooldown = 20, po_successes = 2\<rparr>)] a of
        Some p \<Rightarrow> p
      | None \<Rightarrow> \<lparr>po_failures = 3, po_cooldown = 20, po_successes = 2\<rparr>)"

definition plan_entry :: "string \<Rightarrow> nat \<times> symbol_mapping \<Rightarrow> route_error + route_entry" where
  "plan_entry canonical = (\<lambda>(i, m).
     case get_profile (sm_provider m) of
       None \<Rightarrow> Inl (UnknownProvider (sm_provider m))
     | Some caps \<Rightarrow>
         if \<not> set (sm_required m) \<subseteq> set caps then Inl (LacksCapabilities (sm_provider m))
         else let e = \<lparr>re_provider = sm_provider m, re_canonical = canonical, re_symbol = sm_symbol m,
                       re_priority = int i, re_required = sm_required m, re_enabled = True\<rparr>
              in case entry_error e of Some x \<Rightarrow> Inl x | None \<Rightarrow> Inr e)"

fun collect :: "('a \<Rightarrow> 'e + 'b) \<Rightarrow> 'a list \<Rightarrow> 'e + 'b list" where
  "collect f [] = Inr []"
| "collect f (x # xs) = (case f x of Inl e \<Rightarrow> Inl e
     | Inr y \<Rightarrow> (case collect f xs of Inl e \<Rightarrow> Inl e | Inr ys \<Rightarrow> Inr (y # ys)))"

definition build_route_plan :: "instrument_profile \<Rightarrow> router_policy option \<Rightarrow> route_error + route_plan" where
  "build_route_plan p policy =
     (let pol = (case policy of None \<Rightarrow> default_policy_for_asset_class (ip_asset_class p) | Some x \<Rightarrow> x);
          ms = sort_key sm_priority (filter sm_enabled (ip_mappings p))
      in case collect (plan_entry (ip_symbol p)) (enumerate 0 ms) of
           Inl e \<Rightarrow> Inl e
         | Inr es \<Rightarrow>
             let plan = \<lparr>rp_symbol = ip_symbol p, rp_entries = es, rp_simulation = ip_simulation p,
                   rp_degraded_policy = ip_degraded_policy p, rp_max_failures = po_failures pol,
                   rp_cooldown = po_cooldown pol, rp_successes = po_successes pol\<rparr>
             in case plan_error plan of Some e \<Rightarrow> Inl e | None \<Rightarrow> Inr plan)"

subsection \<open>Circuit breaker (\<open>router/breaker.py\<close>)\<close>

datatype health = CLOSED | OPEN | HALF_OPEN

record breaker =
  bk_health :: health
  bk_failures :: nat
  bk_opened :: "int option"
  bk_last_failure :: "int option"
  bk_successes :: nat
  bk_error :: "string option"

definition fresh_breaker :: breaker where
  "fresh_breaker = \<lparr>bk_health = CLOSED, bk_failures = 0, bk_opened = None, bk_last_failure = None,
     bk_successes = 0, bk_error = None\<rparr>"

definition record_success :: "route_plan \<Rightarrow> breaker \<Rightarrow> breaker" where
  "record_success plan b =
     (case bk_health b of
        HALF_OPEN \<Rightarrow>
          let n = bk_successes b + 1
          in if rp_successes plan \<le> int n
             then b\<lparr>bk_health := CLOSED, bk_failures := 0, bk_opened := None, bk_successes := 0, bk_error := None\<rparr>
             else b\<lparr>bk_successes := n\<rparr>
      | OPEN \<Rightarrow> b
      | CLOSED \<Rightarrow> b\<lparr>bk_failures := 0, bk_error := None\<rparr>)"

definition record_failure :: "route_plan \<Rightarrow> int \<Rightarrow> string option \<Rightarrow> breaker \<Rightarrow> breaker" where
  "record_failure plan now err b =
     (let n = bk_failures b + 1
      in case bk_health b of
           HALF_OPEN \<Rightarrow> b\<lparr>bk_health := OPEN, bk_opened := Some now, bk_last_failure := Some now,
               bk_successes := 0, bk_failures := n, bk_error := err\<rparr>
         | OPEN \<Rightarrow> b\<lparr>bk_failures := n, bk_last_failure := Some now, bk_error := err\<rparr>
         | CLOSED \<Rightarrow>
             if rp_max_failures plan \<le> int n
             then b\<lparr>bk_health := OPEN, bk_failures := n, bk_opened := Some now, bk_last_failure := Some now,
                 bk_error := err\<rparr>
             else b\<lparr>bk_failures := n, bk_last_failure := Some now, bk_error := err\<rparr>)"

definition maybe_transition_to_half_open :: "route_plan \<Rightarrow> int \<Rightarrow> breaker \<Rightarrow> breaker" where
  "maybe_transition_to_half_open plan now b =
     (case bk_opened b of
        Some t \<Rightarrow> if bk_health b = OPEN \<and> rp_cooldown plan \<le> now - t
                   then b\<lparr>bk_health := HALF_OPEN, bk_successes := 0\<rparr> else b
      | None \<Rightarrow> b)"

subsection \<open>The router (\<open>router/router.py\<close>)\<close>

type_synonym breakers = "string \<times> string \<Rightarrow> breaker option"

text \<open>
  \<open>get_breaker_state\<close> inserts a fresh breaker for a new key; an empty name raises, here the
  provider's (the symbol of a plan is never empty).
\<close>

definition get_breaker_state :: "breakers \<Rightarrow> string \<Rightarrow> string \<Rightarrow> (breaker \<times> breakers) option" where
  "get_breaker_state bs pid s =
     (case bs (pid, s) of
        Some b \<Rightarrow> Some (b, bs)
      | None \<Rightarrow> if pid = '''' \<or> s = '''' then None
                 else Some (fresh_breaker, bs((pid, s) \<mapsto> fresh_breaker)))"

definition with_breaker ::
  "(breaker \<Rightarrow> breaker) \<Rightarrow> breakers \<Rightarrow> string \<Rightarrow> string \<Rightarrow> (breaker \<times> breakers) option" where
  "with_breaker f bs pid s =
     (case get_breaker_state bs pid s of None \<Rightarrow> None
      | Some (b, bs') \<Rightarrow> Some (f b, bs'((pid, s) \<mapsto> f b)))"

definition provider_success :: "breakers \<Rightarrow> string \<Rightarrow> route_plan \<Rightarrow> (breaker \<times> breakers) option" where
  "provider_success bs pid plan = with_breaker (record_success plan) bs pid (rp_symbol plan)"

definition provider_failure ::
  "breakers \<Rightarrow> string \<Rightarrow> route_plan \<Rightarrow> int \<Rightarrow> string option \<Rightarrow> (breaker \<times> breakers) option" where
  "provider_failure bs pid plan now err = with_breaker (record_failure plan now err) bs pid (rp_symbol plan)"

definition evaluate_recovery ::
  "breakers \<Rightarrow> string \<Rightarrow> route_plan \<Rightarrow> int \<Rightarrow> (breaker \<times> breakers) option" where
  "evaluate_recovery bs pid plan now =
     with_breaker (maybe_transition_to_half_open plan now) bs pid (rp_symbol plan)"

record route_decision =
  rd_symbol :: string
  rd_provider :: "string option"
  rd_provider_symbol :: "string option"
  rd_source :: source_state
  rd_policy :: order_policy
  rd_degraded :: bool
  rd_reason :: route_reason
  rd_tried :: "string list"

definition half_open_decision :: "route_plan \<Rightarrow> route_entry \<Rightarrow> string list \<Rightarrow> route_decision" where
  "half_open_decision plan e tried =
     \<lparr>rd_symbol = rp_symbol plan, rd_provider = Some (re_provider e), rd_provider_symbol = Some (re_symbol e),
      rd_source = RECOVERY, rd_policy = CLOSE_ONLY, rd_degraded = True, rd_reason = HALF_OPEN_PROBE,
      rd_tried = tried\<rparr>"

definition closed_decision :: "route_plan \<Rightarrow> route_entry \<Rightarrow> bool \<Rightarrow> string list \<Rightarrow> route_decision" where
  "closed_decision plan e primary tried =
     \<lparr>rd_symbol = rp_symbol plan, rd_provider = Some (re_provider e), rd_provider_symbol = Some (re_symbol e),
      rd_source = (if primary then LIVE else SECONDARY), rd_policy = OPEN_NORMAL, rd_degraded = (\<not> primary),
      rd_reason = (if primary then PRIMARY_SELECTED else SECONDARY_SELECTED), rd_tried = tried\<rparr>"

definition no_provider_decision :: "route_plan \<Rightarrow> string list \<Rightarrow> route_reason list \<Rightarrow> route_decision" where
  "no_provider_decision plan tried skipped =
     (let d = \<lparr>rd_symbol = rp_symbol plan, rd_provider = None, rd_provider_symbol = None, rd_source = STALE,
            rd_policy = HALT_NEW_ORDERS, rd_degraded = True,
            rd_reason = (case remdups skipped of [r] \<Rightarrow> r | _ \<Rightarrow> NO_PROVIDER_AVAILABLE), rd_tried = tried\<rparr>
      in if rp_simulation plan
         then d\<lparr>rd_source := SIMULATION, rd_policy := rp_degraded_policy plan, rd_reason := SIMULATION_FALLBACK\<rparr>
         else d)"

text \<open>
  The loop of \<open>decide\<close>: the position in the list, the providers tried and the reasons for
  which they were skipped. The provider of a registered profile is not empty, so the breaker is found.
\<close>

fun decide_loop ::
  "route_plan \<Rightarrow> int \<Rightarrow> nat \<Rightarrow> route_entry list \<Rightarrow> string list \<Rightarrow> route_reason list \<Rightarrow> breakers
   \<Rightarrow> (route_decision \<times> breakers) option" where
  "decide_loop plan now i [] tried skipped bs = Some (no_provider_decision plan tried skipped, bs)"
| "decide_loop plan now i (e # es) tried skipped bs =
     (let tried' = tried @ [re_provider e];
          skip = (\<lambda>r bs'. decide_loop plan now (i + 1) es tried' (skipped @ [r]) bs')
      in if \<not> re_enabled e then skip PROVIDER_DISABLED bs
         else case get_profile (re_provider e) of
           None \<Rightarrow> skip CAPABILITY_MISMATCH bs
         | Some caps \<Rightarrow>
             if \<not> set (re_required e) \<subseteq> set caps then skip CAPABILITY_MISMATCH bs
             else case evaluate_recovery bs (re_provider e) plan now of
               None \<Rightarrow> None
             | Some (b, bs') \<Rightarrow>
                 (case bk_health b of
                    OPEN \<Rightarrow> skip CIRCUIT_OPEN bs'
                  | HALF_OPEN \<Rightarrow> Some (half_open_decision plan e tried', bs')
                  | CLOSED \<Rightarrow> Some (closed_decision plan e (i = 0) tried', bs')))"

definition decide :: "route_plan \<Rightarrow> int \<Rightarrow> breakers \<Rightarrow> (route_decision \<times> breakers) option" where
  "decide plan now bs = decide_loop plan now 0 (sort_key re_priority (rp_entries plan)) [] [] bs"

subsection \<open>The process-wide router (\<open>runtime_router\<close>)\<close>

record router_state =
  rs_breakers :: breakers
  rs_last :: "string \<Rightarrow> string option option"

definition build_plan_for_symbol :: "string \<Rightarrow> route_error + route_plan" where
  "build_plan_for_symbol s =
     (case get_spec s of None \<Rightarrow> Inl (BadProfile UnknownSymbol)
      | Some sp \<Rightarrow> (case profile_from_symbol_spec sp of Inl e \<Rightarrow> Inl (BadProfile e)
          | Inr p \<Rightarrow> build_route_plan p None))"

text \<open>The recording functions swallow every exception; what was stored before it stays.\<close>

definition keep_breakers :: "router_state \<Rightarrow> (breaker \<times> breakers) option \<Rightarrow> router_state" where
  "keep_breakers st r = (case r of None \<Rightarrow> st | Some (_, bs) \<Rightarrow> st\<lparr>rs_breakers := bs\<rparr>)"

definition record_provider_success :: "string \<Rightarrow> string \<Rightarrow> router_state \<Rightarrow> router_state" where
  "record_provider_success s pid st =
     (case build_plan_for_symbol s of Inl _ \<Rightarrow> st
      | Inr plan \<Rightarrow> keep_breakers st (provider_success (rs_breakers st) pid plan))"

definition record_provider_failure ::
  "string \<Rightarrow> string \<Rightarrow> string option \<Rightarrow> int \<Rightarrow> router_state \<Rightarrow> router_state" where
  "record_provider_failure s pid err now st =
     (case build_plan_for_symbol s of Inl _ \<Rightarrow> st
      | Inr plan \<Rightarrow> keep_breakers st (provider_failure (rs_breakers st) pid plan now err))"

definition evaluate_symbol_recovery :: "string \<Rightarrow> string \<Rightarrow> int \<Rightarrow> router_state \<Rightarrow> router_state" where
  "evaluate_symbol_recovery s pid now st =
     (case build_plan_for_symbol s of Inl _ \<Rightarrow> st
      | Inr plan \<Rightarrow> keep_breakers st (evaluate_recovery (rs_breakers st) pid plan now))"

definition record_selection :: "string \<Rightarrow> string option \<Rightarrow> router_state \<Rightarrow> router_state" where
  "record_selection s pid st = st\<lparr>rs_last := (rs_last st)(s \<mapsto> pid)\<rparr>"

record runtime_selection =
  sel_symbol :: string
  sel_provider :: "string option"
  sel_provider_symbol :: "string option"
  sel_source :: "source_state option"
  sel_reason :: "route_reason option"
  sel_new_router :: bool
  sel_legacy :: bool
  sel_policy :: "order_policy option"
  sel_degraded :: bool

definition legacy_fallback :: "string \<Rightarrow> runtime_selection" where
  "legacy_fallback s =
     \<lparr>sel_symbol = s, sel_provider = None, sel_provider_symbol = None, sel_source = None, sel_reason = None,
      sel_new_router = False, sel_legacy = True, sel_policy = None, sel_degraded = False\<rparr>"

definition select_runtime_provider :: "string \<Rightarrow> int \<Rightarrow> router_state \<Rightarrow> runtime_selection \<times> router_state" where
  "select_runtime_provider s now st =
     (case build_plan_for_symbol s of Inl _ \<Rightarrow> (legacy_fallback s, st)
      | Inr plan \<Rightarrow>
          (case decide plan now (rs_breakers st) of None \<Rightarrow> (legacy_fallback s, st)
           | Some (d, bs) \<Rightarrow>
               (\<lparr>sel_symbol = s, sel_provider = rd_provider d, sel_provider_symbol = rd_provider_symbol d,
                 sel_source = Some (rd_source d), sel_reason = Some (rd_reason d), sel_new_router = True,
                 sel_legacy = False, sel_policy = Some (rd_policy d), sel_degraded = rd_degraded d\<rparr>,
                st\<lparr>rs_breakers := bs\<rparr>)))"

subsection \<open>Ticks (\<open>contracts/ticks.py\<close>)\<close>

text \<open>
  \<open>int(text)\<close>: surrounding white space, one sign, digits with single underscores
  between them. \<open>parse_schema_version\<close> splits at the first dot.
\<close>

definition is_digit :: "char \<Rightarrow> bool" where
  "is_digit c \<longleftrightarrow> (48 :: nat) \<le> of_char c \<and> of_char c \<le> (57 :: nat)"

fun digit_groups :: "bool \<Rightarrow> string \<Rightarrow> bool" where
  "digit_groups after [] = after"
| "digit_groups after (c # s) =
     (if is_digit c then digit_groups True s else c = CHR ''_'' \<and> after \<and> digit_groups False s)"

definition py_int :: "string \<Rightarrow> int option" where
  "py_int text =
     (let s = py_strip text;
          (sign, t) = (if take 1 s = ''-'' then (- 1, tl s) else if take 1 s = ''+'' then (1, tl s) else (1, s))
      in if digit_groups False t then Some (sign * int (undec (drop_char (CHR ''_'') t))) else None)"

definition parse_schema_version :: "string \<Rightarrow> (int \<times> int) option" where
  "parse_schema_version v =
     (if CHR ''.'' \<notin> set v then None
      else case (py_int (takeWhile (\<lambda>c. c \<noteq> CHR ''.'') v), py_int (tl (dropWhile (\<lambda>c. c \<noteq> CHR ''.'') v))) of
             (Some a, Some b) \<Rightarrow> Some (a, b)
           | _ \<Rightarrow> None)"

definition is_schema_version_supported :: "string \<Rightarrow> bool" where
  "is_schema_version_supported v = (case parse_schema_version v of Some (m, _) \<Rightarrow> m \<in> {1} | None \<Rightarrow> False)"

record tick =
  tk_schema :: string
  tk_symbol :: string
  tk_provider :: string
  tk_source :: source_state
  tk_synthetic :: bool
  tk_stale :: bool
  tk_received :: int
  tk_bid :: "rat option"
  tk_ask :: "rat option"
  tk_last :: "rat option"
  tk_time :: "int option"
  tk_sequence :: "int option"

datatype tick_error =
  NoTickSymbol | NoTickProvider | BadTickPrice string | CrossedTick | BadSchema | IncoherentSource

definition not_positive :: "rat option \<Rightarrow> bool" where
  "not_positive v = (case v of None \<Rightarrow> False | Some x \<Rightarrow> x \<le> 0)"

definition tick_error :: "tick \<Rightarrow> tick_error option" where
  "tick_error t =
     (if tk_symbol t = '''' then Some NoTickSymbol
      else if tk_provider t = '''' then Some NoTickProvider
      else if not_positive (tk_bid t) then Some (BadTickPrice ''bid'')
      else if not_positive (tk_ask t) then Some (BadTickPrice ''ask'')
      else if not_positive (tk_last t) then Some (BadTickPrice ''last'')
      else if (case (tk_bid t, tk_ask t) of (Some b, Some a) \<Rightarrow> a < b | _ \<Rightarrow> False) then Some CrossedTick
      else if \<not> is_schema_version_supported (tk_schema t) then Some BadSchema
      else if tk_synthetic t \<noteq> (tk_source t \<in> {SIMULATION, RECOVERY}) then Some IncoherentSource
      else None)"

definition should_accept_tick :: "tick option \<Rightarrow> tick \<Rightarrow> bool" where
  "should_accept_tick previous t =
     (case previous of
        None \<Rightarrow> True
      | Some p \<Rightarrow>
          if tk_provider p \<noteq> tk_provider t \<or> tk_symbol p \<noteq> tk_symbol t then True
          else case (tk_sequence p, tk_sequence t) of
            (Some m, Some n) \<Rightarrow> m < n
          | _ \<Rightarrow> (case (tk_time p, tk_time t) of
                (Some m, Some n) \<Rightarrow>
                  if m < n then True else if n < m then False else tk_received p < tk_received t
              | _ \<Rightarrow> tk_received p < tk_received t))"

subsection \<open>A breaker over time\<close>

text \<open>What a breaker looks like between two operations, and what happens to it.\<close>

definition breaker_ok :: "route_plan \<Rightarrow> breaker \<Rightarrow> bool" where
  "breaker_ok plan b \<longleftrightarrow>
     (case bk_health b of
        CLOSED \<Rightarrow> int (bk_failures b) < rp_max_failures plan \<and> bk_opened b = None \<and> bk_successes b = 0
      | OPEN \<Rightarrow> bk_opened b \<noteq> None \<and> bk_successes b = 0
      | HALF_OPEN \<Rightarrow> bk_opened b \<noteq> None \<and> int (bk_successes b) < rp_successes plan)"

lemma breaker_ok_keeps [step_keeps]:
  assumes "breaker_ok plan b" "plan_error plan = None"
  shows "breaker_ok plan (record_success plan b)" "breaker_ok plan (record_failure plan now err b)"
    "breaker_ok plan (maybe_transition_to_half_open plan now b)"
proof -
  have "1 \<le> rp_successes plan" "1 \<le> rp_max_failures plan"
    using assms(2) by (auto simp: plan_error_def split: option.splits if_splits)
  then show "breaker_ok plan (record_success plan b)" "breaker_ok plan (record_failure plan now err b)"
    "breaker_ok plan (maybe_transition_to_half_open plan now b)"
    using assms(1)
    by (auto simp: breaker_ok_def record_success_def record_failure_def maybe_transition_to_half_open_def Let_def
        split: health.splits option.splits)
qed

lemma fresh_breaker_ok: "plan_error plan = None \<Longrightarrow> breaker_ok plan fresh_breaker"
  by (auto simp: breaker_ok_def fresh_breaker_def plan_error_def split: option.splits if_splits)

lemma closed_failures:
  assumes "bk_health b = CLOSED" "int (bk_failures b) + int n < rp_max_failures plan"
  shows "bk_health ((record_failure plan now err ^^ n) b) = CLOSED
    \<and> bk_failures ((record_failure plan now err ^^ n) b) = bk_failures b + n"
  using assms(2)
proof (induction n)
  case (Suc n)
  then show ?case by (auto simp: record_failure_def Let_def)
qed (simp add: assms(1))

lemma half_open_successes:
  assumes "bk_health b = HALF_OPEN" "int (bk_successes b) + int n < rp_successes plan"
  shows "bk_health ((record_success plan ^^ n) b) = HALF_OPEN
    \<and> bk_successes ((record_success plan ^^ n) b) = bk_successes b + n"
  using assms(2)
proof (induction n)
  case (Suc n)
  then show ?case by (auto simp: record_success_def Let_def)
qed (simp add: assms(1))

text \<open>
  The circuit breaker trips and recovers as declared. A provider that was just reported
  healthy stays usable for fewer than \<open>max_failures\<close> failures in a row and is cut off by
  the last of exactly that many; it stays cut off, whatever is reported, until the cooldown
  has passed since that failure; then one failure cuts it off for a whole cooldown again, while
  exactly the required number of successes in a row makes it usable with no failure counted.
\<close>

theorem breaker_trips_and_recovers:
  assumes "plan_error plan = None" "bk_health b = CLOSED" "breaker_ok plan b"
  shows "(int n < rp_max_failures plan \<longrightarrow>
      bk_health ((record_failure plan t err ^^ n) (record_success plan b)) = CLOSED)
    \<and> (\<exists>opened. (record_failure plan t err ^^ nat (rp_max_failures plan)) (record_success plan b) = opened
        \<and> bk_health opened = OPEN \<and> bk_opened opened = Some t
        \<and> record_success plan opened = opened
        \<and> bk_health (record_failure plan t' err' opened) = OPEN \<and> bk_opened (record_failure plan t' err' opened) = Some t
        \<and> (t' - t < rp_cooldown plan \<longrightarrow> maybe_transition_to_half_open plan t' opened = opened)
        \<and> (rp_cooldown plan \<le> t' - t \<longrightarrow>
            (let half = maybe_transition_to_half_open plan t' opened
             in bk_health (record_failure plan t' err' half) = OPEN
              \<and> bk_opened (record_failure plan t' err' half) = Some t'
              \<and> (int n < rp_successes plan \<longrightarrow> bk_health ((record_success plan ^^ n) half) = HALF_OPEN)
              \<and> bk_health ((record_success plan ^^ nat (rp_successes plan)) half) = CLOSED
              \<and> bk_failures ((record_success plan ^^ nat (rp_successes plan)) half) = 0)))"
proof -
  have pos: "1 \<le> rp_max_failures plan" "1 \<le> rp_successes plan"
    using assms(1) by (auto simp: plan_error_def split: option.splits if_splits)
  let ?b = "record_success plan b"
  have b: "bk_health ?b = CLOSED" "bk_failures ?b = 0" "bk_successes ?b = 0"
    using assms(2,3) by (simp_all add: record_success_def breaker_ok_def)
  obtain m where m: "nat (rp_max_failures plan) = Suc m" using pos(1) by (cases "nat (rp_max_failures plan)") auto
  obtain k where k: "nat (rp_successes plan) = Suc k" using pos(2) by (cases "nat (rp_successes plan)") auto
  let ?c = "(record_failure plan t err ^^ m) ?b"
  have c: "bk_health ?c = CLOSED \<and> bk_failures ?c = m"
    using closed_failures[OF b(1), of m plan t err] b(2) m by simp
  let ?o = "record_failure plan t err ?c"
  have o: "bk_health ?o = OPEN" "bk_opened ?o = Some t"
    using c m pos(1) by (auto simp: record_failure_def Let_def)
  let ?h = "maybe_transition_to_half_open plan t' ?o"
  have h: "bk_health ?h = HALF_OPEN" "bk_successes ?h = 0" if "rp_cooldown plan \<le> t' - t"
    using o that by (simp_all add: maybe_transition_to_half_open_def)
  let ?k = "(record_success plan ^^ k) ?h"
  have "bk_health ?k = HALF_OPEN \<and> bk_successes ?k = k" if "rp_cooldown plan \<le> t' - t"
    using half_open_successes[OF h(1)[OF that], of k plan] h(2)[OF that] k by simp
  then have "bk_health (record_success plan ?k) = CLOSED \<and> bk_failures (record_success plan ?k) = 0"
    if "rp_cooldown plan \<le> t' - t"
    using that k by (simp add: record_success_def Let_def)
  moreover have "int n < rp_successes plan \<longrightarrow> bk_health ((record_success plan ^^ n) ?h) = HALF_OPEN"
    if "rp_cooldown plan \<le> t' - t"
    using half_open_successes[OF h(1)[OF that], of n plan] h(2)[OF that] by simp
  moreover have "bk_health (record_failure plan t' err' ?h) = OPEN \<and> bk_opened (record_failure plan t' err' ?h) = Some t'"
    if "rp_cooldown plan \<le> t' - t"
    using h(1)[OF that] by (simp add: record_failure_def Let_def)
  moreover have "record_success plan ?o = ?o" "bk_health (record_failure plan t' err' ?o) = OPEN"
    "bk_opened (record_failure plan t' err' ?o) = Some t"
    "t' - t < rp_cooldown plan \<longrightarrow> maybe_transition_to_half_open plan t' ?o = ?o"
    using o by (simp_all add: record_success_def record_failure_def maybe_transition_to_half_open_def Let_def)
  moreover have "int n < rp_max_failures plan \<longrightarrow> bk_health ((record_failure plan t err ^^ n) ?b) = CLOSED"
    using closed_failures[OF b(1), of n plan t err] b(2) by simp
  ultimately show ?thesis using o unfolding m k Let_def by (simp only: funpow.simps o_apply) blast
qed

subsection \<open>The decision\<close>

text \<open>
  A missing breaker counts as a fresh one; a provider is quarantined while its open breaker
  waits for the cooldown, and can serve when it is enabled, capable and not quarantined.
\<close>

definition breaker_of :: "breakers \<Rightarrow> string \<times> string \<Rightarrow> breaker" where
  "breaker_of bs k = (case bs k of None \<Rightarrow> fresh_breaker | Some b \<Rightarrow> b)"

definition quarantined :: "route_plan \<Rightarrow> int \<Rightarrow> breaker \<Rightarrow> bool" where
  "quarantined plan now b \<longleftrightarrow>
     bk_health b = OPEN \<and> (case bk_opened b of None \<Rightarrow> True | Some t \<Rightarrow> now - t < rp_cooldown plan)"

definition can_serve :: "route_plan \<Rightarrow> int \<Rightarrow> breakers \<Rightarrow> route_entry \<Rightarrow> bool" where
  "can_serve plan now bs e \<longleftrightarrow>
     re_enabled e \<and> (case get_profile (re_provider e) of None \<Rightarrow> False | Some caps \<Rightarrow> set (re_required e) \<subseteq> set caps)
     \<and> \<not> quarantined plan now (breaker_of bs (re_provider e, rp_symbol plan))"

lemma breaker_of_upd [simp]: "breaker_of (bs(k \<mapsto> b)) = (breaker_of bs)(k := b)"
  by (auto simp: breaker_of_def)

lemma with_breaker_eq:
  assumes "pid \<noteq> ''''" "s \<noteq> ''''"
  shows "with_breaker f bs pid s = Some (f (breaker_of bs (pid, s)), bs((pid, s) \<mapsto> f (breaker_of bs (pid, s))))"
  using assms by (cases "bs (pid, s)") (simp_all add: with_breaker_def get_breaker_state_def breaker_of_def)

lemma recovery_quarantined:
  "quarantined plan now b \<Longrightarrow> maybe_transition_to_half_open plan now b = b"
  by (auto simp: quarantined_def maybe_transition_to_half_open_def split: option.splits)

lemma recovery_health:
  "bk_health (maybe_transition_to_half_open plan now b) =
     (if quarantined plan now b then OPEN else if bk_health b = CLOSED then CLOSED else HALF_OPEN)"
  by (cases "bk_health b") (auto simp: quarantined_def maybe_transition_to_half_open_def split: option.splits)

lemma get_profile_nonempty: "get_profile p = Some caps \<Longrightarrow> p \<noteq> ''''"
  by (auto simp: get_profile_def provider_profiles_def)

definition served :: "route_plan \<Rightarrow> route_entry \<Rightarrow> breaker \<Rightarrow> bool \<Rightarrow> string list \<Rightarrow> route_decision" where
  "served plan e b primary tried =
     (if bk_health b = CLOSED then closed_decision plan e primary tried else half_open_decision plan e tried)"

lemma decide_loop_eq:
  assumes "rp_symbol plan \<noteq> ''''"
  shows "\<exists>d bs'. decide_loop plan now i es tried skipped bs = Some (d, bs')
    \<and> (case find (can_serve plan now bs) es of
         None \<Rightarrow> (\<exists>skipped'. d = no_provider_decision plan (tried @ map re_provider es) skipped')
           \<and> breaker_of bs' = breaker_of bs
       | Some e \<Rightarrow> let k = (re_provider e, rp_symbol plan); b = breaker_of bs k in
           (\<exists>tried'. d = served plan e b (i = 0 \<and> e = hd es) tried')
           \<and> breaker_of bs' = (breaker_of bs)(k := maybe_transition_to_half_open plan now b))"
proof (induction es arbitrary: i tried skipped bs)
  case Nil
  then show ?case by auto
next
  case (Cons e es)
  let ?k = "(re_provider e, rp_symbol plan)"
  let ?b = "breaker_of bs ?k"
  let ?tried = "tried @ [re_provider e]"
  have skip: ?case
    if "\<not> can_serve plan now bs e" "breaker_of bs' = breaker_of bs"
      "decide_loop plan now i (e # es) tried skipped bs = decide_loop plan now (i + 1) es ?tried (skipped @ [r]) bs'"
    for r bs'
  proof -
    have "can_serve plan now bs' = can_serve plan now bs" by (simp add: can_serve_def that(2) fun_eq_iff)
    note IH = Cons[of "i + 1" ?tried "skipped @ [r]" bs', unfolded this that(2)]
    show ?thesis
    proof (cases "find (can_serve plan now bs) es")
      case None
      then show ?thesis using IH that by simp
    next
      case (Some e')
      then have "can_serve plan now bs e'" by (auto simp: find_Some_iff)
      then have "e' \<noteq> e" using that(1) by auto
      then show ?thesis using IH that Some by simp
    qed
  qed
  consider "\<not> re_enabled e" | "get_profile (re_provider e) = None" "re_enabled e"
    | caps where "re_enabled e" "get_profile (re_provider e) = Some caps" "\<not> set (re_required e) \<subseteq> set caps"
    | caps where "re_enabled e" "get_profile (re_provider e) = Some caps" "set (re_required e) \<subseteq> set caps"
    by (cases "get_profile (re_provider e)") blast+
  then show ?case
  proof cases
    case 1
    then show ?thesis by (intro skip[of bs PROVIDER_DISABLED]) (simp_all add: can_serve_def Let_def)
  next
    case 2
    then show ?thesis by (intro skip[of bs CAPABILITY_MISMATCH]) (simp_all add: can_serve_def Let_def)
  next
    case 3
    then show ?thesis by (intro skip[of bs CAPABILITY_MISMATCH]) (simp_all add: can_serve_def Let_def)
  next
    case (4 caps)
    let ?bs = "bs(?k \<mapsto> maybe_transition_to_half_open plan now ?b)"
    have ev: "evaluate_recovery bs (re_provider e) plan now = Some (maybe_transition_to_half_open plan now ?b, ?bs)"
      unfolding evaluate_recovery_def by (rule with_breaker_eq[OF get_profile_nonempty[OF 4(2)] assms])
    show ?thesis
    proof (cases "quarantined plan now ?b")
      case True
      then have "breaker_of ?bs = breaker_of bs" by (simp add: recovery_quarantined)
      then show ?thesis using True 4 ev
        by (intro skip[of ?bs CIRCUIT_OPEN]) (simp_all add: can_serve_def Let_def recovery_health)
    next
      case False
      then have "can_serve plan now bs e" using 4 by (simp add: can_serve_def)
      then show ?thesis using 4 ev False
        by (cases "bk_health ?b = CLOSED") (auto simp: Let_def recovery_health served_def)
    qed
  qed
qed

subsection \<open>Registered instruments\<close>

definition runtime_plan :: "symbol_spec \<Rightarrow> route_plan" where
  "runtime_plan sp =
     (let pol = default_policy_for_asset_class (sp_asset_class sp)
      in \<lparr>rp_symbol = sp_symbol sp,
          rp_entries = map (\<lambda>(i, pid, t, caps). \<lparr>re_provider = pid, re_canonical = sp_symbol sp, re_symbol = t,
             re_priority = int i, re_required = caps, re_enabled = True\<rparr>)
             (enumerate 0 (if sp_enabled sp then spec_candidates sp else [])),
          rp_simulation = True, rp_degraded_policy = CLOSE_ONLY, rp_max_failures = po_failures pol,
          rp_cooldown = po_cooldown pol, rp_successes = po_successes pol\<rparr>)"

lemma registry_plans_ok:
  "list_all (\<lambda>sp. build_route_plan (profile_of_spec sp) None = Inr (runtime_plan sp)
     \<and> plan_error (runtime_plan sp) = None \<and> sp_symbol sp \<noteq> ''''
     \<and> sorted (map re_priority (rp_entries (runtime_plan sp)))) registry"
  unfolding registry_def
  by (simp only: list.pred_inject, intro conjI)
    (simp_all add: spec_defs build_route_plan_def profile_of_spec_def spec_mappings_def spec_candidates_def
      map_filter_simps plan_entry_def get_profile_def provider_profiles_def entry_error_def plan_error_def
      runtime_plan_def default_policy_for_asset_class_def)

lemma runtime_plan_simps [simp]:
  "rp_symbol (runtime_plan sp) = sp_symbol sp" "rp_simulation (runtime_plan sp)"
  "rp_degraded_policy (runtime_plan sp) = CLOSE_ONLY"
  by (simp_all add: runtime_plan_def Let_def)

lemma runtime_plan_valid:
  assumes "sp \<in> set registry"
  shows "plan_error (runtime_plan sp) = None" "sp_symbol sp \<noteq> ''''"
    "sort_key re_priority (rp_entries (runtime_plan sp)) = rp_entries (runtime_plan sp)"
  using assms registry_plans_ok by (auto simp: list_all_iff intro!: sort_key_id_if_sorted)

lemma registered_plan:
  assumes "sp \<in> set registry"
  shows "build_plan_for_symbol (sp_symbol sp) = Inr (runtime_plan sp)"
  using assms registry_plans_ok
  by (simp add: build_plan_for_symbol_def get_spec_registered profile_of_registered list_all_iff)

lemma built_plan:
  assumes "build_plan_for_symbol s = Inr plan"
  shows "\<exists>sp \<in> set registry. sp_symbol sp = s \<and> plan = runtime_plan sp \<and> plan_error plan = None
    \<and> rp_symbol plan = s \<and> s \<noteq> ''''"
proof -
  obtain sp where "get_spec s = Some sp"
    using assms by (auto simp: build_plan_for_symbol_def split: option.splits)
  then have "sp \<in> set registry" "sp_symbol sp = s" using get_spec_Some by blast+
  then show ?thesis using assms registered_plan[of sp] runtime_plan_valid[of sp] by auto
qed

subsection \<open>Every run of the router\<close>

inductive router_step :: "router_state \<Rightarrow> router_state \<Rightarrow> bool" where
  success: "router_step st (record_provider_success s pid st)"
| failure: "router_step st (record_provider_failure s pid err now st)"
| recovery: "router_step st (evaluate_symbol_recovery s pid now st)"
| select: "router_step st (snd (select_runtime_provider s now st))"
| selection: "router_step st (record_selection s pid st)"

definition router_start :: router_state where
  "router_start = \<lparr>rs_breakers = Map.empty, rs_last = Map.empty\<rparr>"

definition router_inv :: "router_state \<Rightarrow> bool" where
  "router_inv st \<longleftrightarrow> (\<forall>sp \<in> set registry. \<forall>pid.
     breaker_ok (runtime_plan sp) (breaker_of (rs_breakers st) (pid, sp_symbol sp)))"

lemma registry_symbol_inject:
  "sp \<in> set registry \<Longrightarrow> sp' \<in> set registry \<Longrightarrow> sp_symbol sp = sp_symbol sp' \<longleftrightarrow> sp = sp'"
  by (metis get_spec_registered option.inject)

lemma router_inv_update:
  assumes "router_inv st" "sp \<in> set registry"
    and "\<And>b. breaker_ok (runtime_plan sp) b \<Longrightarrow> breaker_ok (runtime_plan sp) (f b)"
    and "breaker_of bs = (breaker_of (rs_breakers st))((pid, sp_symbol sp) := f (breaker_of (rs_breakers st) (pid, sp_symbol sp)))"
  shows "router_inv (st\<lparr>rs_breakers := bs\<rparr>)"
  using assms by (auto simp: router_inv_def registry_symbol_inject)

lemma kept_breakers_inv:
  assumes "router_inv st" "build_plan_for_symbol s = Inr plan"
    and "\<And>b. breaker_ok plan b \<Longrightarrow> breaker_ok plan (f b)"
  shows "router_inv (keep_breakers st (with_breaker f (rs_breakers st) pid s))"
proof -
  obtain sp where sp: "sp \<in> set registry" "sp_symbol sp = s" "plan = runtime_plan sp" "s \<noteq> ''''"
    using built_plan[OF assms(2)] by blast
  let ?bs = "rs_breakers st"
  show ?thesis
  proof (cases "with_breaker f ?bs pid s")
    case None
    then show ?thesis using assms(1) by (simp add: keep_breakers_def)
  next
    case (Some r)
    then have "r = (f (breaker_of ?bs (pid, s)), ?bs((pid, s) \<mapsto> f (breaker_of ?bs (pid, s))))"
      by (cases "?bs (pid, s)")
        (auto simp: with_breaker_def get_breaker_state_def breaker_of_def split: if_splits)
    then show ?thesis using Some router_inv_update[OF assms(1) sp(1), of f _ pid] assms(3) sp
      by (simp add: keep_breakers_def)
  qed
qed

lemma router_step_inv [step_keeps]:
  assumes "router_step st st'" "router_inv st"
  shows "router_inv st'"
  using assms
proof (cases rule: router_step.cases)
  case (success s pid)
  then show ?thesis
  proof (cases "build_plan_for_symbol s")
    case (Inr plan)
    have "router_inv (keep_breakers st (with_breaker (record_success plan) (rs_breakers st) pid s))"
      by (rule kept_breakers_inv[OF assms(2) Inr]) (use built_plan[OF Inr] in \<open>auto intro: breaker_ok_keeps\<close>)
    then show ?thesis using success Inr built_plan[OF Inr]
      by (auto simp: record_provider_success_def provider_success_def)
  qed (simp add: record_provider_success_def assms(2))
next
  case (failure s pid err now)
  then show ?thesis
  proof (cases "build_plan_for_symbol s")
    case (Inr plan)
    have "router_inv (keep_breakers st (with_breaker (record_failure plan now err) (rs_breakers st) pid s))"
      by (rule kept_breakers_inv[OF assms(2) Inr]) (use built_plan[OF Inr] in \<open>auto intro: breaker_ok_keeps\<close>)
    then show ?thesis using failure Inr built_plan[OF Inr]
      by (auto simp: record_provider_failure_def provider_failure_def)
  qed (simp add: record_provider_failure_def assms(2))
next
  case (recovery s pid now)
  then show ?thesis
  proof (cases "build_plan_for_symbol s")
    case (Inr plan)
    have "router_inv (keep_breakers st (with_breaker (maybe_transition_to_half_open plan now) (rs_breakers st) pid s))"
      by (rule kept_breakers_inv[OF assms(2) Inr]) (use built_plan[OF Inr] in \<open>auto intro: breaker_ok_keeps\<close>)
    then show ?thesis using recovery Inr built_plan[OF Inr]
      by (auto simp: evaluate_symbol_recovery_def evaluate_recovery_def)
  qed (simp add: evaluate_symbol_recovery_def assms(2))
next
  case (select s now)
  then show ?thesis
  proof (cases "build_plan_for_symbol s")
    case (Inr plan)
    then obtain sp where sp: "sp \<in> set registry" "sp_symbol sp = s" "plan = runtime_plan sp"
      using built_plan by blast
    note ne = runtime_plan_valid(2)[OF sp(1)]
    obtain d bs where d: "decide plan now (rs_breakers st) = Some (d, bs)"
      and f: "\<exists>pid f. (f = id \<or> f = maybe_transition_to_half_open plan now)
        \<and> breaker_of bs = (breaker_of (rs_breakers st))((pid, s) := f (breaker_of (rs_breakers st) (pid, s)))"
      using decide_loop_eq[of plan now 0 "sort_key re_priority (rp_entries plan)" "[]" "[]" "rs_breakers st"] ne sp
      by (auto simp: decide_def Let_def split: option.splits) (metis fun_upd_triv id_apply)+
    then have "router_inv (st\<lparr>rs_breakers := bs\<rparr>)"
      using router_inv_update[OF assms(2) sp(1)] runtime_plan_valid(1)[OF sp(1)] sp breaker_ok_keeps(3)
      by (metis id_apply)
    then show ?thesis using select Inr d by (simp add: select_runtime_provider_def)
  qed (simp add: select_runtime_provider_def assms(2))
next
  case (selection s pid)
  then show ?thesis using assms(2) by (simp add: record_selection_def router_inv_def)
qed

lemma router_reachable_inv:
  assumes "router_step\<^sup>*\<^sup>* router_start st"
  shows "router_inv st"
  using assms
proof induction
  case base
  then show ?case
    by (simp add: router_inv_def router_start_def breaker_of_def fresh_breaker_ok runtime_plan_valid)
next
  case (step st st')
  then show ?case by (blast intro: router_step_inv)
qed

lemma decide_eq:
  assumes "rp_symbol plan \<noteq> ''''" "sort_key re_priority (rp_entries plan) = rp_entries plan"
  shows "\<exists>d bs'. decide plan now bs = Some (d, bs')
    \<and> (case find (can_serve plan now bs) (rp_entries plan) of
         None \<Rightarrow> \<exists>skipped. d = no_provider_decision plan (map re_provider (rp_entries plan)) skipped
       | Some e \<Rightarrow> \<exists>tried. d = served plan e (breaker_of bs (re_provider e, rp_symbol plan))
           (e = hd (rp_entries plan)) tried)"
  using decide_loop_eq[OF assms(1), of now 0 "rp_entries plan" "[]" "[]" bs] unfolding decide_def assms(2)
  by (cases "find (can_serve plan now bs) (rp_entries plan)") (simp_all add: Let_def, blast+)

lemma select_never_stale:
  assumes "sp \<in> set registry" "select_runtime_provider (sp_symbol sp) now st = (sel, st')"
  shows "sel_source sel \<noteq> Some STALE"
proof -
  let ?p = "runtime_plan sp"
  have ne: "rp_symbol ?p \<noteq> ''''" using runtime_plan_valid(2)[OF assms(1)] by simp
  obtain d bs where d: "decide ?p now (rs_breakers st) = Some (d, bs)" and
    "case find (can_serve ?p now (rs_breakers st)) (rp_entries ?p) of
         None \<Rightarrow> \<exists>skipped. d = no_provider_decision ?p (map re_provider (rp_entries ?p)) skipped
       | Some e \<Rightarrow> \<exists>tried. d = served ?p e (breaker_of (rs_breakers st) (re_provider e, rp_symbol ?p))
           (e = hd (rp_entries ?p)) tried"
    using decide_eq[OF ne runtime_plan_valid(3)[OF assms(1)], of now "rs_breakers st"] by blast
  then have "rd_source d \<noteq> STALE"
    by (auto simp: no_provider_decision_def Let_def served_def closed_decision_def half_open_decision_def
        split: option.splits if_splits)
  then show ?thesis
    using assms(2) d by (auto simp: select_runtime_provider_def registered_plan[OF assms(1)])
qed

text \<open>
  C11. The router serves the first provider it may trust. After any sequence of reports,
  recovery checks and selections, selecting a provider for a registered symbol never falls back
  to the legacy code; it takes the first configured provider, in order of priority, that has
  the required capabilities and no open breaker in its cooldown: if its breaker is
  closed, with fewer failures than trip it, new orders are allowed, and if it is being probed
  (\<open>RECOVERY\<close>) positions can only be closed; the source is \<open>LIVE\<close> only for the first
  provider of the list; and when every provider is quarantined the price is simulated and
  positions can only be closed.
\<close>

theorem router_serves_first_trusted:
  assumes "router_step\<^sup>*\<^sup>* router_start st" "sp \<in> set registry"
    and "select_runtime_provider (sp_symbol sp) now st = (sel, st')"
    and "plan = runtime_plan sp"
  shows "\<not> sel_legacy sel \<and> sel_symbol sel = sp_symbol sp \<and>
    (case find (can_serve plan now (rs_breakers st)) (rp_entries plan) of
       None \<Rightarrow> sel_provider sel = None \<and> sel_source sel = Some SIMULATION \<and> sel_policy sel = Some CLOSE_ONLY
     | Some e \<Rightarrow> let b = breaker_of (rs_breakers st) (re_provider e, sp_symbol sp) in
         sel_provider sel = Some (re_provider e) \<and> sel_provider_symbol sel = Some (re_symbol e)
         \<and> (if bk_health b = CLOSED
            then int (bk_failures b) < rp_max_failures plan \<and> sel_policy sel = Some OPEN_NORMAL
              \<and> sel_source sel = Some (if e = hd (rp_entries plan) then LIVE else SECONDARY)
            else (\<exists>t. bk_opened b = Some t \<and> (bk_health b = OPEN \<longrightarrow> rp_cooldown plan \<le> now - t))
              \<and> sel_policy sel = Some CLOSE_ONLY \<and> sel_source sel = Some RECOVERY))"
proof -
  have ne: "rp_symbol plan \<noteq> ''''" and sym: "rp_symbol plan = sp_symbol sp"
    using runtime_plan_valid(2)[OF assms(2)] assms(4) by simp_all
  have ok: "breaker_ok plan (breaker_of (rs_breakers st) (pid, sp_symbol sp))" for pid
    using router_reachable_inv[OF assms(1)] assms(2,4) by (auto simp: router_inv_def)
  have srt: "sort_key re_priority (rp_entries plan) = rp_entries plan"
    using runtime_plan_valid(3)[OF assms(2)] assms(4) by simp
  obtain d bs where d: "decide plan now (rs_breakers st) = Some (d, bs)"
    and r: "case find (can_serve plan now (rs_breakers st)) (rp_entries plan) of
         None \<Rightarrow> \<exists>skipped. d = no_provider_decision plan (map re_provider (rp_entries plan)) skipped
       | Some e \<Rightarrow> \<exists>tried. d = served plan e (breaker_of (rs_breakers st) (re_provider e, sp_symbol sp))
           (e = hd (rp_entries plan)) tried"
    using decide_eq[OF ne srt, of now "rs_breakers st"] unfolding sym by blast
  have s: "sel = \<lparr>sel_symbol = sp_symbol sp, sel_provider = rd_provider d, sel_provider_symbol = rd_provider_symbol d,
      sel_source = Some (rd_source d), sel_reason = Some (rd_reason d), sel_new_router = True,
      sel_legacy = False, sel_policy = Some (rd_policy d), sel_degraded = rd_degraded d\<rparr>"
    using assms(3,4) d by (simp add: select_runtime_provider_def registered_plan[OF assms(2)])
  show ?thesis
  proof (cases "find (can_serve plan now (rs_breakers st)) (rp_entries plan)")
    case None
    then show ?thesis using r assms(4) by (auto simp: s no_provider_decision_def Let_def)
  next
    case (Some e)
    let ?b = "breaker_of (rs_breakers st) (re_provider e, sp_symbol sp)"
    have "\<not> quarantined plan now ?b" using Some assms(4) by (auto simp: find_Some_iff can_serve_def)
    then show ?thesis using r Some ok[of "re_provider e"]
      by (cases "bk_health ?b")
        (auto simp: s served_def closed_decision_def half_open_decision_def breaker_ok_def quarantined_def
          split: option.splits)
  qed
qed

text \<open>Three failures of the first provider of \<open>BTCUSD\<close> at time 100; a second later the other one serves.\<close>

definition demo_failed_router :: router_state where
  "demo_failed_router = (record_provider_failure ''BTCUSD'' ''binance'' None 100 ^^ 3) router_start"

lemma btc_plan:
  "spec_BTCUSD \<in> set registry" "build_plan_for_symbol ''BTCUSD'' = Inr (runtime_plan spec_BTCUSD)"
  "rp_entries (runtime_plan spec_BTCUSD) =
     [\<lparr>re_provider = ''binance'', re_canonical = ''BTCUSD'', re_symbol = ''BTCUSDT'', re_priority = 0,
       re_required = [BID_ASK], re_enabled = True\<rparr>,
      \<lparr>re_provider = ''kraken'', re_canonical = ''BTCUSD'', re_symbol = ''XBT/USD'', re_priority = 1,
       re_required = [BID_ASK], re_enabled = True\<rparr>]"
  "rp_max_failures (runtime_plan spec_BTCUSD) = 3" "rp_cooldown (runtime_plan spec_BTCUSD) = 10"
  "rp_successes (runtime_plan spec_BTCUSD) = 2"
proof -
  show m: "spec_BTCUSD \<in> set registry" by (simp add: registry_def)
  show "build_plan_for_symbol ''BTCUSD'' = Inr (runtime_plan spec_BTCUSD)"
    using registered_plan[OF m] by (simp add: spec_defs)
qed (simp_all add: runtime_plan_def spec_defs spec_candidates_def map_filter_simps default_policy_for_asset_class_def)

theorem breaker_trips_and_recovers_witness:
  "bk_health ((record_failure (runtime_plan spec_BTCUSD) 100 None ^^ 2) (record_success (runtime_plan spec_BTCUSD) fresh_breaker)) = CLOSED
   \<and> bk_health ((record_failure (runtime_plan spec_BTCUSD) 100 None ^^ 3) (record_success (runtime_plan spec_BTCUSD) fresh_breaker)) = OPEN"
proof -
  note p = runtime_plan_valid(1)[OF btc_plan(1)]
  have h: "bk_health fresh_breaker = CLOSED" by (simp add: fresh_breaker_def)
  show ?thesis
    using breaker_trips_and_recovers[OF p h fresh_breaker_ok[OF p], of 2 100 None 0 None]
    unfolding btc_plan by auto
qed

theorem router_serves_first_trusted_witness:
  "\<exists>sel st'. select_runtime_provider ''BTCUSD'' 101 demo_failed_router = (sel, st')
     \<and> sel_provider sel = Some ''kraken'' \<and> sel_source sel = Some SECONDARY"
proof -
  let ?p = "runtime_plan spec_BTCUSD"
  have sym: "sp_symbol spec_BTCUSD = ''BTCUSD''" by (simp add: spec_defs)
  have run: "router_step\<^sup>*\<^sup>* router_start demo_failed_router"
    unfolding demo_failed_router_def
    by (simp add: numeral_3_eq_3) (meson failure rtranclp.intros)
  have st: "rs_breakers demo_failed_router = [(''binance'', ''BTCUSD'') \<mapsto>
      \<lparr>bk_health = OPEN, bk_failures = 3, bk_opened = Some 100, bk_last_failure = Some 100, bk_successes = 0,
       bk_error = None\<rparr>]"
    by (simp add: demo_failed_router_def numeral_3_eq_3 record_provider_failure_def btc_plan(2) provider_failure_def
        with_breaker_eq keep_breakers_def router_start_def breaker_of_def record_failure_def fresh_breaker_def
        btc_plan(4) sym)
  have "find (can_serve ?p 101 (rs_breakers demo_failed_router)) (rp_entries ?p) = Some (rp_entries ?p ! 1)"
    by (simp add: btc_plan(3) can_serve_def st get_profile_def provider_profiles_def quarantined_def breaker_of_def
        btc_plan(5) fresh_breaker_def sym)
  then show ?thesis
    using router_serves_first_trusted[OF run btc_plan(1), of 101 _ _ ?p]
    by (cases "select_runtime_provider ''BTCUSD'' 101 demo_failed_router")
      (simp add: sym btc_plan(3) Let_def st breaker_of_def fresh_breaker_def)
qed

subsection \<open>Order of ticks\<close>

text \<open>
  A consumer keeps the last tick it accepted. A stream is uniform when its ticks are of one provider
  and symbol and carry the same kind of ordering information.
\<close>

fun accepted :: "tick option \<Rightarrow> tick list \<Rightarrow> tick list" where
  "accepted prev [] = []"
| "accepted prev (t # ts) = (if should_accept_tick prev t then t # accepted (Some t) ts else accepted prev ts)"

datatype tick_mode = BySequence | ByProviderTime | ByArrival

definition tick_mode :: "tick \<Rightarrow> tick_mode" where
  "tick_mode t = (if tk_sequence t \<noteq> None then BySequence else if tk_time t \<noteq> None then ByProviderTime else ByArrival)"

definition tick_key :: "tick \<Rightarrow> int \<times> int" where
  "tick_key t = (case (tk_sequence t, tk_time t) of
     (Some n, _) \<Rightarrow> (n, 0) | (None, Some n) \<Rightarrow> (n, tk_received t) | (None, None) \<Rightarrow> (tk_received t, 0))"

definition uniform :: "tick list \<Rightarrow> bool" where
  "uniform ts \<longleftrightarrow> (\<exists>p s m. \<forall>t \<in> set ts. tk_provider t = p \<and> tk_symbol t = s \<and> tick_mode t = m)"

lemma accept_iff_later:
  assumes "uniform ts" "p \<in> set ts" "t \<in> set ts"
  shows "should_accept_tick (Some p) t \<longleftrightarrow> tick_key p < tick_key t"
proof -
  have "tk_provider p = tk_provider t" "tk_symbol p = tk_symbol t" "tick_mode p = tick_mode t"
    using assms by (auto simp: uniform_def)
  then show ?thesis
    by (auto simp: should_accept_tick_def tick_mode_def tick_key_def split: option.splits if_splits)
qed

lemma accepted_after:
  assumes "uniform ts" "p \<in> set ts" "set us \<subseteq> set ts"
  shows "sorted_wrt (<) (map tick_key (p # accepted (Some p) us)) \<and> set (accepted (Some p) us) \<subseteq> set us
    \<and> (\<forall>t \<in> set us. tick_key t \<le> tick_key (last (p # accepted (Some p) us)))"
  using assms(2,3)
proof (induction us arbitrary: p)
  case (Cons u us)
  note IH = Cons.IH[of p] Cons.IH[of u]
  have acc: "should_accept_tick (Some p) u \<longleftrightarrow> tick_key p < tick_key u"
    using Cons.prems by (intro accept_iff_later[OF assms(1)]) auto
  have last_max: "tick_key q \<le> tick_key (last (q # accepted (Some q) us))"
    if "sorted_wrt (<) (map tick_key (q # accepted (Some q) us))" for q
    using that by (cases "accepted (Some q) us" rule: rev_cases) auto
  show ?case
  proof (cases "tick_key p < tick_key u")
    case True
    have sub: "u \<in> set ts" "set us \<subseteq> set ts" using Cons.prems by auto
    note r = IH(2)[OF sub]
    have "sorted_wrt (<) (tick_key p # tick_key u # map tick_key (accepted (Some u) us))"
      using r True by (simp only: sorted_wrt2[OF transp_on_less] list.map)
    then show ?thesis using r last_max[of u] True acc by auto
  next
    case False
    then show ?thesis using IH(1) last_max[of p] Cons.prems acc by auto
  qed
qed simp

text \<open>
  Ticks are taken once and in order. From a uniform stream in any order and with any
  repetition, the accepted ticks are strictly ordered by their sequence (or provider time and arrival, or
  arrival), each is one of the stream, and afterwards no tick of the stream is accepted again.
\<close>

theorem ticks_accepted_once:
  assumes "uniform ts" "ts \<noteq> []"
  shows "sorted_wrt (<) (map tick_key (accepted None ts)) \<and> set (accepted None ts) \<subseteq> set ts
    \<and> accepted None ts \<noteq> []
    \<and> (\<forall>us. set us \<subseteq> set ts \<longrightarrow> accepted (Some (last (accepted None ts))) us = [])"
proof -
  obtain p us where ts: "ts = p # us" using assms(2) by (cases ts) auto
  have a: "accepted None ts = p # accepted (Some p) us" by (simp add: ts should_accept_tick_def)
  have mem: "p \<in> set ts" "set us \<subseteq> set ts" by (auto simp: ts)
  note r = accepted_after[OF assms(1) mem]
  let ?l = "last (p # accepted (Some p) us)"
  have sub: "set (p # accepted (Some p) us) \<subseteq> set ts" using r by (auto simp: ts)
  then have l: "?l \<in> set ts" using last_in_set[of "p # accepted (Some p) us"] by blast
  have "tick_key t \<le> tick_key ?l" if "t \<in> set ts" for t
    using r that by (cases "accepted (Some p) us" rule: rev_cases) (auto simp: ts less_imp_le)
  then have "\<not> should_accept_tick (Some ?l) t" if "t \<in> set ts" for t
    using accept_iff_later[OF assms(1) l that] that by (auto simp: not_less)
  then have "accepted (Some ?l) vs = []" if "set vs \<subseteq> set ts" for vs
    using that by (induction vs) auto
  then show ?thesis using r sub unfolding a by auto
qed

definition demo_tick :: "int \<Rightarrow> tick" where
  "demo_tick n = \<lparr>tk_schema = ''1.0'', tk_symbol = ''BTCUSD'', tk_provider = ''binance'', tk_source = LIVE,
     tk_synthetic = False, tk_stale = False, tk_received = 0, tk_bid = Some 100, tk_ask = Some 101, tk_last = None,
     tk_time = None, tk_sequence = Some n\<rparr>"

theorem ticks_accepted_once_witness:
  "map tk_sequence (accepted None (map demo_tick [5, 4, 7, 7])) = [Some 5, Some 7]
   \<and> accepted (Some (last (accepted None (map demo_tick [5, 4, 7, 7])))) [demo_tick 7, demo_tick 5] = []"
proof -
  have "uniform (map demo_tick [5, 4, 7, 7])" by (auto simp: uniform_def demo_tick_def tick_mode_def)
  note once = ticks_accepted_once[OF this, THEN conjunct2, THEN conjunct2, THEN conjunct2, rule_format]
  have "set [demo_tick 7, demo_tick 5] \<subseteq> set (map demo_tick [5, 4, 7, 7])" by auto
  from once[OF _ this] have "accepted (Some (last (accepted None (map demo_tick [5, 4, 7, 7])))) [demo_tick 7, demo_tick 5] = []"
    by blast
  moreover have "map tk_sequence (accepted None (map demo_tick [5, 4, 7, 7])) = [Some 5, Some 7]"
    by (simp add: demo_tick_def should_accept_tick_def)
  ultimately show ?thesis by blast
qed

text \<open>A version that the code writes as two numbers is read back as those numbers.\<close>

lemma digit_not_space: "is_digit c \<Longrightarrow> \<not> py_space c"
  by (auto simp: is_digit_def py_space_def)

lemma dec_digits: "list_all is_digit (dec n)" "dec n \<noteq> ''''"
  using dec_digit[of _ n] by (auto simp: list_all_iff is_digit_def) (simp add: dec.simps split: if_splits)

lemma digits_stripped:
  assumes "list_all is_digit s"
  shows "py_strip s = s"
proof -
  have "dropWhile py_space t = t" if "list_all is_digit t" for t
    using that by (cases t) (simp_all add: digit_not_space)
  then show ?thesis using assms by (simp add: py_strip_def list_all_iff)
qed

lemma py_int_dec: "py_int (dec n) = Some (int n)"
proof -
  note d = dec_digits[of n]
  have "digit_groups True s" if "list_all is_digit s" for s using that by (induction s) auto
  then have g: "digit_groups False (dec n)" using d by (cases "dec n") auto
  have "c \<noteq> CHR ''_'' \<and> c \<noteq> CHR ''-'' \<and> c \<noteq> CHR ''+''" if "is_digit c" for c
    using that by (auto simp: is_digit_def)
  then have "drop_char (CHR ''_'') (dec n) = dec n" "take 1 (dec n) \<noteq> ''-''" "take 1 (dec n) \<noteq> ''+''"
    using d by (cases "dec n"; auto simp: drop_char_def filter_id_conv list_all_iff)+
  then show ?thesis using d g by (simp add: py_int_def digits_stripped undec_dec Let_def)
qed

lemma schema_version_roundtrip: "parse_schema_version (dec a @ ''.'' @ dec b) = Some (int a, int b)"
proof -
  have "CHR ''.'' \<notin> set (dec a)" by (rule dec_no_sep) simp
  then have "takeWhile (\<lambda>c. c \<noteq> CHR ''.'') (dec a @ CHR ''.'' # dec b) = dec a"
    "dropWhile (\<lambda>c. c \<noteq> CHR ''.'') (dec a @ CHR ''.'' # dec b) = CHR ''.'' # dec b"
    by (auto simp: takeWhile_append dropWhile_append)
  then show ?thesis by (simp add: parse_schema_version_def py_int_dec)
qed

end
