(* ===== verification/MarketSessions.thy ===== *)
theory MarketSessions
  imports ProviderRouter Calendar
begin

section \<open>Market sessions (\<open>market_data/sessions\<close>)\<close>

text \<open>
  When a market is open: the calendar rules, the calendar of an asset class, and the policy for
  orders that follows from the state. A time is a number of microseconds of the wall clock it belongs
  to. The rules of New York (\<open>ZoneInfo\<close>, a database of the system) are two
  parameters: from UTC to the local clock, and back.
\<close>

datatype session_state =
  S_OPEN | S_CLOSED | S_PRE_MARKET | S_AFTER_HOURS | S_WEEKEND | S_HOLIDAY | S_MAINTENANCE | S_UNKNOWN

datatype session_reason =
  MARKET_OPEN | WEEKEND_CLOSURE | OVERNIGHT_CLOSURE | DAILY_MAINTENANCE | PRE_MARKET_WINDOW
| AFTER_HOURS_WINDOW | HOLIDAY_CLOSURE | R_ALWAYS_CLOSED | UNKNOWN_CALENDAR | EVALUATION_ERROR

datatype calendar_id = CRYPTO_24_7 | FOREX_24_5 | METALS_23_5 | US_INDICES_CFD | ALWAYS_CLOSED | CAL_UNKNOWN

definition DEFAULT_CALENDAR_BY_ASSET_CLASS :: "(string \<times> calendar_id) list" where
  "DEFAULT_CALENDAR_BY_ASSET_CLASS =
     [(''crypto'', CRYPTO_24_7), (''forex'', FOREX_24_5), (''metal'', METALS_23_5), (''index'', US_INDICES_CFD),
      (''energy'', CAL_UNKNOWN)]"

record raw_evaluation =
  rw_state :: session_state
  rw_reason :: session_reason
  rw_timezone :: string
  rw_next_open :: "int option"
  rw_next_close :: "int option"

subsection \<open>Boundaries (\<open>sessions/calendars.py\<close>)\<close>

definition minute_us :: int where "minute_us = 60000000"
definition week_us :: int where "week_us = 7 * day_us"

text \<open>\<open>t.replace(hour=h, minute=m, second=0, microsecond=0)\<close> on the date \<open>d\<close>.\<close>

definition at_clock :: "int \<Rightarrow> int \<Rightarrow> int \<Rightarrow> int" where
  "at_clock d h m = midnight d + h * hour_us + m * minute_us"

definition most_recent_weekday_at_hour :: "int \<Rightarrow> int \<Rightarrow> int \<Rightarrow> int" where
  "most_recent_weekday_at_hour now wd h =
     (let since = (weekday (date_of now) - wd) mod 7;
          candidate = at_clock (date_of now) h 0 - since * day_us
      in if now < candidate then candidate - week_us else candidate)"

definition next_weekday_at :: "int \<Rightarrow> int \<Rightarrow> int \<Rightarrow> int \<Rightarrow> int" where
  "next_weekday_at now wd h m =
     (let ahead = (wd - weekday (date_of now)) mod 7;
          candidate = at_clock (date_of now + ahead) h m
      in if candidate \<le> now then candidate + week_us else candidate)"

text \<open>The loop of \<open>_next_weekday_open\<close> walks from day to day until a weekday.\<close>

function next_trading_day :: "int \<Rightarrow> int" where
  "next_trading_day d = (if weekday (d + 1) < 5 then d + 1 else next_trading_day (d + 1))"
  by pat_completeness auto

termination
proof (relation "measure (\<lambda>d. if weekday (d + 1) < 5 then 0 else nat (7 - weekday (d + 1)))")
  fix d :: int
  assume "\<not> weekday (d + 1) < 5"
  then have "weekday (d + 1) = 5 \<or> weekday (d + 1) = 6" using weekday_bounds[of "d + 1"] by linarith
  moreover have "weekday (d + 1 + 1) = (weekday (d + 1) + 1) mod 7" unfolding weekday_def by presburger
  ultimately show "(d + 1, d) \<in> measure (\<lambda>d. if weekday (d + 1) < 5 then 0 else nat (7 - weekday (d + 1)))"
    by auto
qed simp

declare next_trading_day.simps [simp del]

definition next_weekday_open :: "int \<Rightarrow> int \<Rightarrow> int \<Rightarrow> int" where
  "next_weekday_open now h m = at_clock (next_trading_day (date_of now)) h m"

definition weekly_window :: "int \<Rightarrow> int \<times> int" where
  "weekly_window now = (let w = most_recent_weekday_at_hour now 6 22 in (w, w + 5 * day_us))"

subsection \<open>The calendars\<close>

definition raw :: "session_state \<Rightarrow> session_reason \<Rightarrow> string \<Rightarrow> int option \<Rightarrow> int option \<Rightarrow> raw_evaluation" where
  "raw st r tz op cl = \<lparr>rw_state = st, rw_reason = r, rw_timezone = tz, rw_next_open = op, rw_next_close = cl\<rparr>"

definition crypto_24_7 :: "int \<Rightarrow> raw_evaluation" where
  "crypto_24_7 now = raw S_OPEN MARKET_OPEN ''UTC'' None None"

definition forex_24_5 :: "int \<Rightarrow> raw_evaluation" where
  "forex_24_5 now =
     (let (week_open, week_close) = weekly_window now
      in if week_open \<le> now \<and> now < week_close
         then raw S_OPEN MARKET_OPEN ''UTC'' None (Some week_close)
         else raw S_WEEKEND WEEKEND_CLOSURE ''UTC'' (Some (week_open + week_us)) None)"

definition metals_23_5 :: "int \<Rightarrow> raw_evaluation" where
  "metals_23_5 now =
     (let (week_open, week_close) = weekly_window now;
          maint_start = at_clock (date_of now) 21 0;
          maint_end = at_clock (date_of now) 22 0
      in if \<not> (week_open \<le> now \<and> now < week_close)
         then raw S_WEEKEND WEEKEND_CLOSURE ''UTC'' (Some (week_open + week_us)) None
         else if maint_start \<le> now \<and> now < maint_end
         then raw S_MAINTENANCE DAILY_MAINTENANCE ''UTC'' (Some maint_end) None
         else let next_close = (if now < maint_start then maint_start else maint_start + day_us)
              in raw S_OPEN MARKET_OPEN ''UTC'' None (Some (min next_close week_close)))"

text \<open>On the clock of New York; \<open>us_indices_cfd\<close> converts from UTC and its boundaries back.\<close>

definition us_indices_local :: "int \<Rightarrow> raw_evaluation" where
  "us_indices_local now =
     (let d = date_of now; tz = ''America/New_York'';
          pre_start = at_clock d 4 0; market_open = at_clock d 9 30; market_close = at_clock d 16 0;
          after_end = at_clock d 20 0
      in if 5 \<le> weekday d then raw S_WEEKEND WEEKEND_CLOSURE tz (Some (next_weekday_at now 0 9 30)) None
         else if pre_start \<le> now \<and> now < market_open
         then raw S_PRE_MARKET PRE_MARKET_WINDOW tz (Some market_open) None
         else if market_open \<le> now \<and> now < market_close
         then raw S_OPEN MARKET_OPEN tz None (Some market_close)
         else if market_close \<le> now \<and> now < after_end
         then raw S_AFTER_HOURS AFTER_HOURS_WINDOW tz (Some (next_weekday_open now 9 30)) None
         else raw S_CLOSED OVERNIGHT_CLOSURE tz
           (Some (if now < pre_start then market_open else next_weekday_open now 9 30)) None)"

definition us_indices_cfd :: "(int \<Rightarrow> int) \<Rightarrow> (int \<Rightarrow> int) \<Rightarrow> int \<Rightarrow> raw_evaluation" where
  "us_indices_cfd to_ny from_ny now =
     (let r = us_indices_local (to_ny now)
      in r\<lparr>rw_next_open := map_option from_ny (rw_next_open r), rw_next_close := map_option from_ny (rw_next_close r)\<rparr>)"

definition always_closed :: "int \<Rightarrow> raw_evaluation" where
  "always_closed now = raw S_CLOSED R_ALWAYS_CLOSED ''UTC'' None None"

definition unknown_calendar :: "int \<Rightarrow> raw_evaluation" where
  "unknown_calendar now = raw S_UNKNOWN UNKNOWN_CALENDAR ''UTC'' None None"

definition calendar_rule :: "(int \<Rightarrow> int) \<Rightarrow> (int \<Rightarrow> int) \<Rightarrow> calendar_id \<Rightarrow> int \<Rightarrow> raw_evaluation" where
  "calendar_rule to_ny from_ny c =
     (case c of
        CRYPTO_24_7 \<Rightarrow> crypto_24_7
      | FOREX_24_5 \<Rightarrow> forex_24_5
      | METALS_23_5 \<Rightarrow> metals_23_5
      | US_INDICES_CFD \<Rightarrow> us_indices_cfd to_ny from_ny
      | ALWAYS_CLOSED \<Rightarrow> always_closed
      | CAL_UNKNOWN \<Rightarrow> unknown_calendar)"

subsection \<open>Evaluation (\<open>sessions/service.py\<close>)\<close>

definition order_policy_of :: "session_state \<Rightarrow> order_policy" where
  "order_policy_of s =
     (case s of
        S_OPEN \<Rightarrow> OPEN_NORMAL
      | S_PRE_MARKET \<Rightarrow> CLOSE_ONLY
      | S_AFTER_HOURS \<Rightarrow> CLOSE_ONLY
      | S_UNKNOWN \<Rightarrow> HALT_NEW_ORDERS
      | _ \<Rightarrow> POLICY_MARKET_CLOSED)"

record session_result =
  ss_symbol :: string
  ss_calendar :: calendar_id
  ss_state :: session_state
  ss_policy :: order_policy
  ss_evaluated :: int
  ss_reason :: session_reason
  ss_timezone :: string
  ss_next_open :: "int option"
  ss_next_close :: "int option"

definition evaluate_market_session ::
  "(int \<Rightarrow> int) \<Rightarrow> (int \<Rightarrow> int) \<Rightarrow> instrument_profile \<Rightarrow> int \<Rightarrow> session_result" where
  "evaluate_market_session to_ny from_ny p now =
     (let c = (case map_of DEFAULT_CALENDAR_BY_ASSET_CLASS (ip_asset_class p) of Some c \<Rightarrow> c | None \<Rightarrow> CAL_UNKNOWN);
          r = calendar_rule to_ny from_ny c now
      in \<lparr>ss_symbol = ip_symbol p, ss_calendar = c, ss_state = rw_state r, ss_policy = order_policy_of (rw_state r),
          ss_evaluated = now, ss_reason = rw_reason r, ss_timezone = rw_timezone r,
          ss_next_open = rw_next_open r, ss_next_close = rw_next_close r\<rparr>)"

definition evaluation_error :: "string \<Rightarrow> int \<Rightarrow> session_result" where
  "evaluation_error s now =
     \<lparr>ss_symbol = s, ss_calendar = CAL_UNKNOWN, ss_state = S_UNKNOWN, ss_policy = HALT_NEW_ORDERS,
      ss_evaluated = now, ss_reason = EVALUATION_ERROR, ss_timezone = ''UTC'', ss_next_open = None,
      ss_next_close = None\<rparr>"

definition evaluate_market_session_for_symbol ::
  "(int \<Rightarrow> int) \<Rightarrow> (int \<Rightarrow> int) \<Rightarrow> string \<Rightarrow> int \<Rightarrow> session_result" where
  "evaluate_market_session_for_symbol to_ny from_ny s now =
     (case get_spec s of None \<Rightarrow> evaluation_error s now
      | Some sp \<Rightarrow> (case profile_from_symbol_spec sp of Inl _ \<Rightarrow> evaluation_error s now
          | Inr p \<Rightarrow> evaluate_market_session to_ny from_ny p now))"

subsection \<open>The trading week\<close>

abbreviation sunday_22 :: int where
  "sunday_22 \<equiv> 3 * day_us + 22 * hour_us"

lemmas clock_units = day_us_def hour_us_def minute_us_def week_us_def

lemma day_split: "t = date_of t * day_us + t mod day_us" "0 \<le> t mod day_us" "t mod day_us < day_us"
  by (simp_all add: date_of_def day_us_def)

lemma week_start_bounds:
  fixes t :: int
  defines "w \<equiv> most_recent_weekday_at_hour t 6 22"
  shows "w \<le> t" "t < w + week_us" "\<exists>k. w = sunday_22 + k * week_us"
proof -
  define d s where "d = date_of t" and "s = t mod day_us"
  define n where "n = (weekday d - 6) mod 7"
  have t: "t = d * day_us + s" "0 \<le> s" "s < day_us" using day_split[of t] by (simp_all add: d_def s_def)
  have n: "0 \<le> n" "n < 7" by (simp_all add: n_def)
  have "\<exists>k. d - n = 3 + 7 * k" unfolding n_def weekday_def by presburger
  then obtain k where k: "d - n = 3 + 7 * k" ..
  have c: "at_clock d 22 0 - n * day_us = sunday_22 + k * week_us"
  proof -
    have "at_clock d 22 0 - n * day_us = (d - n) * day_us + 22 * hour_us"
      by (simp add: at_clock_def midnight_def algebra_simps)
    then show ?thesis unfolding k week_us_def by (simp add: algebra_simps)
  qed
  have w: "w = (if t < sunday_22 + k * week_us then sunday_22 + (k - 1) * week_us else sunday_22 + k * week_us)"
    unfolding w_def most_recent_weekday_at_hour_def Let_def d_def[symmetric] n_def[symmetric] c
    by (simp add: algebra_simps)
  have "t - (at_clock d 22 0 - n * day_us) = n * day_us + s - 22 * hour_us"
    using t(1) by (simp add: at_clock_def midnight_def algebra_simps)
  then have "t < sunday_22 + k * week_us + week_us" "sunday_22 + k * week_us - week_us \<le> t"
    using t n unfolding c by (auto simp: clock_units)
  then show "w \<le> t" "t < w + week_us" unfolding w by (auto simp: algebra_simps)
  show "\<exists>k. w = sunday_22 + k * week_us" unfolding w by (auto split: if_splits)
qed

lemma week_start_unique:
  assumes "sunday_22 + k * week_us \<le> t" "t < sunday_22 + k * week_us + week_us"
  shows "most_recent_weekday_at_hour t 6 22 = sunday_22 + k * week_us"
proof -
  obtain j where j: "most_recent_weekday_at_hour t 6 22 = sunday_22 + j * week_us"
    using week_start_bounds(3) by blast
  have "j * week_us < (k + 1) * week_us" "k * week_us < (j + 1) * week_us"
    using week_start_bounds(1,2)[of t] assms unfolding j by (simp_all add: algebra_simps)
  then have "j = k" by (simp add: clock_units)
  then show ?thesis using j by simp
qed

subsection \<open>What a calendar announces\<close>

definition opens :: "(int \<Rightarrow> raw_evaluation) \<Rightarrow> int \<Rightarrow> bool" where
  "opens rule t \<longleftrightarrow> rw_state (rule t) = S_OPEN"

definition first_opening :: "(int \<Rightarrow> raw_evaluation) \<Rightarrow> int \<Rightarrow> int \<Rightarrow> bool" where
  "first_opening rule t u \<longleftrightarrow> t < u \<and> opens rule u \<and> (\<forall>v. t \<le> v \<and> v < u \<longrightarrow> \<not> opens rule v)"

definition open_until :: "(int \<Rightarrow> raw_evaluation) \<Rightarrow> int \<Rightarrow> int \<Rightarrow> bool" where
  "open_until rule t u \<longleftrightarrow> t < u \<and> \<not> opens rule u \<and> (\<forall>v. t \<le> v \<and> v < u \<longrightarrow> opens rule v)"

definition announces :: "(int \<Rightarrow> raw_evaluation) \<Rightarrow> int \<Rightarrow> bool" where
  "announces rule t \<longleftrightarrow>
     (if opens rule t then \<exists>u. rw_next_close (rule t) = Some u \<and> open_until rule t u
      else \<exists>u. rw_next_open (rule t) = Some u \<and> first_opening rule t u)"

abbreviation week_start :: "int \<Rightarrow> int" where
  "week_start t \<equiv> most_recent_weekday_at_hour t 6 22"

lemma week_start_same:
  assumes "week_start t \<le> v" "v < week_start t + week_us"
  shows "week_start v = week_start t"
  using week_start_bounds(3)[of t] week_start_unique assms by metis

lemma week_start_next: "week_start (week_start t + week_us) = week_start t + week_us"
proof -
  obtain k where k: "week_start t = sunday_22 + k * week_us" using week_start_bounds(3) by blast
  then have "week_start t + week_us = sunday_22 + (k + 1) * week_us" by (simp add: algebra_simps)
  then show ?thesis using week_start_unique[of "k + 1" "week_start t + week_us"] by (simp add: clock_units)
qed

lemma opens_forex: "opens forex_24_5 t \<longleftrightarrow> t < week_start t + 5 * day_us"
  using week_start_bounds(1)[of t]
  by (simp add: opens_def forex_24_5_def weekly_window_def Let_def raw_def)

lemma forex_announces: "announces forex_24_5 t"
proof -
  note w = week_start_bounds(1,2)[of t]
  have o: "opens forex_24_5 v \<longleftrightarrow> v < week_start t + 5 * day_us" if "week_start t \<le> v" "v < week_start t + week_us" for v
    using that(1) week_start_same[OF that] by (simp only: opens_forex)
  have n: "opens forex_24_5 (week_start t + week_us)"
    unfolding opens_forex week_start_next by (simp add: day_us_def)
  show ?thesis
  proof (cases "opens forex_24_5 t")
    case True
    then have "rw_next_close (forex_24_5 t) = Some (week_start t + 5 * day_us)"
      using w by (simp add: opens_forex forex_24_5_def weekly_window_def Let_def raw_def)
    moreover have "open_until forex_24_5 t (week_start t + 5 * day_us)"
      using True w o unfolding open_until_def opens_forex[of t] by (simp add: clock_units)
    ultimately show ?thesis using True by (simp add: announces_def)
  next
    case False
    then have "rw_next_open (forex_24_5 t) = Some (week_start t + week_us)"
      using w by (simp add: opens_forex forex_24_5_def weekly_window_def Let_def raw_def)
    moreover have "first_opening forex_24_5 t (week_start t + week_us)"
      using False w o n unfolding first_opening_def opens_forex[of t] by auto
    ultimately show ?thesis using False by (simp add: announces_def)
  qed
qed

text \<open>Time of day.\<close>

abbreviation clock :: "int \<Rightarrow> int" where
  "clock t \<equiv> t mod day_us"

lemma clock_cmp:
  "at_clock (date_of t) h m \<le> t \<longleftrightarrow> h * hour_us + m * minute_us \<le> clock t"
  "t < at_clock (date_of t) h m \<longleftrightarrow> clock t < h * hour_us + m * minute_us"
  using day_split(1)[of t] by (auto simp: at_clock_def midnight_def)

definition maintenance :: "int \<Rightarrow> bool" where
  "maintenance t \<longleftrightarrow> 21 * hour_us \<le> clock t \<and> clock t < 22 * hour_us"

lemma opens_metals: "opens metals_23_5 t \<longleftrightarrow> t < week_start t + 5 * day_us \<and> \<not> maintenance t"
  using week_start_bounds(1)[of t]
  by (auto simp: opens_def metals_23_5_def weekly_window_def Let_def raw_def clock_cmp maintenance_def)

lemma clock_shift: "0 \<le> clock t + x \<Longrightarrow> clock t + x < day_us \<Longrightarrow> clock (t + x) = clock t + x"
  by (metis mod_add_left_eq mod_pos_pos_trivial)

lemma clock_shift_day: "day_us \<le> clock t + x \<Longrightarrow> clock t + x < 2 * day_us \<Longrightarrow> clock (t + x) = clock t + x - day_us"
  using clock_shift[of t "x - day_us"] mod_add_self2[of "t + x - day_us" day_us] by (simp add: add_diff_eq)

lemma week_start_clock: "clock (week_start t) = 22 * hour_us"
proof -
  obtain k where "week_start t = sunday_22 + k * week_us" using week_start_bounds(3) by blast
  then have "week_start t = 22 * hour_us + (3 + 7 * k) * day_us" by (simp add: week_us_def algebra_simps)
  moreover have "(22 * hour_us + (3 + 7 * k) * day_us) mod day_us = 22 * hour_us"
    by (simp only: mod_mult_self1) (simp add: clock_units)
  ultimately show ?thesis by simp
qed

lemma metals_open:
  assumes "opens metals_23_5 t"
  shows "rw_next_close (metals_23_5 t) =
    Some (min (t + (if clock t < 21 * hour_us then 21 * hour_us - clock t else 45 * hour_us - clock t))
      (week_start t + 5 * day_us))"
proof -
  have "at_clock (date_of t) 21 0 = t - clock t + 21 * hour_us"
    using day_split(1)[of t] by (simp add: at_clock_def midnight_def)
  then show ?thesis
    using assms week_start_bounds(1)[of t] unfolding opens_metals maintenance_def
    by (auto simp: metals_23_5_def weekly_window_def Let_def raw_def clock_cmp clock_units)
qed

lemma metals_open_until:
  assumes "opens metals_23_5 t" "rw_next_close (metals_23_5 t) = Some u"
  shows "open_until metals_23_5 t u"
proof -
  define a where "a = (if clock t < 21 * hour_us then 21 * hour_us - clock t else 45 * hour_us - clock t)"
  define e where "e = week_start t + 5 * day_us"
  have u: "u = min (t + a) e" using metals_open[OF assms(1)] assms(2) by (simp add: a_def e_def)
  have t: "t < e" "\<not> maintenance t" using assms(1) by (simp_all add: opens_metals e_def)
  have c: "0 \<le> clock t" "clock t < day_us" by (simp_all add: day_us_def)
  have a0: "0 < a" "a < day_us" using c t(2) by (auto simp: a_def maintenance_def clock_units)
  have same: "week_start v = week_start t" if "t \<le> v" "v \<le> e" for v
    using that week_start_bounds(1)[of t] by (intro week_start_same) (simp_all add: e_def clock_units)
  have dark: "\<not> maintenance v" if "t \<le> v" "v < t + a" for v
  proof -
    define x where "x = v - t"
    have x: "0 \<le> x" "x < a" "v = t + x" using that by (simp_all add: x_def)
    have "clock v = clock t + x \<or> clock v = clock t + x - day_us"
      using clock_shift[of t x] clock_shift_day[of t x] x a0 c by (cases "clock t + x < day_us") auto
    then show ?thesis using x t(2) c by (auto simp: maintenance_def a_def clock_units split: if_splits)
  qed
  have "opens metals_23_5 v" if "t \<le> v" "v < u" for v
    using same[of v] dark[of v] that u by (simp add: opens_metals e_def)
  moreover have "\<not> opens metals_23_5 u"
  proof (cases "t + a < e")
    case True
    have "clock (t + a) = 21 * hour_us"
      using clock_shift[of t a] clock_shift_day[of t a] a0 c by (auto simp: a_def clock_units split: if_splits)
    then show ?thesis using True u by (simp add: opens_metals maintenance_def clock_units min_def)
  next
    case False
    then show ?thesis using u same[of e] t by (simp add: opens_metals e_def min_def)
  qed
  ultimately show ?thesis using a0 t u by (simp add: open_until_def)
qed

lemma metals_weekend:
  assumes "\<not> t < week_start t + 5 * day_us"
  shows "rw_next_open (metals_23_5 t) = Some (week_start t + week_us)"
    "first_opening metals_23_5 t (week_start t + week_us)"
proof -
  show "rw_next_open (metals_23_5 t) = Some (week_start t + week_us)"
    using assms by (simp add: metals_23_5_def weekly_window_def Let_def raw_def)
  have "\<not> opens metals_23_5 v" if "t \<le> v" "v < week_start t + week_us" for v
    using week_start_same[of t v] week_start_bounds(1)[of t] that assms by (simp add: opens_metals)
  moreover have "opens metals_23_5 (week_start t + week_us)"
    using week_start_clock[of "week_start t + week_us"] unfolding week_start_next
    by (simp add: opens_metals week_start_next maintenance_def day_us_def)
  ultimately show "first_opening metals_23_5 t (week_start t + week_us)"
    using week_start_bounds(2)[of t] by (simp add: first_opening_def)
qed

lemma metals_maintenance:
  assumes "t < week_start t + 5 * day_us" "maintenance t"
  defines "u \<equiv> t - clock t + 22 * hour_us"
  shows "rw_state (metals_23_5 t) = S_MAINTENANCE" "rw_next_open (metals_23_5 t) = Some u"
    "t < u" "u \<le> week_start t + 5 * day_us"
    "\<forall>v. t \<le> v \<and> v < u \<longrightarrow> \<not> opens metals_23_5 v"
    "u < week_start t + 5 * day_us \<Longrightarrow> opens metals_23_5 u"
proof -
  have at: "at_clock (date_of t) 22 0 = u"
    using day_split(1)[of t] by (simp add: at_clock_def midnight_def u_def)
  show "rw_state (metals_23_5 t) = S_MAINTENANCE" "rw_next_open (metals_23_5 t) = Some u"
    using assms(1,2) week_start_bounds(1)[of t]
    by (simp_all add: metals_23_5_def weekly_window_def Let_def raw_def clock_cmp maintenance_def at[symmetric])
  show "t < u" using assms(2) by (simp add: u_def maintenance_def)
  obtain k where "week_start t = sunday_22 + k * week_us" using week_start_bounds(3) by blast
  then have e: "week_start t + 5 * day_us = (8 + 7 * k) * day_us + 22 * hour_us"
    by (simp add: week_us_def algebra_simps)
  have "u = date_of t * day_us + 22 * hour_us" using day_split(1)[of t] by (simp add: u_def)
  moreover have "date_of t * day_us < (8 + 7 * k + 1) * day_us"
    using assms(1,2) day_split(1)[of t] e by (simp add: maintenance_def algebra_simps clock_units)
  then have "date_of t \<le> 8 + 7 * k" by (simp add: day_us_def)
  ultimately show le: "u \<le> week_start t + 5 * day_us" unfolding e by (simp add: day_us_def)
  have cv: "clock v = clock t + (v - t)" if "t \<le> v" "v \<le> u" for v
    using clock_shift[of t "v - t"] that assms(2) by (simp add: u_def maintenance_def clock_units)
  show "\<forall>v. t \<le> v \<and> v < u \<longrightarrow> \<not> opens metals_23_5 v"
  proof (intro allI impI)
    fix v assume v: "t \<le> v \<and> v < u"
    then have "clock v = clock t + (v - t)" using cv[of v] by simp
    then have "maintenance v" using assms(2) v by (simp add: maintenance_def u_def)
    then show "\<not> opens metals_23_5 v" by (simp add: opens_metals)
  qed
  assume less: "u < week_start t + 5 * day_us"
  have "week_start u = week_start t"
    using week_start_bounds(1)[of t] \<open>t < u\<close> less by (intro week_start_same) (simp_all add: clock_units)
  moreover have "clock u = 22 * hour_us" using cv[of u] \<open>t < u\<close> by (simp add: u_def)
  ultimately show "opens metals_23_5 u" using less by (simp add: opens_metals maintenance_def)
qed

subsection \<open>The indices\<close>

lemma next_trading_day_props:
  "d < next_trading_day d" "weekday (next_trading_day d) < 5"
  "\<And>e. d < e \<Longrightarrow> e < next_trading_day d \<Longrightarrow> \<not> weekday e < 5"
proof (induction d rule: next_trading_day.induct)
  case (1 d)
  { case 1 show ?case using "1.IH"(1) by (subst next_trading_day.simps) fastforce }
  { case 2 show ?case using "1.IH"(2) by (subst next_trading_day.simps) auto }
  { case (3 e)
    show ?case
    proof (cases "weekday (d + 1) < 5")
      case True
      then show ?thesis using 3 by (subst (asm) next_trading_day.simps) simp
    next
      case False
      then have "next_trading_day d = next_trading_day (d + 1)" by (subst next_trading_day.simps) simp
      then show ?thesis using 3 "1.IH"(3)[OF False, of e] False by (cases "e = d + 1") auto
    qed }
qed

lemma opens_us: "opens us_indices_local t \<longleftrightarrow>
    weekday (date_of t) < 5 \<and> 9 * hour_us + 30 * minute_us \<le> clock t \<and> clock t < 16 * hour_us"
  by (auto simp: opens_def us_indices_local_def Let_def raw_def clock_cmp clock_units)

lemma at_clock_date:
  assumes "0 \<le> h * hour_us + m * minute_us" "h * hour_us + m * minute_us < day_us"
  shows "date_of (at_clock d h m) = d" "clock (at_clock d h m) = h * hour_us + m * minute_us"
proof -
  have "at_clock d h m = d * day_us + (h * hour_us + m * minute_us)" by (simp add: at_clock_def midnight_def)
  then show "date_of (at_clock d h m) = d" "clock (at_clock d h m) = h * hour_us + m * minute_us"
    using assms by (simp_all add: date_of_def day_us_def)
qed

lemma us_next_weekday_open:
  assumes "\<not> weekday (date_of t) < 5 \<or> 16 * hour_us \<le> clock t"
  shows "first_opening us_indices_local t (next_weekday_open t 9 30)"
proof -
  let ?d = "date_of t"
  note n = next_trading_day_props[of ?d]
  have at: "date_of (at_clock d 9 30) = d" "clock (at_clock d 9 30) = 9 * hour_us + 30 * minute_us" for d
    by (rule at_clock_date; simp add: clock_units)+
  have "t < (?d + 1) * day_us" using day_split[of t] by (simp add: algebra_simps)
  also have "\<dots> \<le> next_trading_day ?d * day_us" using n(1) by (simp add: day_us_def)
  also have "\<dots> \<le> next_weekday_open t 9 30"
    by (simp add: next_weekday_open_def at_clock_def midnight_def clock_units)
  finally have "t < next_weekday_open t 9 30" .
  moreover have "opens us_indices_local (next_weekday_open t 9 30)"
    using n(2) unfolding next_weekday_open_def opens_us at by (simp add: clock_units)
  moreover have "\<not> opens us_indices_local v" if v: "t \<le> v" "v < next_weekday_open t 9 30" for v
  proof -
    have "?d \<le> date_of v" using v(1) by (simp add: date_of_def zdiv_mono1 day_us_def)
    have "date_of v \<le> next_trading_day ?d"
      using zdiv_mono1[of v "next_weekday_open t 9 30" day_us] v(2) at(1)[of "next_trading_day ?d"]
      by (simp add: date_of_def next_weekday_open_def day_us_def)
    then consider "date_of v = ?d" | "?d < date_of v" "date_of v < next_trading_day ?d" | "date_of v = next_trading_day ?d"
      using \<open>?d \<le> date_of v\<close> by linarith
    then show ?thesis
    proof cases
      case 1
      then have "clock t \<le> clock v" using v(1) day_split(1)[of t] day_split(1)[of v] by simp
      then show ?thesis using 1 assms by (auto simp: opens_us)
    next
      case 2
      then show ?thesis using n(3) by (simp add: opens_us)
    next
      case 3
      then show ?thesis using v(2) clock_cmp(2)[of v 9 30] by (simp add: opens_us next_weekday_open_def)
    qed
  qed
  ultimately show ?thesis by (simp add: first_opening_def)
qed

lemma weekend_opening:
  assumes "\<not> weekday (date_of t) < 5"
  shows "next_weekday_at t 0 9 30 = next_weekday_open t 9 30"
proof -
  let ?d = "date_of t"
  have "weekday ?d = 5 \<or> weekday ?d = 6" using assms weekday_bounds[of ?d] by linarith
  moreover have w: "weekday (?d + 1) = (weekday ?d + 1) mod 7" "weekday (?d + 1 + 1) = (weekday ?d + 2) mod 7"
    unfolding weekday_def by presburger+
  ultimately have "next_trading_day ?d = ?d + (0 - weekday ?d) mod 7 \<and> 0 < (0 - weekday ?d) mod 7"
    by (subst next_trading_day.simps, subst next_trading_day.simps) auto
  moreover have "t < at_clock (?d + a) 9 30" if "0 < a" for a
  proof -
    have "t < (?d + 1) * day_us" using day_split[of t] by (simp add: algebra_simps)
    also have "\<dots> \<le> (?d + a) * day_us" using that by (simp add: day_us_def)
    finally show ?thesis by (simp add: at_clock_def midnight_def clock_units)
  qed
  ultimately show ?thesis by (simp add: next_weekday_at_def next_weekday_open_def Let_def not_le[symmetric])
qed

lemma same_day_clock:
  assumes "0 \<le> x" "x < day_us" "t \<le> v" "v < t - clock t + x"
  shows "date_of v = date_of t" "clock v = clock t + (v - t)"
proof -
  show c: "clock v = clock t + (v - t)"
    using clock_shift[of t "v - t"] day_split(2)[of t] assms by simp
  then show "date_of v = date_of t"
    using day_split(1)[of t] day_split(1)[of v] by (simp add: day_us_def)
qed

lemma us_same_day:
  assumes "weekday (date_of t) < 5"
  shows "clock t < 9 * hour_us + 30 * minute_us \<Longrightarrow> first_opening us_indices_local t (at_clock (date_of t) 9 30)"
    "opens us_indices_local t \<Longrightarrow> open_until us_indices_local t (at_clock (date_of t) 16 0)"
proof -
  have at: "at_clock (date_of t) h m = t - clock t + (h * hour_us + m * minute_us)" for h m
    using day_split(1)[of t] by (simp add: at_clock_def midnight_def)
  have c: "0 \<le> 9 * hour_us + 30 * minute_us" "9 * hour_us + 30 * minute_us < day_us"
    "0 \<le> 16 * hour_us + 0 * minute_us" "16 * hour_us + 0 * minute_us < day_us"
    by (simp_all add: clock_units)
  show "first_opening us_indices_local t (at_clock (date_of t) 9 30)" if less: "clock t < 9 * hour_us + 30 * minute_us"
  proof -
    have "opens us_indices_local (at_clock (date_of t) 9 30)"
      using assms unfolding opens_us at_clock_date[OF c(1,2)] by (simp add: clock_units)
    moreover have "\<not> opens us_indices_local v" if "t \<le> v" "v < at_clock (date_of t) 9 30" for v
      using same_day_clock[OF c(1,2) that(1)] that(2) unfolding at by (simp add: opens_us)
    ultimately show ?thesis using less by (simp add: first_opening_def at)
  qed
  show "open_until us_indices_local t (at_clock (date_of t) 16 0)" if "opens us_indices_local t"
  proof -
    have "\<not> opens us_indices_local (at_clock (date_of t) 16 0)"
      unfolding opens_us at_clock_date[OF c(3,4)] by simp
    moreover have "opens us_indices_local v" if v: "t \<le> v" "v < at_clock (date_of t) 16 0" for v
      using same_day_clock[OF c(3,4) v(1)] v \<open>opens us_indices_local t\<close> unfolding at by (simp add: opens_us)
    ultimately show ?thesis using that by (simp add: open_until_def at opens_us)
  qed
qed

lemma us_announces: "announces us_indices_local t"
proof -
  let ?d = "date_of t"
  consider "\<not> weekday ?d < 5" | "weekday ?d < 5" "clock t < 9 * hour_us + 30 * minute_us"
    | "weekday ?d < 5" "opens us_indices_local t" | "weekday ?d < 5" "16 * hour_us \<le> clock t"
    unfolding opens_us by linarith
  then show ?thesis
  proof cases
    case 1
    then have "rw_next_open (us_indices_local t) = Some (next_weekday_open t 9 30)" "\<not> opens us_indices_local t"
      using weekend_opening by (simp_all add: us_indices_local_def opens_us Let_def raw_def)
    then show ?thesis using us_next_weekday_open[of t] 1 by (simp add: announces_def)
  next
    case 2
    then have "rw_next_open (us_indices_local t) = Some (at_clock ?d 9 30)" "\<not> opens us_indices_local t"
      by (auto simp: us_indices_local_def opens_us Let_def raw_def clock_cmp clock_units)
    then show ?thesis using us_same_day(1)[OF 2] by (simp add: announces_def)
  next
    case 3
    then have "rw_next_close (us_indices_local t) = Some (at_clock ?d 16 0)"
      by (auto simp: us_indices_local_def opens_us Let_def raw_def clock_cmp clock_units)
    then show ?thesis using us_same_day(2)[OF 3] 3 by (simp add: announces_def)
  next
    case 4
    then have "rw_next_open (us_indices_local t) = Some (next_weekday_open t 9 30)" "\<not> opens us_indices_local t"
      by (auto simp: us_indices_local_def opens_us Let_def raw_def clock_cmp clock_units)
    then show ?thesis using us_next_weekday_open[of t] 4 by (simp add: announces_def)
  qed
qed

text \<open>
  C30. What a calendar announces is true: at every time, the forex calendar and (on the clock
  of New York) the index calendar announce, when open, a closing time until which the
  market is open and at which it is not, and when closed, the first time at which it is open again. The metals
  calendar does so too, except in the last hour of a trading week (Friday from 21:00 to 22:00 UTC):
  then it reports the daily maintenance and announces 22:00 of that Friday, where the market is
  closed, and it really opens 48 hours later, on Sunday.
\<close>

theorem calendars_announce_boundaries:
  "announces forex_24_5 t \<and> announces us_indices_local t \<and>
   (if week_start t + 5 * day_us - hour_us \<le> t \<and> t < week_start t + 5 * day_us
    then rw_state (metals_23_5 t) = S_MAINTENANCE
      \<and> (\<exists>u. rw_next_open (metals_23_5 t) = Some u \<and> u = week_start t + 5 * day_us
        \<and> rw_state (metals_23_5 u) = S_WEEKEND \<and> first_opening metals_23_5 t (u + 2 * day_us))
    else announces metals_23_5 t)"
proof (intro conjI)
  let ?e = "week_start t + 5 * day_us"
  have ce: "clock ?e = 22 * hour_us"
  proof -
    have "?e = week_start t + 5 * day_us" by simp
    then show ?thesis using week_start_clock[of t] by (simp only: mod_mult_self1)
  qed
  have nx: "?e + 2 * day_us = week_start t + week_us" by (simp add: week_us_def)
  show "if ?e - hour_us \<le> t \<and> t < ?e
    then rw_state (metals_23_5 t) = S_MAINTENANCE
      \<and> (\<exists>u. rw_next_open (metals_23_5 t) = Some u \<and> u = ?e
        \<and> rw_state (metals_23_5 u) = S_WEEKEND \<and> first_opening metals_23_5 t (u + 2 * day_us))
    else announces metals_23_5 t"
  proof (cases "?e - hour_us \<le> t \<and> t < ?e")
    case True
    have "clock t = 22 * hour_us - (?e - t)"
      using clock_shift[of ?e "t - ?e"] True ce by (simp add: clock_units)
    then have m: "maintenance t" "t - clock t + 22 * hour_us = ?e"
      using True by (simp_all add: maintenance_def)
    note mt = metals_maintenance[OF _ m(1), unfolded m(2)]
    have we: "week_start ?e = week_start t"
      using week_start_bounds(1)[of t] True by (intro week_start_same) (simp_all add: clock_units)
    have wk: "first_opening metals_23_5 ?e (week_start t + week_us)"
      using metals_weekend(2)[of ?e] we by simp
    have "rw_state (metals_23_5 ?e) = S_WEEKEND"
      by (simp add: metals_23_5_def weekly_window_def we Let_def raw_def)
    moreover have "first_opening metals_23_5 t (?e + 2 * day_us)"
      using wk mt(5) True unfolding nx first_opening_def by (meson not_le order_less_trans)
    ultimately show ?thesis using True mt(1,2) by simp
  next
    case False
    consider "?e \<le> t" | "opens metals_23_5 t" | "t < ?e" "maintenance t"
      unfolding opens_metals using not_less by blast
    then have "announces metals_23_5 t"
    proof cases
      case 1
      then show ?thesis using metals_weekend[of t] by (auto simp: announces_def opens_metals)
    next
      case 2
      then show ?thesis using metals_open metals_open_until by (auto simp: announces_def)
    next
      case 3
      note mt = metals_maintenance[OF 3]
      have "t - clock t + 22 * hour_us < ?e" using 3 mt(4) False by (auto simp: maintenance_def)
      then show ?thesis using mt 3 by (auto simp: announces_def first_opening_def opens_metals)
    qed
    then show ?thesis using False by (simp only: if_False)
  qed
qed (rule forex_announces us_announces)+

subsection \<open>Policies\<close>

text \<open>
  New positions are allowed exactly while the calendar of the symbol is open; a symbol that is not
  registered is halted.
\<close>

lemma session_policy:
  "ss_policy (evaluate_market_session_for_symbol ny un s now) = OPEN_NORMAL \<longleftrightarrow>
     (\<exists>sp. get_spec s = Some sp \<and>
       (case map_of DEFAULT_CALENDAR_BY_ASSET_CLASS (sp_asset_class sp) of
          Some CRYPTO_24_7 \<Rightarrow> True
        | Some FOREX_24_5 \<Rightarrow> opens forex_24_5 now
        | Some METALS_23_5 \<Rightarrow> opens metals_23_5 now
        | Some US_INDICES_CFD \<Rightarrow> opens us_indices_local (ny now)
        | _ \<Rightarrow> False))"
proof (cases "get_spec s")
  case (Some sp)
  have p: "profile_from_symbol_spec sp = Inr (profile_of_spec sp)" "ip_asset_class (profile_of_spec sp) = sp_asset_class sp"
    using get_spec_Some[OF Some] profile_of_registered by (simp_all add: profile_of_spec_def)
  have o: "order_policy_of r = OPEN_NORMAL \<longleftrightarrow> r = S_OPEN" for r by (cases r) (simp_all add: order_policy_of_def)
  show ?thesis
    by (auto simp: evaluate_market_session_for_symbol_def evaluate_market_session_def Some p o opens_def Let_def
        calendar_rule_def crypto_24_7_def always_closed_def unknown_calendar_def us_indices_cfd_def raw_def
        split: option.splits calendar_id.splits)
qed (simp add: evaluate_market_session_for_symbol_def evaluation_error_def)

end
