(* ===== verification/Pricing.thy ===== *)
theory Pricing
  imports ChallengeEngine MarketSessions
begin

section \<open>Spread and commission (\<open>spread_engine\<close>, \<open>dynamic_spread\<close>, \<open>commercial_pricing\<close>)\<close>

text \<open>
  What a client pays on top of the market price: the spread configuration of a symbol and its
  cache, the commercial profile of an account, the dynamic multipliers, the widened quote,
  the commission and how the charges of an opening are posted. Prices and pips are
  floats. Log lines are left out, and so is the id of a dynamic decision, a hash of its inputs.
\<close>

subsection \<open>Configuration of a symbol and its cache (\<open>spread_config_cache.py\<close>)\<close>

record spread_config =
  sc_pips :: rat
  sc_min :: "rat option"
  sc_max :: "rat option"
  sc_bounds :: bool
  sc_enabled :: bool
  sc_dynamic :: bool
  sc_manual :: rat
  sc_manual_reason :: string
  sc_manual_expires :: "rat option"

record cached_config =
  cc_pips :: rat
  cc_min :: "rat option"
  cc_max :: "rat option"
  cc_dynamic :: bool
  cc_manual :: rat
  cc_manual_reason :: string
  cc_manual_expires :: "rat option"

text \<open>The table of configurations is keyed by its unique symbol. A refresh replaces the whole cache.\<close>

record spread_cache =
  ca_configs :: "string \<Rightarrow> cached_config option"
  ca_refreshed :: "rat option"

definition REFRESH_INTERVAL_SECONDS :: rat where "REFRESH_INTERVAL_SECONDS = 30"

definition cached_of :: "spread_config \<Rightarrow> cached_config" where
  "cached_of c =
     \<lparr>cc_pips = fl (sc_pips c),
      cc_min = (if sc_bounds c then map_option fl (sc_min c) else None),
      cc_max = (if sc_bounds c then map_option fl (sc_max c) else None),
      cc_dynamic = sc_dynamic c, cc_manual = fl (sc_manual c), cc_manual_reason = sc_manual_reason c,
      cc_manual_expires = sc_manual_expires c\<rparr>"

definition refresh_cache_sync :: "(string \<Rightarrow> spread_config option) \<Rightarrow> rat \<Rightarrow> spread_cache" where
  "refresh_cache_sync rows now =
     \<lparr>ca_configs = (\<lambda>s. case rows s of None \<Rightarrow> None
         | Some c \<Rightarrow> if sc_enabled c then Some (cached_of c) else None),
      ca_refreshed = Some now\<rparr>"

definition get_cached_config :: "spread_cache \<Rightarrow> string \<Rightarrow> cached_config option" where
  "get_cached_config ca s = ca_configs ca (normalize_symbol s)"

definition is_stale :: "spread_cache \<Rightarrow> rat \<Rightarrow> bool" where
  "is_stale ca now =
     (case ca_refreshed ca of None \<Rightarrow> True | Some t \<Rightarrow> REFRESH_INTERVAL_SECONDS \<le> fl (now - t))"

text \<open>\<open>BrokerSpreadConfig.save\<close> normalises the symbol and checks the bounds.\<close>

definition save_spread_config ::
  "string \<Rightarrow> spread_config \<Rightarrow> (string \<Rightarrow> spread_config option) \<Rightarrow> (string \<Rightarrow> spread_config option) option" where
  "save_spread_config s c rows =
     (case (sc_min c, sc_max c) of
        (Some lo, Some hi) \<Rightarrow> if hi < lo then None else Some (rows(normalize_symbol s \<mapsto> c))
      | _ \<Rightarrow> Some (rows(normalize_symbol s \<mapsto> c)))"

subsection \<open>Commercial profile of an account (\<open>commercial_pricing.py\<close>)\<close>

datatype pricing_source =
  ACCOUNT_SNAPSHOT | ACCOUNT_SNAPSHOT_LEGACY | ACCOUNT_PRODUCT | CHALLENGE_PRODUCT | LEGACY_FALLBACK | SOURCE_CAPTURE_FAILED

text \<open>The dictionary of the fields and the profile built from it have the same entries.\<close>

record commercial_profile =
  pp_id :: string
  pp_account_type :: "account_type option"
  pp_product_type :: "string option"
  pp_markup :: rat
  pp_per_lot :: rat
  pp_pct :: rat
  pp_min :: "rat option"
  pp_max :: "rat option"
  pp_enabled :: bool
  pp_source :: pricing_source

record account_product =
  ap_type :: string
  ap_spread :: rat
  ap_per_lot :: rat
  ap_pct :: rat
  ap_active :: bool

record product_pricing =
  pr_pct :: rat
  pr_min :: "rat option"
  pr_max :: "rat option"
  pr_active :: bool

text \<open>
  Columns of \<open>TradingAccount\<close> that only pricing and the order path read, under the key of
  the account, and the pricing columns of \<open>ChallengeProduct\<close>, under the key of the product.
\<close>

record account_terms =
  at_profile :: "commercial_profile option"
  at_product :: "pk option"
  at_product_code :: "string option"
  at_netting :: bool
  at_allowed :: "string list option"
  at_max_lot :: "rat option"
  at_margin_call :: "rat option"
  at_max_trade_pct :: "rat option"
  at_max_total_pct :: "rat option"

record pricing_db = challenge_db +
  account_terms_of :: "account_terms table"
  account_products :: "account_product table"
  product_pricings :: "product_pricing table"
  spread_configs :: "string \<Rightarrow> spread_config option"

definition fields_of_account_product :: "pk \<Rightarrow> account_product \<Rightarrow> commercial_profile" where
  "fields_of_account_product k p =
     \<lparr>pp_id = ''account_product:'' @ dec k, pp_account_type = None, pp_product_type = Some (ap_type p),
      pp_markup = fl (ap_spread p), pp_per_lot = fl (ap_per_lot p), pp_pct = fl (ap_pct p),
      pp_min = None, pp_max = None, pp_enabled = ap_active p, pp_source = ACCOUNT_PRODUCT\<rparr>"

definition fields_of_challenge_product ::
  "pk \<Rightarrow> challenge_product \<Rightarrow> product_pricing \<Rightarrow> commercial_profile" where
  "fields_of_challenge_product k p x =
     \<lparr>pp_id = ''challenge_product:'' @ dec k, pp_account_type = None, pp_product_type = Some ''CHALLENGE'',
      pp_markup = fl (cp_spread_markup p), pp_per_lot = fl (cp_commission_per_lot p), pp_pct = fl (pr_pct x),
      pp_min = map_option fl (pr_min x), pp_max = map_option fl (pr_max x), pp_enabled = pr_active x,
      pp_source = CHALLENGE_PRODUCT\<rparr>"

text \<open>\<open>_safe_float(value) or 0.0\<close>\<close>

definition fl_or_0 :: "rat option \<Rightarrow> rat" where
  "fl_or_0 v = (case v of None \<Rightarrow> 0 | Some x \<Rightarrow> fl x)"

definition fields_of_flat_snapshot :: "pk \<Rightarrow> trading_account \<Rightarrow> account_terms \<Rightarrow> commercial_profile" where
  "fields_of_flat_snapshot k a t =
     \<lparr>pp_id = ''account_snapshot_legacy:'' @ dec k, pp_account_type = Some (acc_type a),
      pp_product_type = at_product_code t, pp_markup = fl_or_0 (spread_pips_snapshot a),
      pp_per_lot = fl_or_0 (commission_per_lot_snapshot a), pp_pct = 0, pp_min = None, pp_max = None,
      pp_enabled = True, pp_source = ACCOUNT_SNAPSHOT_LEGACY\<rparr>"

definition fallback_fields :: "account_type option \<Rightarrow> commercial_profile" where
  "fallback_fields ty =
     \<lparr>pp_id = ''legacy_fallback'', pp_account_type = ty, pp_product_type = None, pp_markup = 0, pp_per_lot = 0,
      pp_pct = 0, pp_min = None, pp_max = None, pp_enabled = True, pp_source = LEGACY_FALLBACK\<rparr>"

text \<open>
  The enrollment that owns an account, and its product; \<open>n\<close> is a bound on the keys of the
  enrollments.
\<close>

definition find_challenge_product :: "nat \<Rightarrow> pk \<Rightarrow> 'a pricing_db_scheme \<Rightarrow> (pk \<times> challenge_product) option" where
  "find_challenge_product n k s =
     (case rows_where n (enrollments s)
             (\<lambda>e. en_phase1 e = Some k \<or> en_phase2 e = Some k \<or> en_funded e = Some k) of
        [] \<Rightarrow> None
      | i # _ \<Rightarrow> (case enrollments s i of None \<Rightarrow> None
          | Some e \<Rightarrow> map_option (Pair (en_product e)) (products s (en_product e))))"

definition resolve_commercial_pricing_fields ::
  "nat \<Rightarrow> pk \<Rightarrow> trading_account \<Rightarrow> account_terms \<Rightarrow> 'a pricing_db_scheme \<Rightarrow> commercial_profile" where
  "resolve_commercial_pricing_fields n k a t s =
     (case at_profile t of
        Some p \<Rightarrow> p
      | None \<Rightarrow>
          if spread_pips_snapshot a \<noteq> None \<or> commission_per_lot_snapshot a \<noteq> None
            then fields_of_flat_snapshot k a t
          else case at_product t of
            Some p \<Rightarrow> (case account_products s p of
                Some ap \<Rightarrow> fields_of_account_product p ap
              | None \<Rightarrow> fallback_fields (Some (acc_type a)))
          | None \<Rightarrow> (case find_challenge_product n k s of
                Some (p, cp) \<Rightarrow> (case product_pricings s p of
                    Some x \<Rightarrow> fields_of_challenge_product p cp x
                  | None \<Rightarrow> fallback_fields (Some (acc_type a)))
              | None \<Rightarrow> fallback_fields (Some (acc_type a))))"

text \<open>
  The profile for a symbol: the bounds of the account win over those of the symbol. A floor above the
  ceiling makes the constructor raise, which is caught: the failed profile charges nothing of what the
  account agreed on.
\<close>

definition failed_profile :: commercial_profile where
  "failed_profile =
     \<lparr>pp_id = ''capture_failed'', pp_account_type = None, pp_product_type = None, pp_markup = 0, pp_per_lot = 0,
      pp_pct = 0, pp_min = None, pp_max = None, pp_enabled = False, pp_source = LEGACY_FALLBACK\<rparr>"

definition or_else :: "'a option \<Rightarrow> 'a option \<Rightarrow> 'a option" where
  "or_else x y = (case x of None \<Rightarrow> y | Some _ \<Rightarrow> x)"

definition crossed_bounds :: "rat option \<Rightarrow> rat option \<Rightarrow> bool" where
  "crossed_bounds lo hi = (case (lo, hi) of (Some l, Some h) \<Rightarrow> h < l | _ \<Rightarrow> False)"

definition build_commercial_pricing_profile ::
  "commercial_profile \<Rightarrow> string \<Rightarrow> spread_cache \<Rightarrow> commercial_profile" where
  "build_commercial_pricing_profile f s ca =
     (let cfg = get_cached_config ca s;
          lo = or_else (pp_min f) (case cfg of None \<Rightarrow> None | Some c \<Rightarrow> cc_min c);
          hi = or_else (pp_max f) (case cfg of None \<Rightarrow> None | Some c \<Rightarrow> cc_max c)
      in if crossed_bounds lo hi then failed_profile else f\<lparr>pp_min := lo, pp_max := hi\<rparr>)"

subsection \<open>Dynamic multipliers (\<open>dynamic_spread.py\<close>)\<close>

record dynamic_inputs =
  di_base :: rat
  di_markup :: rat
  di_dynamic :: bool
  di_session :: "session_state option"
  di_source :: "source_state option"
  di_stale :: bool
  di_volatility :: "rat option"
  di_liquidity :: "rat option"
  di_manual :: "rat option"
  di_manual_reason :: string
  di_manual_expires :: "rat option"
  di_evaluated :: rat
  di_min :: "rat option"
  di_max :: "rat option"

definition session_multiplier :: "session_state option \<Rightarrow> rat \<times> string" where
  "session_multiplier v =
     (case v of
        None \<Rightarrow> (2, ''session_state_unavailable_safe_default'')
      | Some S_OPEN \<Rightarrow> (1, ''session_open'')
      | Some S_PRE_MARKET \<Rightarrow> (fl (125 / 100), ''session_pre_market'')
      | Some S_AFTER_HOURS \<Rightarrow> (fl (135 / 100), ''session_after_hours'')
      | Some S_UNKNOWN \<Rightarrow> (2, ''session_unknown_safe_default'')
      | Some _ \<Rightarrow> (2, ''session_market_closed_wide_spread''))"

definition source_multiplier :: "source_state option \<Rightarrow> rat \<times> string" where
  "source_multiplier v =
     (case v of
        None \<Rightarrow> (1, ''source_state_unavailable_safe_default'')
      | Some LIVE \<Rightarrow> (1, ''source_live'')
      | Some SECONDARY \<Rightarrow> (fl (105 / 100), ''source_secondary'')
      | Some RECOVERY \<Rightarrow> (fl (110 / 100), ''source_recovery'')
      | Some SIMULATION \<Rightarrow> (fl (115 / 100), ''source_simulation'')
      | Some STALE \<Rightarrow> (1, ''source_stale_handled_by_stale_axis'')
      | Some SOURCE_CLOSED \<Rightarrow> (1, ''source_market_closed_handled_by_session_axis''))"

definition stale_multiplier :: "bool \<Rightarrow> rat \<times> string" where
  "stale_multiplier b = (if b then (fl (150 / 100), ''source_stale_wide_spread'') else (1, ''not_stale''))"

definition volatility_multiplier :: "rat option \<Rightarrow> rat \<times> string" where
  "volatility_multiplier v =
     (case v of
        None \<Rightarrow> (1, ''volatility_input_absent_neutral'')
      | Some x \<Rightarrow> (max 1 (min 2 (fl (1 + fl (x / 100)))), ''volatility_input_applied''))"

definition liquidity_multiplier :: "rat option \<Rightarrow> rat \<times> string" where
  "liquidity_multiplier v =
     (case v of
        None \<Rightarrow> (1, ''liquidity_input_absent_neutral'')
      | Some x \<Rightarrow> (max 1 (min 2 (fl (1 + fl (1 - max 0 (min 1 x))))), ''liquidity_input_applied''))"

definition manual_multiplier :: "rat option \<Rightarrow> rat option \<Rightarrow> rat \<Rightarrow> string \<Rightarrow> rat \<times> string" where
  "manual_multiplier m expires at_time reason =
     (case m of
        None \<Rightarrow> (1, ''manual_override_absent'')
      | Some x \<Rightarrow>
          if x \<le> 0 then (1, ''manual_override_invalid'')
          else if x = 1 then (1, ''manual_override_neutral'')
          else if (case expires of None \<Rightarrow> False | Some e \<Rightarrow> e \<le> at_time) then (1, ''manual_override_expired'')
          else (x, if reason = '''' then ''manual_override_active'' else ''manual_override_active:'' @ reason))"

text \<open>The floor first, then the ceiling; a bound that is absent does nothing.\<close>

definition clamp_pips :: "rat option \<Rightarrow> rat option \<Rightarrow> rat \<Rightarrow> rat" where
  "clamp_pips lo hi x =
     (let y = (case lo of None \<Rightarrow> x | Some l \<Rightarrow> if x < l then l else x)
      in case hi of None \<Rightarrow> y | Some h \<Rightarrow> if h < y then h else y)"

record dynamic_decision =
  dd_enabled :: bool
  dd_multipliers :: "rat list"
  dd_before :: rat
  dd_after :: rat
  dd_floor :: bool
  dd_ceiling :: bool
  dd_reasons :: "string list"

definition evaluate_dynamic_spread :: "dynamic_inputs \<Rightarrow> dynamic_decision" where
  "evaluate_dynamic_spread i =
     (let axes = (if di_dynamic i
            then [session_multiplier (di_session i), source_multiplier (di_source i), stale_multiplier (di_stale i),
                  volatility_multiplier (di_volatility i), liquidity_multiplier (di_liquidity i),
                  manual_multiplier (di_manual i) (di_manual_expires i) (di_evaluated i) (di_manual_reason i)]
            else replicate 6 (1, ''''));
          before = foldl (\<lambda>x m. fl (x * m)) (fl (di_base i + di_markup i)) (map fst axes);
          floored = (case di_min i of None \<Rightarrow> before | Some l \<Rightarrow> if before < l then l else before)
      in \<lparr>dd_enabled = di_dynamic i, dd_multipliers = map fst axes, dd_before = before,
          dd_after = clamp_pips (di_min i) (di_max i) before,
          dd_floor = (case di_min i of None \<Rightarrow> False | Some l \<Rightarrow> before < l),
          dd_ceiling = (case di_max i of None \<Rightarrow> False | Some h \<Rightarrow> h < floored),
          dd_reasons = (if di_dynamic i then map snd axes else [''dynamic_disabled''])\<rparr>)"

subsection \<open>The client's quote (\<open>spread_engine.py\<close>)\<close>

definition compute_effective_spread_pips ::
  "rat \<Rightarrow> rat \<Rightarrow> rat option \<Rightarrow> rat option \<Rightarrow> bool \<Rightarrow> dynamic_inputs option \<Rightarrow> rat \<times> rat" where
  "compute_effective_spread_pips base markup lo hi dynamic inputs =
     (case (if dynamic then inputs else None) of
        Some i \<Rightarrow> (dd_before (evaluate_dynamic_spread i), dd_after (evaluate_dynamic_spread i))
      | None \<Rightarrow> let before = fl (base + markup) in (before, clamp_pips lo hi before))"

text \<open>The pips that \<open>broker_price\<close> applies.\<close>

definition applied_pips ::
  "spread_cache \<Rightarrow> string \<Rightarrow> rat \<Rightarrow> rat option \<Rightarrow> rat option \<Rightarrow> dynamic_inputs option \<Rightarrow> rat" where
  "applied_pips ca s markup lo hi inputs =
     (let cfg = get_cached_config ca (normalize_symbol s)
      in snd (compute_effective_spread_pips (case cfg of None \<Rightarrow> 0 | Some c \<Rightarrow> cc_pips c) markup
           (or_else lo (case cfg of None \<Rightarrow> None | Some c \<Rightarrow> cc_min c))
           (or_else hi (case cfg of None \<Rightarrow> None | Some c \<Rightarrow> cc_max c))
           (case cfg of None \<Rightarrow> False | Some c \<Rightarrow> cc_dynamic c) inputs))"

definition broker_price ::
  "spread_cache \<Rightarrow> string \<Rightarrow> rat \<Rightarrow> rat \<Rightarrow> rat \<Rightarrow> rat option \<Rightarrow> rat option \<Rightarrow> dynamic_inputs option \<Rightarrow> rat \<times> rat" where
  "broker_price ca s bid ask markup lo hi inputs =
     (let pips = applied_pips ca s markup lo hi inputs
      in if pips \<le> 0 then (bid, ask)
         else case get_spec (normalize_symbol s) of
           None \<Rightarrow> (bid, ask)
         | Some sp \<Rightarrow>
             let extra = fl (fl (pips * sp_pip_size sp) / 2); n = nat (sp_price_decimals sp)
             in (py_round n (fl (bid - extra)), py_round n (fl (ask + extra))))"

definition calculate_spread_revenue :: "string \<Rightarrow> rat \<Rightarrow> rat \<Rightarrow> rat" where
  "calculate_spread_revenue s qty pips =
     (case get_spec (normalize_symbol s) of
        None \<Rightarrow> 0
      | Some sp \<Rightarrow> py_round 8 (fl (fl (fl (fl (pips * sp_pip_size sp) / 2) * qty) * num_value (sp_contract_size sp))))"

text \<open>
  \<open>build_dynamic_inputs\<close>, once per tick: the session at the time of the tick and the source that was
  last observed for the symbol, both only for a dynamic configuration. The time is in seconds.
\<close>

definition build_dynamic_inputs ::
  "(int \<Rightarrow> int) \<Rightarrow> (int \<Rightarrow> int) \<Rightarrow> (string \<Rightarrow> source_state option) \<Rightarrow> spread_cache \<Rightarrow> string \<Rightarrow> commercial_profile \<Rightarrow> rat
   \<Rightarrow> dynamic_inputs" where
  "build_dynamic_inputs ny un observed ca s p ts =
     (let c = normalize_symbol s; cfg = get_cached_config ca c;
          dynamic = (case cfg of None \<Rightarrow> False | Some x \<Rightarrow> cc_dynamic x);
          src = (if dynamic then observed c else None)
      in \<lparr>di_base = (case cfg of None \<Rightarrow> 0 | Some x \<Rightarrow> cc_pips x), di_markup = pp_markup p, di_dynamic = dynamic,
          di_session = (if dynamic
            then Some (ss_state (evaluate_market_session_for_symbol ny un c (round_half_even (ts * of_int second_us))))
            else None),
          di_source = src, di_stale = (src = Some STALE), di_volatility = None, di_liquidity = None,
          di_manual = map_option cc_manual cfg, di_manual_reason = (case cfg of None \<Rightarrow> '''' | Some x \<Rightarrow> cc_manual_reason x),
          di_manual_expires = (case cfg of None \<Rightarrow> None | Some x \<Rightarrow> cc_manual_expires x), di_evaluated = ts,
          di_min = pp_min p, di_max = pp_max p\<rparr>)"

subsection \<open>The record kept of a price (\<open>pricing_context.py\<close>)\<close>

text \<open>What \<open>tick_pricing_snapshot\<close> freezes at a tick, and what is derived from it at an order.\<close>

record tick_snapshot =
  ts_base :: "rat option"
  ts_markup :: rat
  ts_profile :: string
  ts_min :: "rat option"
  ts_max :: "rat option"
  ts_decision :: "dynamic_decision option"

definition tick_pricing_snapshot ::
  "spread_cache \<Rightarrow> string \<Rightarrow> commercial_profile \<Rightarrow> dynamic_inputs option \<Rightarrow> tick_snapshot" where
  "tick_pricing_snapshot ca s p inputs =
     \<lparr>ts_base = map_option cc_pips (get_cached_config ca (normalize_symbol s)), ts_markup = pp_markup p,
      ts_profile = pp_id p, ts_min = pp_min p, ts_max = pp_max p,
      ts_decision = map_option evaluate_dynamic_spread inputs\<rparr>"

datatype bound_applied = NoBounds | WithinBounds | FloorApplied | CeilingApplied

record pricing_context =
  pc_base :: "rat option"
  pc_markup :: "rat option"
  pc_pre_clamp :: "rat option"
  pc_effective :: "rat option"
  pc_min :: "rat option"
  pc_max :: "rat option"
  pc_bound :: bound_applied

text \<open>
  \<open>build_pricing_context\<close> of the base, the markup, the bounds and, when a decision was taken at the tick,
  its two figures; the fields it only copies are left out.
\<close>

definition build_pricing_context ::
  "rat option \<Rightarrow> rat option \<Rightarrow> rat option \<Rightarrow> rat option \<Rightarrow> rat option \<Rightarrow> rat option \<Rightarrow> pricing_context" where
  "build_pricing_context base markup lo hi before after =
     (let computed = compute_effective_spread_pips (case base of None \<Rightarrow> 0 | Some x \<Rightarrow> x)
            (case markup of None \<Rightarrow> 0 | Some x \<Rightarrow> x) lo hi False None;
          (pre, post) = (if before = None \<and> after = None \<and> (base \<noteq> None \<or> markup \<noteq> None)
            then (Some (fst computed), Some (snd computed)) else (before, after))
      in \<lparr>pc_base = base, pc_markup = markup, pc_pre_clamp = pre, pc_effective = post, pc_min = lo, pc_max = hi,
          pc_bound = (if lo = None \<and> hi = None then NoBounds
            else if pre \<noteq> None \<and> post \<noteq> None \<and> pre \<noteq> post
              then (if lo \<noteq> None \<and> post = lo then FloorApplied else CeilingApplied)
            else WithinBounds)\<rparr>)"

definition capture_pricing_context :: "tick_snapshot option \<Rightarrow> pricing_context" where
  "capture_pricing_context snap =
     (case snap of
        None \<Rightarrow> build_pricing_context None None None None None None
      | Some t \<Rightarrow> build_pricing_context (ts_base t) (Some (ts_markup t)) (ts_min t) (ts_max t)
          (map_option dd_before (ts_decision t)) (map_option dd_after (ts_decision t)))"

text \<open>The pricing part of \<open>price_tick\<close>: the client's quote and the snapshot of the same tick.\<close>

definition price_tick ::
  "(int \<Rightarrow> int) \<Rightarrow> (int \<Rightarrow> int) \<Rightarrow> (string \<Rightarrow> source_state option) \<Rightarrow> spread_cache \<Rightarrow> commercial_profile
   \<Rightarrow> string \<Rightarrow> rat \<Rightarrow> rat \<Rightarrow> rat \<Rightarrow> (rat \<times> rat) \<times> tick_snapshot" where
  "price_tick ny un observed ca f s bid ask ts =
     (let p = build_commercial_pricing_profile f s ca;
          i = build_dynamic_inputs ny un observed ca s p ts
      in (broker_price ca s bid ask (pp_markup p) (pp_min p) (pp_max p) (Some i),
          tick_pricing_snapshot ca s p (Some i)))"

subsection \<open>Commission and charges of an opening\<close>

definition notional_value :: "symbol_spec \<Rightarrow> rat \<Rightarrow> rat \<Rightarrow> rat" where
  "notional_value sp qty px = fl (fl (qty * px) * num_value (sp_contract_size sp))"

definition commission_for :: "commercial_profile \<Rightarrow> symbol_spec \<Rightarrow> rat \<Rightarrow> rat \<Rightarrow> rat" where
  "commission_for p sp qty px =
     (if 0 < pp_per_lot p then py_round 2 (fl (qty * pp_per_lot p))
      else if 0 < pp_pct p then max 0 (fl (notional_value sp qty px * pp_pct p))
      else if pp_source p = LEGACY_FALLBACK then max 0 (fl (notional_value sp qty px * sp_commission_pct sp))
      else 0)"

datatype charge_error = NegativeCharge | PendingSpreadUnavailable

definition allocate_opening_charges :: "rat \<Rightarrow> rat \<Rightarrow> rat \<Rightarrow> charge_error + rat \<times> rat \<times> rat" where
  "allocate_opening_charges bal commission spread =
     (if commission < 0 \<or> spread < 0 then Inl NegativeCharge
      else let exact = dec_ctx (dec_ctx (bal - commission) - spread);
               posted = quantize_he 2 exact;
               charged = dec_ctx (bal - posted);
               c = quantize_he 2 commission
           in Inr (posted,
             if 0 < commission \<and> 0 < spread then (c, dec_ctx (charged - c))
             else if 0 < commission then (charged, 0)
             else if 0 < spread then (0, charged)
             else (0, 0)))"

definition pending_static_spread_charge ::
  "nat \<Rightarrow> pk \<Rightarrow> trading_account \<Rightarrow> account_terms \<Rightarrow> string \<Rightarrow> rat \<Rightarrow> 'a pricing_db_scheme \<Rightarrow> charge_error + rat" where
  "pending_static_spread_charge n k a t symbol qty s =
     (let sym = normalize_symbol symbol;
          cfg = (case spread_configs s sym of None \<Rightarrow> None | Some c \<Rightarrow> if sc_enabled c then Some c else None);
          f = resolve_commercial_pricing_fields n k a t s;
          base = (case cfg of None \<Rightarrow> 0 | Some c \<Rightarrow> fl (sc_pips c));
          bounded = (case cfg of None \<Rightarrow> False | Some c \<Rightarrow> sc_bounds c);
          lo = (if bounded then or_else (pp_min f) (case cfg of None \<Rightarrow> None | Some c \<Rightarrow> map_option fl (sc_min c)) else pp_min f);
          hi = (if bounded then or_else (pp_max f) (case cfg of None \<Rightarrow> None | Some c \<Rightarrow> map_option fl (sc_max c)) else pp_max f);
          negative = (\<lambda>v. case v of None \<Rightarrow> False | Some x \<Rightarrow> x < 0)
      in if (case cfg of None \<Rightarrow> False | Some c \<Rightarrow> sc_dynamic c) then Inl PendingSpreadUnavailable
         else if pp_source f = SOURCE_CAPTURE_FAILED then Inl PendingSpreadUnavailable
         else if base < 0 \<or> pp_markup f < 0 \<or> negative lo \<or> negative hi then Inl PendingSpreadUnavailable
         else if crossed_bounds lo hi then Inl PendingSpreadUnavailable
         else let pips = snd (compute_effective_spread_pips base (pp_markup f) lo hi False None);
                  charge = py_repr (calculate_spread_revenue sym qty pips)
              in if charge < 0 then Inl PendingSpreadUnavailable else Inr charge)"

subsection \<open>Clamping\<close>

lemma clamp_range:
  "(case lo of None \<Rightarrow> True | Some l \<Rightarrow> \<not> crossed_bounds lo hi \<longrightarrow> l \<le> clamp_pips lo hi x)"
  "(case hi of None \<Rightarrow> True | Some h \<Rightarrow> clamp_pips lo hi x \<le> h)"
  by (auto simp: clamp_pips_def crossed_bounds_def Let_def split: option.splits)

lemma clamp_mono: "x \<le> y \<Longrightarrow> clamp_pips lo hi x \<le> clamp_pips lo hi y"
  by (auto simp: clamp_pips_def Let_def split: option.splits)

lemma clamp_None [simp]: "clamp_pips None None x = x"
  by (simp add: clamp_pips_def)

lemma evaluate_static:
  assumes "\<not> di_dynamic i"
  shows "dd_before (evaluate_dynamic_spread i) = fl (di_base i + di_markup i)"
    "dd_after (evaluate_dynamic_spread i) = clamp_pips (di_min i) (di_max i) (fl (di_base i + di_markup i))"
  using assms by (simp_all add: evaluate_dynamic_spread_def Let_def eval_nat_numeral flt.idem)

lemma evaluate_clamped:
  "dd_after (evaluate_dynamic_spread i) = clamp_pips (di_min i) (di_max i) (dd_before (evaluate_dynamic_spread i))"
  by (simp add: evaluate_dynamic_spread_def Let_def)

lemma before_multiplied:
  "dd_before (evaluate_dynamic_spread i)
     = foldl (\<lambda>x m. fl (x * m)) (fl (di_base i + di_markup i)) (dd_multipliers (evaluate_dynamic_spread i))"
  by (simp add: evaluate_dynamic_spread_def Let_def)

text \<open>
  Dynamic pricing is the static formula when nothing happens and only widens otherwise. With
  the session open, the source live, no volatility or liquidity input and no manual override, or with
  the dynamic switch off, the decision is exactly the static one; and whatever
  the inputs, if the configured spread is not negative and a manual multiplier in force is
  not below 1, the pips before the bounds are at least the configured ones.
\<close>

theorem dynamic_spread_extends_static:
  "(\<not> di_dynamic i \<or> di_session i = Some S_OPEN \<and> di_source i = Some LIVE \<and> \<not> di_stale i \<and> di_volatility i = None
      \<and> di_liquidity i = None \<and> fst (manual_multiplier (di_manual i) (di_manual_expires i) (di_evaluated i) (di_manual_reason i)) = 1
    \<longrightarrow> compute_effective_spread_pips b m lo hi True (Some i)
        = compute_effective_spread_pips (di_base i) (di_markup i) (di_min i) (di_max i) False None)
   \<and> (0 \<le> di_base i + di_markup i
      \<and> 1 \<le> fst (manual_multiplier (di_manual i) (di_manual_expires i) (di_evaluated i) (di_manual_reason i))
    \<longrightarrow> fl (di_base i + di_markup i) \<le> dd_before (evaluate_dynamic_spread i))"
proof (intro conjI impI)
  assume "\<not> di_dynamic i \<or> di_session i = Some S_OPEN \<and> di_source i = Some LIVE \<and> \<not> di_stale i \<and> di_volatility i = None
      \<and> di_liquidity i = None \<and> fst (manual_multiplier (di_manual i) (di_manual_expires i) (di_evaluated i) (di_manual_reason i)) = 1"
  then have "dd_before (evaluate_dynamic_spread i) = fl (di_base i + di_markup i)"
    using evaluate_static(1)[of i]
    by (cases "di_dynamic i")
      (simp_all add: evaluate_dynamic_spread_def Let_def session_multiplier_def source_multiplier_def stale_multiplier_def
        volatility_multiplier_def liquidity_multiplier_def flt.idem)
  then show "compute_effective_spread_pips b m lo hi True (Some i)
      = compute_effective_spread_pips (di_base i) (di_markup i) (di_min i) (di_max i) False None"
    by (simp add: compute_effective_spread_pips_def evaluate_clamped Let_def)
next
  assume h: "0 \<le> di_base i + di_markup i
      \<and> 1 \<le> fst (manual_multiplier (di_manual i) (di_manual_expires i) (di_evaluated i) (di_manual_reason i))"
  have grow: "x \<le> foldl (\<lambda>x m. fl (x * m)) x ms" if "list_all (\<lambda>m. 1 \<le> m) ms" "0 \<le> x" "fl x = x" for x ms
    using that
  proof (induction ms arbitrary: x)
    case (Cons m ms)
    have "x \<le> x * m" using Cons.prems by (simp add: mult_le_cancel_left1)
    then have x: "x \<le> fl (x * m)" by (rule flt.ge_repr[OF Cons.prems(3)])
    also have "\<dots> \<le> foldl (\<lambda>x m. fl (x * m)) (fl (x * m)) ms"
      using Cons.prems x by (intro Cons.IH) (simp_all add: flt.idem)
    finally show ?case by simp
  qed simp
  have f: "1 \<le> fl x" if "1 \<le> x" for x using flt.ge_repr[of 1 x] that by simp
  have "1 \<le> fst (session_multiplier v)" for v
    by (auto simp: session_multiplier_def f split: option.splits session_state.splits)
  moreover have "1 \<le> fst (source_multiplier v)" for v
    by (auto simp: source_multiplier_def f split: option.splits source_state.splits)
  moreover have "1 \<le> fst (stale_multiplier v)" for v by (simp add: stale_multiplier_def f)
  moreover have "1 \<le> fst (volatility_multiplier v)" "1 \<le> fst (liquidity_multiplier v)" for v
    by (simp_all add: volatility_multiplier_def liquidity_multiplier_def split: option.split)
  ultimately have "list_all (\<lambda>m. 1 \<le> m) (dd_multipliers (evaluate_dynamic_spread i))"
    using h by (simp add: evaluate_dynamic_spread_def Let_def eval_nat_numeral)
  from grow[OF this] show "fl (di_base i + di_markup i) \<le> dd_before (evaluate_dynamic_spread i)"
    using h unfolding before_multiplied by (simp add: flt.nonneg flt.idem)
qed

definition calm_inputs :: dynamic_inputs where
  "calm_inputs = \<lparr>di_base = 1, di_markup = 1, di_dynamic = True, di_session = Some S_OPEN, di_source = Some LIVE,
     di_stale = False, di_volatility = None, di_liquidity = None, di_manual = Some 1, di_manual_reason = '''',
     di_manual_expires = None, di_evaluated = 0, di_min = None, di_max = Some 3\<rparr>"

theorem dynamic_spread_extends_static_witness:
  "compute_effective_spread_pips 0 0 None None True (Some calm_inputs) = (2, 2)
   \<and> 2 \<le> dd_before (evaluate_dynamic_spread (calm_inputs\<lparr>di_session := Some S_WEEKEND\<rparr>))"
proof
  show "compute_effective_spread_pips 0 0 None None True (Some calm_inputs) = (2, 2)"
    using dynamic_spread_extends_static[THEN conjunct1, rule_format, of calm_inputs 0 0 None None]
    by (simp add: calm_inputs_def manual_multiplier_def compute_effective_spread_pips_def clamp_pips_def)
  show "2 \<le> dd_before (evaluate_dynamic_spread (calm_inputs\<lparr>di_session := Some S_WEEKEND\<rparr>))"
    using dynamic_spread_extends_static[THEN conjunct2, rule_format, of "calm_inputs\<lparr>di_session := Some S_WEEKEND\<rparr>"]
    by (simp add: calm_inputs_def manual_multiplier_def)
qed

subsection \<open>The quote and its record\<close>

lemma py_round_mono: "x \<le> y \<Longrightarrow> py_round n x \<le> py_round n y"
  unfolding py_round_def by (intro flt.mono qhe.mono)

text \<open>
  C31. The broker never improves on the market. Whatever the configuration, the client's bid is at most
  the market's bid on the price grid of the symbol and the client's ask at least the market's ask on it, so for quotes
  on the grid the spread never narrows; and with no pips to apply the quote passes unchanged.
\<close>

theorem client_quote_never_better:
  assumes "broker_price ca s bid ask markup lo hi i = (cbid, cask)"
    and "fl bid = bid" "fl ask = ask" "get_spec (normalize_symbol s) = Some sp"
  shows "(if applied_pips ca s markup lo hi i \<le> 0 then cbid = bid \<and> cask = ask
      else cbid \<le> py_round (nat (sp_price_decimals sp)) bid \<and> py_round (nat (sp_price_decimals sp)) ask \<le> cask)"
proof (cases "applied_pips ca s markup lo hi i \<le> 0")
  case False
  let ?x = "fl (fl (applied_pips ca s markup lo hi i * sp_pip_size sp) / 2)"
  have "sp \<in> set registry" using get_spec_Some[OF assms(4)] by simp
  moreover have "list_all (\<lambda>sp. 0 \<le> sp_pip_size sp) registry"
    by (simp add: registry_def spec_defs flt.nonneg)
  ultimately have "0 \<le> sp_pip_size sp" by (simp add: list_all_iff)
  then have "0 \<le> ?x" using False by (intro flt.nonneg divide_nonneg_nonneg mult_nonneg_nonneg) auto
  then have "fl (bid - ?x) \<le> bid" "ask \<le> fl (ask + ?x)"
    using flt.mono[of "bid - ?x" bid] flt.mono[of ask "ask + ?x"] assms(2,3) by simp_all
  then show ?thesis using False assms(1,4) py_round_mono by (auto simp: broker_price_def Let_def)
qed (use assms(1) in \<open>simp add: broker_price_def\<close>)


definition quiet_cache :: spread_cache where
  "quiet_cache = \<lparr>ca_configs = [''EUR/USD'' \<mapsto> \<lparr>cc_pips = 1, cc_min = None, cc_max = Some 5, cc_dynamic = False,
     cc_manual = 1, cc_manual_reason = '''', cc_manual_expires = None\<rparr>], ca_refreshed = Some 0\<rparr>"

lemma eur_usd:
  "normalize_symbol ''EUR/USD'' = ''EUR/USD''" "get_spec ''EUR/USD'' = Some spec_EUR_USD"
  "sp_price_decimals spec_EUR_USD = 5" "sp_commission_pct spec_EUR_USD = 0"
proof -
  have m: "spec_EUR_USD \<in> set registry" "sp_symbol spec_EUR_USD = ''EUR/USD''" by (simp_all add: registry_def spec_defs)
  then show "normalize_symbol ''EUR/USD'' = ''EUR/USD''" "get_spec ''EUR/USD'' = Some spec_EUR_USD"
    using normalize_variant[OF m(1), of "''EUR/USD''"] get_spec_registered[OF m(1)] by simp_all
qed (simp_all add: spec_defs)

lemma quiet_config:
  "get_cached_config quiet_cache ''EUR/USD'' = Some \<lparr>cc_pips = 1, cc_min = None, cc_max = Some 5, cc_dynamic = False,
     cc_manual = 1, cc_manual_reason = '''', cc_manual_expires = None\<rparr>"
  by (simp add: get_cached_config_def quiet_cache_def eur_usd)

theorem client_quote_never_better_witness:
  "\<exists>cbid cask. broker_price quiet_cache ''EUR/USD'' 1 2 1 None None None = (cbid, cask) \<and> cbid \<le> 1 \<and> 2 \<le> cask"
proof -
  have a: "applied_pips quiet_cache ''EUR/USD'' 1 None None None = 2"
    by (simp add: applied_pips_def eur_usd quiet_config compute_effective_spread_pips_def or_else_def clamp_pips_def)
  have r: "py_round n 1 = 1" "py_round n 2 = 2" for n
    unfolding py_round_def using quantize_he_int_div[of n "10 ^ n"] quantize_he_int_div[of n "2 * 10 ^ n"] by simp_all
  have g: "get_spec (normalize_symbol ''EUR/USD'') = Some spec_EUR_USD" by (simp add: eur_usd)
  show ?thesis
    using client_quote_never_better[OF _ _ _ g, of quiet_cache 1 2 1 None None None]
    by (cases "broker_price quiet_cache ''EUR/USD'' 1 2 1 None None None") (simp add: a r)
qed


subsection \<open>Bounds that cross\<close>



subsection \<open>Posting the charges\<close>

lemma dec_ctx_cents:
  assumes "cents x" "\<bar>x\<bar> < 10 ^ 25"
  shows "dec_ctx x = x"
proof -
  obtain k where k: "x = of_int k / 100" using assms(1) by (auto simp: cents_iff)
  have "\<bar>of_int k\<bar> < (10 ^ 28 :: rat)" using assms(2) by (simp add: k)
  then have "\<bar>k\<bar> < 10 ^ 28" by (simp only: of_int_abs[symmetric] of_int_less_iff[where 'a = rat, symmetric] of_int_power) simp
  then show ?thesis using dec_ctx_fixed[of k 2] by (simp add: k)
qed

lemma cents_quantize_he [simp]: "cents (quantize_he 2 x)"
  by (auto simp: cents_iff quantize_he_def)

lemma quantize_he_cents:
  assumes "cents x"
  shows "quantize_he 2 x = x"
proof -
  obtain k where k: "x = of_int k / 10 ^ 2" using assms by (auto simp: cents_iff)
  show ?thesis unfolding k by (rule quantize_he_int_div)
qed

lemma cents_below:
  assumes "cents x" "cents y" "x < y + 1 / 100"
  shows "x \<le> y"
proof -
  obtain k l where "x = of_int k / 100" "y = of_int l / 100" using assms(1,2) by (auto simp: cents_iff)
  moreover from this have "(of_int k :: rat) < of_int (l + 1)" using assms(3) by (simp add: field_simps)
  then have "k \<le> l" by (simp only: of_int_less_iff)
  ultimately show ?thesis by (simp add: divide_right_mono)
qed

text \<open>
  C15. The charges posted at an opening are what the client pays. The account's new balance is in
  whole cents, within half a cent of the exact one; the two amounts booked to the broker add up
  exactly to the fall of the balance, are whole cents and not negative; and an opening without charges
  leaves a balance in cents as it is.
\<close>

theorem opening_charges_conserve:
  assumes "allocate_opening_charges bal c x = Inr (posted, pc, px)"
    and "cents bal" "\<bar>bal\<bar> < 10 ^ 20" "c < 10 ^ 20" "x < 10 ^ 20"
    and "dec_exact (bal - c)" "dec_exact (bal - c - x)"
  shows "cents posted \<and> \<bar>posted - (bal - c - x)\<bar> \<le> 1 / 200 \<and> pc + px = bal - posted
    \<and> cents pc \<and> cents px \<and> 0 \<le> pc \<and> 0 \<le> px \<and> (c = 0 \<and> x = 0 \<longrightarrow> posted = bal)"
proof -
  have pos: "0 \<le> c" "0 \<le> x" using assms(1) by (auto simp: allocate_opening_charges_def split: if_splits)
  let ?e = "bal - c - x" and ?q = "quantize_he 2 c"
  define p where "p = quantize_he 2 ?e"
  have near: "\<bar>p - ?e\<bar> \<le> 1 / 200" "\<bar>?q - c\<bar> \<le> 1 / 200"
    using quantize_he_near[of 2] by (simp_all add: p_def)
  have cp: "cents p" "cents (bal - p)" using assms(2) by (auto simp: p_def)
  have b: "p - ?e \<le> 1 / 200" "?e - p \<le> 1 / 200" "?q - c \<le> 1 / 200" "c - ?q \<le> 1 / 200"
    "bal < 10 ^ 20" "- bal < 10 ^ 20"
    using near assms(3) unfolding abs_le_iff abs_less_iff by linarith+
  have "\<bar>bal - p\<bar> < 10 ^ 25" using b pos assms(4,5) unfolding abs_less_iff by simp
  then have d: "dec_ctx (bal - p) = bal - p" by (rule dec_ctx_cents[OF cp(2)])
  have q0: "0 \<le> ?q" by (rule qhe.nonneg[OF pos(1)])
  have nonneg: "0 \<le> bal - p"
    using cents_below[OF cp(1) assms(2)] b pos by simp
  have le: "?q \<le> bal - p" if "0 < x"
    using that b cents_below[OF cp(1) cents_diff[OF assms(2) cents_quantize_he], of c] by simp
  have dq: "dec_ctx (bal - p - ?q) = bal - p - ?q"
  proof (rule dec_ctx_cents)
    show "cents (bal - p - ?q)" using cp(2) by auto
    show "\<bar>bal - p - ?q\<bar> < 10 ^ 25" using b pos assms(4,5) unfolding abs_less_iff by simp
  qed
  have r: "posted = p" "(pc, px) = (if 0 < c \<and> 0 < x then (?q, bal - p - ?q)
      else if 0 < c then (bal - p, 0) else if 0 < x then (0, bal - p) else (0, 0))"
    using assms(1) pos unfolding allocate_opening_charges_def Let_def assms(6,7) p_def[symmetric] d dq
    by (simp_all split: if_splits)
  have "p = bal" if "c = 0" "x = 0" using that quantize_he_cents[OF assms(2)] by (simp add: p_def)
  then show ?thesis using r(2) pos near cp q0 nonneg le unfolding r(1)
    by (auto split: if_splits)
qed

theorem opening_charges_conserve_witness:
  "\<exists>posted pc px. allocate_opening_charges 1000 7 3 = Inr (posted, pc, px) \<and> pc + px = 1000 - posted"
proof -
  have e: "dec_exact (1000 - 7)" "dec_exact (1000 - 7 - 3)" using dec_ctx_int[of 993] dec_ctx_int[of 990] by simp_all
  obtain posted pc px where a: "allocate_opening_charges 1000 7 3 = Inr (posted, pc, px)"
    by (simp add: allocate_opening_charges_def Let_def)
  from opening_charges_conserve[OF a _ _ _ _ e] show ?thesis using a by auto
qed

subsection \<open>The stale premium\<close>

text \<open>
  The premium for stale prices never applies. The router is the one that reports where a price comes from, and
  for a registered symbol, in any state, it never reports \<open>STALE\<close>, because every plan allows
  simulation; so the inputs of a tick built from its last selection are never stale and the
  multiplier of that axis stays 1.
\<close>

theorem stale_premium_never_applies:
  assumes "sp \<in> set registry" "select_runtime_provider (sp_symbol sp) now st = (sel, st')"
    and "i = build_dynamic_inputs ny un (\<lambda>s. if s = sp_symbol sp then sel_source sel else None) ca s p t"
    and "normalize_symbol s = sp_symbol sp"
  shows "di_source i \<noteq> Some STALE \<and> \<not> di_stale i \<and> fst (stale_multiplier (di_stale i)) = 1"
  using select_never_stale[OF assms(1,2)]
  by (auto simp: assms(3,4) build_dynamic_inputs_def Let_def stale_multiplier_def)

theorem stale_premium_never_applies_witness:
  "fst (stale_multiplier (di_stale (build_dynamic_inputs id id
      (\<lambda>s. if s = ''BTCUSD'' then sel_source (fst (select_runtime_provider ''BTCUSD'' 0 router_start)) else None)
      quiet_cache ''BTCUSD'' failed_profile 0))) = 1"
proof -
  have m: "spec_BTCUSD \<in> set registry" "sp_symbol spec_BTCUSD = ''BTCUSD''" by (simp_all add: registry_def spec_defs)
  obtain sel st' where s: "select_runtime_provider ''BTCUSD'' 0 router_start = (sel, st')" by fastforce
  then have s': "select_runtime_provider (sp_symbol spec_BTCUSD) 0 router_start = (sel, st')" by (simp only: m)
  have n: "normalize_symbol ''BTCUSD'' = sp_symbol spec_BTCUSD"
    using normalize_variant[OF m(1), of "''BTCUSD''"] by (simp add: m)
  show ?thesis
    using stale_premium_never_applies[OF m(1) s' refl n, of id id quiet_cache failed_profile 0]
    unfolding s fst_conv m(2) by blast
qed

end
