(* ===== verification/BrokerExposure.thy ===== *)
theory BrokerExposure
  imports Pricing "HOL-Library.AList" "HOL-Library.Char_ord" "HOL-Library.List_Lexorder"
begin

section \<open>Open exposure of the broker (\<open>simulator/broker_exposure.py\<close>)\<close>

text \<open>
  The aggregate of all open positions: quantities, notional and unrealized profit by symbol, by
  account and in total, with the price each symbol is valued at. \<open>Decimal\<close> arithmetic
  is written with its rounding to 28 digits. A breakdown dictionary is the list of its
  entries in insertion order. The market is an argument: the fresh mid price that the feed manager holds
  for a symbol, the two time zone conversions of the trading calendars and the clock.
\<close>

subsection \<open>Prices\<close>

record market_view =
  mk_live :: "string \<Rightarrow> rat option"
  mk_to_ny :: "int \<Rightarrow> int"
  mk_from_ny :: "int \<Rightarrow> int"
  mk_now :: int

record last_price =
  lk_mid :: rat
  lk_source :: string

record routing_row =
  rr_account :: "pk option"
  rr_position :: "pk option"

record desk_row =
  dk_routing :: "pk option"
  dk_position :: "pk option"
  dk_hedge :: bool

record exposure_db = pricing_db +
  last_prices :: "string \<Rightarrow> last_price option"
  routing_rows :: "routing_row table"
  desk_rows :: "desk_row list"

definition VALID_SOURCES :: "string list" where
  "VALID_SOURCES = [''massive'', ''binance'', ''kraken'', ''finnhub'']"

datatype price_status = FRESH | MARKET_CLOSED_FROZEN | STALE_PRICE | UNAVAILABLE

definition resolve_symbol_price ::
  "market_view \<Rightarrow> (string \<Rightarrow> last_price option) \<Rightarrow> string \<Rightarrow> rat option \<times> price_status" where
  "resolve_symbol_price mv durable sy =
     (case mk_live mv sy of
        Some x \<Rightarrow> (Some (py_repr x), FRESH)
      | None \<Rightarrow>
         if ss_policy (evaluate_market_session_for_symbol (mk_to_ny mv) (mk_from_ny mv) sy (mk_now mv))
              = POLICY_MARKET_CLOSED
         then (case durable sy of
                 None \<Rightarrow> (None, UNAVAILABLE)
               | Some r \<Rightarrow> if lk_source r \<in> set VALID_SOURCES
                           then (Some (lk_mid r), MARKET_CLOSED_FROZEN) else (None, UNAVAILABLE))
         else (None, STALE_PRICE))"

subsection \<open>Breakdowns\<close>

record figures =
  position_count :: nat
  long_quantity :: rat
  short_quantity :: rat
  gross_quantity :: rat
  net_quantity :: rat
  long_notional :: rat
  short_notional :: rat
  gross_notional :: rat
  net_notional :: rat
  trader_unrealized_pnl :: rat
  broker_counterparty_pnl :: rat
  priced_count :: nat
  unpriced_count :: nat

record symbol_exposure = figures +
  concentration_pct :: rat

record account_exposure = figures +
  margin_used :: rat

definition dec_add :: "rat \<Rightarrow> rat \<Rightarrow> rat" where
  "dec_add x y = dec_ctx (x + y)"

definition signed_quantity :: "side \<Rightarrow> rat \<Rightarrow> rat" where
  "signed_quantity sd q = (if sd = BUY then q else - q)"

definition empty_symbol :: symbol_exposure where
  "empty_symbol =
     \<lparr>position_count = 0, long_quantity = 0, short_quantity = 0, gross_quantity = 0, net_quantity = 0,
      long_notional = 0, short_notional = 0, gross_notional = 0, net_notional = 0,
      trader_unrealized_pnl = 0, broker_counterparty_pnl = 0, priced_count = 0, unpriced_count = 0,
      concentration_pct = 0\<rparr>"

definition empty_account :: account_exposure where
  "empty_account =
     \<lparr>position_count = 0, long_quantity = 0, short_quantity = 0, gross_quantity = 0, net_quantity = 0,
      long_notional = 0, short_notional = 0, gross_notional = 0, net_notional = 0,
      trader_unrealized_pnl = 0, broker_counterparty_pnl = 0, priced_count = 0, unpriced_count = 0,
      margin_used = 0\<rparr>"

definition add_quantity :: "side \<Rightarrow> rat \<Rightarrow> 'a figures_scheme \<Rightarrow> 'a figures_scheme" where
  "add_quantity sd q b =
     b\<lparr>position_count := position_count b + 1,
       long_quantity := (if sd = BUY then dec_add (long_quantity b) q else long_quantity b),
       short_quantity := (if sd = BUY then short_quantity b else dec_add (short_quantity b) q),
       gross_quantity := dec_add (gross_quantity b) q,
       net_quantity := dec_add (net_quantity b) (signed_quantity sd q)\<rparr>"

definition add_unpriced :: "'a figures_scheme \<Rightarrow> 'a figures_scheme" where
  "add_unpriced b = b\<lparr>unpriced_count := unpriced_count b + 1\<rparr>"

definition add_priced :: "side \<Rightarrow> rat \<Rightarrow> rat \<Rightarrow> 'a figures_scheme \<Rightarrow> 'a figures_scheme" where
  "add_priced sd n upnl b =
     b\<lparr>priced_count := priced_count b + 1,
       long_notional := (if sd = BUY then dec_add (long_notional b) n else long_notional b),
       short_notional := (if sd = BUY then short_notional b else dec_add (short_notional b) n),
       gross_notional := dec_add (gross_notional b) n,
       net_notional := dec_add (net_notional b) (if sd = BUY then n else - n),
       trader_unrealized_pnl := dec_add (trader_unrealized_pnl b) upnl\<rparr>"

text \<open>\<open>if key not in d: d[key] = new\<close>, then the entry is changed in place.\<close>

definition on_entry :: "'k \<Rightarrow> 'v \<Rightarrow> ('v \<Rightarrow> 'v) \<Rightarrow> ('k \<times> 'v) list \<Rightarrow> ('k \<times> 'v) list" where
  "on_entry k d f xs = AList.update k (f (case map_of xs k of None \<Rightarrow> d | Some v \<Rightarrow> v)) xs"

subsection \<open>One position\<close>

record aggregate =
  ag_symbols :: "(string \<times> symbol_exposure) list"
  ag_accounts :: "(pk \<times> account_exposure) list"
  ag_long_qty :: rat
  ag_short_qty :: rat
  ag_long_notional :: rat
  ag_short_notional :: rat
  ag_upnl :: rat
  ag_margin :: rat
  ag_priced :: nat
  ag_unpriced :: nat
  ag_missing :: "string list"
  ag_fresh :: "string list"
  ag_frozen :: "string list"
  ag_stale :: "string list"
  ag_unavailable :: "string list"

definition empty_aggregate :: aggregate where
  "empty_aggregate =
     \<lparr>ag_symbols = [], ag_accounts = [], ag_long_qty = 0, ag_short_qty = 0, ag_long_notional = 0,
      ag_short_notional = 0, ag_upnl = 0, ag_margin = 0, ag_priced = 0, ag_unpriced = 0,
      ag_missing = [], ag_fresh = [], ag_frozen = [], ag_stale = [], ag_unavailable = []\<rparr>"

text \<open>The size of one lot; every registered size is a number.\<close>

definition lot_units :: "string \<Rightarrow> rat" where
  "lot_units sy =
     (case get_spec sy of None \<Rightarrow> 1
      | Some sp \<Rightarrow> (case to_decimal (sp_contract_size sp) of None \<Rightarrow> 1 | Some n \<Rightarrow> n))"

definition position_leverage :: "trading_account \<Rightarrow> string \<Rightarrow> int" where
  "position_leverage a sy =
     (let account_lev = max 1 (or_num (Some (int (leverage a))) 50)
      in case get_spec sy of None \<Rightarrow> account_lev | Some sp \<Rightarrow> max 1 (min account_lev (sp_max_leverage sp)))"

definition entry_margin :: "trading_account \<Rightarrow> position \<Rightarrow> rat" where
  "entry_margin a p =
     dec_ctx (\<bar>dec_mult (dec_mult (pos_avg p) (pos_qty p)) (lot_units (pos_symbol p))\<bar>
              / of_int (position_leverage a (pos_symbol p)))"

definition side_text :: "side \<Rightarrow> string" where
  "side_text sd = (case sd of BUY \<Rightarrow> ''BUY'' | SELL \<Rightarrow> ''SELL'')"

definition unrealized_pnl :: "trading_account \<Rightarrow> position \<Rightarrow> rat \<Rightarrow> rat" where
  "unrealized_pnl a p price =
     (case pr_account_amount
             (calculate_position_pnl (side_text (pos_side p)) (PyDecimal (pos_avg p)) (PyDecimal price)
                (PyDecimal (pos_qty p)) (pos_symbol p) (if currency a = '''' then ''USD'' else currency a))
      of None \<Rightarrow> 0 | Some x \<Rightarrow> x)"

definition add_position ::
  "(string \<Rightarrow> rat option \<times> price_status) \<Rightarrow> trading_account \<times> position \<Rightarrow> aggregate \<Rightarrow> aggregate" where
  "add_position prices ap g =
     (let a = fst ap; p = snd ap; sy = pos_symbol p; sd = pos_side p; q = pos_qty p;
          k = pos_account p; m = entry_margin a p;
          g1 = g\<lparr>ag_symbols := on_entry sy empty_symbol (add_quantity sd q) (ag_symbols g),
                 ag_accounts := on_entry k empty_account
                   (\<lambda>b. (add_quantity sd q b)\<lparr>margin_used := dec_add (margin_used b) m\<rparr>) (ag_accounts g),
                 ag_long_qty := (if sd = BUY then dec_add (ag_long_qty g) q else ag_long_qty g),
                 ag_short_qty := (if sd = BUY then ag_short_qty g else dec_add (ag_short_qty g) q),
                 ag_margin := dec_add (ag_margin g) m\<rparr>
      in case prices sy of
           (None, st) \<Rightarrow>
             g1\<lparr>ag_unpriced := ag_unpriced g + 1,
                ag_symbols := on_entry sy empty_symbol add_unpriced (ag_symbols g1),
                ag_accounts := on_entry k empty_account add_unpriced (ag_accounts g1),
                ag_missing := List.insert sy (ag_missing g),
                ag_unavailable := (if st = UNAVAILABLE then List.insert sy (ag_unavailable g) else ag_unavailable g),
                ag_stale := (if st = UNAVAILABLE then ag_stale g else List.insert sy (ag_stale g))\<rparr>
         | (Some x, st) \<Rightarrow>
             (let n = dec_mult (dec_mult q x) (lot_units sy); u = unrealized_pnl a p x
              in g1\<lparr>ag_priced := ag_priced g + 1,
                    ag_fresh := (if st = FRESH then List.insert sy (ag_fresh g) else ag_fresh g),
                    ag_frozen := (if st = FRESH then ag_frozen g else List.insert sy (ag_frozen g)),
                    ag_symbols := on_entry sy empty_symbol (add_priced sd n u) (ag_symbols g1),
                    ag_accounts := on_entry k empty_account (add_priced sd n u) (ag_accounts g1),
                    ag_long_notional := (if sd = BUY then dec_add (ag_long_notional g) n else ag_long_notional g),
                    ag_short_notional := (if sd = BUY then ag_short_notional g else dec_add (ag_short_notional g) n),
                    ag_upnl := dec_add (ag_upnl g) u\<rparr>))"

subsection \<open>The breakdown of a selection\<close>

text \<open>The scope \<open>real\<close>, the only valid one, selects the account types that hold client money.\<close>

definition REAL_MONEY_ACCOUNT_TYPES :: "account_type list" where
  "REAL_MONEY_ACCOUNT_TYPES = [RETAIL, ECN, STANDARD, CRYPTO]"

definition RISK_SCOPE_REAL :: string where
  "RISK_SCOPE_REAL = ''real''"

record selection =
  sel_account :: "pk option"
  sel_accounts :: "pk list option"
  sel_symbol :: "string option"
  sel_type :: "account_type option"
  sel_status :: "acc_status option"
  sel_class :: "trader_class option"
  sel_excluded :: "pk list"
  sel_scope :: "string option"

definition no_filter :: "string option \<Rightarrow> selection" where
  "no_filter scope =
     \<lparr>sel_account = None, sel_accounts = None, sel_symbol = None, sel_type = None, sel_status = None,
      sel_class = None, sel_excluded = [], sel_scope = scope\<rparr>"

definition selects :: "selection \<Rightarrow> 'a exposure_db_scheme \<Rightarrow> pk \<Rightarrow> trading_account \<Rightarrow> position \<Rightarrow> bool" where
  "selects x s i a p \<longleftrightarrow>
     (sel_account x = None \<or> sel_account x = Some (pos_account p)) \<and>
     (case sel_accounts x of None \<Rightarrow> True | Some ks \<Rightarrow> pos_account p \<in> set ks) \<and>
     (sel_symbol x = None \<or> sel_symbol x = Some (pos_symbol p)) \<and>
     (sel_type x = None \<or> sel_type x = Some (acc_type a)) \<and>
     (sel_status x = None \<or> sel_status x = Some (acc_status a)) \<and>
     (case sel_class x of None \<Rightarrow> True
      | Some c \<Rightarrow> (case scores s (pos_account p) of None \<Rightarrow> False | Some t \<Rightarrow> ts_class t = c)) \<and>
     (sel_scope x = Some RISK_SCOPE_REAL \<longrightarrow> acc_type a \<in> set REAL_MONEY_ACCOUNT_TYPES) \<and>
     i \<notin> set (sel_excluded x)"

definition selected_positions :: "selection \<Rightarrow> 'a exposure_db_scheme \<Rightarrow> (trading_account \<times> position) list" where
  "selected_positions x s =
     concat (map (\<lambda>i. case positions s i of None \<Rightarrow> []
                      | Some p \<Rightarrow> (case accounts s (pos_account p) of None \<Rightarrow> []
                          | Some a \<Rightarrow> if selects x s i a p then [(a, p)] else []))
            [0..<next_position s])"

record breakdown =
  open_position_count :: nat
  account_count :: nat
  symbol_count :: nat
  bx_long_quantity :: rat
  bx_short_quantity :: rat
  bx_gross_quantity :: rat
  bx_net_quantity :: rat
  bx_long_notional :: rat
  bx_short_notional :: rat
  bx_gross_notional :: rat
  bx_net_notional :: rat
  bx_trader_pnl :: rat
  bx_broker_pnl :: rat
  bx_margin :: rat
  concentration_by_symbol :: "(string \<times> rat) list"
  largest_symbol :: "string option"
  largest_notional :: rat
  top_symbols :: "(string \<times> rat) list"
  bx_priced :: nat
  bx_unpriced :: nat
  pricing_coverage_pct :: rat
  stale_or_missing_symbols :: "string list"
  fresh_symbols :: "string list"
  frozen_symbols :: "string list"
  stale_symbols :: "string list"
  unavailable_symbols :: "string list"
  by_symbol :: "(string \<times> symbol_exposure) list"
  by_account :: "(pk \<times> account_exposure) list"

definition pricing_coverage :: "nat \<Rightarrow> nat \<Rightarrow> rat" where
  "pricing_coverage priced n =
     (if n = 0 then 100 else quantize_he 2 (dec_mult (dec_ctx (of_nat priced / of_nat n)) 100))"

definition finish_symbol :: "rat \<Rightarrow> symbol_exposure \<Rightarrow> symbol_exposure" where
  "finish_symbol total_gross b =
     b\<lparr>broker_counterparty_pnl := - trader_unrealized_pnl b,
       concentration_pct :=
         (if 0 < total_gross then dec_mult (dec_ctx (gross_notional b / total_gross)) 100 else 0)\<rparr>"

definition finish_account :: "account_exposure \<Rightarrow> account_exposure" where
  "finish_account b = b\<lparr>broker_counterparty_pnl := - trader_unrealized_pnl b\<rparr>"

definition breakdown_of :: "nat \<Rightarrow> aggregate \<Rightarrow> breakdown" where
  "breakdown_of n g =
     (let gross = dec_add (ag_long_notional g) (ag_short_notional g);
          symbols = map (\<lambda>(k, b). (k, finish_symbol gross b)) (ag_symbols g);
          accs = map (\<lambda>(k, b). (k, finish_account b)) (ag_accounts g);
          ranked = sort_key (\<lambda>t. - snd t) (map (\<lambda>(k, b). (k, gross_notional b)) symbols)
      in \<lparr>open_position_count = n, account_count = length accs, symbol_count = length symbols,
          bx_long_quantity = ag_long_qty g, bx_short_quantity = ag_short_qty g,
          bx_gross_quantity = dec_add (ag_long_qty g) (ag_short_qty g),
          bx_net_quantity = dec_add (ag_long_qty g) (- ag_short_qty g),
          bx_long_notional = ag_long_notional g, bx_short_notional = ag_short_notional g,
          bx_gross_notional = gross,
          bx_net_notional = dec_add (ag_long_notional g) (- ag_short_notional g),
          bx_trader_pnl = ag_upnl g, bx_broker_pnl = - ag_upnl g, bx_margin = ag_margin g,
          concentration_by_symbol = map (\<lambda>(k, b). (k, concentration_pct b)) symbols,
          largest_symbol = (case ranked of [] \<Rightarrow> None | t # _ \<Rightarrow> Some (fst t)),
          largest_notional = (case ranked of [] \<Rightarrow> 0 | t # _ \<Rightarrow> snd t),
          top_symbols = ranked,
          bx_priced = ag_priced g, bx_unpriced = ag_unpriced g,
          pricing_coverage_pct = pricing_coverage (ag_priced g) n,
          stale_or_missing_symbols = sort (ag_missing g), fresh_symbols = sort (ag_fresh g),
          frozen_symbols = sort (ag_frozen g), stale_symbols = sort (ag_stale g),
          unavailable_symbols = sort (ag_unavailable g),
          by_symbol = symbols, by_account = accs\<rparr>)"

definition aggregate_positions ::
  "(string \<Rightarrow> rat option \<times> price_status) \<Rightarrow> (trading_account \<times> position) list \<Rightarrow> aggregate" where
  "aggregate_positions prices aps = fold (add_position prices) aps empty_aggregate"

text \<open>\<open>Inl\<close> is the \<open>ValueError\<close> for an unknown scope.\<close>

definition calculate_broker_exposure ::
  "market_view \<Rightarrow> selection \<Rightarrow> 'a exposure_db_scheme \<Rightarrow> string + breakdown" where
  "calculate_broker_exposure mv x s =
     (case sel_scope x of
        Some sc \<Rightarrow> if sc \<noteq> RISK_SCOPE_REAL then Inl sc
                   else Inr (let aps = selected_positions x s in breakdown_of (length aps)
                              (aggregate_positions (resolve_symbol_price mv (last_prices s)) aps))
      | None \<Rightarrow> Inr (let aps = selected_positions x s in breakdown_of (length aps)
                              (aggregate_positions (resolve_symbol_price mv (last_prices s)) aps)))"

definition broker_exposure_for_symbol where
  "broker_exposure_for_symbol mv sy scope s =
     calculate_broker_exposure mv ((no_filter scope)\<lparr>sel_symbol := Some sy\<rparr>) s"

definition broker_exposure_for_account where
  "broker_exposure_for_account mv k scope s =
     calculate_broker_exposure mv ((no_filter scope)\<lparr>sel_account := Some k\<rparr>) s"

definition broker_exposure_for_accounts where
  "broker_exposure_for_accounts mv ks scope s =
     calculate_broker_exposure mv ((no_filter scope)\<lparr>sel_accounts := Some ks\<rparr>) s"

definition broker_exposure_snapshot where
  "broker_exposure_snapshot mv scope s = calculate_broker_exposure mv (no_filter scope) s"

subsection \<open>Prices that count\<close>

text \<open>
  A symbol has a value exactly when its live price is fresh, or its market is closed and a
  recognised provider left a last price; a stale live price is never replaced.
\<close>

definition has_value :: "market_view \<Rightarrow> (string \<Rightarrow> last_price option) \<Rightarrow> string \<Rightarrow> bool" where
  "has_value mv durable sy \<longleftrightarrow>
     mk_live mv sy \<noteq> None \<or>
     (ss_policy (evaluate_market_session_for_symbol (mk_to_ny mv) (mk_from_ny mv) sy (mk_now mv)) = POLICY_MARKET_CLOSED
      \<and> (\<exists>r. durable sy = Some r \<and> lk_source r \<in> set VALID_SOURCES))"

lemma resolved_iff: "fst (resolve_symbol_price mv durable sy) \<noteq> None \<longleftrightarrow> has_value mv durable sy"
  by (auto simp: resolve_symbol_price_def has_value_def split: option.splits)

text \<open>
  The coverage in percent is below 100 exactly when fewer than 20000 positions stand
  against each unpriced one: the quotient is rounded to hundredths before it is compared.
\<close>

lemma coverage_aux:
  assumes "0 < n" "u \<le> n" "n \<le> 10 ^ 9"
  shows "pricing_coverage (n - u) n < 100 \<longleftrightarrow> n < 20000 * u"
proof -
  define x :: rat where "x = of_nat (n - u) / of_nat n"
  define y where "y = dec_ctx x"
  define z where "z = dec_ctx (y * 100)"
  have x: "x = 1 - of_nat u / of_nat n" using assms(1,2) by (simp add: x_def of_nat_diff diff_divide_distrib)
  have cov: "pricing_coverage (n - u) n = of_int (round_half_even (z * 100)) / 100"
    using assms(1) by (simp add: pricing_coverage_def quantize_he_def dec_mult_def x_def y_def z_def)
  have t: "dec_ctx (99995 / 100000) = 99995 / 100000" "dec_ctx (99995 / 1000) = 99995 / 1000"
    using dec_ctx_fixed[of 99995 5] dec_ctx_fixed[of 99995 3] by simp_all
  have t': "dec_ctx (99994999999999999999 / 100000000000000000000) = 99994999999999999999 / 100000000000000000000"
    "dec_ctx (99994999999999999999 / 1000000000000000000) = 99994999999999999999 / 1000000000000000000"
    using dec_ctx_fixed[of 99994999999999999999 20] dec_ctx_fixed[of 99994999999999999999 18] by simp_all
  show ?thesis
  proof (cases "n < 20000 * u")
    case True
    have "(of_nat n :: rat) + 1 \<le> 20000 * of_nat u" using True by (metis Suc_leI of_nat_Suc of_nat_le_iff of_nat_mult of_nat_numeral add.commute)
    then have "(of_nat n + 1) / (20000 * of_nat n) \<le> (20000 * of_nat u / (20000 * of_nat n) :: rat)"
      by (intro divide_right_mono) simp_all
    then have h1: "(of_nat n + 1) / (20000 * of_nat n) \<le> (of_nat u / of_nat n :: rat)" by simp
    have h2: "(of_nat n + 1) / (20000 * of_nat n) = 1 / 20000 + 1 / (20000 * of_nat n :: rat)"
      using assms(1) by (simp add: field_simps)
    have h3: "1 / 20000000000000 \<le> 1 / (20000 * of_nat n :: rat)"
    proof -
      have "(of_nat n :: rat) \<le> of_nat (10 ^ 9)" using assms(3) of_nat_le_iff by blast
      then show ?thesis using assms(1) by (simp add: field_simps)
    qed
    have "x \<le> 99994999999999999999 / 100000000000000000000" using h1 h2 h3 unfolding x by linarith
    then have "y \<le> 99994999999999999999 / 100000000000000000000" unfolding y_def by (rule dctx.le_repr[OF t'(1)])
    then have "y * 100 \<le> 99994999999999999999 / 1000000000000000000" by simp
    then have "z \<le> 99994999999999999999 / 1000000000000000000" unfolding z_def by (rule dctx.le_repr[OF t'(2)])
    then have "z * 100 < 19999 / 2" by simp
    then have "round_half_even (z * 100) < 10000"
      using round_half_even_near[of "z * 100"] unfolding abs_le_iff by linarith
    then show ?thesis using True unfolding cov by simp
  next
    case False
    then have "(20000 * of_nat u :: rat) \<le> of_nat n" by (metis not_less of_nat_le_iff of_nat_mult of_nat_numeral)
    then have "(of_nat u / of_nat n :: rat) \<le> 1 / 20000" using assms(1) by (simp add: field_simps)
    then have "99995 / 100000 \<le> x" unfolding x by simp
    then have "99995 / 100000 \<le> y" unfolding y_def by (rule dctx.ge_repr[OF t(1)])
    then have "99995 / 1000 \<le> y * 100" by simp
    then have "99995 / 1000 \<le> z" unfolding z_def by (rule dctx.ge_repr[OF t(2)])
    then have "19999 / 2 \<le> z * 100" by simp
    then have "round_half_even (19999 / 2) \<le> round_half_even (z * 100)" by (rule round_half_even_mono)
    moreover have "\<lfloor>19999 / 2 :: rat\<rfloor> = 9999" by (simp add: floor_eq_iff)
    then have "round_half_even (19999 / 2) = 10000" by (simp add: round_half_even_def)
    ultimately show ?thesis using False unfolding cov by simp
  qed
qed

subsection \<open>What the aggregate adds up to\<close>

text \<open>
  The totals of a list of positions. Quantities are columns of six decimals; when they
  stay within 28 digits their sums are exact.
\<close>

definition qty_on :: "side \<Rightarrow> (trading_account \<times> position) list \<Rightarrow> rat" where
  "qty_on sd aps = sum_list (map (\<lambda>ap. pos_qty (snd ap)) (filter (\<lambda>ap. pos_side (snd ap) = sd) aps))"

definition micro :: "rat \<Rightarrow> bool" where
  "micro q \<longleftrightarrow> (\<exists>k::nat. q = of_nat k / 10 ^ 6)"

definition lots_fit :: "(trading_account \<times> position) list \<Rightarrow> bool" where
  "lots_fit aps \<longleftrightarrow> (\<forall>ap \<in> set aps. micro (pos_qty (snd ap)))
     \<and> sum_list (map (\<lambda>ap. pos_qty (snd ap)) aps) < 10 ^ 20"

definition figures_ok ::
  "(string \<Rightarrow> bool) \<Rightarrow> 'a figures_scheme \<Rightarrow> (trading_account \<times> position) list \<Rightarrow> bool" where
  "figures_ok valued b aps \<longleftrightarrow>
     position_count b = length aps \<and>
     long_quantity b = qty_on BUY aps \<and> short_quantity b = qty_on SELL aps \<and>
     gross_quantity b = qty_on BUY aps + qty_on SELL aps \<and>
     net_quantity b = qty_on BUY aps - qty_on SELL aps \<and>
     unpriced_count b = length (filter (\<lambda>ap. \<not> valued (pos_symbol (snd ap))) aps) \<and>
     priced_count b = length (filter (\<lambda>ap. valued (pos_symbol (snd ap))) aps)"

lemma micro_add: "micro x \<Longrightarrow> micro y \<Longrightarrow> micro (x + y)"
  unfolding micro_def by (metis add_divide_distrib of_nat_add)

lemma micro_0: "micro 0"
  unfolding micro_def by (rule exI[of _ 0]) simp

lemma micro_nonneg: "micro x \<Longrightarrow> 0 \<le> x"
  by (auto simp: micro_def)

lemma micro_diff_exact:
  assumes "micro x" "micro y" "x < 10 ^ 20" "y < 10 ^ 20"
  shows "dec_ctx (x - y) = x - y"
proof -
  obtain k l where kl: "x = of_nat k / 10 ^ 6" "y = of_nat l / 10 ^ 6" using assms(1,2) by (auto simp: micro_def)
  have "(of_nat k :: rat) < of_nat (10 ^ 26)" "(of_nat l :: rat) < of_nat (10 ^ 26)"
    using assms(3,4) unfolding kl by simp_all
  then have "k < 10 ^ 26" "l < 10 ^ 26" by (metis of_nat_less_iff)+
  then have "\<bar>int k - int l\<bar> < 10 ^ 28" by simp
  from dec_ctx_fixed[OF this, of 6] show ?thesis unfolding kl by (simp add: diff_divide_distrib)
qed

lemma micro_exact: "micro x \<Longrightarrow> x < 10 ^ 20 \<Longrightarrow> dec_ctx x = x"
  using micro_diff_exact[of x 0] micro_0 by simp

lemma micro_sum: "\<forall>x \<in> set xs. micro (f x) \<Longrightarrow> micro (sum_list (map f xs))"
  by (induction xs) (auto intro: micro_add micro_0)

lemma lots_fit_snoc:
  assumes "lots_fit (aps @ [ap])"
  shows "lots_fit aps" "micro (pos_qty (snd ap))"
  using assms micro_nonneg[of "pos_qty (snd ap)"] by (auto simp: lots_fit_def)

lemma sum_filter_le:
  "\<forall>x \<in> set xs. 0 \<le> f x \<Longrightarrow> sum_list (map f (filter P xs)) \<le> (sum_list (map f xs) :: rat)"
  by (induction xs) (auto simp: add_increasing)

lemma lots_fit_filter: "lots_fit aps \<Longrightarrow> lots_fit (filter P aps)"
  using sum_filter_le[of aps "\<lambda>ap. pos_qty (snd ap)" P] micro_nonneg
  unfolding lots_fit_def by (metis filter_is_subset le_less_trans subsetD)

lemma qty_split: "qty_on BUY aps + qty_on SELL aps = sum_list (map (\<lambda>ap. pos_qty (snd ap)) aps)"
proof (induction aps)
  case (Cons ap aps)
  then show ?case by (cases "pos_side (snd ap)") (simp_all add: qty_on_def)
qed (simp add: qty_on_def)

lemma qty_on_micro: "lots_fit aps \<Longrightarrow> micro (qty_on sd aps)"
  unfolding qty_on_def by (intro micro_sum) (auto simp: lots_fit_def)

lemma qty_on_small:
  assumes "lots_fit aps"
  shows "qty_on BUY aps + qty_on SELL aps < 10 ^ 20" "qty_on sd aps < 10 ^ 20"
proof -
  show 1: "qty_on BUY aps + qty_on SELL aps < 10 ^ 20" using assms by (simp add: qty_split lots_fit_def)
  show "qty_on sd aps < 10 ^ 20"
    using 1 micro_nonneg[OF qty_on_micro[OF assms, of BUY]] micro_nonneg[OF qty_on_micro[OF assms, of SELL]]
    by (cases sd; hypsubst; linarith)
qed

lemma qty_on_snoc: "qty_on sd (aps @ [ap]) = qty_on sd aps + (if pos_side (snd ap) = sd then pos_qty (snd ap) else 0)"
  by (simp add: qty_on_def)

lemma add_quantity_ok:
  assumes "figures_ok valued b aps" "lots_fit (aps @ [(a, p)])"
  defines "b' \<equiv> add_quantity (pos_side p) (pos_qty p) b"
  shows "position_count b' = length (aps @ [(a, p)])"
    "long_quantity b' = qty_on BUY (aps @ [(a, p)])" "short_quantity b' = qty_on SELL (aps @ [(a, p)])"
    "gross_quantity b' = qty_on BUY (aps @ [(a, p)]) + qty_on SELL (aps @ [(a, p)])"
    "net_quantity b' = qty_on BUY (aps @ [(a, p)]) - qty_on SELL (aps @ [(a, p)])"
    "unpriced_count b' = unpriced_count b" "priced_count b' = priced_count b"
proof -
  let ?r = "aps @ [(a, p)]"
  note m = qty_on_micro[OF assms(2)] and l = qty_on_small[OF assms(2)]
  have "dec_ctx (qty_on sd ?r) = qty_on sd ?r" for sd using micro_exact[OF m l(2)] .
  moreover have "dec_ctx (qty_on BUY ?r + qty_on SELL ?r) = qty_on BUY ?r + qty_on SELL ?r"
    using micro_exact[OF micro_add[OF m m] l(1)] .
  moreover have "dec_ctx (qty_on BUY ?r - qty_on SELL ?r) = qty_on BUY ?r - qty_on SELL ?r"
    using micro_diff_exact[OF m m l(2) l(2)] .
  ultimately have x: "dec_ctx (qty_on BUY ?r) = qty_on BUY ?r" "dec_ctx (qty_on SELL ?r) = qty_on SELL ?r"
    "dec_ctx (qty_on BUY ?r + qty_on SELL ?r) = qty_on BUY ?r + qty_on SELL ?r"
    "dec_ctx (qty_on BUY ?r - qty_on SELL ?r) = qty_on BUY ?r - qty_on SELL ?r" by simp_all
  have d: "qty_on BUY aps + qty_on SELL aps + pos_qty p = qty_on BUY ?r + qty_on SELL ?r"
    "qty_on BUY aps - qty_on SELL aps + signed_quantity (pos_side p) (pos_qty p) = qty_on BUY ?r - qty_on SELL ?r"
    by (cases "pos_side p"; simp add: qty_on_snoc signed_quantity_def)+
  note b = assms(1)[unfolded figures_ok_def] and e = b'_def add_quantity_def dec_add_def
  show "position_count b' = length ?r" "unpriced_count b' = unpriced_count b" "priced_count b' = priced_count b"
    using b by (simp_all add: e)
  show "gross_quantity b' = qty_on BUY ?r + qty_on SELL ?r" "net_quantity b' = qty_on BUY ?r - qty_on SELL ?r"
    using b d x(3,4) by (simp_all add: e)
  show "long_quantity b' = qty_on BUY ?r" "short_quantity b' = qty_on SELL ?r"
    using b x(1,2) by (cases "pos_side p"; simp add: e qty_on_snoc)+
qed

subsection \<open>Entries\<close>

lemma map_of_on_entry:
  "map_of (on_entry k d f xs) = (map_of xs)(k \<mapsto> f (case map_of xs k of None \<Rightarrow> d | Some v \<Rightarrow> v))"
  by (simp add: on_entry_def update_conv')

lemma distinct_on_entry: "distinct (map fst xs) \<Longrightarrow> distinct (map fst (on_entry k d f xs))"
  by (simp add: on_entry_def distinct_update)

lemma dom_on_entry: "fst ` set (on_entry k d f xs) = insert k (fst ` set xs)"
proof -
  have "dom (map_of (on_entry k d f xs)) = insert k (dom (map_of xs))" by (auto simp: map_of_on_entry)
  then show ?thesis by (simp add: dom_map_of_conv_image_fst)
qed

text \<open>
  \<open>entries_ok\<close>: a breakdown by a key has one entry for each key that occurs, and each
  entry adds up the positions of its key.
\<close>

definition entries_ok ::
  "(string \<Rightarrow> bool) \<Rightarrow> (trading_account \<times> position \<Rightarrow> 'k) \<Rightarrow> ('k \<times> 'a figures_scheme) list
    \<Rightarrow> (trading_account \<times> position) list \<Rightarrow> bool" where
  "entries_ok valued key es aps \<longleftrightarrow>
     distinct (map fst es) \<and> fst ` set es = key ` set aps \<and>
     (\<forall>k b. map_of es k = Some b \<longrightarrow> figures_ok valued b (filter (\<lambda>ap. key ap = k) aps))"

lemma figures_ok_Nil:
  "position_count b = 0 \<Longrightarrow> long_quantity b = 0 \<Longrightarrow> short_quantity b = 0 \<Longrightarrow> gross_quantity b = 0 \<Longrightarrow>
   net_quantity b = 0 \<Longrightarrow> unpriced_count b = 0 \<Longrightarrow> priced_count b = 0 \<Longrightarrow> figures_ok valued b []"
  by (simp add: figures_ok_def qty_on_def)

lemma entries_ok_step:
  assumes es: "entries_ok valued key es aps" and fit: "lots_fit (aps @ [ap])" and d: "figures_ok valued d []"
    and f: "\<And>b qs. figures_ok valued b qs \<Longrightarrow> lots_fit (qs @ [ap]) \<Longrightarrow> figures_ok valued (f b) (qs @ [ap])"
  shows "entries_ok valued key (on_entry (key ap) d f es) (aps @ [ap])"
proof -
  let ?old = "case map_of es (key ap) of None \<Rightarrow> d | Some v \<Rightarrow> v"
  let ?qs = "filter (\<lambda>x. key x = key ap) aps"
  have fit': "lots_fit (?qs @ [ap])" using lots_fit_filter[OF fit, of "\<lambda>x. key x = key ap"] by simp
  have "figures_ok valued ?old ?qs"
  proof (cases "map_of es (key ap)")
    case None
    then have "key ap \<notin> key ` set aps" using es by (auto simp: entries_ok_def map_of_eq_None_iff)
    then have "\<forall>x \<in> set aps. key x \<noteq> key ap" by (metis imageI)
    then have "?qs = []" by (simp add: filter_empty_conv)
    then show ?thesis using None d by simp
  qed (use es in \<open>simp add: entries_ok_def\<close>)
  then have new: "figures_ok valued (f ?old) (?qs @ [ap])" using f fit' by blast
  have "figures_ok valued b (filter (\<lambda>x. key x = k) (aps @ [ap]))"
    if "map_of (on_entry (key ap) d f es) k = Some b" for k b
  proof (cases "k = key ap")
    case True
    then show ?thesis using that new by (simp add: map_of_on_entry)
  next
    case False
    then show ?thesis using that es by (simp add: map_of_on_entry entries_ok_def)
  qed
  then show ?thesis using es by (auto simp: entries_ok_def distinct_on_entry dom_on_entry)
qed

lemma on_entry_twice:
  "on_entry k d g (on_entry k d f xs) = on_entry k d (\<lambda>b. g (f b)) xs"
  by (simp add: on_entry_def update_Some_unfold update_conv)

subsection \<open>The aggregate adds up\<close>

text \<open>What one position does to the entry of its symbol and of its account.\<close>

definition with_value :: "(string \<Rightarrow> rat option \<times> price_status) \<Rightarrow> trading_account \<times> position \<Rightarrow> 'a figures_scheme \<Rightarrow> 'a figures_scheme" where
  "with_value prices ap b =
     (case fst (prices (pos_symbol (snd ap))) of
        None \<Rightarrow> add_unpriced b
      | Some x \<Rightarrow> add_priced (pos_side (snd ap))
          (dec_mult (dec_mult (pos_qty (snd ap)) x) (lot_units (pos_symbol (snd ap))))
          (unrealized_pnl (fst ap) (snd ap) x) b)"

definition symbol_step where
  "symbol_step prices ap b = with_value prices ap (add_quantity (pos_side (snd ap)) (pos_qty (snd ap)) b)"

definition account_step :: "(string \<Rightarrow> rat option \<times> price_status) \<Rightarrow> trading_account \<times> position \<Rightarrow> account_exposure \<Rightarrow> account_exposure" where
  "account_step prices ap b =
     with_value prices ap ((add_quantity (pos_side (snd ap)) (pos_qty (snd ap)) b)
       \<lparr>margin_used := dec_add (margin_used b) (entry_margin (fst ap) (snd ap))\<rparr>)"

lemma add_position_entries:
  "ag_symbols (add_position prices ap g)
     = on_entry (pos_symbol (snd ap)) empty_symbol (symbol_step prices ap) (ag_symbols g)"
  "ag_accounts (add_position prices ap g)
     = on_entry (pos_account (snd ap)) empty_account (account_step prices ap) (ag_accounts g)"
  by (cases "prices (pos_symbol (snd ap))";
      auto simp: add_position_def Let_def symbol_step_def[abs_def] account_step_def[abs_def]
        with_value_def[abs_def] on_entry_twice split: option.splits)+

lemma add_position_totals:
  "ag_long_qty (add_position prices ap g)
     = (if pos_side (snd ap) = BUY then dec_add (ag_long_qty g) (pos_qty (snd ap)) else ag_long_qty g)"
  "ag_short_qty (add_position prices ap g)
     = (if pos_side (snd ap) = BUY then ag_short_qty g else dec_add (ag_short_qty g) (pos_qty (snd ap)))"
  "ag_priced (add_position prices ap g)
     = ag_priced g + (if fst (prices (pos_symbol (snd ap))) = None then 0 else 1)"
  "ag_unpriced (add_position prices ap g)
     = ag_unpriced g + (if fst (prices (pos_symbol (snd ap))) = None then 1 else 0)"
  by (cases "prices (pos_symbol (snd ap))"; auto simp: add_position_def Let_def split: option.splits)+

lemma figures_step:
  assumes "figures_ok (\<lambda>sy. fst (prices sy) \<noteq> None) b qs" "lots_fit (qs @ [ap])"
  shows "figures_ok (\<lambda>sy. fst (prices sy) \<noteq> None) (symbol_step prices ap b) (qs @ [ap])"
proof -
  obtain a p where ap: "ap = (a, p)" by (cases ap)
  note q = add_quantity_ok[OF assms(1) assms(2)[unfolded ap]]
  show ?thesis using assms(1) q unfolding ap
    by (cases "prices (pos_symbol p)"; cases "fst (prices (pos_symbol p))";
        simp add: figures_ok_def symbol_step_def with_value_def add_unpriced_def add_priced_def)
qed

lemma figures_step_account:
  assumes "figures_ok (\<lambda>sy. fst (prices sy) \<noteq> None) b qs" "lots_fit (qs @ [ap])"
  shows "figures_ok (\<lambda>sy. fst (prices sy) \<noteq> None) (account_step prices ap b) (qs @ [ap])"
proof -
  obtain a p where ap: "ap = (a, p)" by (cases ap)
  note q = add_quantity_ok[OF assms(1) assms(2)[unfolded ap]]
  show ?thesis using assms(1) q unfolding ap
    by (cases "prices (pos_symbol p)"; cases "fst (prices (pos_symbol p))";
        simp add: figures_ok_def account_step_def with_value_def add_unpriced_def add_priced_def)
qed

definition aggregate_ok ::
  "(string \<Rightarrow> rat option \<times> price_status) \<Rightarrow> aggregate \<Rightarrow> (trading_account \<times> position) list \<Rightarrow> bool" where
  "aggregate_ok prices g aps \<longleftrightarrow>
     entries_ok (\<lambda>sy. fst (prices sy) \<noteq> None) (\<lambda>ap. pos_symbol (snd ap)) (ag_symbols g) aps \<and>
     entries_ok (\<lambda>sy. fst (prices sy) \<noteq> None) (\<lambda>ap. pos_account (snd ap)) (ag_accounts g) aps \<and>
     ag_long_qty g = qty_on BUY aps \<and> ag_short_qty g = qty_on SELL aps \<and>
     ag_priced g = length (filter (\<lambda>ap. fst (prices (pos_symbol (snd ap))) \<noteq> None) aps) \<and>
     ag_unpriced g = length (filter (\<lambda>ap. fst (prices (pos_symbol (snd ap))) = None) aps)"

lemma aggregate_step:
  assumes "aggregate_ok prices g aps" "lots_fit (aps @ [ap])"
  shows "aggregate_ok prices (add_position prices ap g) (aps @ [ap])"
proof -
  have e: "figures_ok v empty_symbol []" "figures_ok v empty_account []" for v
    by (rule figures_ok_Nil; simp add: empty_symbol_def empty_account_def)+
  have x: "dec_ctx (qty_on sd (aps @ [ap])) = qty_on sd (aps @ [ap])" for sd
    using micro_exact[OF qty_on_micro[OF assms(2)] qty_on_small(2)[OF assms(2)]] .
  have "entries_ok (\<lambda>sy. fst (prices sy) \<noteq> None) (\<lambda>ap. pos_symbol (snd ap)) (ag_symbols (add_position prices ap g)) (aps @ [ap])"
    unfolding add_position_entries using assms
    by (intro entries_ok_step figures_step e) (simp_all add: aggregate_ok_def)
  moreover have "entries_ok (\<lambda>sy. fst (prices sy) \<noteq> None) (\<lambda>ap. pos_account (snd ap)) (ag_accounts (add_position prices ap g)) (aps @ [ap])"
    unfolding add_position_entries using assms
    by (intro entries_ok_step figures_step_account e) (simp_all add: aggregate_ok_def)
  moreover have "ag_long_qty (add_position prices ap g) = qty_on BUY (aps @ [ap])"
    "ag_short_qty (add_position prices ap g) = qty_on SELL (aps @ [ap])"
    using x[of BUY] x[of SELL] assms(1) unfolding add_position_totals
    by (cases "pos_side (snd ap)"; simp add: aggregate_ok_def qty_on_snoc dec_add_def)+
  ultimately show ?thesis using assms(1) by (simp add: aggregate_ok_def add_position_totals)
qed

lemma aggregate_positions_ok:
  "lots_fit aps \<Longrightarrow> aggregate_ok prices (aggregate_positions prices aps) aps"
proof (induction aps rule: rev_induct)
  case Nil
  show ?case by (simp add: aggregate_positions_def empty_aggregate_def aggregate_ok_def entries_ok_def qty_on_def)
next
  case (snoc ap aps)
  have "aggregate_positions prices (aps @ [ap]) = add_position prices ap (aggregate_positions prices aps)"
    by (simp add: aggregate_positions_def)
  then show ?case using aggregate_step[OF snoc.IH snoc.prems] lots_fit_snoc(1)[OF snoc.prems] by simp
qed

lemma sum_by_key:
  assumes "distinct ks" "key ` set xs \<subseteq> set ks"
  shows "sum_list (map (\<lambda>k. sum_list (map f (filter (\<lambda>x. key x = k) xs))) ks) = (sum_list (map f xs) :: 'b::comm_monoid_add)"
  using assms(2)
proof (induction xs)
  case (Cons x xs)
  have one: "sum_list (map (\<lambda>k. if key x = k then f x else 0) ks) = f x"
    using assms(1) Cons.prems by (simp add: sum_list_map_eq_sum_count2 sum_list_distinct_conv_sum_set)
  have "sum_list (map (\<lambda>k. sum_list (map f (filter (\<lambda>y. key y = k) (x # xs)))) ks)
      = sum_list (map (\<lambda>k. (if key x = k then f x else 0) + sum_list (map f (filter (\<lambda>y. key y = k) xs))) ks)"
    by (rule arg_cong[where f = sum_list], rule map_cong) auto
  also have "\<dots> = f x + sum_list (map f xs)" using Cons by (simp add: sum_list_addf one)
  finally show ?case by simp
qed simp

lemma sum_entries:
  fixes f :: "_ \<Rightarrow> 'b::comm_monoid_add"
  assumes "entries_ok valued key es aps" and g: "\<And>b qs. figures_ok valued b qs \<Longrightarrow> g b = sum_list (map f qs)"
  shows "sum_list (map (\<lambda>(k, b). g b) es) = sum_list (map f aps)"
proof -
  have eq: "map (\<lambda>(k, b). g b) es = map (\<lambda>k. sum_list (map f (filter (\<lambda>ap. key ap = k) aps))) (map fst es)"
    using assms(1) g unfolding entries_ok_def by (auto simp: map_of_eq_Some_iff)
  show ?thesis unfolding eq
    by (rule sum_by_key) (use assms(1) in \<open>simp_all add: entries_ok_def\<close>)
qed

lemma figures_sums:
  assumes "figures_ok valued b qs"
  shows "position_count b = sum_list (map (\<lambda>_. 1) qs)"
    "long_quantity b = sum_list (map (\<lambda>ap. if pos_side (snd ap) = BUY then pos_qty (snd ap) else 0) qs)"
    "short_quantity b = sum_list (map (\<lambda>ap. if pos_side (snd ap) = SELL then pos_qty (snd ap) else 0) qs)"
    "unpriced_count b = sum_list (map (\<lambda>ap. if \<not> valued (pos_symbol (snd ap)) then 1 else 0) qs)"
proof -
  have "sum_list (map f (filter P qs)) = sum_list (map (\<lambda>x. if P x then f x else 0) qs)" for f :: "_ \<Rightarrow> rat" and P
    by (rule sum_list_map_filter')
  moreover have "length (filter P qs) = sum_list (map (\<lambda>x. if P x then 1 else 0) qs)" for P
    by (induction qs) auto
  ultimately show "position_count b = sum_list (map (\<lambda>_. 1) qs)"
    "long_quantity b = sum_list (map (\<lambda>ap. if pos_side (snd ap) = BUY then pos_qty (snd ap) else 0) qs)"
    "short_quantity b = sum_list (map (\<lambda>ap. if pos_side (snd ap) = SELL then pos_qty (snd ap) else 0) qs)"
    "unpriced_count b = sum_list (map (\<lambda>ap. if \<not> valued (pos_symbol (snd ap)) then 1 else 0) qs)"
    using assms by (simp_all add: figures_ok_def qty_on_def if_distrib sum_list_triv cong: if_cong)
qed

subsection \<open>The breakdown\<close>

lemma calculate_Inr:
  "calculate_broker_exposure mv x s = Inr b \<longleftrightarrow>
     (sel_scope x = None \<or> sel_scope x = Some RISK_SCOPE_REAL) \<and>
     b = breakdown_of (length (selected_positions x s))
           (aggregate_positions (resolve_symbol_price mv (last_prices s)) (selected_positions x s))"
  by (auto simp: calculate_broker_exposure_def Let_def split: option.splits)

lemma by_symbol_sum:
  assumes "\<And>t e. f (finish_symbol t e) = f e"
  shows "sum_list (map (\<lambda>(k, e). f e) (by_symbol (breakdown_of n g))) = sum_list (map (\<lambda>(k, e). f e) (ag_symbols g))"
  by (simp add: breakdown_of_def Let_def o_def case_prod_unfold assms)

lemma by_account_sum:
  assumes "\<And>e. f (finish_account e) = f e"
  shows "sum_list (map (\<lambda>(k, e). f e) (by_account (breakdown_of n g))) = sum_list (map (\<lambda>(k, e). f e) (ag_accounts g))"
  by (simp add: breakdown_of_def Let_def o_def case_prod_unfold assms)

lemma breakdown_keys:
  "map fst (by_symbol (breakdown_of n g)) = map fst (ag_symbols g)"
  "map fst (by_account (breakdown_of n g)) = map fst (ag_accounts g)"
  by (simp_all add: breakdown_of_def Let_def o_def case_prod_unfold)

lemma breakdown_simps [simp]:
  "open_position_count (breakdown_of n g) = n"
  "bx_long_quantity (breakdown_of n g) = ag_long_qty g"
  "bx_short_quantity (breakdown_of n g) = ag_short_qty g"
  "bx_gross_quantity (breakdown_of n g) = dec_add (ag_long_qty g) (ag_short_qty g)"
  "bx_net_quantity (breakdown_of n g) = dec_add (ag_long_qty g) (- ag_short_qty g)"
  "bx_priced (breakdown_of n g) = ag_priced g"
  "bx_unpriced (breakdown_of n g) = ag_unpriced g"
  "pricing_coverage_pct (breakdown_of n g) = pricing_coverage (ag_priced g) n"
  by (simp_all add: breakdown_of_def Let_def)

lemma aggregate_quantities:
  fixes prices
  assumes "lots_fit aps"
  defines "g \<equiv> aggregate_positions prices aps"
  shows "ag_long_qty g = qty_on BUY aps" "ag_short_qty g = qty_on SELL aps"
    "dec_add (ag_long_qty g) (ag_short_qty g) = qty_on BUY aps + qty_on SELL aps"
    "dec_add (ag_long_qty g) (- ag_short_qty g) = qty_on BUY aps - qty_on SELL aps"
proof -
  note m = qty_on_micro[OF assms(1)] and l = qty_on_small[OF assms(1)]
  show q: "ag_long_qty g = qty_on BUY aps" "ag_short_qty g = qty_on SELL aps"
    using aggregate_positions_ok[OF assms(1), of prices] by (simp_all add: g_def aggregate_ok_def)
  show "dec_add (ag_long_qty g) (ag_short_qty g) = qty_on BUY aps + qty_on SELL aps"
    using micro_exact[OF micro_add[OF m m] l(1)] by (simp add: q dec_add_def)
  show "dec_add (ag_long_qty g) (- ag_short_qty g) = qty_on BUY aps - qty_on SELL aps"
    using micro_diff_exact[OF m m l(2) l(2)] by (simp add: q dec_add_def)
qed

lemma aggregate_counts:
  "ag_priced (aggregate_positions prices aps) = length (filter (\<lambda>ap. fst (prices (pos_symbol (snd ap))) \<noteq> None) aps)"
  "ag_unpriced (aggregate_positions prices aps) = length (filter (\<lambda>ap. fst (prices (pos_symbol (snd ap))) = None) aps)"
proof (induction aps rule: rev_induct)
  case Nil
  { case 1 show ?case by (simp add: aggregate_positions_def empty_aggregate_def)
  next case 2 show ?case by (simp add: aggregate_positions_def empty_aggregate_def) }
next
  case (snoc ap aps)
  { case 1 show ?case using snoc by (simp add: aggregate_positions_def add_position_totals)
  next case 2 show ?case using snoc by (simp add: aggregate_positions_def add_position_totals) }
qed

text \<open>
  C34. The breakdown of the book adds up. For every selection, no position is counted twice
  or left out: each has a value or is counted as unpriced, and it has a value exactly when its live price is fresh or
  its market is closed and a recognised provider left a last price. The quantities are the sums of the
  selected lots, and the entries by symbol and the entries by account each add up to the same
  totals, with one entry for each key.
\<close>

theorem exposure_breakdowns_partition:
  assumes "calculate_broker_exposure mv x s = Inr b" "lots_fit (selected_positions x s)"
  defines "aps \<equiv> selected_positions x s"
  shows "open_position_count b = length aps
    \<and> bx_priced b + bx_unpriced b = length aps
    \<and> bx_unpriced b = length (filter (\<lambda>(a, p). \<not> has_value mv (last_prices s) (pos_symbol p)) aps)
    \<and> bx_long_quantity b = qty_on BUY aps \<and> bx_short_quantity b = qty_on SELL aps
    \<and> bx_gross_quantity b = bx_long_quantity b + bx_short_quantity b
    \<and> bx_net_quantity b = bx_long_quantity b - bx_short_quantity b
    \<and> distinct (map fst (by_symbol b)) \<and> fst ` set (by_symbol b) = (\<lambda>(a, p). pos_symbol p) ` set aps
    \<and> distinct (map fst (by_account b)) \<and> fst ` set (by_account b) = (\<lambda>(a, p). pos_account p) ` set aps
    \<and> (\<Sum>(k, e) \<leftarrow> by_symbol b. position_count e) = length aps
    \<and> (\<Sum>(k, e) \<leftarrow> by_symbol b. long_quantity e) = bx_long_quantity b
    \<and> (\<Sum>(k, e) \<leftarrow> by_symbol b. short_quantity e) = bx_short_quantity b
    \<and> (\<Sum>(k, e) \<leftarrow> by_symbol b. unpriced_count e) = bx_unpriced b
    \<and> (\<Sum>(k, e) \<leftarrow> by_account b. position_count e) = length aps
    \<and> (\<Sum>(k, e) \<leftarrow> by_account b. long_quantity e) = bx_long_quantity b
    \<and> (\<Sum>(k, e) \<leftarrow> by_account b. short_quantity e) = bx_short_quantity b
    \<and> (\<Sum>(k, e) \<leftarrow> by_account b. unpriced_count e) = bx_unpriced b"
proof -
  let ?P = "resolve_symbol_price mv (last_prices s)"
  define g where "g = aggregate_positions ?P aps"
  have b: "b = breakdown_of (length aps) g" using assms(1) by (simp add: calculate_Inr aps_def g_def)
  have fit: "lots_fit aps" using assms(2) by (simp add: aps_def)
  note q = aggregate_quantities[OF fit, of ?P, folded g_def]
  note c = aggregate_counts[of ?P aps, folded g_def]
  have ok: "aggregate_ok ?P g aps" using aggregate_positions_ok[OF fit] by (simp add: g_def)
  then have sy: "entries_ok (\<lambda>sy. fst (?P sy) \<noteq> None) (\<lambda>ap. pos_symbol (snd ap)) (ag_symbols g) aps"
    and ac: "entries_ok (\<lambda>sy. fst (?P sy) \<noteq> None) (\<lambda>ap. pos_account (snd ap)) (ag_accounts g) aps"
    by (simp_all add: aggregate_ok_def)
  have len: "sum_list (map (\<lambda>_. 1) aps) = length aps" by (simp add: sum_list_triv)
  have onb: "sum_list (map (\<lambda>ap. if pos_side (snd ap) = sd then pos_qty (snd ap) else 0) aps) = qty_on sd aps" for sd
    unfolding qty_on_def by (rule sum_list_map_filter'[symmetric])
  have unp: "sum_list (map (\<lambda>ap. if \<not> fst (?P (pos_symbol (snd ap))) \<noteq> None then 1 else 0) aps) = ag_unpriced g"
    unfolding c by (induction aps) auto
  note sums = figures_sums
  have S: "(\<Sum>(k, e) \<leftarrow> by_symbol b. position_count e) = length aps"
    "(\<Sum>(k, e) \<leftarrow> by_symbol b. long_quantity e) = qty_on BUY aps"
    "(\<Sum>(k, e) \<leftarrow> by_symbol b. short_quantity e) = qty_on SELL aps"
    "(\<Sum>(k, e) \<leftarrow> by_symbol b. unpriced_count e) = ag_unpriced g"
    unfolding b
    by (subst by_symbol_sum, simp add: finish_symbol_def,
        subst sum_entries[OF sy], erule figures_sums, simp only: len onb unp)+
  have A: "(\<Sum>(k, e) \<leftarrow> by_account b. position_count e) = length aps"
    "(\<Sum>(k, e) \<leftarrow> by_account b. long_quantity e) = qty_on BUY aps"
    "(\<Sum>(k, e) \<leftarrow> by_account b. short_quantity e) = qty_on SELL aps"
    "(\<Sum>(k, e) \<leftarrow> by_account b. unpriced_count e) = ag_unpriced g"
    unfolding b
    by (subst by_account_sum, simp add: finish_account_def,
        subst sum_entries[OF ac], erule figures_sums, simp only: len onb unp)+
  have K: "distinct (map fst (by_symbol b))" "fst ` set (by_symbol b) = (\<lambda>(a, p). pos_symbol p) ` set aps"
    "distinct (map fst (by_account b))" "fst ` set (by_account b) = (\<lambda>(a, p). pos_account p) ` set aps"
    using sy ac unfolding b by (simp_all add: entries_ok_def breakdown_keys case_prod_unfold flip: set_map)
  have U: "ag_unpriced g = length (filter (\<lambda>(a, p). \<not> has_value mv (last_prices s) (pos_symbol p)) aps)"
    unfolding c resolved_iff[symmetric] by (simp add: case_prod_unfold)
  have T: "ag_priced g + ag_unpriced g = length aps"
    unfolding c using sum_length_filter_compl[of "\<lambda>ap. fst (?P (pos_symbol (snd ap))) \<noteq> None" aps] by simp
  show ?thesis using S A K U T q unfolding b by simp
qed

definition demo_exposure :: exposure_db where
  "demo_exposure =
     \<lparr>accounts = [1 \<mapsto> demo_account, 2 \<mapsto> demo_account\<lparr>acc_type := DEMO\<rparr>], next_account = 3,
      positions = [0 \<mapsto> \<lparr>pos_account = 1, pos_symbol = ''EUR/USD'', pos_side = BUY, pos_qty = 2, pos_avg = 1,
                        pos_sl = None, pos_tp = None, pos_opened_at = 0\<rparr>,
                   1 \<mapsto> \<lparr>pos_account = 2, pos_symbol = ''BTCUSD'', pos_side = SELL, pos_qty = 1, pos_avg = 5,
                        pos_sl = None, pos_tp = None, pos_opened_at = 0\<rparr>],
      next_position = 2,
      ledger = [], wallets = Map.empty, user_wallet = Map.empty, next_wallet = 0, wallet_txs = [],
      transfers = Map.empty, next_transfer = 0, broker_ledger = [], trades = Map.empty, next_trade = 0,
      adjustments = [], risk_rules = Map.empty, violations = [], snapshots = Map.empty,
      scores = Map.empty, products = Map.empty, enrollments = Map.empty, funded_configs = Map.empty,
      account_terms_of = Map.empty, account_products = Map.empty, product_pricings = Map.empty,
      spread_configs = Map.empty, last_prices = Map.empty, routing_rows = Map.empty, desk_rows = []\<rparr>"

definition demo_market :: market_view where
  "demo_market = \<lparr>mk_live = [''EUR/USD'' \<mapsto> 1], mk_to_ny = (\<lambda>t. t), mk_from_ny = (\<lambda>t. t), mk_now = 0\<rparr>"

lemma demo_positions:
  "selected_positions (no_filter None) demo_exposure
     = [(demo_account, the (positions demo_exposure 0)), (demo_account\<lparr>acc_type := DEMO\<rparr>, the (positions demo_exposure 1))]"
  by (simp add: selected_positions_def demo_exposure_def selects_def no_filter_def upt_rec)

lemma demo_lots_fit: "lots_fit (selected_positions (no_filter None) demo_exposure)"
proof -
  have "micro 1" unfolding micro_def by (rule exI[of _ "10 ^ 6"]) simp
  moreover have "micro 2" unfolding micro_def by (rule exI[of _ "2 * 10 ^ 6"]) simp
  moreover have "pos_qty (the (positions demo_exposure 0)) = 2" "pos_qty (the (positions demo_exposure 1)) = 1"
    by (simp_all add: demo_exposure_def)
  ultimately show ?thesis by (simp add: demo_positions lots_fit_def)
qed

theorem exposure_breakdowns_partition_witness:
  "\<exists>b. calculate_broker_exposure demo_market (no_filter None) demo_exposure = Inr b
     \<and> bx_long_quantity b = 2 \<and> bx_short_quantity b = 1 \<and> bx_gross_quantity b = 3
     \<and> open_position_count b = 2 \<and> (\<Sum>(k, e) \<leftarrow> by_account b. position_count e) = 2"
proof -
  obtain b where b: "calculate_broker_exposure demo_market (no_filter None) demo_exposure = Inr b"
    by (simp add: calculate_broker_exposure_def no_filter_def)
  have q: "qty_on BUY (selected_positions (no_filter None) demo_exposure) = 2"
    "qty_on SELL (selected_positions (no_filter None) demo_exposure) = 1"
    "length (selected_positions (no_filter None) demo_exposure) = 2"
    by (simp_all add: demo_positions qty_on_def) (simp_all add: demo_exposure_def)
  show ?thesis using exposure_breakdowns_partition[OF b demo_lots_fit] b q by auto
qed

subsection \<open>Margin\<close>

text \<open>
  The margin of the exposure book is not the margin of the trading engine. For an instrument
  that is not quoted in dollars, a dollar account and a leverage of at least 1, the book reports the margin in the quote
  currency (entry price times size over leverage), while the engine's required margin at the same price, quantity and
  leverage is in dollars, without the price.
\<close>

theorem book_margin_not_converted:
  fixes a
  assumes "sp \<in> set registry" "pos_symbol p = sp_symbol sp" "sp_quote_currency sp \<noteq> ''USD''"
    and "0 < pos_avg p" "0 < pos_qty p" "to_decimal (sp_contract_size sp) = Some n"
    and "dec_exact (pos_avg p * pos_qty p)" "dec_exact (pos_avg p * pos_qty p * n)" "dec_exact (pos_qty p * n)"
  defines "lev \<equiv> position_leverage a (pos_symbol p)"
  shows "entry_margin a p = dec_ctx (pos_avg p * pos_qty p * n / of_int lev)
    \<and> calculate_required_margin (pos_symbol p) (PyDecimal (pos_avg p)) (PyDecimal (pos_qty p)) lev ''USD''
        = Inr (fl (dec_ctx (pos_qty p * n / of_int lev)))"
proof
  have gs: "get_spec (pos_symbol p) = Some sp" using assms(1,2) get_spec_registered by simp
  obtain n' where "to_decimal (sp_contract_size sp) = Some n'" "0 < n'" using registered_contract[OF assms(1)] by blast
  then have n: "0 < n" using assms(6) by simp
  have lev: "1 \<le> lev" by (simp add: lev_def position_leverage_def gs Let_def)
  have N: "dec_mult (dec_mult (pos_avg p) (pos_qty p)) n = pos_avg p * pos_qty p * n" using assms(7,8) by (simp add: dec_mult_def)
  then show "entry_margin a p = dec_ctx (pos_avg p * pos_qty p * n / of_int lev)"
    using assms(4-6) n by (simp add: entry_margin_def lot_units_def gs lev_def)
  note m = margin_notional_dollars[OF assms(1), of "pos_symbol p" "PyDecimal (pos_avg p)" "pos_avg p"
      "PyDecimal (pos_qty p)" "pos_qty p" n]
  have v: "\<bar>in_dollars sp (pos_avg p) \<bar>pos_avg p * pos_qty p * n\<bar>\<bar> = pos_qty p * n"
    using assms(3-5,9) n by (simp add: in_dollars_def field_simps)
  show "calculate_required_margin (pos_symbol p) (PyDecimal (pos_avg p)) (PyDecimal (pos_qty p)) lev ''USD''
        = Inr (fl (dec_ctx (pos_qty p * n / of_int lev)))"
    using m assms(2,4,6) v lev by (simp add: calculate_required_margin_def Let_def N max_def)
qed

theorem book_margin_not_converted_witness:
  "let p = \<lparr>pos_account = 1, pos_symbol = ''USD/JPY'', pos_side = BUY, pos_qty = 1, pos_avg = 150,
            pos_sl = None, pos_tp = None, pos_opened_at = 0\<rparr>
   in entry_margin demo_account p = 300000
      \<and> calculate_required_margin ''USD/JPY'' (PyDecimal 150) (PyDecimal 1) 50 ''USD'' = Inr 2000"
proof -
  define p where "p = \<lparr>pos_account = 1, pos_symbol = ''USD/JPY'', pos_side = BUY, pos_qty = (1 :: rat), pos_avg = 150,
            pos_sl = None, pos_tp = None, pos_opened_at = 0\<rparr>"
  have sp: "spec_USD_JPY \<in> set registry" by (simp add: registry_def)
  have gs: "get_spec ''USD/JPY'' = Some spec_USD_JPY" using get_spec_registered[OF sp] by (simp add: spec_defs)
  have lev: "position_leverage demo_account ''USD/JPY'' = 50"
    by (simp add: position_leverage_def gs Let_def demo_account_def) (simp add: spec_defs)
  have e: "dec_exact (numeral k)" if "(numeral k :: int) < 10 ^ 28" for k using dec_ctx_int[of "numeral k"] that by simp
  have "entry_margin demo_account p = dec_ctx (pos_avg p * pos_qty p * 100000 / of_int (position_leverage demo_account (pos_symbol p)))
    \<and> calculate_required_margin (pos_symbol p) (PyDecimal (pos_avg p)) (PyDecimal (pos_qty p))
        (position_leverage demo_account (pos_symbol p)) ''USD''
        = Inr (fl (dec_ctx (pos_qty p * 100000 / of_int (position_leverage demo_account (pos_symbol p)))))"
    by (rule book_margin_not_converted[OF sp]) (simp_all add: p_def e, simp_all add: spec_defs)
  then have "entry_margin demo_account p = 300000
    \<and> calculate_required_margin ''USD/JPY'' (PyDecimal 150) (PyDecimal 1) 50 ''USD'' = Inr 2000"
    by (simp add: p_def lev e)
  then show ?thesis by (simp add: p_def)
qed

end
