(* ===== verification/BrokerRisk.thy ===== *)
theory BrokerRisk
  imports BrokerExposure
begin

section \<open>Limits of the broker (\<open>simulator/broker_risk.py\<close>)\<close>

text \<open>
  The gate before a new position: nine limits on the exposure of the whole book, of a symbol and of an
  account, judged in one pass. The limits and the canary of the dealing desk come from the settings.
  Messages and logs are left out.
\<close>

subsection \<open>Settings and results\<close>

datatype limit_rule =
  MAX_SYMBOL_EXPOSURE | MAX_ACCOUNT_EXPOSURE | MAX_TOTAL_BROKER_EXPOSURE | MAX_LONG_EXPOSURE
| MAX_SHORT_EXPOSURE | MAX_GROSS_NOTIONAL | MAX_NET_NOTIONAL | MAX_POSITION_SIZE
| MAX_OPEN_POSITIONS_BROKER_WIDE

record risk_settings =
  MAX_SYMBOL_EXPOSURE_LOTS :: rat
  MAX_ACCOUNT_EXPOSURE_LOTS :: rat
  MAX_TOTAL_BROKER_EXPOSURE_LOTS :: rat
  MAX_LONG_EXPOSURE_LOTS :: rat
  MAX_SHORT_EXPOSURE_LOTS :: rat
  GROSS_NOTIONAL_LIMIT :: rat
  NET_NOTIONAL_LIMIT :: rat
  MAX_POSITION_SIZE_LOTS :: rat
  OPEN_POSITIONS_LIMIT :: nat
  DEALING_DESK_EXPOSURE_ENABLED :: bool
  DEALING_DESK_EXPOSURE_ACCOUNT_IDS :: "pk list"

definition default_risk_settings :: risk_settings where
  "default_risk_settings =
     \<lparr>MAX_SYMBOL_EXPOSURE_LOTS = 100000, MAX_ACCOUNT_EXPOSURE_LOTS = 100000,
      MAX_TOTAL_BROKER_EXPOSURE_LOTS = 1000000, MAX_LONG_EXPOSURE_LOTS = 1000000,
      MAX_SHORT_EXPOSURE_LOTS = 1000000, GROSS_NOTIONAL_LIMIT = 1000000000000,
      NET_NOTIONAL_LIMIT = 1000000000000, MAX_POSITION_SIZE_LOTS = 100000,
      OPEN_POSITIONS_LIMIT = 1000000, DEALING_DESK_EXPOSURE_ENABLED = False,
      DEALING_DESK_EXPOSURE_ACCOUNT_IDS = []\<rparr>"

record limit_check =
  lc_rule :: limit_rule
  lc_fail :: bool
  lc_current :: "rat option"
  lc_requested :: "rat option"
  lc_limit :: rat

datatype limit_reason = RISK_PRICING_INCOMPLETE | RuleFailed limit_rule

record limit_decision =
  ld_allowed :: bool
  ld_reason :: "limit_reason option"
  ld_checks :: "limit_check list"
  ld_blocked :: "limit_rule option"
  ld_current :: "rat option"
  ld_requested :: "rat option"
  ld_limit :: "rat option"
  ld_margin_after :: "rat option"
  ld_exposure_after :: rat

text \<open>What the calls can raise: an unknown scope, or text that is no number.\<close>

datatype limit_error = UnknownScope string | InvalidNumber

subsection \<open>The single validators\<close>

definition limit_check_of :: "limit_rule \<Rightarrow> bool \<Rightarrow> rat option \<Rightarrow> rat option \<Rightarrow> rat \<Rightarrow> limit_check" where
  "limit_check_of rule bad cur req l =
     \<lparr>lc_rule = rule, lc_fail = bad, lc_current = cur, lc_requested = req, lc_limit = l\<rparr>"

definition validate_symbol_limit ::
  "risk_settings \<Rightarrow> market_view \<Rightarrow> string \<Rightarrow> rat \<Rightarrow> string option \<Rightarrow> 'a exposure_db_scheme
    \<Rightarrow> limit_error + limit_check list" where
  "validate_symbol_limit cfg mv sy q scope s =
     (case broker_exposure_for_symbol mv sy scope s of
        Inl e \<Rightarrow> Inl (UnknownScope e)
      | Inr b \<Rightarrow> (let cur = bx_gross_quantity b
          in Inr [limit_check_of MAX_SYMBOL_EXPOSURE (MAX_SYMBOL_EXPOSURE_LOTS cfg < dec_add cur q)
                    (Some cur) (Some q) (MAX_SYMBOL_EXPOSURE_LOTS cfg)]))"

definition validate_account_limit ::
  "risk_settings \<Rightarrow> market_view \<Rightarrow> pk \<Rightarrow> rat \<Rightarrow> string option \<Rightarrow> 'a exposure_db_scheme
    \<Rightarrow> limit_error + limit_check list" where
  "validate_account_limit cfg mv k q scope s =
     (case broker_exposure_for_account mv k scope s of
        Inl e \<Rightarrow> Inl (UnknownScope e)
      | Inr b \<Rightarrow> (let cur = bx_gross_quantity b
          in Inr [limit_check_of MAX_ACCOUNT_EXPOSURE (MAX_ACCOUNT_EXPOSURE_LOTS cfg < dec_add cur q)
                    (Some cur) (Some q) (MAX_ACCOUNT_EXPOSURE_LOTS cfg)]))"

definition pricing_incomplete :: "pynum option \<Rightarrow> pynum option \<Rightarrow> breakdown \<Rightarrow> bool" where
  "pricing_incomplete price cs b \<longleftrightarrow> price = None \<or> cs = None \<or> pricing_coverage_pct b < 100"

definition lot_checks :: "risk_settings \<Rightarrow> string \<Rightarrow> rat \<Rightarrow> breakdown \<Rightarrow> limit_check list" where
  "lot_checks cfg side q b =
     (let buy = (upper side = ''BUY'');
          long = dec_add (bx_long_quantity b) (if buy then q else 0);
          short = dec_add (bx_short_quantity b) (if buy then 0 else q)
      in [limit_check_of MAX_TOTAL_BROKER_EXPOSURE
            (MAX_TOTAL_BROKER_EXPOSURE_LOTS cfg < dec_add (bx_gross_quantity b) q)
            (Some (bx_gross_quantity b)) (Some q) (MAX_TOTAL_BROKER_EXPOSURE_LOTS cfg),
          limit_check_of MAX_LONG_EXPOSURE (MAX_LONG_EXPOSURE_LOTS cfg < long)
            (Some (bx_long_quantity b)) (Some q) (MAX_LONG_EXPOSURE_LOTS cfg),
          limit_check_of MAX_SHORT_EXPOSURE (MAX_SHORT_EXPOSURE_LOTS cfg < short)
            (Some (bx_short_quantity b)) (Some q) (MAX_SHORT_EXPOSURE_LOTS cfg)])"

definition notional_checks :: "risk_settings \<Rightarrow> string \<Rightarrow> rat \<Rightarrow> breakdown \<Rightarrow> limit_check list" where
  "notional_checks cfg side n b =
     (let signed = (if upper side = ''BUY'' then n else - n)
      in [limit_check_of MAX_GROSS_NOTIONAL (GROSS_NOTIONAL_LIMIT cfg < dec_add (bx_gross_notional b) n)
            (Some (bx_gross_notional b)) (Some n) (GROSS_NOTIONAL_LIMIT cfg),
          limit_check_of MAX_NET_NOTIONAL
            (NET_NOTIONAL_LIMIT cfg < dec_ctx \<bar>dec_add (bx_net_notional b) signed\<bar>)
            (Some (bx_net_notional b)) (Some signed) (NET_NOTIONAL_LIMIT cfg)])"

definition unverified_notional :: "risk_settings \<Rightarrow> breakdown \<Rightarrow> limit_check list" where
  "unverified_notional cfg b =
     [limit_check_of MAX_GROSS_NOTIONAL True (Some (bx_gross_notional b)) None (GROSS_NOTIONAL_LIMIT cfg),
      limit_check_of MAX_NET_NOTIONAL True (Some (bx_net_notional b)) None (NET_NOTIONAL_LIMIT cfg)]"

definition validate_total_limit ::
  "risk_settings \<Rightarrow> string \<Rightarrow> rat \<Rightarrow> breakdown \<Rightarrow> pynum option \<Rightarrow> pynum option \<Rightarrow> limit_error + limit_check list" where
  "validate_total_limit cfg side q b price cs =
     (if pricing_incomplete price cs b then Inr (lot_checks cfg side q b @ unverified_notional cfg b)
      else case (to_decimal (the price), to_decimal (the cs)) of
             (Some p, Some c) \<Rightarrow> Inr (lot_checks cfg side q b @ notional_checks cfg side (dec_mult (dec_mult q p) c) b)
           | _ \<Rightarrow> Inl InvalidNumber)"

definition validate_position_limit :: "risk_settings \<Rightarrow> rat \<Rightarrow> breakdown \<Rightarrow> limit_check list" where
  "validate_position_limit cfg q b =
     [limit_check_of MAX_POSITION_SIZE (MAX_POSITION_SIZE_LOTS cfg < q) None (Some q) (MAX_POSITION_SIZE_LOTS cfg),
      limit_check_of MAX_OPEN_POSITIONS_BROKER_WIDE (OPEN_POSITIONS_LIMIT cfg < open_position_count b + 1)
        (Some (of_nat (open_position_count b))) (Some 1) (of_nat (OPEN_POSITIONS_LIMIT cfg))]"

subsection \<open>The book an order is judged against\<close>

text \<open>
  For an account of the canary the simulated hedges of the canary's accounts are taken out of the
  book. Counting what was taken out, for the log, is left out. An exception falls back to the official
  book; the only one here, the unknown scope, would be raised again.
\<close>

definition should_use_dealing_desk_adjusted_exposure :: "risk_settings \<Rightarrow> pk \<Rightarrow> bool" where
  "should_use_dealing_desk_adjusted_exposure cfg k \<longleftrightarrow>
     DEALING_DESK_EXPOSURE_ENABLED cfg \<and> k \<in> set (DEALING_DESK_EXPOSURE_ACCOUNT_IDS cfg)"

definition hedged_ids :: "risk_settings \<Rightarrow> 'a exposure_db_scheme \<Rightarrow> pk list" where
  "hedged_ids cfg s =
     List.map_filter dk_position
       (filter (\<lambda>d. dk_hedge d \<and>
          (case dk_routing d of None \<Rightarrow> False | Some r \<Rightarrow>
             (case routing_rows s r of None \<Rightarrow> False | Some row \<Rightarrow>
                (case rr_account row of None \<Rightarrow> False
                 | Some k \<Rightarrow> k \<in> set (DEALING_DESK_EXPOSURE_ACCOUNT_IDS cfg))))) (desk_rows s))"

definition resolve_broker_exposure_for_validation ::
  "risk_settings \<Rightarrow> market_view \<Rightarrow> pk \<Rightarrow> string option \<Rightarrow> 'a exposure_db_scheme \<Rightarrow> string + breakdown" where
  "resolve_broker_exposure_for_validation cfg mv k scope s =
     (if should_use_dealing_desk_adjusted_exposure cfg k
      then calculate_broker_exposure mv ((no_filter scope)\<lparr>sel_excluded := hedged_ids cfg s\<rparr>) s
      else broker_exposure_snapshot mv scope s)"

definition risk_scope_for_account_type :: "account_type option \<Rightarrow> string option" where
  "risk_scope_for_account_type t =
     (case t of None \<Rightarrow> None
      | Some x \<Rightarrow> if x \<in> set REAL_MONEY_ACCOUNT_TYPES then Some RISK_SCOPE_REAL else None)"

subsection \<open>The decision\<close>

definition projected_margin ::
  "market_view \<Rightarrow> pk \<Rightarrow> string \<Rightarrow> rat \<Rightarrow> pynum option \<Rightarrow> pynum option \<Rightarrow> string option
    \<Rightarrow> 'a exposure_db_scheme \<Rightarrow> limit_error + rat option" where
  "projected_margin mv k sy q price cs scope s =
     (case (price, cs) of
        (Some pv, Some cv) \<Rightarrow>
          (case broker_exposure_for_account mv k scope s of
             Inl e \<Rightarrow> Inl (UnknownScope e)
           | Inr b \<Rightarrow>
              (case (to_decimal pv, to_decimal cv) of
                 (Some p, Some c) \<Rightarrow>
                   Inr (case (accounts s k, get_spec sy) of
                          (Some a, Some sp) \<Rightarrow>
                            (let lev = max 1 (min (or_num (Some (int (leverage a))) 50) (sp_max_leverage sp));
                                 m = dec_ctx (\<bar>dec_mult (dec_mult p q) c\<bar> / of_int lev)
                             in Some (dec_add (bx_margin b) m))
                        | _ \<Rightarrow> None)
               | _ \<Rightarrow> Inl InvalidNumber))
      | _ \<Rightarrow> Inr None)"

definition decide_limits ::
  "bool \<Rightarrow> limit_check list \<Rightarrow> rat option \<Rightarrow> limit_decision" where
  "decide_limits incomplete checks margin =
     (let tc = find (\<lambda>c. lc_rule c = MAX_TOTAL_BROKER_EXPOSURE) checks;
          after = (case tc of None \<Rightarrow> 0
                   | Some c \<Rightarrow> dec_add (or_num (lc_current c) 0) (or_num (lc_requested c) 0));
          failures = filter lc_fail checks;
          pricing = find (\<lambda>c. incomplete \<and> lc_rule c \<in> {MAX_GROSS_NOTIONAL, MAX_NET_NOTIONAL}) failures
      in case failures of
           [] \<Rightarrow> \<lparr>ld_allowed = True, ld_reason = None, ld_checks = checks, ld_blocked = None, ld_current = None,
                  ld_requested = None, ld_limit = None, ld_margin_after = margin, ld_exposure_after = after\<rparr>
         | c1 # _ \<Rightarrow>
             (let c = (case pricing of Some c \<Rightarrow> c | None \<Rightarrow> c1)
              in \<lparr>ld_allowed = False,
                  ld_reason = Some (case pricing of Some _ \<Rightarrow> RISK_PRICING_INCOMPLETE | None \<Rightarrow> RuleFailed (lc_rule c)),
                  ld_checks = checks, ld_blocked = Some (lc_rule c), ld_current = lc_current c,
                  ld_requested = lc_requested c, ld_limit = Some (lc_limit c),
                  ld_margin_after = margin, ld_exposure_after = after\<rparr>))"

definition validate_new_order ::
  "risk_settings \<Rightarrow> market_view \<Rightarrow> pk \<Rightarrow> string \<Rightarrow> string \<Rightarrow> pynum \<Rightarrow> pynum option \<Rightarrow> pynum option
    \<Rightarrow> account_type option \<Rightarrow> 'a exposure_db_scheme \<Rightarrow> limit_error + limit_decision" where
  "validate_new_order cfg mv k sy side qty price cs atype s =
     (case to_decimal qty of None \<Rightarrow> Inl InvalidNumber
      | Some q \<Rightarrow>
         (let scope = risk_scope_for_account_type atype
          in case resolve_broker_exposure_for_validation cfg mv k scope s of
               Inl e \<Rightarrow> Inl (UnknownScope e)
             | Inr b \<Rightarrow>
          (case validate_symbol_limit cfg mv sy q scope s of Inl e \<Rightarrow> Inl e | Inr c1 \<Rightarrow>
          (case validate_account_limit cfg mv k q scope s of Inl e \<Rightarrow> Inl e | Inr c2 \<Rightarrow>
          (case validate_total_limit cfg side q b price cs of Inl e \<Rightarrow> Inl e | Inr c3 \<Rightarrow>
          (case projected_margin mv k sy q price cs scope s of Inl e \<Rightarrow> Inl e | Inr m \<Rightarrow>
             Inr (decide_limits (pricing_incomplete price cs b)
                    (c1 @ c2 @ c3 @ validate_position_limit cfg q b) m)))))))"

subsection \<open>The decision lists every rule\<close>

lemma scope_of_type: "risk_scope_for_account_type t = None \<or> risk_scope_for_account_type t = Some RISK_SCOPE_REAL"
  by (simp add: risk_scope_for_account_type_def split: option.splits)

lemma validate_new_order_Inr:
  assumes "validate_new_order cfg mv k sy side qty price cs atype s = Inr d"
    and "resolve_broker_exposure_for_validation cfg mv k (risk_scope_for_account_type atype) s = Inr b"
  obtains q bs ba c3 m where
    "to_decimal qty = Some q"
    "broker_exposure_for_symbol mv sy (risk_scope_for_account_type atype) s = Inr bs"
    "broker_exposure_for_account mv k (risk_scope_for_account_type atype) s = Inr ba"
    "validate_total_limit cfg side q b price cs = Inr c3"
    "d = decide_limits (pricing_incomplete price cs b)
       (limit_check_of MAX_SYMBOL_EXPOSURE (MAX_SYMBOL_EXPOSURE_LOTS cfg < dec_add (bx_gross_quantity bs) q)
          (Some (bx_gross_quantity bs)) (Some q) (MAX_SYMBOL_EXPOSURE_LOTS cfg)
        # limit_check_of MAX_ACCOUNT_EXPOSURE (MAX_ACCOUNT_EXPOSURE_LOTS cfg < dec_add (bx_gross_quantity ba) q)
          (Some (bx_gross_quantity ba)) (Some q) (MAX_ACCOUNT_EXPOSURE_LOTS cfg)
        # c3 @ validate_position_limit cfg q b) m"
  using assms unfolding validate_new_order_def validate_symbol_limit_def validate_account_limit_def Let_def
  by (auto split: option.splits sum.splits)

lemma total_checks:
  assumes "validate_total_limit cfg side q b price cs = Inr c3"
  obtains g h where
    "c3 = lot_checks cfg side q b @ [g, h]" "lc_rule g = MAX_GROSS_NOTIONAL" "lc_rule h = MAX_NET_NOTIONAL"
    "pricing_incomplete price cs b \<Longrightarrow> lc_fail g \<and> lc_fail h"
  using assms unfolding validate_total_limit_def
  by (auto simp: unverified_notional_def notional_checks_def limit_check_of_def Let_def
      split: if_splits option.splits)

definition all_rules :: "limit_rule list" where
  "all_rules = [MAX_SYMBOL_EXPOSURE, MAX_ACCOUNT_EXPOSURE, MAX_TOTAL_BROKER_EXPOSURE, MAX_LONG_EXPOSURE,
     MAX_SHORT_EXPOSURE, MAX_GROSS_NOTIONAL, MAX_NET_NOTIONAL, MAX_POSITION_SIZE, MAX_OPEN_POSITIONS_BROKER_WIDE]"

lemma decide_limits_allowed: "ld_allowed (decide_limits i cs m) \<longleftrightarrow> (\<forall>c \<in> set cs. \<not> lc_fail c)"
proof -
  have "filter lc_fail cs = [] \<longleftrightarrow> (\<forall>c \<in> set cs. \<not> lc_fail c)" by (simp add: filter_empty_conv)
  then show ?thesis by (cases "filter lc_fail cs") (simp_all add: decide_limits_def Let_def)
qed

lemma decide_limits_checks: "ld_checks (decide_limits i cs m) = cs"
  by (simp add: decide_limits_def Let_def split: list.split)

lemma decide_limits_blocked:
  assumes "\<not> ld_allowed (decide_limits i cs m)"
  shows "\<exists>c \<in> set cs. lc_fail c \<and> ld_blocked (decide_limits i cs m) = Some (lc_rule c)
    \<and> ld_limit (decide_limits i cs m) = Some (lc_limit c)"
proof -
  obtain c1 rest where f: "filter lc_fail cs = c1 # rest"
    using assms by (cases "filter lc_fail cs") (auto simp: decide_limits_allowed filter_empty_conv)
  let ?R = "\<lambda>c. i \<and> lc_rule c \<in> {MAX_GROSS_NOTIONAL, MAX_NET_NOTIONAL}"
  define c where "c = (case find ?R (filter lc_fail cs) of Some c \<Rightarrow> c | None \<Rightarrow> c1)"
  have "c \<in> set (filter lc_fail cs)"
  proof (cases "find ?R (filter lc_fail cs)")
    case None
    then show ?thesis using f by (simp add: c_def)
  next
    case (Some x)
    then have "x \<in> set (filter lc_fail cs)" by (metis find_Some_iff nth_mem)
    then show ?thesis unfolding c_def Some by simp
  qed
  moreover have "ld_blocked (decide_limits i cs m) = Some (lc_rule c)" "ld_limit (decide_limits i cs m) = Some (lc_limit c)"
    by (simp_all add: decide_limits_def Let_def f c_def)
  ultimately show ?thesis by auto
qed

lemma decide_limits_reason:
  "ld_reason (decide_limits i cs m) = Some RISK_PRICING_INCOMPLETE
     \<longleftrightarrow> i \<and> (\<exists>c \<in> set cs. lc_fail c \<and> lc_rule c \<in> {MAX_GROSS_NOTIONAL, MAX_NET_NOTIONAL})"
proof -
  define R where "R = (\<lambda>c :: limit_check. i \<and> lc_rule c \<in> {MAX_GROSS_NOTIONAL, MAX_NET_NOTIONAL})"
  have "find R (filter lc_fail cs) \<noteq> None \<longleftrightarrow> (\<exists>c \<in> set (filter lc_fail cs). R c)"
    by (auto simp: find_None_iff R_def)
  then have r: "find R (filter lc_fail cs) \<noteq> None \<longleftrightarrow> i \<and> (\<exists>c \<in> set cs. lc_fail c \<and> lc_rule c \<in> {MAX_GROSS_NOTIONAL, MAX_NET_NOTIONAL})"
    by (auto simp: R_def)
  show ?thesis
  proof (cases "filter lc_fail cs")
    case Nil
    then show ?thesis using r by (simp add: decide_limits_def Let_def)
  next
    case (Cons c1 rest)
    then have "ld_reason (decide_limits i cs m) = Some (case find R (filter lc_fail cs) of
        Some _ \<Rightarrow> RISK_PRICING_INCOMPLETE
      | None \<Rightarrow> RuleFailed (lc_rule (case find R (filter lc_fail cs) of Some c \<Rightarrow> c | None \<Rightarrow> c1)))"
      unfolding decide_limits_def Let_def R_def[symmetric] by simp
    then show ?thesis unfolding r[symmetric] by (simp split: option.split)
  qed
qed

lemma judged_breakdown:
  assumes "resolve_broker_exposure_for_validation cfg mv k scope s = Inr b"
  shows "\<exists>aps prices. b = breakdown_of (length aps) (aggregate_positions prices aps)"
  using assms by (auto simp: resolve_broker_exposure_for_validation_def broker_exposure_snapshot_def calculate_Inr split: if_splits)

lemma coverage_below_100:
  assumes "b = breakdown_of (length aps) (aggregate_positions prices aps)" "length aps \<le> 10 ^ 9"
  shows "pricing_coverage_pct b < 100 \<longleftrightarrow> open_position_count b < 20000 * bx_unpriced b"
proof (cases "aps = []")
  case True
  then show ?thesis using assms(1) aggregate_counts[of prices aps] by (simp add: pricing_coverage_def)
next
  case False
  let ?u = "bx_unpriced b" and ?n = "length aps"
  have u: "?u \<le> ?n" using assms(1) aggregate_counts(2)[of prices aps] by simp
  have "bx_priced b = ?n - ?u"
    using assms(1) aggregate_counts[of prices aps]
      sum_length_filter_compl[of "\<lambda>ap. fst (prices (pos_symbol (snd ap))) = None" aps] by simp
  then show ?thesis using coverage_aux[OF _ u assms(2)] False assms(1) by simp
qed

text \<open>
  C35. A decision of the broker's limits is complete and fails closed. It lists the nine rules in
  order; the order is allowed exactly when no rule fails, otherwise the rule it names is one that
  failed. Its reason is the incomplete pricing exactly when the order came without a price or a
  contract size, or fewer than 20000 positions of the judged book stand against each position
  without a value; from 20000 positions on, one position without a value is rounded away.
\<close>

theorem limit_decision_complete:
  assumes "validate_new_order cfg mv k sy side qty price cs atype s = Inr d"
    and "resolve_broker_exposure_for_validation cfg mv k (risk_scope_for_account_type atype) s = Inr b"
    and "open_position_count b \<le> 10 ^ 9"
  shows "map lc_rule (ld_checks d) = all_rules
    \<and> (ld_allowed d \<longleftrightarrow> (\<forall>c \<in> set (ld_checks d). \<not> lc_fail c))
    \<and> (\<not> ld_allowed d \<longrightarrow> (\<exists>c \<in> set (ld_checks d). lc_fail c \<and> ld_blocked d = Some (lc_rule c) \<and> ld_limit d = Some (lc_limit c)))
    \<and> (ld_reason d = Some RISK_PRICING_INCOMPLETE
        \<longleftrightarrow> price = None \<or> cs = None \<or> open_position_count b < 20000 * bx_unpriced b)
    \<and> (ld_reason d = Some RISK_PRICING_INCOMPLETE \<longrightarrow> \<not> ld_allowed d)"
proof -
  obtain q and bs ba :: breakdown and c3 m where
    c3: "validate_total_limit cfg side q b price cs = Inr c3"
    and d: "d = decide_limits (pricing_incomplete price cs b)
       (limit_check_of MAX_SYMBOL_EXPOSURE (MAX_SYMBOL_EXPOSURE_LOTS cfg < dec_add (bx_gross_quantity bs) q)
          (Some (bx_gross_quantity bs)) (Some q) (MAX_SYMBOL_EXPOSURE_LOTS cfg)
        # limit_check_of MAX_ACCOUNT_EXPOSURE (MAX_ACCOUNT_EXPOSURE_LOTS cfg < dec_add (bx_gross_quantity ba) q)
          (Some (bx_gross_quantity ba)) (Some q) (MAX_ACCOUNT_EXPOSURE_LOTS cfg)
        # c3 @ validate_position_limit cfg q b) m" (is "_ = decide_limits ?i ?cs m")
    by (rule validate_new_order_Inr[OF assms(1,2)]) (rule that; assumption)
  obtain g h where gh: "c3 = lot_checks cfg side q b @ [g, h]" "lc_rule g = MAX_GROSS_NOTIONAL"
    "lc_rule h = MAX_NET_NOTIONAL" "?i \<Longrightarrow> lc_fail g \<and> lc_fail h" using total_checks[OF c3] by blast
  obtain aps prices where b: "b = breakdown_of (length aps) (aggregate_positions prices aps)"
    using judged_breakdown[OF assms(2)] by blast
  have i: "?i \<longleftrightarrow> price = None \<or> cs = None \<or> open_position_count b < 20000 * bx_unpriced b"
    using coverage_below_100[OF b] assms(3) b by (simp add: pricing_incomplete_def)
  have "map lc_rule ?cs = all_rules"
    by (simp add: gh all_rules_def lot_checks_def validate_position_limit_def limit_check_of_def Let_def)
  moreover have r: "ld_reason d = Some RISK_PRICING_INCOMPLETE \<longleftrightarrow> ?i"
    unfolding d decide_limits_reason using gh by auto
  moreover have "?i \<longrightarrow> \<not> ld_allowed d" unfolding d decide_limits_allowed using gh by auto
  ultimately show ?thesis
    using decide_limits_allowed[of ?i ?cs m] decide_limits_blocked[of ?i ?cs m]
    unfolding d decide_limits_checks i by blast
qed

subsection \<open>What an allowed order keeps\<close>

text \<open>A new row of the table at the next key.\<close>

definition open_new :: "position \<Rightarrow> 'a db_scheme \<Rightarrow> 'a db_scheme" where
  "open_new p s = s\<lparr>positions := (positions s)(next_position s \<mapsto> p), next_position := next_position s + 1\<rparr>"

lemma open_new_simps [simp]:
  "accounts (open_new p s) = accounts s" "next_position (open_new p s) = next_position s + 1"
  "positions (open_new p s) = (positions s)(next_position s \<mapsto> p)"
  "scores (open_new p r) = scores r" "last_prices (open_new p x) = last_prices x"
  "routing_rows (open_new p x) = routing_rows x" "desk_rows (open_new p x) = desk_rows x"
  by (simp_all add: open_new_def)

definition joined :: "'a exposure_db_scheme \<Rightarrow> (pk \<times> trading_account \<times> position) list" where
  "joined s =
     concat (map (\<lambda>i. case positions s i of None \<Rightarrow> []
                      | Some p \<Rightarrow> (case accounts s (pos_account p) of None \<Rightarrow> [] | Some a \<Rightarrow> [(i, a, p)]))
            [0..<next_position s])"

lemma selected_joined:
  "selected_positions x s = map snd (filter (\<lambda>(i, a, p). selects x s i a p) (joined s))"
  unfolding selected_positions_def joined_def filter_concat map_concat map_map
  by (rule arg_cong[where f = concat], rule map_cong) (auto split: option.splits)

lemma sum_map_filter_le:
  "(\<And>t. t \<in> set ts \<Longrightarrow> 0 \<le> f t) \<Longrightarrow> sum_list (map f (filter P ts)) \<le> (sum_list (map f ts) :: rat)"
  using sum_filter_le[of ts f P] by blast

lemma lots_fit_selected:
  assumes "lots_fit (map snd (joined s))"
  shows "lots_fit (selected_positions x s)"
proof -
  let ?q = "\<lambda>t :: pk \<times> trading_account \<times> position. pos_qty (snd (snd t))"
  let ?F = "filter (\<lambda>(i, a, p). selects x s i a p) (joined s)"
  have m: "micro (?q t)" if "t \<in> set (joined s)" for t using assms that by (auto simp: lots_fit_def)
  have "sum_list (map ?q ?F) \<le> sum_list (map ?q (joined s))"
    using m micro_nonneg by (intro sum_map_filter_le) blast
  moreover have "sum_list (map ?q (joined s)) < 10 ^ 20" using assms by (simp add: lots_fit_def o_def)
  ultimately show ?thesis using m unfolding lots_fit_def selected_joined by (auto simp: o_def)
qed

lemma joined_open_new:
  "accounts s (pos_account p) = Some a \<Longrightarrow> joined (open_new p s) = joined s @ [(next_position s, a, p)]"
  unfolding joined_def open_new_simps by (auto intro!: arg_cong[where f = concat] split: option.splits)

lemma selects_open_new [simp]: "selects x (open_new p s) = selects x s"
  unfolding fun_eq_iff selects_def open_new_simps by simp

lemma selected_open_new:
  assumes "accounts s (pos_account p) = Some a"
  shows "selected_positions x (open_new p s)
    = selected_positions x s @ (if selects x s (next_position s) a p then [(a, p)] else [])"
  by (simp add: selected_joined joined_open_new[OF assms])

text \<open>The book after the opening is the book before with the order added, as the checks project it.\<close>

lemma judged_after_open:
  assumes a: "accounts s (pos_account p) = Some a" and sel: "selects x s (next_position s) a p"
    and scope: "sel_scope x = None \<or> sel_scope x = Some RISK_SCOPE_REAL"
    and fit: "lots_fit (map snd (joined (open_new p s)))"
    and b: "calculate_broker_exposure mv x s = Inr b"
  shows "\<exists>b'. calculate_broker_exposure mv x (open_new p s) = Inr b'
    \<and> bx_gross_quantity b' = dec_add (bx_gross_quantity b) (pos_qty p)
    \<and> bx_long_quantity b' = dec_add (bx_long_quantity b) (if pos_side p = BUY then pos_qty p else 0)
    \<and> bx_short_quantity b' = dec_add (bx_short_quantity b) (if pos_side p = BUY then 0 else pos_qty p)
    \<and> open_position_count b' = open_position_count b + 1"
proof -
  let ?aps = "selected_positions x s" and ?P = "resolve_symbol_price mv (last_prices s)"
  let ?r = "?aps @ [(a, p)]"
  have r: "selected_positions x (open_new p s) = ?r" using selected_open_new[OF a, of x] sel by simp
  have fr: "lots_fit ?r" using lots_fit_selected[OF fit, of x] unfolding r .
  note fa = lots_fit_snoc(1)[OF fr]
  have lp: "last_prices (open_new p s) = last_prices s" by (simp add: open_new_def)
  define b' where "b' = breakdown_of (length ?r) (aggregate_positions ?P ?r)"
  have calc: "calculate_broker_exposure mv x (open_new p s) = Inr b'"
    using scope by (simp add: calculate_Inr r lp b'_def)
  have b: "b = breakdown_of (length ?aps) (aggregate_positions ?P ?aps)" using b by (simp add: calculate_Inr)
  note x1 = aggregate_quantities[OF fa, of ?P] and x2 = aggregate_quantities[OF fr, of ?P]
  note m = qty_on_micro[OF fr] and l = qty_on_small[OF fr]
  have e: "dec_ctx (qty_on sd ?r) = qty_on sd ?r" for sd using micro_exact[OF m l(2)] .
  have g: "dec_ctx (qty_on BUY ?r + qty_on SELL ?r) = qty_on BUY ?r + qty_on SELL ?r"
    using micro_exact[OF micro_add[OF m m] l(1)] .
  have sg: "qty_on BUY ?r + qty_on SELL ?r = qty_on BUY ?aps + qty_on SELL ?aps + pos_qty p"
    by (cases "pos_side p") (simp_all add: qty_on_snoc)
  have lo: "qty_on BUY ?r = qty_on BUY ?aps + (if pos_side p = BUY then pos_qty p else 0)"
    and sh: "qty_on SELL ?r = qty_on SELL ?aps + (if pos_side p = BUY then 0 else pos_qty p)"
    by (cases "pos_side p"; simp add: qty_on_snoc)+
  have "bx_gross_quantity b' = dec_add (bx_gross_quantity b) (pos_qty p)"
    unfolding b'_def b breakdown_simps x1(3) x2(3) unfolding dec_add_def using g sg by simp
  moreover have "bx_long_quantity b' = dec_add (bx_long_quantity b) (if pos_side p = BUY then pos_qty p else 0)"
    unfolding b'_def b breakdown_simps x1(1) x2(1) unfolding dec_add_def using e[of BUY] lo by simp
  moreover have "bx_short_quantity b' = dec_add (bx_short_quantity b) (if pos_side p = BUY then 0 else pos_qty p)"
    unfolding b'_def b breakdown_simps x1(2) x2(2) unfolding dec_add_def using e[of SELL] sh by simp
  moreover have "open_position_count b' = open_position_count b + 1" unfolding b'_def b by simp
  ultimately show ?thesis using calc by blast
qed

definition judged_selection :: "risk_settings \<Rightarrow> pk \<Rightarrow> string option \<Rightarrow> 'a exposure_db_scheme \<Rightarrow> selection" where
  "judged_selection cfg k scope s =
     (if should_use_dealing_desk_adjusted_exposure cfg k
      then (no_filter scope)\<lparr>sel_excluded := hedged_ids cfg s\<rparr> else no_filter scope)"

lemma judged_calculate:
  "resolve_broker_exposure_for_validation cfg mv k scope s
     = calculate_broker_exposure mv (judged_selection cfg k scope s) s"
  by (simp add: resolve_broker_exposure_for_validation_def judged_selection_def broker_exposure_snapshot_def)

lemma hedged_open_new [simp]: "hedged_ids cfg (open_new p s) = hedged_ids cfg s"
  unfolding hedged_ids_def open_new_simps ..

text \<open>
  C10. An allowed order keeps the limits. When a position of the order's symbol, side and size is
  opened in the account right after the decision, the book the order was judged against, taken
  again, is within the limits of total, long and short lots and of the number of positions, the symbol
  and the account are within theirs, and the order itself within the largest size. Quantities have six
  decimals and the book fits in 28 digits; the new row is not listed as a simulated hedge.
\<close>

theorem allowed_order_keeps_limits:
  assumes d: "validate_new_order cfg mv k sy side qty price cs (Some (acc_type a)) s = Inr d" "ld_allowed d"
    and p: "accounts s k = Some a" "pos_account p = k" "pos_symbol p = sy" "to_decimal qty = Some (pos_qty p)"
      "pos_side p = BUY \<longleftrightarrow> upper side = ''BUY''"
    and fit: "lots_fit (map snd (joined (open_new p s)))"
    and new: "next_position s \<notin> set (hedged_ids cfg s)"
  defines "scope \<equiv> risk_scope_for_account_type (Some (acc_type a))" and "s' \<equiv> open_new p s"
  shows "pos_qty p \<le> MAX_POSITION_SIZE_LOTS cfg
    \<and> (\<exists>b. resolve_broker_exposure_for_validation cfg mv k scope s' = Inr b
        \<and> bx_gross_quantity b \<le> MAX_TOTAL_BROKER_EXPOSURE_LOTS cfg
        \<and> bx_long_quantity b \<le> MAX_LONG_EXPOSURE_LOTS cfg
        \<and> bx_short_quantity b \<le> MAX_SHORT_EXPOSURE_LOTS cfg
        \<and> open_position_count b \<le> OPEN_POSITIONS_LIMIT cfg)
    \<and> (\<exists>b. broker_exposure_for_symbol mv sy scope s' = Inr b \<and> bx_gross_quantity b \<le> MAX_SYMBOL_EXPOSURE_LOTS cfg)
    \<and> (\<exists>b. broker_exposure_for_account mv k scope s' = Inr b \<and> bx_gross_quantity b \<le> MAX_ACCOUNT_EXPOSURE_LOTS cfg)"
proof -
  have sc: "scope = None \<or> scope = Some RISK_SCOPE_REAL" unfolding scope_def by (rule scope_of_type)
  have real: "scope = Some RISK_SCOPE_REAL \<Longrightarrow> acc_type a \<in> set REAL_MONEY_ACCOUNT_TYPES"
    by (simp add: scope_def risk_scope_for_account_type_def split: if_splits)
  let ?x = "judged_selection cfg k scope s"
  let ?xs = "(no_filter scope)\<lparr>sel_symbol := Some sy\<rparr>" and ?xa = "(no_filter scope)\<lparr>sel_account := Some k\<rparr>"
  obtain b where b: "resolve_broker_exposure_for_validation cfg mv k scope s = Inr b"
    using d(1) unfolding validate_new_order_def Let_def scope_def by (auto split: option.splits sum.splits)
  obtain q bs ba c3 m where q: "to_decimal qty = Some q"
    and bs: "broker_exposure_for_symbol mv sy scope s = Inr bs"
    and ba: "broker_exposure_for_account mv k scope s = Inr ba"
    and c3: "validate_total_limit cfg side q b price cs = Inr c3"
    and dd: "d = decide_limits (pricing_incomplete price cs b)
       (limit_check_of MAX_SYMBOL_EXPOSURE (MAX_SYMBOL_EXPOSURE_LOTS cfg < dec_add (bx_gross_quantity bs) q)
          (Some (bx_gross_quantity bs)) (Some q) (MAX_SYMBOL_EXPOSURE_LOTS cfg)
        # limit_check_of MAX_ACCOUNT_EXPOSURE (MAX_ACCOUNT_EXPOSURE_LOTS cfg < dec_add (bx_gross_quantity ba) q)
          (Some (bx_gross_quantity ba)) (Some q) (MAX_ACCOUNT_EXPOSURE_LOTS cfg)
        # c3 @ validate_position_limit cfg q b) m"
    using validate_new_order_Inr[OF d(1) b[unfolded scope_def]] unfolding scope_def by blast
  have q: "q = pos_qty p" using q p(4) by simp
  obtain g h where gh: "c3 = lot_checks cfg side q b @ [g, h]" using total_checks[OF c3] by blast
  have ok: "\<not> MAX_SYMBOL_EXPOSURE_LOTS cfg < dec_add (bx_gross_quantity bs) q"
    "\<not> MAX_ACCOUNT_EXPOSURE_LOTS cfg < dec_add (bx_gross_quantity ba) q"
    "\<not> MAX_TOTAL_BROKER_EXPOSURE_LOTS cfg < dec_add (bx_gross_quantity b) q"
    "\<not> MAX_LONG_EXPOSURE_LOTS cfg < dec_add (bx_long_quantity b) (if upper side = ''BUY'' then q else 0)"
    "\<not> MAX_SHORT_EXPOSURE_LOTS cfg < dec_add (bx_short_quantity b) (if upper side = ''BUY'' then 0 else q)"
    "\<not> MAX_POSITION_SIZE_LOTS cfg < q" "\<not> OPEN_POSITIONS_LIMIT cfg < open_position_count b + 1"
    using d(2) unfolding dd decide_limits_allowed gh
    by (simp_all add: lot_checks_def validate_position_limit_def limit_check_of_def Let_def)
  have a: "accounts s (pos_account p) = Some a" using p(1,2) by simp
  have s1: "selects ?x s (next_position s) a p" using real new p(2)
    by (auto simp: judged_selection_def selects_def no_filter_def)
  have s2: "selects ?xs s (next_position s) a p" "selects ?xa s (next_position s) a p"
    using real p(2,3) by (auto simp: selects_def no_filter_def)
  have j: "sel_scope ?x = scope" "sel_scope ?xs = scope" "sel_scope ?xa = scope"
    by (simp_all add: judged_selection_def no_filter_def)
  have same: "judged_selection cfg k scope (open_new p s) = ?x" by (simp add: judged_selection_def)
  note J = judged_after_open[OF a s1 _ fit b[unfolded judged_calculate], unfolded j, OF sc]
  note S = judged_after_open[OF a s2(1) _ fit bs[unfolded broker_exposure_for_symbol_def], unfolded j, OF sc]
  note A = judged_after_open[OF a s2(2) _ fit ba[unfolded broker_exposure_for_account_def], unfolded j, OF sc]
  show ?thesis unfolding s'_def judged_calculate same broker_exposure_for_symbol_def broker_exposure_for_account_def
    using J S A ok p(5) unfolding q by fastforce
qed

subsection \<open>Real money is judged on real money\<close>

text \<open>The position of a key, when its account holds client money.\<close>

definition real_position :: "'a exposure_db_scheme \<Rightarrow> pk \<Rightarrow> (trading_account \<times> position) option" where
  "real_position s i =
     (case positions s i of None \<Rightarrow> None
      | Some p \<Rightarrow> (case accounts s (pos_account p) of None \<Rightarrow> None
          | Some a \<Rightarrow> if acc_type a \<in> set REAL_MONEY_ACCOUNT_TYPES then Some (a, p) else None))"

lemma concat_upt_mono:
  assumes "\<And>i. n \<le> i \<Longrightarrow> f i = []" "n \<le> m"
  shows "concat (map f [0..<m]) = concat (map f [0..<n])"
proof -
  have "[0..<m] = [0..<n] @ [n..<m]" using assms(2) by (metis le_add_diff_inverse upt_add_eq_append zero_le)
  moreover have "concat (map f [n..<m]) = []" using assms(1) by simp
  ultimately show ?thesis by simp
qed

lemma selected_real:
  assumes "sel_scope x = Some RISK_SCOPE_REAL" "sel_class x = None"
  shows "selected_positions x s
    = concat (map (\<lambda>i. case real_position s i of None \<Rightarrow> []
                     | Some (a, p) \<Rightarrow> if selects x s i a p then [(a, p)] else []) [0..<next_position s])"
  unfolding selected_positions_def
  by (rule arg_cong[where f = concat], rule map_cong)
     (use assms in \<open>auto simp: real_position_def selects_def split: option.splits\<close>)

text \<open>
  \<open>same_real_books s t\<close>: the two databases have the same positions in accounts of
  client money, all below both next keys, and agree on the durable prices and the hedges.
\<close>

definition same_real_books :: "'a exposure_db_scheme \<Rightarrow> 'a exposure_db_scheme \<Rightarrow> bool" where
  "same_real_books s t \<longleftrightarrow>
     (\<forall>i. real_position s i = real_position t i) \<and>
     (\<forall>i. real_position s i \<noteq> None \<longrightarrow> i < next_position s \<and> i < next_position t) \<and>
     last_prices s = last_prices t \<and> routing_rows s = routing_rows t \<and> desk_rows s = desk_rows t"

lemma same_real_selection:
  fixes s t :: "'a exposure_db_scheme"
  assumes "same_real_books s t" "sel_scope x = Some RISK_SCOPE_REAL" "sel_class x = None"
  shows "selected_positions x s = selected_positions x t"
proof -
  define f where "f u i = (case real_position u i of None \<Rightarrow> []
      | Some (a, p) \<Rightarrow> if selects x u i a p then [(a, p)] else [])" for u :: "'a exposure_db_scheme" and i
  have r1: "selects x s = selects x t" using assms(3) by (simp add: selects_def fun_eq_iff)
  have r2: "real_position s = real_position t" using assms(1) by (simp add: same_real_books_def fun_eq_iff)
  have f: "f s = f t" unfolding f_def r1 r2 ..
  let ?m = "max (next_position s) (next_position t)"
  have sel: "selected_positions x u = concat (map (f u) [0..<next_position u])" for u :: "'a exposure_db_scheme"
    unfolding selected_real[OF assms(2,3)] f_def ..
  have "f s i = []" if "next_position s \<le> i \<or> next_position t \<le> i" for i
  proof -
    have "real_position s i = None" using assms(1) that unfolding same_real_books_def by (metis not_less)
    then show ?thesis by (simp add: f_def)
  qed
  then have e: "concat (map (f s) [0..<?m]) = concat (map (f s) [0..<next_position s])"
    "concat (map (f s) [0..<?m]) = concat (map (f s) [0..<next_position t])"
    by (intro concat_upt_mono; simp)+
  show ?thesis using e unfolding sel f[symmetric] by simp
qed

lemma same_real_exposure:
  assumes "same_real_books s t" "sel_scope x = Some RISK_SCOPE_REAL" "sel_class x = None"
  shows "calculate_broker_exposure mv x s = calculate_broker_exposure mv x t"
  using same_real_selection[OF assms] assms(1) by (simp add: calculate_broker_exposure_def same_real_books_def assms(2))

text \<open>
  Simulated accounts do not weigh on real money. The decision about an order of an account with
  client money is the same in any two databases that differ only outside the accounts with client
  money: whatever demo, challenge and funded accounts open, close or leave without a price, the
  order is allowed or refused for the same reason with the same figures.
\<close>

theorem real_orders_ignore_simulated:
  assumes "same_real_books s t" "acc_type a \<in> set REAL_MONEY_ACCOUNT_TYPES"
    and "accounts s k = Some a" "accounts t k = Some a"
  shows "validate_new_order cfg mv k sy side qty price cs (Some (acc_type a)) s
       = validate_new_order cfg mv k sy side qty price cs (Some (acc_type a)) t"
proof -
  have scope: "risk_scope_for_account_type (Some (acc_type a)) = Some RISK_SCOPE_REAL"
    using assms(2) by (simp add: risk_scope_for_account_type_def)
  note same = same_real_exposure[OF assms(1)]
  have "hedged_ids cfg s = hedged_ids cfg t" using assms(1) unfolding hedged_ids_def same_real_books_def by metis
  then have e1: "resolve_broker_exposure_for_validation cfg mv k (Some RISK_SCOPE_REAL) s
      = resolve_broker_exposure_for_validation cfg mv k (Some RISK_SCOPE_REAL) t"
    unfolding judged_calculate judged_selection_def by (auto intro!: same simp: no_filter_def)
  have e2: "broker_exposure_for_symbol mv sy (Some RISK_SCOPE_REAL) s = broker_exposure_for_symbol mv sy (Some RISK_SCOPE_REAL) t"
    "broker_exposure_for_account mv k (Some RISK_SCOPE_REAL) s = broker_exposure_for_account mv k (Some RISK_SCOPE_REAL) t"
    unfolding broker_exposure_for_symbol_def broker_exposure_for_account_def by (intro same; simp add: no_filter_def)+
  show ?thesis
    unfolding validate_new_order_def validate_symbol_limit_def validate_account_limit_def projected_margin_def
      scope Let_def assms(3,4) e1 e2 ..
qed

subsection \<open>An order in the example book\<close>

lemma demo_price: "resolve_symbol_price demo_market d ''EUR/USD'' = (Some 1, FRESH)"
  by (simp add: resolve_symbol_price_def demo_market_def)

lemma demo_real_selection:
  "selected_positions (no_filter (Some RISK_SCOPE_REAL)) demo_exposure = [(demo_account, the (positions demo_exposure 0))]"
  "selected_positions ((no_filter (Some RISK_SCOPE_REAL))\<lparr>sel_symbol := Some ''EUR/USD''\<rparr>) demo_exposure
     = [(demo_account, the (positions demo_exposure 0))]"
  "selected_positions ((no_filter (Some RISK_SCOPE_REAL))\<lparr>sel_account := Some 1\<rparr>) demo_exposure
     = [(demo_account, the (positions demo_exposure 0))]"
  by (simp_all add: selected_positions_def demo_exposure_def selects_def no_filter_def upt_rec demo_account_def
      REAL_MONEY_ACCOUNT_TYPES_def)

lemma dec_small: "(numeral k :: int) < 10 ^ 28 \<Longrightarrow> dec_ctx (numeral k) = numeral k"
  using dec_ctx_int[of "numeral k"] by simp

lemma dec_ctx_0 [simp]: "dec_ctx 0 = 0"
  by (rule dctx.zero)

lemma demo_eur_lot: "lot_units ''EUR/USD'' = 100000"
proof -
  have "get_spec (sp_symbol spec_EUR_USD) = Some spec_EUR_USD" by (rule get_spec_registered) (simp add: registry_def)
  then show ?thesis by (simp add: lot_units_def spec_defs)
qed

lemma demo_aggregate:
  "aggregate_positions (resolve_symbol_price demo_market d) [(demo_account, the (positions demo_exposure 0))]
     = add_position (resolve_symbol_price demo_market d) (demo_account, the (positions demo_exposure 0)) empty_aggregate"
  by (simp add: aggregate_positions_def)

definition demo_book :: breakdown where
  "demo_book = breakdown_of 1 (aggregate_positions (resolve_symbol_price demo_market Map.empty)
     [(demo_account, the (positions demo_exposure 0))])"

lemma demo_book_figures:
  "bx_long_quantity demo_book = 2" "bx_short_quantity demo_book = 0" "bx_gross_quantity demo_book = 2"
  "bx_gross_notional demo_book = 200000" "bx_net_notional demo_book = 200000"
  "open_position_count demo_book = 1" "pricing_coverage_pct demo_book = 100"
proof -
  let ?g = "aggregate_positions (resolve_symbol_price demo_market Map.empty)
     [(demo_account, the (positions demo_exposure 0))]"
  have p: "pos_side (the (positions demo_exposure 0)) = BUY" "pos_qty (the (positions demo_exposure 0)) = 2"
    "pos_symbol (the (positions demo_exposure 0)) = ''EUR/USD''" by (simp_all add: demo_exposure_def)
  have g: "ag_long_qty ?g = 2" "ag_short_qty ?g = 0" "ag_long_notional ?g = 200000" "ag_short_notional ?g = 0"
    "ag_priced ?g = 1"
    unfolding demo_aggregate add_position_def Let_def
    by (simp_all add: p demo_price demo_eur_lot dec_mult_def dec_add_def dec_small empty_aggregate_def)
  have "dec_ctx 1 = 1" using dec_ctx_int[of 1] by simp
  then have "pricing_coverage 1 1 = 100"
    by (simp add: pricing_coverage_def dec_mult_def dec_small quantize_he_def)
  then show "bx_long_quantity demo_book = 2" "bx_short_quantity demo_book = 0" "bx_gross_quantity demo_book = 2"
    "bx_gross_notional demo_book = 200000" "bx_net_notional demo_book = 200000"
    "open_position_count demo_book = 1" "pricing_coverage_pct demo_book = 100"
    using g unfolding demo_book_def by (simp_all add: dec_add_def dec_small) (simp_all add: breakdown_of_def Let_def dec_add_def dec_small)
qed

lemma demo_calculate:
  "calculate_broker_exposure demo_market x demo_exposure = Inr demo_book"
  if "selected_positions x demo_exposure = [(demo_account, the (positions demo_exposure 0))]"
    "sel_scope x = Some RISK_SCOPE_REAL"
proof -
  have "last_prices demo_exposure = Map.empty" by (simp add: demo_exposure_def)
  then show ?thesis using that by (simp add: calculate_broker_exposure_def demo_book_def)
qed

lemma demo_scope: "risk_scope_for_account_type (Some (acc_type demo_account)) = Some RISK_SCOPE_REAL"
  by (simp add: risk_scope_for_account_type_def demo_account_def REAL_MONEY_ACCOUNT_TYPES_def)

lemma demo_judged:
  "resolve_broker_exposure_for_validation default_risk_settings demo_market 1 (Some RISK_SCOPE_REAL) demo_exposure = Inr demo_book"
  "broker_exposure_for_symbol demo_market ''EUR/USD'' (Some RISK_SCOPE_REAL) demo_exposure = Inr demo_book"
  "broker_exposure_for_account demo_market 1 (Some RISK_SCOPE_REAL) demo_exposure = Inr demo_book"
proof -
  have sc: "sel_scope (no_filter sc) = sc" for sc by (simp add: no_filter_def)
  show "resolve_broker_exposure_for_validation default_risk_settings demo_market 1 (Some RISK_SCOPE_REAL) demo_exposure = Inr demo_book"
    using demo_calculate[OF demo_real_selection(1) sc]
    by (simp add: resolve_broker_exposure_for_validation_def should_use_dealing_desk_adjusted_exposure_def
        default_risk_settings_def broker_exposure_snapshot_def del: One_nat_def)
  show "broker_exposure_for_symbol demo_market ''EUR/USD'' (Some RISK_SCOPE_REAL) demo_exposure = Inr demo_book"
    using demo_calculate[OF demo_real_selection(2)] sc by (simp add: broker_exposure_for_symbol_def)
  show "broker_exposure_for_account demo_market 1 (Some RISK_SCOPE_REAL) demo_exposure = Inr demo_book"
    using demo_calculate[OF demo_real_selection(3)] sc by (simp add: broker_exposure_for_account_def del: One_nat_def)
qed

text \<open>Buying one lot is allowed; without a price the same order is refused.\<close>

definition demo_checks :: "limit_check list" where
  "demo_checks = [limit_check_of MAX_GROSS_NOTIONAL False (Some 200000) (Some 100000) 1000000000000,
     limit_check_of MAX_NET_NOTIONAL False (Some 200000) (Some 100000) 1000000000000]"

lemma demo_total:
  "validate_total_limit default_risk_settings ''BUY'' 1 demo_book (Some (PyInt 1)) (Some (PyInt 100000))
     = Inr (lot_checks default_risk_settings ''BUY'' 1 demo_book @ demo_checks)"
proof -
  have "upper ''BUY'' = ''BUY''" by code_simp
  moreover have "dec_ctx 1 = 1" using dec_ctx_int[of 1] by simp
  ultimately show ?thesis
    by (simp add: validate_total_limit_def pricing_incomplete_def demo_book_figures notional_checks_def dec_mult_def
        dec_add_def dec_small Let_def demo_checks_def default_risk_settings_def)
qed

lemma demo_allowed:
  "\<exists>d. validate_new_order default_risk_settings demo_market 1 ''EUR/USD'' ''BUY'' (PyInt 1) (Some (PyInt 1))
         (Some (PyInt 100000)) (Some (acc_type demo_account)) demo_exposure = Inr d \<and> ld_allowed d"
proof -
  have u: "upper ''BUY'' = ''BUY''" by code_simp
  obtain m where m: "projected_margin demo_market 1 ''EUR/USD'' 1 (Some (PyInt 1)) (Some (PyInt 100000))
      (Some RISK_SCOPE_REAL) demo_exposure = Inr m"
    by (simp add: projected_margin_def demo_judged del: One_nat_def split: option.splits)
  show ?thesis
    unfolding validate_new_order_def validate_symbol_limit_def validate_account_limit_def demo_scope Let_def
    by (simp add: demo_judged demo_total m decide_limits_allowed del: One_nat_def)
       (simp add: limit_check_of_def demo_book_figures lot_checks_def validate_position_limit_def demo_checks_def
          default_risk_settings_def Let_def u dec_add_def dec_small)
qed

lemma demo_refused:
  "\<exists>d. validate_new_order default_risk_settings demo_market 1 ''EUR/USD'' ''BUY'' (PyInt 1) None
         (Some (PyInt 100000)) (Some (acc_type demo_account)) demo_exposure = Inr d"
  unfolding validate_new_order_def validate_symbol_limit_def validate_account_limit_def demo_scope Let_def
  by (simp add: demo_judged validate_total_limit_def pricing_incomplete_def projected_margin_def del: One_nat_def)

theorem limit_decision_complete_witness:
  "\<exists>d. validate_new_order default_risk_settings demo_market 1 ''EUR/USD'' ''BUY'' (PyInt 1) None
         (Some (PyInt 100000)) (Some (acc_type demo_account)) demo_exposure = Inr d
       \<and> \<not> ld_allowed d \<and> ld_reason d = Some RISK_PRICING_INCOMPLETE \<and> map lc_rule (ld_checks d) = all_rules"
proof -
  obtain d where d: "validate_new_order default_risk_settings demo_market 1 ''EUR/USD'' ''BUY'' (PyInt 1) None
         (Some (PyInt 100000)) (Some (acc_type demo_account)) demo_exposure = Inr d" using demo_refused by blast
  have "open_position_count demo_book \<le> 10 ^ 9" by (simp add: demo_book_figures)
  from limit_decision_complete[OF d demo_judged(1)[folded demo_scope] this] d show ?thesis by blast
qed

theorem allowed_order_keeps_limits_witness:
  "\<exists>b. resolve_broker_exposure_for_validation default_risk_settings demo_market 1 (Some RISK_SCOPE_REAL)
         (open_new \<lparr>pos_account = 1, pos_symbol = ''EUR/USD'', pos_side = BUY, pos_qty = 1, pos_avg = 1,
            pos_sl = None, pos_tp = None, pos_opened_at = 0\<rparr> demo_exposure) = Inr b
       \<and> bx_gross_quantity b \<le> 1000000"
proof -
  let ?p = "\<lparr>pos_account = 1, pos_symbol = ''EUR/USD'', pos_side = BUY, pos_qty = 1, pos_avg = 1,
            pos_sl = None, pos_tp = None, pos_opened_at = 0\<rparr>"
  have u: "upper ''BUY'' = ''BUY''" by code_simp
  obtain d where d: "validate_new_order default_risk_settings demo_market 1 ''EUR/USD'' ''BUY'' (PyInt 1) (Some (PyInt 1))
         (Some (PyInt 100000)) (Some (acc_type demo_account)) demo_exposure = Inr d" "ld_allowed d"
    using demo_allowed by blast
  have a: "accounts demo_exposure 1 = Some demo_account" by (simp add: demo_exposure_def)
  have m: "micro 1" "micro 2" unfolding micro_def
    by (rule exI[of _ "10 ^ 6"], simp, rule exI[of _ "2 * 10 ^ 6"], simp)
  have j: "joined (open_new ?p demo_exposure) = joined demo_exposure @ [(2, demo_account, ?p)]"
    using joined_open_new[of demo_exposure ?p demo_account] a by (simp add: demo_exposure_def)
  have "map (\<lambda>t. pos_qty (snd (snd t))) (joined demo_exposure) = [2, 1]"
    by (simp add: joined_def demo_exposure_def upt_rec)
  then have qs: "map (\<lambda>ap. pos_qty (snd ap)) (map snd (joined (open_new ?p demo_exposure))) = [2, 1, 1]"
    unfolding j by (simp add: o_def)
  then have "micro (pos_qty (snd ap))" if "ap \<in> set (map snd (joined (open_new ?p demo_exposure)))" for ap
    using m imageI[OF that, of "\<lambda>ap. pos_qty (snd ap)"] unfolding set_map[symmetric] qs by auto
  then have "lots_fit (map snd (joined (open_new ?p demo_exposure)))"
    unfolding lots_fit_def qs by auto
  moreover have "next_position demo_exposure \<notin> set (hedged_ids default_risk_settings demo_exposure)"
    by (simp add: hedged_ids_def demo_exposure_def map_filter_simps)
  ultimately show ?thesis
    using allowed_order_keeps_limits[OF d a, of ?p] u unfolding demo_scope by (auto simp: default_risk_settings_def)
qed

theorem real_orders_ignore_simulated_witness:
  "validate_new_order default_risk_settings demo_market 1 ''EUR/USD'' ''BUY'' (PyInt 1) None None
     (Some RETAIL) demo_exposure
   = validate_new_order default_risk_settings demo_market 1 ''EUR/USD'' ''BUY'' (PyInt 1) None None
     (Some RETAIL) (demo_exposure\<lparr>positions := (positions demo_exposure)(1 := None)\<rparr>)"
proof -
  have "same_real_books demo_exposure (demo_exposure\<lparr>positions := (positions demo_exposure)(1 := None)\<rparr>)"
    by (auto simp: same_real_books_def real_position_def demo_exposure_def demo_account_def REAL_MONEY_ACCOUNT_TYPES_def
        split: if_splits)
  from real_orders_ignore_simulated[OF this, of demo_account 1 default_risk_settings demo_market "''EUR/USD''" "''BUY''" "PyInt 1" None None]
  show ?thesis by (simp add: demo_exposure_def demo_account_def REAL_MONEY_ACCOUNT_TYPES_def)
qed

end
