(* ===== verification/Intelligence.thy ===== *)
theory Intelligence
  imports BrokerRisk
begin

section \<open>Behaviour of a trader (\<open>simulator/intelligence_engine.py\<close>)\<close>

text \<open>
  The metrics of the last hundred closed trades, the class of the trader and the row that is
  written after every close. Figures are floats; \<open>pow\<close> is the C library's power function. A
  numeric column refuses a value with too many digits, which raises inside the caller's transaction.
\<close>

subsection \<open>Metrics\<close>

datatype routing_profile = ROUTE_INTERNAL | ROUTE_REVIEW | ROUTE_HEDGE_CANDIDATE | ROUTE_ELITE

definition ROUTING_MAP :: "trader_class \<Rightarrow> routing_profile" where
  "ROUTING_MAP c =
     (case c of ELITE \<Rightarrow> ROUTE_ELITE | MARTINGALE \<Rightarrow> ROUTE_REVIEW | SCALPER \<Rightarrow> ROUTE_REVIEW
      | RISKY \<Rightarrow> ROUTE_HEDGE_CANDIDATE | TOXIC \<Rightarrow> ROUTE_HEDGE_CANDIDATE | _ \<Rightarrow> ROUTE_INTERNAL)"

record behaviour =
  bm_n :: nat
  bm_win_rate :: rat
  bm_profit_factor :: rat
  bm_avg_lot :: rat
  bm_consistency :: rat
  bm_avg_rr :: rat
  bm_volatility :: rat
  bm_martingale :: rat
  bm_lot_growth :: rat
  bm_scalping :: rat
  bm_avg_hold :: rat
  bm_toxicity :: rat
  bm_gambler :: rat
  bm_frequency :: rat
  bm_max_wins :: nat
  bm_max_losses :: nat
  bm_win_rate_short :: rat

definition empty_metrics :: behaviour where
  "empty_metrics =
     \<lparr>bm_n = 0, bm_win_rate = 0, bm_profit_factor = 0, bm_avg_lot = 0, bm_consistency = 0, bm_avg_rr = 0,
      bm_volatility = 0, bm_martingale = 0, bm_lot_growth = 0, bm_scalping = 0, bm_avg_hold = 0,
      bm_toxicity = 0, bm_gambler = 0, bm_frequency = 0, bm_max_wins = 0, bm_max_losses = 0,
      bm_win_rate_short = 0\<rparr>"

definition calc_toxicity :: "rat \<Rightarrow> rat \<Rightarrow> nat \<Rightarrow> rat" where
  "calc_toxicity win_rate_short avg_hold n =
     (if n < 10 \<or> win_rate_short = 0 then 0
      else let base = fl (max 0 (fl (win_rate_short - 50)) * 2);
               hold_factor = max 0 (fl (1 - fl (avg_hold / 300)))
           in min 100 (fl (base * fl (fl (3 / 5) + fl (fl (2 / 5) * hold_factor)))))"

definition calc_gambler :: "rat \<Rightarrow> rat \<Rightarrow> rat \<Rightarrow> rat" where
  "calc_gambler no_sl_ratio freq vol =
     (let sl = fl (no_sl_ratio * 40); fr = fl (min (fl (freq / 10)) 1 * 30); vo = fl (min (fl (vol / 5)) 1 * 30)
      in min 100 (fl (fl (sl + fr) + vo)))"

text \<open>\<open>_consecutive_streaks\<close>: the longest and the running streaks of wins and of losses.\<close>

fun streaks :: "nat \<times> nat \<Rightarrow> nat \<times> nat \<Rightarrow> rat list \<Rightarrow> nat \<times> nat" where
  "streaks best cur [] = best"
| "streaks (mw, ml) (cw, cl) (p # ps) =
     (let (w, l) = (if 0 < p then (cw + 1, 0) else if p < 0 then (0, cl + 1) else (0, 0))
      in streaks (max mw w, max ml l) (w, l) ps)"

definition consecutive_streaks :: "rat list \<Rightarrow> nat \<times> nat" where
  "consecutive_streaks ps = streaks (0, 0) (0, 0) ps"

definition linear_slope_normalized :: "(rat \<Rightarrow> rat \<Rightarrow> rat) \<Rightarrow> rat list \<Rightarrow> rat" where
  "linear_slope_normalized pow vs =
     (let n = length vs
      in if n < 3 then 0
         else let mean_x = fl (of_int (int n - 1) / 2); mean_y = fl (py_sum vs / of_nat n);
                  num = py_sum (map (\<lambda>(i, v). fl (fl (of_nat i - mean_x) * fl (v - mean_y))) (zip [0..<n] vs));
                  den = py_sum (map (\<lambda>i. pow (fl (of_nat i - mean_x)) 2) [0..<n])
              in if den = 0 \<or> mean_y = 0 then 0
                 else fl (fl (num / den) / fl (\<bar>mean_y\<bar> + fl (1 / 10 ^ 9))))"

text \<open>The closed trades of the account, newest first, at most a hundred.\<close>

definition last_hundred :: "pk \<Rightarrow> 'a books_db_scheme \<Rightarrow> trade list" where
  "last_hundred k s =
     take 100 (sort_key (\<lambda>t. - the (tr_closed_at t))
       (List.map_filter (trades s)
         (rows_where (next_trade s) (trades s) (\<lambda>t. tr_account t = k \<and> tr_closed_at t \<noteq> None))))"

definition hold_times :: "trade list \<Rightarrow> rat list" where
  "hold_times ts =
     filter (\<lambda>h. 0 \<le> h)
       (map (\<lambda>t. fl (of_int (the (tr_closed_at t) - tr_opened_at t) / 1000000)) ts)"

text \<open>\<open>None\<close> and zero are both falsy.\<close>

definition truthy :: "rat option \<Rightarrow> bool" where
  "truthy v \<longleftrightarrow> v \<noteq> None \<and> v \<noteq> Some 0"

definition reward_risk :: "trade \<Rightarrow> rat option" where
  "reward_risk t =
     (case (tr_sl t, tr_tp t) of
        (Some sl, Some tp) \<Rightarrow>
          if sl = 0 \<or> tp = 0 \<or> tr_entry t = 0 then None
          else let entry = fl (tr_entry t); risk = \<bar>fl (entry - fl sl)\<bar>; reward = \<bar>fl (fl tp - entry)\<bar>
               in if 0 < risk then Some (fl (reward / risk)) else None
      | _ \<Rightarrow> None)"

definition average :: "rat list \<Rightarrow> rat" where
  "average xs = (if xs = [] then 0 else fl (py_sum xs / of_nat (length xs)))"

definition compute_metrics :: "(rat \<Rightarrow> rat \<Rightarrow> rat) \<Rightarrow> int \<Rightarrow> pk \<Rightarrow> 'a books_db_scheme \<Rightarrow> behaviour" where
  "compute_metrics pow now k s =
     (let ts = last_hundred k s; n = length ts
      in if n = 0 then empty_metrics
         else
           let pnls = map trade_pnl ts; lots = map (\<lambda>t. fl (tr_lots t)) ts;
               wins = of_nat (length (filter (\<lambda>p. 0 < p) pnls));
               win_rate = fl (fl (wins / of_nat n) * 100);
               profit = py_sum (filter (\<lambda>p. 0 < p) pnls);
               loss = \<bar>py_sum (filter (\<lambda>p. p < 0) pnls)\<bar>;
               factor = (if 0 < loss then fl (profit / loss) else 999);
               avg_lot = fl (py_sum lots / of_nat n);
               holds = hold_times ts;
               avg_hold = average holds;
               scalping = (if holds = [] then 0
                           else fl (of_nat (length (filter (\<lambda>h. h < 60) holds)) / of_nat (length holds)));
               short = filter (\<lambda>(h, p). h < 120) (zip holds pnls);
               short_rate = (if 5 \<le> length short
                             then fl (fl (of_nat (length (filter (\<lambda>(h, p). 0 < p) short)) / of_nat (length short)) * 100)
                             else 0);
               toxicity = calc_toxicity short_rate avg_hold n;
               martingale = fl (of_nat (martingale_triggers ts) / of_nat (max (n - 1) 1));
               growth = linear_slope_normalized pow (rev lots);
               (max_wins, max_losses) = consecutive_streaks pnls;
               week = length (filter (\<lambda>t. now - 7 * day_us \<le> tr_opened_at t) ts);
               frequency = fl (of_nat week / 7);
               avg_rr = average (List.map_filter reward_risk ts);
               mean = fl (py_sum pnls / of_nat n);
               variance = fl (py_sum (map (\<lambda>p. pow (fl (p - mean)) 2) pnls) / of_nat (max (n - 1) 1));
               std = pow variance (1 / 2);
               vol = fl (std / fl (\<bar>mean\<bar> + 1));
               consistency = max 0 (fl (100 - fl (vol * 5)));
               no_sl = fl (of_nat (length (filter (\<lambda>t. \<not> truthy (tr_sl t)) ts)) / of_nat n);
               gambler = calc_gambler no_sl frequency vol
           in \<lparr>bm_n = n, bm_win_rate = py_round 2 win_rate, bm_profit_factor = py_round 2 (min factor 999),
               bm_avg_lot = py_round 4 avg_lot, bm_consistency = py_round 2 consistency,
               bm_avg_rr = py_round 3 avg_rr, bm_volatility = py_round 3 vol,
               bm_martingale = py_round 3 martingale, bm_lot_growth = py_round 4 growth,
               bm_scalping = py_round 3 scalping, bm_avg_hold = py_round 1 avg_hold,
               bm_toxicity = py_round 2 toxicity, bm_gambler = py_round 2 gambler,
               bm_frequency = py_round 2 frequency, bm_max_wins = max_wins, bm_max_losses = max_losses,
               bm_win_rate_short = py_round 2 short_rate\<rparr>)"

subsection \<open>Classes\<close>

text \<open>The risk rule is looked up, and created when missing, only when the first four classes do not apply.\<close>

definition early_class :: "behaviour \<Rightarrow> trader_class option" where
  "early_class m =
     (if bm_n m < 5 then Some NORMAL
      else if 70 \<le> bm_toxicity m \<and> bm_avg_hold m < 120 then Some TOXIC
      else if fl (3 / 5) \<le> bm_scalping m then Some SCALPER
      else if fl (1 / 4) < bm_martingale m \<and> fl (3 / 10) < bm_lot_growth m then Some MARTINGALE
      else if 60 \<le> bm_gambler m then Some GAMBLER
      else None)"

definition late_class :: "rat \<Rightarrow> behaviour \<Rightarrow> trader_class" where
  "late_class max_lot m =
     (if fl (fl max_lot * fl (4 / 5)) < bm_avg_lot m then RISKY
      else if 65 < bm_win_rate m \<and> 2 < bm_profit_factor m \<and> 75 < bm_consistency m then ELITE
      else if 55 < bm_win_rate m \<and> fl (3 / 2) < bm_profit_factor m \<and> 60 < bm_consistency m then CONSISTENT
      else NORMAL)"

definition classify_behaviour ::
  "behaviour \<Rightarrow> pk \<Rightarrow> trading_account \<Rightarrow> 'a risk_db_scheme \<Rightarrow> trader_class \<times> 'a risk_db_scheme" where
  "classify_behaviour m k a s =
     (case early_class m of
        Some c \<Rightarrow> (c, s)
      | None \<Rightarrow> (let (rule, s') = get_or_create_risk_rule k a s in (late_class (rr_max_lot rule) m, s')))"

subsection \<open>The stored row\<close>

text \<open>The columns of \<open>TraderScore\<close> beyond those that \<open>risk_engine.py\<close> fills.\<close>

record score_details =
  sd_routing :: routing_profile
  sd_avg_rr :: rat
  sd_volatility :: rat
  sd_lot_growth :: rat
  sd_scalping :: rat
  sd_avg_hold :: rat
  sd_toxicity :: rat
  sd_gambler :: rat
  sd_frequency :: rat
  sd_max_losses :: nat
  sd_max_wins :: nat

record intel_db = exposure_db +
  score_details_of :: "score_details table"

definition column :: "nat \<Rightarrow> nat \<Rightarrow> rat \<Rightarrow> rat option" where
  "column digits places v =
     (let x = quantize_hu places (py_repr v)
      in if \<bar>x\<bar> < 10 ^ (digits - places) then Some x else None)"

definition columns_ok :: "behaviour \<Rightarrow> bool" where
  "columns_ok m \<longleftrightarrow>
     (\<forall>(d, p, v) \<in> set [(5, 2, bm_win_rate m), (8, 2, min (bm_profit_factor m) 999), (10, 4, bm_avg_lot m),
        (5, 2, bm_consistency m), (8, 3, bm_avg_rr m), (8, 3, bm_volatility m), (5, 3, bm_martingale m),
        (8, 4, bm_lot_growth m), (5, 3, bm_scalping m), (10, 1, bm_avg_hold m), (5, 2, bm_toxicity m),
        (5, 2, bm_gambler m), (8, 2, bm_frequency m)]. column d p v \<noteq> None)"

definition stored :: "nat \<Rightarrow> rat \<Rightarrow> rat" where
  "stored places v = quantize_hu places (py_repr v)"

definition behaviour_row :: "int \<Rightarrow> trader_class \<Rightarrow> behaviour \<Rightarrow> trader_score" where
  "behaviour_row now c m =
     \<lparr>ts_class = c, ts_win_rate = stored 2 (bm_win_rate m),
      ts_profit_factor = stored 2 (min (bm_profit_factor m) 999), ts_avg_lot = stored 4 (bm_avg_lot m),
      ts_consistency = stored 2 (bm_consistency m), ts_martingale = stored 3 (bm_martingale m), ts_evaluated = now\<rparr>"

definition behaviour_details :: "trader_class \<Rightarrow> behaviour \<Rightarrow> score_details" where
  "behaviour_details c m =
     \<lparr>sd_routing = ROUTING_MAP c, sd_avg_rr = stored 3 (bm_avg_rr m), sd_volatility = stored 3 (bm_volatility m),
      sd_lot_growth = stored 4 (bm_lot_growth m), sd_scalping = stored 3 (bm_scalping m),
      sd_avg_hold = stored 1 (bm_avg_hold m), sd_toxicity = stored 2 (bm_toxicity m),
      sd_gambler = stored 2 (bm_gambler m), sd_frequency = stored 2 (bm_frequency m),
      sd_max_losses = bm_max_losses m, sd_max_wins = bm_max_wins m\<rparr>"

text \<open>\<open>None\<close>: the database refuses a column.\<close>

definition update_intelligence ::
  "(rat \<Rightarrow> rat \<Rightarrow> rat) \<Rightarrow> int \<Rightarrow> pk \<Rightarrow> trading_account \<Rightarrow> 'a intel_db_scheme \<Rightarrow> 'a intel_db_scheme option" where
  "update_intelligence pow now k a s =
     (let m = compute_metrics pow now k s; (c, s1) = classify_behaviour m k a s
      in if columns_ok m
         then Some (s1\<lparr>scores := (scores s1)(k \<mapsto> behaviour_row now c m),
                      score_details_of := (score_details_of s1)(k \<mapsto> behaviour_details c m)\<rparr>)
         else None)"


subsection \<open>Facts\<close>

lemma py_repr_ge:
  assumes "fl x = x" "of_int n \<le> x" "\<bar>n\<bar> < 2 ^ 53 - 1"
  shows "of_int n \<le> py_repr x"
proof (rule ccontr)
  assume "\<not> of_int n \<le> py_repr x"
  then have l: "py_repr x < of_int n" by simp
  then have "fl (py_repr x) \<le> fl (of_int n)" by (intro flt.mono) simp
  then have "x \<le> of_int n" using fl_py_repr[OF assms(1)] fl_int[of n] assms(3) by simp
  then have "x = of_int n" using assms(2) by simp
  then show False using l py_repr_int[OF assms(3)] by simp
qed

lemma quantize_ge_int:
  "of_int n \<le> x \<Longrightarrow> of_int n \<le> quantize_he k x" "of_int n \<le> x \<Longrightarrow> of_int n \<le> quantize_hu k x"
  using qhe.mono[of "of_int n" x k] qhu.mono[of "of_int n" x k]
    quantize_he_int_div[of k "n * 10 ^ k"] quantize_hu_int_div[of k "n * 10 ^ k"] by simp_all

lemma column_refuses:
  assumes "fl v = v" "of_int n \<le> v" "\<bar>n\<bar> < 2 ^ 53 - 1" "(of_int n :: rat) = 10 ^ (digits - places)"
  shows "column digits places v = None"
proof -
  have "of_int n \<le> quantize_hu places (py_repr v)" using quantize_ge_int(2)[OF py_repr_ge[OF assms(1-3)]] .
  then show ?thesis using assms(4) by (simp add: column_def Let_def)
qed

text \<open>
  The engine fails for good on a trade whose target is far and whose stop is near: if one of the
  last hundred trades has both and reward over risk is at least 100000, the average does not fit its column.
\<close>

lemma overflowing_ratio:
  assumes "List.map_filter reward_risk (last_hundred k s) = [r]" "100000 \<le> r"
  shows "update_intelligence pow now k a s = None"
proof -
  have "last_hundred k s \<noteq> []" using assms(1) by (auto simp: List.map_filter_def)
  have "r \<in> set (List.map_filter reward_risk (last_hundred k s))" using assms(1) by simp
  then have r: "fl r = r"
    by (auto simp: List.map_filter_def reward_risk_def flt.idem Let_def split: option.splits if_splits)
  then have "average [r] = r" using assms(2) by (simp add: average_def py_sum_def Let_def)
  then have m: "bm_avg_rr (compute_metrics pow now k s) = py_round 3 r"
    using \<open>last_hundred k s \<noteq> []\<close> by (simp add: compute_metrics_def Let_def assms(1) split: prod.split)
  have "of_int 100000 \<le> fl (quantize_he 3 r)"
    using flt.mono[OF quantize_ge_int(1)[of 100000 r 3]] assms(2) by simp
  then have "column 8 3 (bm_avg_rr (compute_metrics pow now k s)) = None"
    by (intro column_refuses[of _ 100000]) (simp_all add: m py_round_def flt.idem)
  then show ?thesis by (simp add: update_intelligence_def columns_ok_def Let_def split: prod.split)
qed


text \<open>The first trade of an account, without a stop or without a target, never overflows a column.\<close>

lemma column_fits:
  assumes "0 \<le> x" "x \<le> 10 ^ j" "(10 :: int) ^ j < 2 ^ 53" "j < d - p"
  shows "column d p (py_round m x) \<noteq> None"
proof -
  have "quantize_hu p (py_repr (py_round m x)) \<le> 10 ^ j" "0 \<le> quantize_hu p (py_repr (py_round m x))"
    using column_range[OF assms(1-3), of p m] by simp_all
  moreover have "(10 :: rat) ^ j < 10 ^ (d - p)" using assms(4) by (intro power_strict_increasing) auto
  ultimately have "\<bar>quantize_hu p (py_repr (py_round m x))\<bar> < 10 ^ (d - p)" by linarith
  then show ?thesis by (simp add: column_def Let_def)
qed

lemma first_trade_classified:
  assumes "last_hundred k s = [t]" "reward_risk t = None" "0 \<le> tr_lots t" "tr_lots t \<le> 10 ^ 5"
    "tr_closed_at t = Some c" "tr_opened_at t \<le> c" "c - tr_opened_at t \<le> 10 ^ 14"
  shows "\<exists>s'. update_intelligence (\<lambda>_ _. 0) now k a s = Some s'"
proof -
  define m where "m = compute_metrics (\<lambda>_ _. 0) now k s"
  define h where "h = fl (of_int (c - tr_opened_at t) / 1000000)"
  have "(of_int (c - tr_opened_at t) :: rat) \<le> of_int (10 ^ 14)" using assms(7) by (simp only: of_int_le_iff)
  then have h: "0 \<le> h \<and> h \<le> 10 ^ 8"
    unfolding h_def using assms(6) fl_numeral[of "num.Bit0 num.One"] by (intro fl_range) (auto simp: fl_int[of "10 ^ 8", simplified])
  have hold: "hold_times [t] = [h]" using assms(5) h by (simp add: hold_times_def h_def)
  have lot: "0 \<le> fl (tr_lots t) \<and> fl (tr_lots t) \<le> 10 ^ 5"
    using assms(3,4) by (intro fl_range) (auto simp: fl_int[of "10 ^ 5", simplified])
  have rr: "List.map_filter reward_risk [t] = []" using assms(2) by (simp add: List.map_filter_def)
  have one: "py_sum [x] = x" if "fl x = x" for x using that by (simp add: py_sum_def Let_def)
  have nil: "py_sum [] = 0" by (simp add: py_sum_def)
  have p: "fl (trade_pnl t) = trade_pnl t" by (simp add: trade_pnl_def flt.idem)
  have hh: "fl h = h" by (simp add: h_def flt.idem)
  define fr where "fr = (if now - 7 * day_us \<le> tr_opened_at t then fl (1 / 7) else 0)"
  have fr: "0 \<le> fr \<and> fr \<le> 1"
    using fl_range[of 0 "1/7" 1] by (simp add: fr_def)
  note d = m_def compute_metrics_def assms(1) Let_def
  define ns where "ns = (if truthy (tr_sl t) then 0 else (1 :: rat))"
  have f: "bm_win_rate m = py_round 2 (if 0 < trade_pnl t then 100 else 0)"
      "bm_avg_lot m = py_round 4 (fl (tr_lots t))" "bm_consistency m = py_round 2 100" "bm_avg_rr m = py_round 3 0"
      "bm_volatility m = py_round 3 0" "bm_martingale m = py_round 3 0" "bm_lot_growth m = py_round 4 0"
      "bm_scalping m = py_round 3 (if h < 60 then 1 else 0)" "bm_avg_hold m = py_round 1 h" "bm_toxicity m = py_round 2 0"
      "bm_gambler m = py_round 2 (calc_gambler ns fr 0)" "bm_frequency m = py_round 2 fr"
    by (simp_all add: d hold rr assms(2) map_filter_simps nil one p hh flt.idem average_def fr_def ns_def calc_toxicity_def linear_slope_normalized_def
        split: prod.split)
  have pf: "bm_profit_factor m = py_round 2 (if trade_pnl t < 0 then 0 else 999)"
    using p by (simp add: d one nil split: prod.split)
  have pr: "py_round 2 0 = 0" "py_round 2 999 = 999"
    using quantize_he_int_div[of 2 99900] by (simp_all add: py_round_def qhe.zero)
  have mn: "min (py_round 2 (if trade_pnl t < 0 then 0 else 999)) 999 = py_round 2 (if trade_pnl t < 0 then 0 else 999)"
    by (simp add: pr)
  have g: "0 \<le> calc_gambler ns fr 0 \<and> calc_gambler ns fr 0 \<le> 10 ^ 2"
    using fr by (auto simp: calc_gambler_def Let_def ns_def intro!: flt.nonneg add_nonneg_nonneg mult_nonneg_nonneg)
  have "columns_ok m"
    unfolding columns_ok_def f pf mn
    using column_fits[of _ 2 5 2 2] column_fits[of _ 3 8 2 2] column_fits[of _ 5 10 4 4] column_fits[of _ 0 8 3 3]
      column_fits[of _ 0 5 3 3] column_fits[of _ 0 8 4 4] column_fits[of _ 8 10 1 1] column_fits[of _ 0 8 2 2]
      lot h fr g
    by auto
  then show ?thesis by (simp add: update_intelligence_def Let_def m_def[symmetric] split: prod.split)
qed

end
