(* ===== verification/OrderGuards.thy ===== *)
theory OrderGuards
  imports RiskEngine
begin

section \<open>Guards of an order (\<open>simulator/consumers.py\<close>)\<close>

text \<open>
  The pure functions that decide about an order before it is opened: timeframes, the
  margin guard, the lot size, stop loss and take profit, the trigger of a pending order, and the
  guard that is run under the account's lock. Prices, quantities and percentages are floats. Messages
  and log lines are left out; the codes of the rejections are a datatype.
\<close>

subsection \<open>Timeframes\<close>

definition TF_ALIASES :: "(string \<times> string) list" where
  "TF_ALIASES =
     [(''1'', ''1s''), (''1sec'', ''1s''), (''1second'', ''1s''), (''1s'', ''1s''),
      (''60'', ''1m''), (''60s'', ''1m''), (''m1'', ''1m''), (''1m'', ''1m''), (''1min'', ''1m''),
      (''300'', ''5m''), (''m5'', ''5m''), (''5m'', ''5m''),
      (''900'', ''15m''), (''m15'', ''15m''), (''15m'', ''15m''),
      (''3600'', ''1h''), (''h1'', ''1h''), (''1h'', ''1h''),
      (''14400'', ''4h''), (''h4'', ''4h''), (''4h'', ''4h''),
      (''86400'', ''1d''), (''d1'', ''1d''), (''1d'', ''1d'')]"

definition TF_SECONDS :: "(string \<times> nat) list" where
  "TF_SECONDS =
     [(''1s'', 1), (''1m'', 60), (''5m'', 300), (''15m'', 900), (''1h'', 3600), (''4h'', 14400), (''1d'', 86400)]"

definition normalize_tf :: "string \<Rightarrow> string option" where
  "normalize_tf tf = map_of TF_ALIASES (lower (py_strip tf))"

definition tf_seconds :: "string \<Rightarrow> nat option" where
  "tf_seconds tf = map_of TF_SECONDS (lower (py_strip tf))"

subsection \<open>Margin\<close>

text \<open>The frozen limits of an account; \<open>None\<close> where the product sets none.\<close>

record account_snap =
  as_leverage :: int
  as_allowed :: "string list option"
  as_max_lot :: "rat option"
  as_margin_call :: "rat option"
  as_max_per_trade :: rat
  as_max_total :: rat

definition DEFAULT_MAX_MARGIN_PER_TRADE_PCT :: rat where
  "DEFAULT_MAX_MARGIN_PER_TRADE_PCT = 10"

definition DEFAULT_MAX_TOTAL_MARGIN_PCT :: rat where
  "DEFAULT_MAX_TOTAL_MARGIN_PCT = 50"

datatype guard_code =
  MarginConversionUnavailable | SymbolNotAllowed | LotExceedsProductLimit | MarginPerTradeExceeded
| TotalMarginExceeded | MarginCallBreach | AccountIsBlocked | MinQtyViolation | LotStepViolation
| TooManyPositions

record guard_details =
  gd_required :: rat
  gd_required_pct :: rat
  gd_total :: rat
  gd_total_pct :: rat
  gd_max_total_pct :: rat

text \<open>Percentage of the equity, as both margin figures are computed.\<close>

definition of_equity :: "rat \<Rightarrow> rat \<Rightarrow> rat" where
  "of_equity x e = fl (fl (x / floor_equity e) * 100)"

definition margin_level :: "rat \<Rightarrow> rat \<Rightarrow> rat" where
  "margin_level e m = fl (fl (floor_equity e / m) * 100)"

definition effective_leverage :: "account_snap \<Rightarrow> int \<Rightarrow> int" where
  "effective_leverage snap spec_max = max 1 (min (max 1 (as_leverage snap)) spec_max)"

definition margin_check ::
  "string \<Rightarrow> rat \<Rightarrow> rat \<Rightarrow> rat \<Rightarrow> rat \<Rightarrow> account_snap \<Rightarrow> rat \<Rightarrow> rat \<Rightarrow> guard_code option" where
  "margin_check symbol qty equity0 used required snap per_trade_cap total_cap =
     (let total = fl (used + required)
      in if (case as_allowed snap of None \<Rightarrow> False | Some xs \<Rightarrow> symbol \<notin> set xs) then Some SymbolNotAllowed
         else if (case as_max_lot snap of None \<Rightarrow> False | Some m \<Rightarrow> m < qty) then Some LotExceedsProductLimit
         else if per_trade_cap < of_equity required equity0 then Some MarginPerTradeExceeded
         else if total_cap < of_equity total equity0 then Some TotalMarginExceeded
         else if 0 < total \<and> margin_level equity0 total < or_num (as_margin_call snap) 100
           then Some MarginCallBreach
         else None)"

definition compute_pretrade_margin_guard ::
  "string \<Rightarrow> rat \<Rightarrow> rat \<Rightarrow> rat \<Rightarrow> rat \<Rightarrow> account_snap \<Rightarrow> int \<Rightarrow> rat \<Rightarrow> rat \<Rightarrow> string
   \<Rightarrow> guard_code option \<times> guard_details" where
  "compute_pretrade_margin_guard symbol qty entry equity0 used snap spec_max per_trade_cap total_cap ccy =
     (case calculate_required_margin symbol (PyFloat entry) (PyFloat qty) (effective_leverage snap spec_max) ccy of
        Inl _ \<Rightarrow> (Some MarginConversionUnavailable,
          \<lparr>gd_required = 0, gd_required_pct = 0, gd_total = py_round 4 used,
           gd_total_pct = py_round 2 (of_equity used equity0), gd_max_total_pct = total_cap\<rparr>)
      | Inr required \<Rightarrow>
          (margin_check symbol qty equity0 used required snap per_trade_cap total_cap,
           \<lparr>gd_required = py_round 4 required, gd_required_pct = py_round 2 (of_equity required equity0),
            gd_total = py_round 4 (fl (used + required)),
            gd_total_pct = py_round 2 (of_equity (fl (used + required)) equity0),
            gd_max_total_pct = total_cap\<rparr>))"

definition money_round :: "rat \<Rightarrow> rat" where
  "money_round v = quantize_he 2 v"

subsection \<open>Lot size\<close>

definition check_lot_size :: "rat \<Rightarrow> symbol_spec \<Rightarrow> guard_code option" where
  "check_lot_size qty sp =
     (if qty < sp_min_lot sp then Some MinQtyViolation
      else let steps = fl (qty / sp_lot_step sp)
           in if fl (1 / 1000) < \<bar>fl (steps - of_int (round_half_even steps))\<bar> then Some LotStepViolation
              else None)"

subsection \<open>Stop loss and take profit\<close>

text \<open>What a client may send: nothing, something that is no number, infinity or NaN, a number.\<close>

datatype ws_number = WsNone | WsNotNumber | WsNotFinite | WsNumber rat

datatype sl_tp_code =
  InvalidSlValue | InvalidTpValue | InvalidSlDirection | InvalidTpDirection

definition bad_price :: "ws_number \<Rightarrow> bool" where
  "bad_price v = (case v of WsNone \<Rightarrow> False | WsNumber x \<Rightarrow> x \<le> 0 | _ \<Rightarrow> True)"

definition price_is :: "(rat \<Rightarrow> bool) \<Rightarrow> ws_number \<Rightarrow> bool" where
  "price_is P v = (case v of WsNumber x \<Rightarrow> P x | _ \<Rightarrow> False)"

definition validate_sl_tp :: "string \<Rightarrow> ws_number \<Rightarrow> ws_number \<Rightarrow> rat \<Rightarrow> sl_tp_code option" where
  "validate_sl_tp side sl tp px =
     (if bad_price sl then Some InvalidSlValue
      else if bad_price tp then Some InvalidTpValue
      else if side = ''buy'' \<and> price_is (\<lambda>x. px \<le> x) sl then Some InvalidSlDirection
      else if side = ''sell'' \<and> price_is (\<lambda>x. x \<le> px) sl then Some InvalidSlDirection
      else if side = ''buy'' \<and> price_is (\<lambda>x. x \<le> px) tp then Some InvalidTpDirection
      else if side = ''sell'' \<and> price_is (\<lambda>x. px \<le> x) tp then Some InvalidTpDirection
      else None)"

subsection \<open>Trigger of a pending order\<close>

definition pending_trigger_condition_met ::
  "string \<Rightarrow> string \<Rightarrow> rat \<Rightarrow> rat \<Rightarrow> rat \<Rightarrow> bool" where
  "pending_trigger_condition_met order_type side trigger bid ask =
     (let t = upper order_type; d = upper side
      in if t = ''LIMIT'' \<and> d = ''BUY'' then ask \<le> trigger
         else if t = ''LIMIT'' \<and> d = ''SELL'' then trigger \<le> bid
         else if t = ''STOP'' \<and> d = ''BUY'' then trigger \<le> ask
         else if t = ''STOP'' \<and> d = ''SELL'' then bid \<le> trigger
         else False)"

subsection \<open>The guard under the lock\<close>

record open_guard =
  og_error :: "guard_code option"
  og_details :: guard_details
  og_open :: nat
  og_max_open :: nat

definition compute_atomic_open_guard ::
  "string \<Rightarrow> rat \<Rightarrow> rat \<Rightarrow> acc_status \<Rightarrow> account_snap \<Rightarrow> symbol_spec \<Rightarrow> rat \<Rightarrow> rat \<Rightarrow> bool \<Rightarrow> nat \<Rightarrow> nat
   \<Rightarrow> string \<Rightarrow> open_guard" where
  "compute_atomic_open_guard symbol qty entry st snap sp equity0 used is_new n_open n_max ccy =
     (let early = (\<lambda>c. \<lparr>og_error = Some c,
            og_details = \<lparr>gd_required = 0, gd_required_pct = 0, gd_total = py_round 4 used, gd_total_pct = 0,
              gd_max_total_pct = as_max_total snap\<rparr>,
            og_open = n_open, og_max_open = n_max\<rparr>)
      in if st \<in> set BLOCKED_STATUSES then early AccountIsBlocked
         else case check_lot_size qty sp of Some c \<Rightarrow> early c
         | None \<Rightarrow>
             if is_new \<and> n_max < n_open + 1 then early TooManyPositions
             else let (c, d) = compute_pretrade_margin_guard symbol qty entry equity0 used snap
                        (sp_max_leverage sp) (as_max_per_trade snap) (as_max_total snap) ccy
                  in \<lparr>og_error = c, og_details = d, og_open = n_open, og_max_open = n_max\<rparr>)"

subsection \<open>Facts\<close>

lemma margin_check_None:
  assumes "margin_check symbol qty e used required snap cap1 cap2 = None"
  shows "case as_allowed snap of None \<Rightarrow> True | Some xs \<Rightarrow> symbol \<in> set xs"
    and "case as_max_lot snap of None \<Rightarrow> True | Some m \<Rightarrow> qty \<le> m"
    and "of_equity required e \<le> cap1" and "of_equity (fl (used + required)) e \<le> cap2"
    and "0 < fl (used + required) \<Longrightarrow> or_num (as_margin_call snap) 100 \<le> margin_level e (fl (used + required))"
  using assms by (auto simp: margin_check_def Let_def not_less split: option.splits if_splits)

lemma atomic_guard_ok:
  assumes "og_error (compute_atomic_open_guard symbol qty entry st snap sp e used is_new n_open n_max ccy) = None"
  obtains required where
    "calculate_required_margin symbol (PyFloat entry) (PyFloat qty) (effective_leverage snap (sp_max_leverage sp)) ccy = Inr required"
    "margin_check symbol qty e used required snap (as_max_per_trade snap) (as_max_total snap) = None"
    "st \<notin> set BLOCKED_STATUSES" "check_lot_size qty sp = None" "is_new \<longrightarrow> n_open < n_max"
  using assms
  by (cases "calculate_required_margin symbol (PyFloat entry) (PyFloat qty) (effective_leverage snap (sp_max_leverage sp)) ccy")
    (auto simp: compute_atomic_open_guard_def compute_pretrade_margin_guard_def Let_def
      split: option.splits if_splits)


lemma usd_jpy_order:
  "og_error (compute_atomic_open_guard ''USDJPY'' 1 155 Activo
     \<lparr>as_leverage = 100, as_allowed = None, as_max_lot = Some 5, as_margin_call = None, as_max_per_trade = 10,
      as_max_total = 50\<rparr> spec_USD_JPY 128000 0 True 0 5 ''USD'') = None"
proof -
  let ?s = "\<lparr>as_leverage = 100, as_allowed = None, as_max_lot = Some 5, as_margin_call = None, as_max_per_trade = 10,
      as_max_total = 50\<rparr>"
  have m: "calculate_required_margin ''USDJPY'' (PyFloat 155) (PyFloat 1) 100 ''USD'' = Inr 1000"
  proof -
    have "spec_USD_JPY \<in> set registry" by (simp add: registry_def)
    moreover have "norm_key ''USDJPY'' = norm_key (sp_symbol spec_USD_JPY)"
      by (simp add: spec_defs) code_simp
    moreover have "to_decimal (sp_contract_size spec_USD_JPY) = Some 100000" by (simp add: spec_defs)
    ultimately show ?thesis
      using margin_notional_dollars[of spec_USD_JPY "''USDJPY''" "PyFloat 155" 155 "PyFloat 1" 1 100000]
        dec_ctx_int[of 155] dec_ctx_int[of 15500000] dec_ctx_int[of 100000] dec_ctx_int[of 1000]
      by (simp add: calculate_required_margin_def in_dollars_def dec_mult_def spec_defs)
  qed
  have l: "effective_leverage ?s (sp_max_leverage spec_USD_JPY) = 100"
    by (simp add: effective_leverage_def spec_defs)
  have q: "check_lot_size 1 spec_USD_JPY = None"
    by (simp add: check_lot_size_def spec_defs fl_cent fl_eval[of 7036874417766400 _ 46] not_less flt.nonneg)
  have f: "fl (1 / 128) = 1 / 128" "fl (25 / 32) = 25 / 32"
    by (subst fl_eval[of "2 ^ 52" _ 59] fl_eval[of 7036874417766400 _ 53]; simp)+
  have lv: "margin_level 128000 1000 = 12800" "of_equity 1000 128000 = 25 / 32"
    by (simp_all add: f margin_level_def of_equity_def floor_equity_def fl_cent)
  show ?thesis
    by (simp add: m l q lv compute_atomic_open_guard_def compute_pretrade_margin_guard_def margin_check_def
        or_num_def BLOCKED_STATUSES_def)
qed


text \<open>
  A pending order fills at its price or better: with a bid not above the ask, a limit
  order triggers exactly when the side it would fill on (the ask for a buy, the bid for a sell)
  is at the trigger price or better for the client, a stop order exactly when it is at the
  trigger price or worse, so at any prices one of the two triggers, and both only at
  the trigger price itself; any other type or side never triggers.
\<close>

theorem pending_order_triggers:
  assumes "upper side \<in> {''BUY'', ''SELL''}" "fill = (if upper side = ''BUY'' then ask else bid)"
    and "better = (\<lambda>x y. if upper side = ''BUY'' then x \<le> y else y \<le> (x :: rat))"
  shows "(pending_trigger_condition_met ''limit'' side p bid ask \<longleftrightarrow> better fill p)
    \<and> (pending_trigger_condition_met ''stop'' side p bid ask \<longleftrightarrow> better p fill)
    \<and> (pending_trigger_condition_met ''limit'' side p bid ask \<or> pending_trigger_condition_met ''stop'' side p bid ask)
    \<and> (pending_trigger_condition_met ''limit'' side p bid ask \<and> pending_trigger_condition_met ''stop'' side p bid ask
        \<longrightarrow> fill = p)
    \<and> (upper other \<notin> {''LIMIT'', ''STOP''} \<longrightarrow> \<not> pending_trigger_condition_met other side p bid ask)"
proof -
  have u: "upper ''limit'' = ''LIMIT''" "upper ''stop'' = ''STOP''" by code_simp+
  show ?thesis using assms by (auto simp: pending_trigger_condition_met_def u Let_def)
qed

theorem pending_order_triggers_witness:
  "pending_trigger_condition_met ''limit'' ''buy'' 100 98 99 \<and> \<not> pending_trigger_condition_met ''stop'' ''buy'' 100 98 99"
proof -
  have "upper ''buy'' = ''BUY''" by code_simp
  then show ?thesis using pending_order_triggers[of "''buy''" 99 99 98 _ 100] by auto
qed

text \<open>
  A protective price that is accepted protects: for a buy or sell order,
  \<open>validate_sl_tp\<close> accepts exactly when each price that is given is a positive
  number, the stop loss lies strictly on the losing side of the execution price and the take
  profit strictly on the winning side; text, infinities and NaN are never accepted.
\<close>

theorem sl_tp_accepted:
  assumes "side \<in> {''buy'', ''sell''}"
  shows "validate_sl_tp side sl tp px = None \<longleftrightarrow>
    (sl = WsNone \<or> (\<exists>x. sl = WsNumber x \<and> 0 < x \<and> (if side = ''buy'' then x < px else px < x)))
    \<and> (tp = WsNone \<or> (\<exists>x. tp = WsNumber x \<and> 0 < x \<and> (if side = ''buy'' then px < x else x < px)))"
  using assms
  by (cases sl; cases tp) (auto simp: validate_sl_tp_def bad_price_def price_is_def)

theorem sl_tp_accepted_witness:
  "validate_sl_tp ''buy'' (WsNumber 99) (WsNumber 102) 100 = None
   \<and> validate_sl_tp ''sell'' (WsNumber 99) WsNone 100 \<noteq> None"
proof
  show "validate_sl_tp ''buy'' (WsNumber 99) (WsNumber 102) 100 = None"
    by (subst sl_tp_accepted) simp_all
  show "validate_sl_tp ''sell'' (WsNumber 99) WsNone 100 \<noteq> None"
    by (subst sl_tp_accepted) simp_all
qed

text \<open>
  The timeframe contract is fail-closed: whatever is recognised is one of the seven buckets,
  which normalises to itself and has its number of seconds.
\<close>

definition tf_canonical :: "string \<Rightarrow> bool" where
  "tf_canonical c \<longleftrightarrow> c \<in> set (map fst TF_SECONDS) \<and> normalize_tf c = Some c \<and> tf_seconds c \<noteq> None"

lemma buckets_canonical:
  "list_all tf_canonical [''1s'', ''1m'', ''5m'', ''15m'', ''1h'', ''4h'', ''1d'']"
proof -
  have "map (\<lambda>s. lower (py_strip s)) [''1s'', ''1m'', ''5m'', ''15m'', ''1h'', ''4h'', ''1d'']
    = [''1s'', ''1m'', ''5m'', ''15m'', ''1h'', ''4h'', ''1d'']"
    by code_simp
  then show ?thesis
    by (simp add: tf_canonical_def normalize_tf_def tf_seconds_def TF_ALIASES_def TF_SECONDS_def)
qed

lemma normalize_tf_canonical:
  assumes "normalize_tf t = Some c"
  shows "tf_canonical c"
proof -
  have "c \<in> snd ` set TF_ALIASES"
    using assms unfolding normalize_tf_def by (auto dest!: map_of_SomeD intro: rev_image_eqI)
  then have "c \<in> set [''1s'', ''1m'', ''5m'', ''15m'', ''1h'', ''4h'', ''1d'']"
    unfolding TF_ALIASES_def by (simp only: list.set image_insert image_empty snd_conv) blast
  then show ?thesis using buckets_canonical unfolding list_all_iff by blast
qed

end
