(* ===== verification/Trading.thy ===== *)
theory Trading
  imports Intelligence OrderGuards
begin

section \<open>Opening of positions (\<open>simulator/consumers.py\<close>)\<close>

text \<open>
  The two transactions that open a position: a market order
  (\<open>_db_open_position_atomic\<close>) and the trigger of a pending order
  (\<open>_trigger_pending_order_core\<close>), with the life of a pending order and the daemon that
  scans them. A transaction returns the new database, or a fault: an exception, after which the database is
  as before. Messages, log lines, audit events and notifications are left out; so is a failure of the
  database itself, and with it the fallbacks that only such a failure reaches.
\<close>

subsection \<open>Tables\<close>

datatype order_kind = LIMIT | STOP

datatype pending_status = PENDING | TRIGGERED | CANCELLED | EXPIRED | REJECTED

record pending_order =
  po_account :: pk
  po_symbol :: string
  po_side :: side
  po_kind :: order_kind
  po_qty :: rat
  po_trigger :: rat
  po_sl :: "rat option"
  po_tp :: "rat option"
  po_status :: pending_status
  po_created_at :: int
  po_expires_at :: "int option"
  po_triggered_at :: "int option"
  po_cancelled_at :: "int option"
  po_position :: "pk option"

datatype entry_path = ENTRY_MANUAL_WS | ENTRY_PENDING_TRIGGER

record lot_event =
  lx_account :: pk
  lx_position :: "pk option"
  lx_symbol :: string
  lx_side :: side
  lx_qty :: rat
  lx_price :: rat
  lx_merged :: bool
  lx_path :: entry_path
  lx_order :: "pk option"

text \<open>Columns of a position and of a trade that only the order path reads.\<close>

record position_extra =
  px_context :: "pricing_context option"
  px_routing :: "pk option"

record trade_extra =
  te_open :: "pricing_context option"
  te_close :: "pricing_context option"
  te_conversion :: pnl_result
  te_routing :: "pk option"

record liquidity_row =
  lq_routing :: pk
  lq_position :: "pk option"
  lq_decided_at :: int

record settlement_row =
  lg_trade :: pk
  lg_decision :: pk
  lg_symbol :: string
  lg_pnl :: rat

text \<open>Why an order is refused; the codes of the guard and of the broker's limits are their own.\<close>

datatype order_code =
  GoldPilotMarketOnly | SymbolForbidden | BadStops sl_tp_code | NoAccount | MarketPriceUnavailable
| GuardCode guard_code | LimitCode limit_reason

text \<open>
  \<open>risk_lock\<close> is the single row of \<open>BrokerRiskLock\<close>, if it is there, with the time of its
  last recreation; \<open>rejections\<close> are the rows of the audit log a rejected pending order writes.
\<close>

record trading_db = intel_db +
  pending_orders :: "pending_order table"
  next_pending :: pk
  lot_events :: "lot_event list"
  position_extras :: "position_extra table"
  trade_extras :: "trade_extra table"
  next_routing :: pk
  liquidity_rows :: "liquidity_row table"
  next_liquidity :: pk
  settlements :: "settlement_row list"
  rejections :: "(pk \<times> order_code) list"
  risk_lock :: "int option option"

text \<open>
  An unknown symbol raises \<open>KeyError\<close>; a value too large for its numeric column, a charge the
  pricing refuses and an argument that is no number raise too.
\<close>

datatype trade_fault =
  UnknownSymbol | ChargeFault charge_error | LimitFault limit_error | BooksFault revenue_error | ColumnOverflow

subsection \<open>Settings and the market\<close>

record trading_settings =
  tg_risk :: risk_settings
  PENDING_ORDER_SPREAD_FEE_ENABLED :: bool
  ROUTING_ENGINE_ENABLED :: bool
  ROUTING_ENGINE_SYMBOLS :: "string list"
  ROUTING_ENGINE_ACCOUNT_TYPES :: "account_type list"
  MASSIVE_GOLD_DATA_ENABLED :: bool
  GOLD_REAL_TRADING_ENABLED :: bool
  GOLD_DEMO_ACCOUNT_IDS :: string

text \<open>
  What the process reads from outside: the book of fresh prices, the last quote of the feed for a symbol,
  the quote in the shared cache, and the process-wide cache of spread configurations; \<open>tv_pow\<close> is the
  C library's power function and \<open>tv_enrollments\<close> a bound on the keys of the enrollments.
\<close>

record trade_view =
  tv_market :: market_view
  tv_feed :: "string \<Rightarrow> rat \<times> rat"
  tv_cached :: "string \<Rightarrow> (rat \<times> rat) option"
  tv_spreads :: spread_cache
  tv_pow :: "rat \<Rightarrow> rat \<Rightarrow> rat"
  tv_enrollments :: nat

abbreviation tv_now :: "trade_view \<Rightarrow> int" where
  "tv_now tv \<equiv> mk_now (tv_market tv)"

subsection \<open>Columns\<close>

definition col6 :: "rat \<Rightarrow> rat" where
  "col6 x = quantize_hu 6 x"

definition fits :: "nat \<Rightarrow> rat \<Rightarrow> bool" where
  "fits digits x \<longleftrightarrow> \<bar>col6 x\<bar> < 10 ^ (digits - 6)"

text \<open>
  \<open>account.save(update_fields=[...])\<close>: \<open>check_rules\<close> runs on the whole object and writes its
  ledger entries, but only the listed columns reach the row. The object is returned as it is left.
\<close>

definition save_fields ::
  "(trading_account \<Rightarrow> trading_account \<Rightarrow> trading_account) \<Rightarrow> pk \<Rightarrow> int \<Rightarrow> trading_account \<Rightarrow> 'a db_scheme
    \<Rightarrow> trading_account \<times> 'a db_scheme" where
  "save_fields cols k now a s =
     (let (a', es) = check_rules False k now (sync_balances False a);
          s' = update_account k (cols (store_account a')) s
      in (a', s'\<lparr>ledger := ledger s' @ es\<rparr>))"

definition col_balance :: "trading_account \<Rightarrow> trading_account \<Rightarrow> trading_account" where
  "col_balance new old = old\<lparr>balance := balance new\<rparr>"

definition col_money :: "trading_account \<Rightarrow> trading_account \<Rightarrow> trading_account" where
  "col_money new old = old\<lparr>balance := balance new, equity := equity new\<rparr>"

definition col_status :: "trading_account \<Rightarrow> trading_account \<Rightarrow> trading_account" where
  "col_status new old = old\<lparr>acc_status := acc_status new\<rparr>"

subsection \<open>The locked rows of an account\<close>

definition locked_positions :: "pk \<Rightarrow> 'a db_scheme \<Rightarrow> (pk \<times> position) list" where
  "locked_positions k s = map (\<lambda>i. (i, the (positions s i))) (open_positions k s)"

definition merge_target :: "bool \<Rightarrow> string \<Rightarrow> side \<Rightarrow> (pk \<times> position) list \<Rightarrow> (pk \<times> position) option" where
  "merge_target netting sy sd ps =
     (if netting then find (\<lambda>(i, p). pos_symbol p = sy \<and> pos_side p = sd) ps else None)"

text \<open>Margin at entry prices, in floats; \<open>None\<close> is the \<open>KeyError\<close> of an unknown symbol.\<close>

definition add_margin :: "int \<Rightarrow> string \<Rightarrow> rat option \<Rightarrow> position \<Rightarrow> rat option" where
  "add_margin lev ccy acc p =
     (case acc of None \<Rightarrow> None
      | Some t \<Rightarrow> (case get_spec (pos_symbol p) of None \<Rightarrow> None
          | Some sp \<Rightarrow> Some (case calculate_required_margin (pos_symbol p) (PyFloat (fl (pos_avg p)))
                (PyFloat (fl (pos_qty p))) (max 1 (min lev (sp_max_leverage sp))) ccy of
               Inl _ \<Rightarrow> t
             | Inr mg \<Rightarrow> fl (t + mg))))"

definition fresh_margin :: "int \<Rightarrow> string \<Rightarrow> position list \<Rightarrow> rat option" where
  "fresh_margin lev ccy ps = foldl (add_margin lev ccy) (Some 0) ps"

definition order_side_text :: "side \<Rightarrow> string" where
  "order_side_text sd = (case sd of BUY \<Rightarrow> ''buy'' | SELL \<Rightarrow> ''sell'')"

definition position_float :: "string \<Rightarrow> rat \<Rightarrow> position \<Rightarrow> rat" where
  "position_float ccy px p =
     position_pnl_float (order_side_text (pos_side p)) (PyFloat (fl (pos_avg p))) (PyFloat px)
       (PyFloat (fl (pos_qty p))) (pos_symbol p) ccy"

definition fresh_floating :: "string \<Rightarrow> (position \<Rightarrow> rat) \<Rightarrow> position list \<Rightarrow> rat" where
  "fresh_floating ccy px ps = foldl (\<lambda>t p. fl (t + position_float ccy (px p) p)) 0 ps"

text \<open>A buy is closed at the bid, a sale at the ask.\<close>

definition close_side :: "side \<Rightarrow> rat \<times> rat \<Rightarrow> rat" where
  "close_side sd quote = (if sd = BUY then fst quote else snd quote)"

subsection \<open>The decision under the locks\<close>

definition take_risk_lock :: "int \<Rightarrow> 'a trading_db_scheme \<Rightarrow> 'a trading_db_scheme" where
  "take_risk_lock now s = (if risk_lock s = None then s\<lparr>risk_lock := Some (Some now)\<rparr> else s)"

definition approve ::
  "trading_settings \<Rightarrow> trade_view \<Rightarrow> pk \<Rightarrow> trading_account \<Rightarrow> account_snap \<Rightarrow> string \<Rightarrow> side \<Rightarrow> rat \<Rightarrow> rat
   \<Rightarrow> rat \<Rightarrow> rat \<Rightarrow> bool \<Rightarrow> nat \<Rightarrow> risk_rule \<Rightarrow> 'a trading_db_scheme \<Rightarrow> trade_fault + (order_code option \<times> symbol_spec)" where
  "approve cfg tv k a snap sy sd qty px equity0 used is_new n rule s =
     (case get_spec sy of None \<Rightarrow> Inl UnknownSymbol
      | Some sp \<Rightarrow>
         (case og_error (compute_atomic_open_guard sy qty px (acc_status a) snap sp equity0 used is_new n
                 (rr_max_positions rule) (currency a)) of
            Some c \<Rightarrow> Inr (Some (GuardCode c), sp)
          | None \<Rightarrow>
             (case validate_new_order (tg_risk cfg) (tv_market tv) k sy (order_side_text sd) (PyFloat qty)
                     (Some (PyFloat px)) (Some (sp_contract_size sp)) (Some (acc_type a)) s of
                Inl e \<Rightarrow> Inl (LimitFault e)
              | Inr d \<Rightarrow> Inr (if ld_allowed d then None else Some (LimitCode (the (ld_reason d))), sp))))"

subsection \<open>The position\<close>

definition merged_position :: "rat \<Rightarrow> rat \<Rightarrow> rat option \<Rightarrow> rat option \<Rightarrow> position \<Rightarrow> position" where
  "merged_position q px sl tp p =
     (let new_qty = dec_ctx (pos_qty p + q);
          new_avg = dec_ctx (dec_ctx (dec_mult (pos_avg p) (pos_qty p) + dec_mult px q) / new_qty)
      in p\<lparr>pos_qty := col6 new_qty, pos_avg := col6 (quantize_he 6 new_avg),
           pos_sl := (case sl of None \<Rightarrow> pos_sl p | Some x \<Rightarrow> Some (col6 x)),
           pos_tp := (case tp of None \<Rightarrow> pos_tp p | Some x \<Rightarrow> Some (col6 x))\<rparr>)"

definition new_position ::
  "int \<Rightarrow> pk \<Rightarrow> string \<Rightarrow> side \<Rightarrow> rat \<Rightarrow> rat \<Rightarrow> rat option \<Rightarrow> rat option \<Rightarrow> position" where
  "new_position now k sy sd q px sl tp =
     \<lparr>pos_account = k, pos_symbol = sy, pos_side = sd, pos_qty = col6 q, pos_avg = col6 px,
      pos_sl = map_option col6 sl, pos_tp = map_option col6 tp, pos_opened_at = now\<rparr>"

definition position_fits :: "position \<Rightarrow> bool" where
  "position_fits p \<longleftrightarrow> fits 18 (pos_qty p) \<and> fits 18 (pos_avg p)
     \<and> (case pos_sl p of None \<Rightarrow> True | Some x \<Rightarrow> fits 18 x) \<and> (case pos_tp p of None \<Rightarrow> True | Some x \<Rightarrow> fits 18 x)"

text \<open>\<open>q\<close> and \<open>px\<close> are the decimals of the quantity and the price.\<close>

definition place_position ::
  "int \<Rightarrow> pk \<Rightarrow> string \<Rightarrow> side \<Rightarrow> rat \<Rightarrow> rat \<Rightarrow> rat option \<Rightarrow> rat option \<Rightarrow> pricing_context option
   \<Rightarrow> (pk \<times> position) option \<Rightarrow> 'a trading_db_scheme \<Rightarrow> trade_fault + pk \<times> 'a trading_db_scheme" where
  "place_position now k sy sd q px sl tp ctx target s =
     (let (i, p) = (case target of Some (i, p) \<Rightarrow> (i, merged_position q px sl tp p)
                    | None \<Rightarrow> (next_position s, new_position now k sy sd q px sl tp));
          s1 = s\<lparr>positions := (positions s)(i \<mapsto> p)\<rparr>
      in if \<not> position_fits p then Inl ColumnOverflow
         else Inr (i, if target = None
           then s1\<lparr>next_position := Suc i,
                   position_extras := (position_extras s)(i \<mapsto> \<lparr>px_context = ctx, px_routing = None\<rparr>)\<rparr>
           else s1))"

definition add_lot_event ::
  "pk \<Rightarrow> pk \<Rightarrow> string \<Rightarrow> side \<Rightarrow> rat \<Rightarrow> rat \<Rightarrow> bool \<Rightarrow> entry_path \<Rightarrow> pk option \<Rightarrow> 'a trading_db_scheme
   \<Rightarrow> trade_fault + 'a trading_db_scheme" where
  "add_lot_event k i sy sd q px merged path order s =
     (if fits 18 q \<and> fits 18 px
      then Inr (s\<lparr>lot_events := lot_events s @
        [\<lparr>lx_account = k, lx_position = Some i, lx_symbol = sy, lx_side = sd, lx_qty = col6 q,
          lx_price = col6 px, lx_merged = merged, lx_path = path, lx_order = order\<rparr>]\<rparr>)
      else Inl ColumnOverflow)"

subsection \<open>The charges of an opening\<close>

definition decimal_charge :: "rat \<Rightarrow> rat" where
  "decimal_charge c = (if 0 < c then py_repr c else 0)"

definition charge_entry :: "ledger_event \<Rightarrow> pk \<Rightarrow> rat \<Rightarrow> rat \<Rightarrow> string \<Rightarrow> pk \<Rightarrow> int \<Rightarrow> ledger_entry" where
  "charge_entry ev k amount bal sy i now =
     \<lparr>le_account = k, le_event = ev, le_amount = col2 (- amount), le_balance_after = col2 bal,
      le_meta = [(''symbol'', MStr sy), (''db_pos_id'', MKey i)], le_created_at = now\<rparr>"

text \<open>A row of the broker's ledger in a savepoint of its own: an error drops the row only.\<close>

definition try_entry :: "revenue_type \<Rightarrow> rat \<Rightarrow> pk \<Rightarrow> string \<Rightarrow> int \<Rightarrow> 'a books_db_scheme \<Rightarrow> 'a books_db_scheme" where
  "try_entry ty amount k sy now s =
     (case create_entry ((blank_entry ty amount now)\<lparr>bl_account := Some k, bl_symbol := Some sy\<rparr>) s of
        Inl _ \<Rightarrow> s | Inr (_, s') \<Rightarrow> s')"

definition book_charge ::
  "ledger_event \<Rightarrow> revenue_type \<Rightarrow> rat \<Rightarrow> pk \<Rightarrow> string \<Rightarrow> pk \<Rightarrow> int \<Rightarrow> rat \<Rightarrow> 'a books_db_scheme \<Rightarrow> 'a books_db_scheme" where
  "book_charge ev ty amount k sy i now bal s =
     try_entry ty amount k sy now (add_ledger (charge_entry ev k amount bal sy i now) s)"

text \<open>
  \<open>allocated\<close>: both charges are cut to the cents the balance loses; otherwise (the trigger
  without the spread fee) the commission is taken from the balance as it is. A charge of zero books nothing.
\<close>

definition post_charges ::
  "bool \<Rightarrow> pk \<Rightarrow> trading_account \<Rightarrow> string \<Rightarrow> pk \<Rightarrow> rat \<Rightarrow> rat \<Rightarrow> int \<Rightarrow> 'a books_db_scheme
   \<Rightarrow> charge_error + rat \<times> 'a books_db_scheme" where
  "post_charges allocated k a sy i commission spread now s =
     (case (if allocated then allocate_opening_charges (balance a) commission spread
            else Inr (dec_ctx (balance a - commission), commission, 0)) of
        Inl e \<Rightarrow> Inl e
      | Inr (bal, c, f) \<Rightarrow>
          (let s1 = (if 0 < commission then book_charge EV_COMMISSION REV_COMMISSION c k sy i now bal s else s);
               s2 = (if 0 < spread then book_charge EV_FEE REV_SPREAD f k sy i now bal s1 else s1);
               s3 = (if 0 < commission \<or> 0 < spread
                     then snd (save_fields col_balance k now (a\<lparr>balance := bal\<rparr>) s2) else s2)
           in Inr (bal, s3)))"


subsection \<open>Opening: the writes\<close>

definition should_activate_routing_decision :: "trading_settings \<Rightarrow> string \<Rightarrow> account_type \<Rightarrow> bool" where
  "should_activate_routing_decision cfg sy ty \<longleftrightarrow>
     ROUTING_ENGINE_ENABLED cfg
     \<and> (ROUTING_ENGINE_SYMBOLS cfg = [] \<or> sy \<in> set (ROUTING_ENGINE_SYMBOLS cfg))
     \<and> (ROUTING_ENGINE_ACCOUNT_TYPES cfg = [] \<or> ty \<in> set (ROUTING_ENGINE_ACCOUNT_TYPES cfg))"

text \<open>The decision always says internal; a merge leaves the position's first decision in place.\<close>

definition record_routing_decision ::
  "pk \<Rightarrow> pk \<Rightarrow> bool \<Rightarrow> 'a trading_db_scheme \<Rightarrow> pk \<times> 'a trading_db_scheme" where
  "record_routing_decision k i merged s =
     (let r = next_routing s;
          s1 = s\<lparr>routing_rows := (routing_rows s)(r \<mapsto> \<lparr>rr_account = Some k, rr_position = Some i\<rparr>),
                 next_routing := Suc r\<rparr>
      in (r, if merged then s1
             else s1\<lparr>position_extras := update_row i (\<lambda>x. x\<lparr>px_routing := Some r\<rparr>) (position_extras s1)\<rparr>))"

definition execute_open ::
  "int \<Rightarrow> pk \<Rightarrow> trading_account \<Rightarrow> string \<Rightarrow> side \<Rightarrow> rat \<Rightarrow> rat \<Rightarrow> rat option \<Rightarrow> rat option \<Rightarrow> pricing_context option
   \<Rightarrow> (pk \<times> position) option \<Rightarrow> entry_path \<Rightarrow> pk option \<Rightarrow> bool \<Rightarrow> bool \<Rightarrow> rat \<Rightarrow> rat \<Rightarrow> 'a trading_db_scheme
   \<Rightarrow> trade_fault + pk \<times> pk option \<times> rat \<times> 'a trading_db_scheme" where
  "execute_open now k a sy sd q px sl tp ctx target path order route allocated commission spread s =
     (case place_position now k sy sd q px sl tp ctx target s of Inl e \<Rightarrow> Inl e | Inr (i, s1) \<Rightarrow>
     (case add_lot_event k i sy sd q px (target \<noteq> None) path order s1 of Inl e \<Rightarrow> Inl e | Inr s2 \<Rightarrow>
       (let (r, s3) = (if route then apfst Some (record_routing_decision k i (target \<noteq> None) s2) else (None, s2))
        in case post_charges allocated k a sy i commission spread now s3 of
             Inl e \<Rightarrow> Inl (ChargeFault e)
           | Inr (bal, s4) \<Rightarrow> Inr (i, r, bal, s4))))"

subsection \<open>Gold (\<open>simulator/gold_demo_policy.py\<close>)\<close>

fun split_on :: "char \<Rightarrow> string \<Rightarrow> string list" where
  "split_on c [] = [[]]"
| "split_on c (x # xs) =
     (if x = c then [] # split_on c xs
      else case split_on c xs of [] \<Rightarrow> [[x]] | w # ws \<Rightarrow> (x # w) # ws)"

definition is_digits :: "string \<Rightarrow> bool" where
  "is_digits w \<longleftrightarrow> w \<noteq> [] \<and> list_all (\<lambda>c. c \<in> set ''0123456789'') w"

definition gold_ids :: "string \<Rightarrow> pk list" where
  "gold_ids env =
     (let raw = py_strip env; parts = (if raw = [] then [] else map py_strip (split_on (CHR '','') raw))
      in if list_all (\<lambda>w. is_digits w \<and> 0 < undec w) parts then map undec parts else [])"

definition gold_allowed_list :: "string list option \<Rightarrow> bool" where
  "gold_allowed_list xs = (case xs of None \<Rightarrow> True | Some l \<Rightarrow> ''XAU/USD'' \<in> set l)"

definition gold_demo_allowed ::
  "trading_settings \<Rightarrow> pk \<Rightarrow> account_type \<Rightarrow> string \<Rightarrow> string list option \<Rightarrow> bool" where
  "gold_demo_allowed cfg k ty ccy allowed \<longleftrightarrow>
     MASSIVE_GOLD_DATA_ENABLED cfg \<and> ty = DEMO \<and> ccy = ''USD'' \<and> k \<noteq> 0 \<and> gold_allowed_list allowed
     \<and> k \<in> set (gold_ids (GOLD_DEMO_ACCOUNT_IDS cfg))"

definition gold_trading_allowed ::
  "trading_settings \<Rightarrow> pk \<Rightarrow> account_type \<Rightarrow> string \<Rightarrow> string list option \<Rightarrow> bool" where
  "gold_trading_allowed cfg k ty ccy allowed \<longleftrightarrow>
     (if ty = DEMO then gold_demo_allowed cfg k ty ccy allowed
      else MASSIVE_GOLD_DATA_ENABLED cfg \<and> GOLD_REAL_TRADING_ENABLED cfg \<and> ty \<in> {RETAIL, STANDARD, ECN}
        \<and> ccy = ''USD'' \<and> k \<noteq> 0 \<and> gold_allowed_list allowed)"

subsection \<open>A market order\<close>

text \<open>The columns of \<open>account_terms\<close> are columns of the account; an account has them.\<close>

definition blank_terms :: account_terms where
  "blank_terms =
     \<lparr>at_profile = None, at_product = None, at_product_code = None, at_netting = False, at_allowed = None,
      at_max_lot = None, at_margin_call = None, at_max_trade_pct = None, at_max_total_pct = None\<rparr>"

definition terms_of :: "pk \<Rightarrow> 'a pricing_db_scheme \<Rightarrow> account_terms" where
  "terms_of k s = (case account_terms_of s k of None \<Rightarrow> blank_terms | Some t \<Rightarrow> t)"

definition gold_trading_for_account :: "trading_settings \<Rightarrow> pk \<Rightarrow> trading_account \<Rightarrow> account_terms \<Rightarrow> bool" where
  "gold_trading_for_account cfg k a t = gold_trading_allowed cfg k (acc_type a) (currency a) (at_allowed t)"

text \<open>What the connection remembers of the account since it was opened.\<close>

record session_terms =
  st_netting :: bool
  st_snap :: account_snap
  st_markup :: rat
  st_type :: account_type

datatype open_result =
  Refused order_code
| Opened pk bool rat "pk option"

text \<open>The spread fee: the pips of the captured quote, or without a capture those configured now.\<close>

definition opening_pips :: "trade_view \<Rightarrow> session_terms \<Rightarrow> string \<Rightarrow> pricing_context option \<Rightarrow> rat" where
  "opening_pips tv sn sy ctx =
     (case ctx of
        Some c \<Rightarrow> (case pc_effective c of None \<Rightarrow> 0 | Some x \<Rightarrow> x)
      | None \<Rightarrow> fl ((case get_cached_config (tv_spreads tv) (normalize_symbol sy) of None \<Rightarrow> 0 | Some c \<Rightarrow> cc_pips c)
                   + st_markup sn))"

definition usable_price :: "rat option \<times> price_status \<Rightarrow> bool" where
  "usable_price p \<longleftrightarrow> snd p \<in> {FRESH, MARKET_CLOSED_FROZEN}"

definition open_price :: "trade_view \<Rightarrow> rat option \<times> price_status \<Rightarrow> position \<Rightarrow> rat" where
  "open_price tv r p =
     (if snd r = FRESH then close_side (pos_side p) (tv_feed tv (pos_symbol p)) else fl (the (fst r)))"

definition open_position_atomic ::
  "trading_settings \<Rightarrow> trade_view \<Rightarrow> pk \<Rightarrow> session_terms \<Rightarrow> string \<Rightarrow> side \<Rightarrow> rat \<Rightarrow> rat \<Rightarrow> rat option \<Rightarrow> rat option
   \<Rightarrow> rat \<Rightarrow> pricing_context option \<Rightarrow> 'a trading_db_scheme \<Rightarrow> trade_fault + open_result \<times> 'a trading_db_scheme" where
  "open_position_atomic cfg tv k sn sy sd qty price sl tp commission ctx s =
     (let s0 = take_risk_lock (tv_now tv) s in
      case accounts s0 k of None \<Rightarrow> Inr (Refused NoAccount, s0) | Some a \<Rightarrow>
      if sy = ''XAU/USD'' \<and> \<not> gold_trading_for_account cfg k a (terms_of k s0)
      then Inr (Refused SymbolForbidden, s0)
      else
        (let rows = locked_positions k s0; ps = map snd rows;
             target = merge_target (st_netting sn) sy sd rows
         in case fresh_margin (max 1 (as_leverage (st_snap sn))) (currency a) ps of
              None \<Rightarrow> Inl UnknownSymbol
            | Some used \<Rightarrow>
               (let (rule, s1) = get_or_create_risk_rule k a s0;
                    price_of = (\<lambda>p. resolve_symbol_price (tv_market tv) (last_prices s1) (pos_symbol p))
                in if \<not> list_all (\<lambda>p. usable_price (price_of p)) ps
                   then Inr (Refused MarketPriceUnavailable, s1)
                   else
                     (let eq = fl (fl (balance a) + fresh_floating (currency a) (\<lambda>p. open_price tv (price_of p) p) ps)
                      in case approve cfg tv k a (st_snap sn) sy sd qty price eq used (target = None)
                                (length rows) rule s1 of
                           Inl e \<Rightarrow> Inl e
                         | Inr (Some c, _) \<Rightarrow> Inr (Refused c, s1)
                         | Inr (None, sp) \<Rightarrow>
                             (let pips = opening_pips tv sn sy ctx;
                                  spread = (if 0 < pips then calculate_spread_revenue sy qty pips else 0)
                              in case execute_open (tv_now tv) k a sy sd (py_repr qty) (py_repr price) sl tp ctx
                                        target ENTRY_MANUAL_WS None
                                        (should_activate_routing_decision cfg sy (st_type sn)) True
                                        (decimal_charge commission) (decimal_charge spread) s1 of
                                   Inl e \<Rightarrow> Inl e
                                 | Inr (i, r, bal, s2) \<Rightarrow> Inr (Opened i (target \<noteq> None) (fl bal) r, s2))))))"

subsection \<open>The trigger of a pending order\<close>

datatype trigger_result =
  NotPending | OrderExpired | OrderRejected order_code | OrderTriggered pk bool

definition set_pending :: "pk \<Rightarrow> (pending_order \<Rightarrow> pending_order) \<Rightarrow> 'a trading_db_scheme \<Rightarrow> 'a trading_db_scheme" where
  "set_pending i f s = s\<lparr>pending_orders := update_row i f (pending_orders s)\<rparr>"

definition reject_pending :: "pk \<Rightarrow> order_code \<Rightarrow> 'a trading_db_scheme \<Rightarrow> trigger_result \<times> 'a trading_db_scheme" where
  "reject_pending i c s =
     (OrderRejected c, (set_pending i (\<lambda>x. x\<lparr>po_status := REJECTED\<rparr>) s)\<lparr>rejections := rejections s @ [(i, c)]\<rparr>)"

definition stop_value :: "rat option \<Rightarrow> ws_number" where
  "stop_value x = (case x of None \<Rightarrow> WsNone | Some v \<Rightarrow> WsNumber (fl v))"

text \<open>The frozen limits of the row, with the defaults where the product sets none.\<close>

definition snap_of_row :: "trading_account \<Rightarrow> account_terms \<Rightarrow> account_snap" where
  "snap_of_row a t =
     \<lparr>as_leverage = max 1 (int (leverage a)), as_allowed = at_allowed t, as_max_lot = map_option fl (at_max_lot t),
      as_margin_call = map_option fl (at_margin_call t),
      as_max_per_trade = (case at_max_trade_pct t of None \<Rightarrow> DEFAULT_MAX_MARGIN_PER_TRADE_PCT | Some x \<Rightarrow> fl x),
      as_max_total = (case at_max_total_pct t of None \<Rightarrow> DEFAULT_MAX_TOTAL_MARGIN_PCT | Some x \<Rightarrow> fl x)\<rparr>"

text \<open>From the lock of the account on: \<open>o\<close> is the order, \<open>a\<close> the account's row.\<close>

definition fill_pending ::
  "trading_settings \<Rightarrow> trade_view \<Rightarrow> pk \<Rightarrow> pending_order \<Rightarrow> trading_account \<Rightarrow> rat \<Rightarrow> 'a trading_db_scheme
   \<Rightarrow> trade_fault + trigger_result \<times> 'a trading_db_scheme" where
  "fill_pending cfg tv i po a px s =
     (let k = po_account po; sy = po_symbol po; sd = po_side po; qty = fl (po_qty po); t = terms_of k s;
          fee = PENDING_ORDER_SPREAD_FEE_ENABLED cfg in
      case (if fee then pending_static_spread_charge (tv_enrollments tv) k a t sy qty s else Inr 0) of
        Inl e \<Rightarrow> Inl (ChargeFault e)
      | Inr spread \<Rightarrow>
         (let rows = locked_positions k s; ps = map snd rows; target = merge_target (at_netting t) sy sd rows
          in case fresh_margin (max 1 (int (leverage a))) (currency a) ps of
               None \<Rightarrow> Inl UnknownSymbol
             | Some used \<Rightarrow>
                if \<not> list_all (\<lambda>p. tv_cached tv (pos_symbol p) \<noteq> None) ps
                then Inr (reject_pending i MarketPriceUnavailable s)
                else
                  (let eq = fl (fl (balance a) + fresh_floating (currency a)
                        (\<lambda>p. close_side (pos_side p) (the (tv_cached tv (pos_symbol p)))) ps)
                   in
                     (let (rule, s1) = get_or_create_risk_rule k a s
                      in case approve cfg tv k a (snap_of_row a t) sy sd qty px eq used (target = None)
                                (length rows) rule s1 of
                           Inl e \<Rightarrow> Inl e
                         | Inr (Some c, _) \<Rightarrow> Inr (reject_pending i c s1)
                         | Inr (None, sp) \<Rightarrow>
                             (let profile = build_commercial_pricing_profile
                                    (resolve_commercial_pricing_fields (tv_enrollments tv) k a t s1) sy (tv_spreads tv)
                              in case execute_open (tv_now tv) k a sy sd (py_repr qty) (py_repr px)
                                        (map_option (\<lambda>x. py_repr (fl x)) (po_sl po))
                                        (map_option (\<lambda>x. py_repr (fl x)) (po_tp po)) None target
                                        ENTRY_PENDING_TRIGGER (Some i) False fee
                                        (decimal_charge (commission_for profile sp qty px)) spread s1 of
                                   Inl e \<Rightarrow> Inl e
                                 | Inr (j, _, _, s2) \<Rightarrow>
                                     Inr (OrderTriggered j (target \<noteq> None),
                                       set_pending i (\<lambda>x. x\<lparr>po_status := TRIGGERED,
                                         po_triggered_at := Some (tv_now tv), po_position := Some j\<rparr>) s2))))))"

definition trigger_pending_order ::
  "trading_settings \<Rightarrow> trade_view \<Rightarrow> pk \<Rightarrow> rat \<Rightarrow> 'a trading_db_scheme
   \<Rightarrow> trade_fault + trigger_result \<times> 'a trading_db_scheme" where
  "trigger_pending_order cfg tv i px s =
     (case pending_orders s i of None \<Rightarrow> Inr (NotPending, s) | Some po \<Rightarrow>
      if po_status po \<noteq> PENDING then Inr (NotPending, s)
      else if (case po_expires_at po of None \<Rightarrow> False | Some x \<Rightarrow> x \<le> tv_now tv)
      then Inr (OrderExpired, set_pending i (\<lambda>x. x\<lparr>po_status := EXPIRED\<rparr>) s)
      else if po_symbol po = ''XAU/USD'' then Inr (reject_pending i GoldPilotMarketOnly s)
      else case validate_sl_tp (order_side_text (po_side po)) (stop_value (po_sl po)) (stop_value (po_tp po)) px of
        Some c \<Rightarrow> Inr (reject_pending i (BadStops c) s)
      | None \<Rightarrow>
          (let s0 = take_risk_lock (tv_now tv) s
           in case accounts s0 (po_account po) of
                None \<Rightarrow> Inr (reject_pending i NoAccount s0)
              | Some a \<Rightarrow> fill_pending cfg tv i po a px s0))"


subsection \<open>The life of a pending order\<close>

definition pending_fits :: "rat \<Rightarrow> rat \<Rightarrow> rat option \<Rightarrow> rat option \<Rightarrow> bool" where
  "pending_fits q trig sl tp \<longleftrightarrow> fits 18 q \<and> fits 18 trig
     \<and> (case sl of None \<Rightarrow> True | Some x \<Rightarrow> fits 18 x) \<and> (case tp of None \<Rightarrow> True | Some x \<Rightarrow> fits 18 x)"

definition create_pending_order ::
  "int \<Rightarrow> pk \<Rightarrow> string \<Rightarrow> side \<Rightarrow> order_kind \<Rightarrow> rat \<Rightarrow> rat \<Rightarrow> rat option \<Rightarrow> rat option \<Rightarrow> int option
   \<Rightarrow> 'a trading_db_scheme \<Rightarrow> trade_fault + pk \<times> 'a trading_db_scheme" where
  "create_pending_order now k sy sd kind qty trig sl tp expires s =
     (if \<not> pending_fits (py_repr qty) (py_repr trig) sl tp then Inl ColumnOverflow
      else let i = next_pending s in
        Inr (i, s\<lparr>pending_orders := (pending_orders s)(i \<mapsto>
            \<lparr>po_account = k, po_symbol = sy, po_side = sd, po_kind = kind, po_qty = col6 (py_repr qty),
             po_trigger = col6 (py_repr trig), po_sl = map_option col6 sl, po_tp = map_option col6 tp,
             po_status = PENDING, po_created_at = now, po_expires_at = expires, po_triggered_at = None,
             po_cancelled_at = None, po_position = None\<rparr>), next_pending := Suc i\<rparr>))"

datatype pending_reply = PendingNotFound | PendingNotPending | PendingDone

definition own_pending :: "pk \<Rightarrow> pk \<Rightarrow> 'a trading_db_scheme \<Rightarrow> pending_order option" where
  "own_pending k i s =
     (case pending_orders s i of None \<Rightarrow> None | Some po \<Rightarrow> if po_account po = k then Some po else None)"

definition cancel_pending_order :: "int \<Rightarrow> pk \<Rightarrow> pk \<Rightarrow> 'a trading_db_scheme \<Rightarrow> pending_reply \<times> 'a trading_db_scheme" where
  "cancel_pending_order now k i s =
     (case own_pending k i s of None \<Rightarrow> (PendingNotFound, s)
      | Some po \<Rightarrow> if po_status po \<noteq> PENDING then (PendingNotPending, s)
         else (PendingDone, set_pending i (\<lambda>x. x\<lparr>po_status := CANCELLED, po_cancelled_at := Some now\<rparr>) s))"

text \<open>An argument that is absent leaves its column.\<close>

definition update_pending_order ::
  "pk \<Rightarrow> pk \<Rightarrow> rat option \<Rightarrow> rat option \<Rightarrow> rat option \<Rightarrow> rat option \<Rightarrow> 'a trading_db_scheme
   \<Rightarrow> trade_fault + pending_reply \<times> 'a trading_db_scheme" where
  "update_pending_order k i trig qty sl tp s =
     (case own_pending k i s of None \<Rightarrow> Inr (PendingNotFound, s)
      | Some po \<Rightarrow> if po_status po \<noteq> PENDING then Inr (PendingNotPending, s)
         else
           (let new = (\<lambda>old v. case v of None \<Rightarrow> old | Some x \<Rightarrow> py_repr x);
                opt = (\<lambda>old v. case v of None \<Rightarrow> old | Some x \<Rightarrow> Some (py_repr x));
                q = new (po_qty po) qty; tr = new (po_trigger po) trig; l = opt (po_sl po) sl; u = opt (po_tp po) tp
            in if \<not> pending_fits q tr l u then Inl ColumnOverflow
               else Inr (PendingDone, set_pending i (\<lambda>x. x\<lparr>po_qty := col6 q, po_trigger := col6 tr,
                      po_sl := map_option col6 l, po_tp := map_option col6 u\<rparr>) s)))"

subsection \<open>Scans\<close>

definition kind_text :: "order_kind \<Rightarrow> string" where
  "kind_text c = (case c of LIMIT \<Rightarrow> ''LIMIT'' | STOP \<Rightarrow> ''STOP'')"

definition open_side :: "side \<Rightarrow> rat \<times> rat \<Rightarrow> rat" where
  "open_side sd quote = (if sd = BUY then snd quote else fst quote)"

definition condition_met :: "pending_order \<Rightarrow> rat \<times> rat \<Rightarrow> bool" where
  "condition_met po quote =
     pending_trigger_condition_met (kind_text (po_kind po)) (side_text (po_side po)) (fl (po_trigger po))
       (fst quote) (snd quote)"

text \<open>
  \<open>scan_pending_orders_task\<close>: the rows are read once, the quotes of a symbol too; a fault is
  logged and the scan goes on. The price of an expiry is never read.
\<close>

record scan_counts =
  sn_triggered :: nat
  sn_expired :: nat
  sn_skipped :: nat

definition run_trigger ::
  "trading_settings \<Rightarrow> trade_view \<Rightarrow> pk \<Rightarrow> rat \<Rightarrow> 'a trading_db_scheme \<Rightarrow> trigger_result option \<times> 'a trading_db_scheme" where
  "run_trigger cfg tv i px s =
     (case trigger_pending_order cfg tv i px s of Inl _ \<Rightarrow> (None, s) | Inr (r, s') \<Rightarrow> (Some r, s'))"

definition is_triggered :: "trigger_result option \<Rightarrow> bool" where
  "is_triggered r = (case r of Some (OrderTriggered _ _) \<Rightarrow> True | _ \<Rightarrow> False)"

definition scan_one ::
  "trading_settings \<Rightarrow> trade_view \<Rightarrow> pk \<times> pending_order \<Rightarrow> scan_counts \<times> 'a trading_db_scheme
   \<Rightarrow> scan_counts \<times> 'a trading_db_scheme" where
  "scan_one cfg tv row cs =
     (let (i, po) = row; (cnt, s) = cs
      in if (case po_expires_at po of None \<Rightarrow> False | Some x \<Rightarrow> x \<le> tv_now tv)
         then (let (r, s') = run_trigger cfg tv i 0 s
               in (if r = Some OrderExpired then cnt\<lparr>sn_expired := sn_expired cnt + 1\<rparr> else cnt, s'))
         else case tv_cached tv (po_symbol po) of
                None \<Rightarrow> (cnt\<lparr>sn_skipped := sn_skipped cnt + 1\<rparr>, s)
              | Some quote \<Rightarrow>
                  if \<not> condition_met po quote then (cnt, s)
                  else (let (r, s') = run_trigger cfg tv i (open_side (po_side po) quote) s
                        in (if is_triggered r then cnt\<lparr>sn_triggered := sn_triggered cnt + 1\<rparr> else cnt, s')))"

definition pending_rows :: "'a trading_db_scheme \<Rightarrow> (pk \<times> pending_order) list" where
  "pending_rows s =
     sort_key (\<lambda>r. po_account (snd r))
       (map (\<lambda>i. (i, the (pending_orders s i)))
         (rows_where (next_pending s) (pending_orders s) (\<lambda>x. po_status x = PENDING)))"

definition scan_pending_orders ::
  "trading_settings \<Rightarrow> trade_view \<Rightarrow> 'a trading_db_scheme \<Rightarrow> scan_counts \<times> 'a trading_db_scheme" where
  "scan_pending_orders cfg tv s =
     fold (scan_one cfg tv) (pending_rows s) (\<lparr>sn_triggered = 0, sn_expired = 0, sn_skipped = 0\<rparr>, s)"

text \<open>
  \<open>_check_pending_triggers\<close>, on a tick: the mirror of the connection decides what is tried, and
  keeps only the orders whose trial ended in a fault or was not made.
\<close>

fun check_pending_triggers ::
  "trading_settings \<Rightarrow> trade_view \<Rightarrow> string \<Rightarrow> rat \<times> rat \<Rightarrow> (pk \<times> pending_order) list \<Rightarrow> 'a trading_db_scheme
   \<Rightarrow> (pk \<times> pending_order) list \<times> 'a trading_db_scheme" where
  "check_pending_triggers cfg tv sy quote [] s = ([], s)"
| "check_pending_triggers cfg tv sy quote ((i, po) # rows) s =
     (if po_symbol po = sy \<and> condition_met po quote
      then let (r, s') = run_trigger cfg tv i (open_side (po_side po) quote) s;
               (rest, s'') = check_pending_triggers cfg tv sy quote rows s'
           in (if r = None then (i, po) # rest else rest, s'')
      else let (rest, s') = check_pending_triggers cfg tv sy quote rows s in ((i, po) # rest, s'))"


subsection \<open>What the writes leave alone\<close>

lemma save_fields_simps [simp]:
  fixes s :: "'a trading_db_scheme"
  shows "positions (snd (save_fields c k now a s)) = positions s"
    "next_position (snd (save_fields c k now a s)) = next_position s"
    "next_account (snd (save_fields c k now a s)) = next_account s"
    "trades (snd (save_fields c k now a s)) = trades s"
    "next_trade (snd (save_fields c k now a s)) = next_trade s"
    "broker_ledger (snd (save_fields c k now a s)) = broker_ledger s"
    "risk_rules (snd (save_fields c k now a s)) = risk_rules s"
    "pending_orders (snd (save_fields c k now a s)) = pending_orders s"
    "next_pending (snd (save_fields c k now a s)) = next_pending s"
    "lot_events (snd (save_fields c k now a s)) = lot_events s"
    "rejections (snd (save_fields c k now a s)) = rejections s"
    "position_extras (snd (save_fields c k now a s)) = position_extras s"
    "next_routing (snd (save_fields c k now a s)) = next_routing s"
  by (simp_all add: save_fields_def Let_def update_account_def split: prod.split option.split)

lemma get_or_create_rule_simps [simp]:
  fixes s :: "'a trading_db_scheme"
  shows "positions (snd (get_or_create_risk_rule k a s)) = positions s"
    "next_position (snd (get_or_create_risk_rule k a s)) = next_position s"
    "accounts (snd (get_or_create_risk_rule k a s)) = accounts s"
    "ledger (snd (get_or_create_risk_rule k a s)) = ledger s"
    "trades (snd (get_or_create_risk_rule k a s)) = trades s"
    "next_trade (snd (get_or_create_risk_rule k a s)) = next_trade s"
    "broker_ledger (snd (get_or_create_risk_rule k a s)) = broker_ledger s"
    "pending_orders (snd (get_or_create_risk_rule k a s)) = pending_orders s"
    "next_pending (snd (get_or_create_risk_rule k a s)) = next_pending s"
    "lot_events (snd (get_or_create_risk_rule k a s)) = lot_events s"
    "rejections (snd (get_or_create_risk_rule k a s)) = rejections s"
    "last_prices (snd (get_or_create_risk_rule k a s)) = last_prices s"
  by (simp_all add: get_or_create_risk_rule_def split: option.split)

lemma take_risk_lock_simps [simp]:
  "positions (take_risk_lock now s) = positions s"
  "next_position (take_risk_lock now s) = next_position s"
  "accounts (take_risk_lock now s) = accounts s"
  "ledger (take_risk_lock now s) = ledger s"
  "trades (take_risk_lock now s) = trades s"
  "next_trade (take_risk_lock now s) = next_trade s"
  "broker_ledger (take_risk_lock now s) = broker_ledger s"
  "pending_orders (take_risk_lock now s) = pending_orders s"
  "next_pending (take_risk_lock now s) = next_pending s"
  "lot_events (take_risk_lock now s) = lot_events s"
  "rejections (take_risk_lock now s) = rejections s"
  by (simp_all add: take_risk_lock_def)

lemma set_pending_simps [simp]:
  "positions (set_pending i f s) = positions s"
  "next_position (set_pending i f s) = next_position s"
  "accounts (set_pending i f s) = accounts s"
  "trades (set_pending i f s) = trades s"
  "next_trade (set_pending i f s) = next_trade s"
  "next_pending (set_pending i f s) = next_pending s"
  "lot_events (set_pending i f s) = lot_events s"
  "pending_orders (set_pending i f s) = update_row i f (pending_orders s)"
  by (simp_all add: set_pending_def)

lemma reject_pending_simps [simp]:
  "positions (snd (reject_pending i c s)) = positions s"
  "next_position (snd (reject_pending i c s)) = next_position s"
  "trades (snd (reject_pending i c s)) = trades s"
  "next_trade (snd (reject_pending i c s)) = next_trade s"
  "next_pending (snd (reject_pending i c s)) = next_pending s"
  "lot_events (snd (reject_pending i c s)) = lot_events s"
  "pending_orders (snd (reject_pending i c s)) = update_row i (\<lambda>x. x\<lparr>po_status := REJECTED\<rparr>) (pending_orders s)"
  "fst (reject_pending i c s) = OrderRejected c"
  by (simp_all add: reject_pending_def)

lemma create_entry_plain:
  "create_entry ((blank_entry ty amount now)\<lparr>bl_account := x, bl_symbol := y\<rparr>) s
     = Inr ((blank_entry ty amount now)\<lparr>bl_account := x, bl_symbol := y, bl_amount := col2 amount\<rparr>,
         s\<lparr>broker_ledger := broker_ledger s @ [(blank_entry ty amount now)\<lparr>bl_account := x, bl_symbol := y, bl_amount := col2 amount\<rparr>]\<rparr>)"
  by (auto simp: create_entry_def bl_conflict_def same_source_def blank_entry_def Let_def)

text \<open>The row of the broker's ledger is never refused.\<close>

lemma book_charge_eq:
  "book_charge ev ty amount k sy i now bal s =
     s\<lparr>ledger := ledger s @ [charge_entry ev k amount bal sy i now],
       broker_ledger := broker_ledger s @ [(blank_entry ty amount now)\<lparr>bl_account := Some k, bl_symbol := Some sy, bl_amount := col2 amount\<rparr>]\<rparr>"
  by (simp add: book_charge_def try_entry_def create_entry_plain add_ledger_def)

lemma book_charge_simps [simp]:
  fixes s :: "'a trading_db_scheme"
  shows "positions (book_charge ev ty amount k sy i now bal s) = positions s"
    "next_position (book_charge ev ty amount k sy i now bal s) = next_position s"
    "accounts (book_charge ev ty amount k sy i now bal s) = accounts s"
    "trades (book_charge ev ty amount k sy i now bal s) = trades s"
    "next_trade (book_charge ev ty amount k sy i now bal s) = next_trade s"
    "pending_orders (book_charge ev ty amount k sy i now bal s) = pending_orders s"
    "next_pending (book_charge ev ty amount k sy i now bal s) = next_pending s"
    "lot_events (book_charge ev ty amount k sy i now bal s) = lot_events s"
    "position_extras (book_charge ev ty amount k sy i now bal s) = position_extras s"
  by (simp_all add: book_charge_eq)

lemma post_charges_keeps:
  fixes s :: "'a trading_db_scheme"
  assumes "post_charges b k a sy i c f now s = Inr (bal, s')"
  shows "positions s' = positions s" "next_position s' = next_position s" "trades s' = trades s"
    "next_trade s' = next_trade s" "pending_orders s' = pending_orders s" "next_pending s' = next_pending s"
    "lot_events s' = lot_events s"
  using assms by (auto simp: post_charges_def Let_def split: sum.splits prod.splits if_splits)

lemma record_routing_simps [simp]:
  "positions (snd (record_routing_decision k i m s)) = positions s"
  "next_position (snd (record_routing_decision k i m s)) = next_position s"
  "accounts (snd (record_routing_decision k i m s)) = accounts s"
  "ledger (snd (record_routing_decision k i m s)) = ledger s"
  "broker_ledger (snd (record_routing_decision k i m s)) = broker_ledger s"
  "trades (snd (record_routing_decision k i m s)) = trades s"
  "next_trade (snd (record_routing_decision k i m s)) = next_trade s"
  "pending_orders (snd (record_routing_decision k i m s)) = pending_orders s"
  "next_pending (snd (record_routing_decision k i m s)) = next_pending s"
  "lot_events (snd (record_routing_decision k i m s)) = lot_events s"
  by (simp_all add: record_routing_decision_def Let_def)


subsection \<open>Effects\<close>

text \<open>
  The orders, positions, trades and executions as they were; and one execution: a lot event, and the quantity
  on a new position or on a position of the same account, symbol and side.
\<close>

definition book_same :: "'a trading_db_scheme \<Rightarrow> 'a trading_db_scheme \<Rightarrow> bool" where
  "book_same s s' \<longleftrightarrow> positions s' = positions s \<and> next_position s' = next_position s \<and> trades s' = trades s
     \<and> next_trade s' = next_trade s \<and> lot_events s' = lot_events s
     \<and> pending_orders s' = pending_orders s \<and> next_pending s' = next_pending s"

definition filled ::
  "pk \<Rightarrow> string \<Rightarrow> side \<Rightarrow> rat \<Rightarrow> entry_path \<Rightarrow> pk option \<Rightarrow> pk \<Rightarrow> 'a trading_db_scheme \<Rightarrow> 'a trading_db_scheme \<Rightarrow> bool" where
  "filled k sy sd q path order i s s' \<longleftrightarrow>
     (\<exists>px m. lot_events s' = lot_events s @ [\<lparr>lx_account = k, lx_position = Some i, lx_symbol = sy, lx_side = sd,
        lx_qty = col6 q, lx_price = px, lx_merged = m, lx_path = path, lx_order = order\<rparr>])
     \<and> (\<exists>p. positions s' = (positions s)(i \<mapsto> p) \<and> pos_account p = k \<and> pos_symbol p = sy \<and> pos_side p = sd
          \<and> fits 18 (pos_qty p)
          \<and> (i = next_position s \<and> next_position s' = Suc i \<and> pos_qty p = col6 q
             \<or> i < next_position s \<and> next_position s' = next_position s
               \<and> (\<exists>p0. positions s i = Some p0 \<and> pos_account p0 = k \<and> pos_symbol p0 = sy \<and> pos_side p0 = sd
                    \<and> pos_qty p = col6 (dec_ctx (pos_qty p0 + q)))))
     \<and> trades s' = trades s \<and> next_trade s' = next_trade s"

lemma book_sameI [intro]:
  assumes "positions s' = positions s" "next_position s' = next_position s" "trades s' = trades s"
    "next_trade s' = next_trade s" "lot_events s' = lot_events s" "pending_orders s' = pending_orders s"
    "next_pending s' = next_pending s"
  shows "book_same s s'"
  using assms by (simp add: book_same_def)

lemma book_same_refl [simp]: "book_same s s"
  by (simp add: book_same_def)

lemma locked_rows:
  assumes "(i, p) \<in> set (locked_positions k s)"
  shows "positions s i = Some p" "pos_account p = k" "i < next_position s"
  using assms by (auto simp: locked_positions_def open_positions_def set_rows_where)

lemma merge_target_Some:
  assumes "merge_target n sy sd (locked_positions k s) = Some (i, p)"
  shows "positions s i = Some p" "pos_account p = k" "i < next_position s" "pos_symbol p = sy" "pos_side p = sd"
proof -
  have f: "find (\<lambda>(i, p). pos_symbol p = sy \<and> pos_side p = sd) (locked_positions k s) = Some (i, p)"
    using assms by (simp add: merge_target_def split: if_splits)
  then have "(i, p) \<in> set (locked_positions k s)" "pos_symbol p = sy \<and> pos_side p = sd"
    by (auto simp: find_Some_iff) (metis nth_mem)
  then show "positions s i = Some p" "pos_account p = k" "i < next_position s" "pos_symbol p = sy" "pos_side p = sd"
    using locked_rows[of i p k s] by auto
qed

lemma place_position_Inr:
  assumes "place_position now k sy sd q px sl tp ctx target s = Inr (i, s')"
  shows "\<exists>p. positions s' = (positions s)(i \<mapsto> p) \<and> position_fits p
    \<and> (target = None \<and> i = next_position s \<and> next_position s' = Suc i \<and> p = new_position now k sy sd q px sl tp
       \<or> (\<exists>p0. target = Some (i, p0) \<and> next_position s' = next_position s \<and> p = merged_position q px sl tp p0))"
    and "trades s' = trades s" "next_trade s' = next_trade s" "pending_orders s' = pending_orders s"
    "next_pending s' = next_pending s" "lot_events s' = lot_events s" "accounts s' = accounts s"
    "ledger s' = ledger s" "broker_ledger s' = broker_ledger s"
  using assms by (auto simp: place_position_def Let_def split: option.splits prod.splits if_splits)

lemma execute_open_filled:
  fixes s :: "'a trading_db_scheme"
  assumes "execute_open now k a sy sd q px sl tp ctx target path order route al c f s = Inr (i, r, bal, s')"
    and "target = merge_target n sy sd (locked_positions k s)"
  shows "filled k sy sd q path order i s s'" "pending_orders s' = pending_orders s" "next_pending s' = next_pending s"
proof -
  obtain s1 s2 r' s3 where 1: "place_position now k sy sd q px sl tp ctx target s = Inr (i, s1)"
    and 2: "add_lot_event k i sy sd q px (target \<noteq> None) path order s1 = Inr s2"
    and 3: "(if route then apfst Some (record_routing_decision k i (target \<noteq> None) s2) else (None, s2)) = (r', s3)"
    and 4: "post_charges al k a sy i c f now s3 = Inr (bal, s')"
    using assms(1) unfolding execute_open_def Let_def
    by (auto split: sum.splits prod.splits)
  have s3: "positions s3 = positions s2" "next_position s3 = next_position s2" "trades s3 = trades s2"
      "next_trade s3 = next_trade s2" "pending_orders s3 = pending_orders s2" "next_pending s3 = next_pending s2"
      "lot_events s3 = lot_events s2"
    using 3 record_routing_simps[of k i "target \<noteq> None" s2]
    by (cases "record_routing_decision k i (target \<noteq> None) s2"; force split: if_splits)+
  note k = post_charges_keeps[OF 4] s3 place_position_Inr(2-6)[OF 1]
  have e: "lot_events s' = lot_events s @ [\<lparr>lx_account = k, lx_position = Some i, lx_symbol = sy, lx_side = sd,
        lx_qty = col6 q, lx_price = col6 px, lx_merged = (target \<noteq> None), lx_path = path, lx_order = order\<rparr>]"
    and s2: "positions s2 = positions s1" "next_position s2 = next_position s1" "trades s2 = trades s1"
      "next_trade s2 = next_trade s1" "pending_orders s2 = pending_orders s1" "next_pending s2 = next_pending s1"
    using 2 k by (auto simp: add_lot_event_def split: if_splits)
  obtain p where p: "positions s1 = (positions s)(i \<mapsto> p)" "position_fits p"
      "target = None \<and> i = next_position s \<and> next_position s1 = Suc i \<and> p = new_position now k sy sd q px sl tp
       \<or> (\<exists>p0. target = Some (i, p0) \<and> next_position s1 = next_position s \<and> p = merged_position q px sl tp p0)"
    using place_position_Inr(1)[OF 1] by blast
  show "pending_orders s' = pending_orders s" "next_pending s' = next_pending s" using k s2 by simp_all
  have "fits 18 (pos_qty p)" using p(2) by (simp add: position_fits_def)
  moreover have "pos_account p = k \<and> pos_symbol p = sy \<and> pos_side p = sd \<and>
      (i = next_position s \<and> next_position s1 = Suc i \<and> pos_qty p = col6 q
       \<or> i < next_position s \<and> next_position s1 = next_position s
         \<and> (\<exists>p0. positions s i = Some p0 \<and> pos_account p0 = k \<and> pos_symbol p0 = sy \<and> pos_side p0 = sd
              \<and> pos_qty p = col6 (dec_ctx (pos_qty p0 + q))))"
    using p(3)
  proof
    assume "\<exists>p0. target = Some (i, p0) \<and> next_position s1 = next_position s \<and> p = merged_position q px sl tp p0"
    then obtain p0 where t: "target = Some (i, p0)" "next_position s1 = next_position s" "p = merged_position q px sl tp p0"
      by blast
    from merge_target_Some[of n sy sd k s i p0] t(1) assms(2)
    have "positions s i = Some p0" "pos_account p0 = k" "i < next_position s" "pos_symbol p0 = sy" "pos_side p0 = sd"
      by simp_all
    then show ?thesis using t by (simp add: merged_position_def Let_def)
  qed (simp add: new_position_def)
  ultimately show "filled k sy sd q path order i s s'"
    unfolding filled_def using e p(1) k s2 by auto
qed


lemma locked_positions_cong:
  "positions s' = positions s \<Longrightarrow> next_position s' = next_position s \<Longrightarrow> locked_positions k s' = locked_positions k s"
  by (simp add: locked_positions_def open_positions_def)

lemma book_same_trans: "book_same s t \<Longrightarrow> book_same t u \<Longrightarrow> book_same s u"
  by (simp add: book_same_def)

lemma book_same_lock [simp]: "book_same s (take_risk_lock now s)"
  by (intro book_sameI) simp_all

lemma book_same_rule [simp]: "book_same s (snd (get_or_create_risk_rule k a s))"
  by (intro book_sameI) simp_all

lemma filled_from:
  assumes "book_same s s1" "filled k sy sd q path order i s1 s'"
  shows "filled k sy sd q path order i s s'"
  using assms by (simp add: filled_def book_same_def)

text \<open>A market order changes the book only by the one execution it reports.\<close>

lemma open_position_effect:
  assumes "open_position_atomic cfg tv k sn sy sd qty price sl tp commission ctx s = Inr (res, s')"
  shows "(\<exists>c. res = Refused c) \<and> book_same s s'
    \<or> (\<exists>i m bal r. res = Opened i m bal r \<and> filled k sy sd (py_repr qty) ENTRY_MANUAL_WS None i s s'
         \<and> pending_orders s' = pending_orders s \<and> next_pending s' = next_pending s)"
proof -
  define s0 where "s0 = take_risk_lock (tv_now tv) s"
  have b0: "book_same s s0" by (simp add: s0_def)
  note u = assms[unfolded open_position_atomic_def Let_def, folded s0_def]
  show ?thesis
  proof (cases "accounts s0 k")
    case None
    then show ?thesis using u b0 by auto
  next
    case (Some a)
    define s1 where "s1 = snd (get_or_create_risk_rule k a s0)"
    obtain rule where g: "get_or_create_risk_rule k a s0 = (rule, s1)" by (metis s1_def prod.collapse)
    have b1: "book_same s s1" using b0 book_same_rule[of s0 k a] book_same_trans unfolding s1_def by blast
    have l: "locked_positions k s0 = locked_positions k s1" unfolding s1_def by (rule locked_positions_cong) simp_all
    have "(\<exists>c. res = Refused c) \<and> (s' = s0 \<or> s' = s1)
      \<or> (\<exists>now x n rt al c f i r m bal fb. res = Opened i m fb r
           \<and> execute_open now k a sy sd (py_repr qty) x sl tp ctx (merge_target n sy sd (locked_positions k s1))
               ENTRY_MANUAL_WS None rt al c f s1 = Inr (i, r, bal, s'))"
      using u Some by (auto simp: g l split: if_splits option.splits sum.splits prod.splits)
    then show ?thesis
    proof (elim disjE exE conjE)
      fix now x n rt al c f i r m bal fb
      assume r: "res = Opened i m fb r"
        and e: "execute_open now k a sy sd (py_repr qty) x sl tp ctx (merge_target n sy sd (locked_positions k s1))
               ENTRY_MANUAL_WS None rt al c f s1 = Inr (i, r, bal, s')"
      show ?thesis using r execute_open_filled[OF e refl] filled_from[OF b1] b1 by (auto simp: book_same_def)
    qed (use b0 b1 in auto)
  qed
qed


text \<open>What the trigger of an order may do to the book, and to the order.\<close>

definition trigger_outcome ::
  "trade_view \<Rightarrow> pk \<Rightarrow> pending_order \<Rightarrow> trigger_result \<Rightarrow> 'a trading_db_scheme \<Rightarrow> 'a trading_db_scheme \<Rightarrow> bool" where
  "trigger_outcome tv i po r s s' \<longleftrightarrow>
     (case r of
        NotPending \<Rightarrow> False
      | OrderExpired \<Rightarrow> book_same (set_pending i (\<lambda>x. x\<lparr>po_status := EXPIRED\<rparr>) s) s'
      | OrderRejected c \<Rightarrow> book_same (set_pending i (\<lambda>x. x\<lparr>po_status := REJECTED\<rparr>) s) s'
      | OrderTriggered j m \<Rightarrow>
          filled (po_account po) (po_symbol po) (po_side po) (py_repr (fl (po_qty po))) ENTRY_PENDING_TRIGGER (Some i) j s s'
          \<and> next_pending s' = next_pending s
          \<and> pending_orders s' = (pending_orders s)(i \<mapsto> po\<lparr>po_status := TRIGGERED, po_triggered_at := Some (tv_now tv),
              po_position := Some j\<rparr>))"

lemma reject_outcome:
  assumes "book_same s s1" "reject_pending i c s1 = (r, s')"
  shows "r = OrderRejected c \<and> book_same (set_pending i (\<lambda>x. x\<lparr>po_status := REJECTED\<rparr>) s) s'"
  using assms reject_pending_simps[of i c s1] by (simp add: book_same_def)

lemma fill_pending_outcome:
  assumes "fill_pending cfg tv i po a px s1 = Inr (r, s')" "book_same s s1" "pending_orders s i = Some po"
  shows "trigger_outcome tv i po r s s'"
proof -
  define k t fee where "k = po_account po" and "t = terms_of k s1" and "fee = PENDING_ORDER_SPREAD_FEE_ENABLED cfg"
  define s2 where "s2 = snd (get_or_create_risk_rule k a s1)"
  obtain rule where g: "get_or_create_risk_rule k a s1 = (rule, s2)" by (metis s2_def prod.collapse)
  have b: "book_same s s2" using assms(2) book_same_rule[of s1 k a] book_same_trans unfolding s2_def by blast
  have l: "locked_positions k s1 = locked_positions k s2" unfolding s2_def by (rule locked_positions_cong) simp_all
  note u = assms(1)[unfolded fill_pending_def Let_def, folded k_def, folded t_def, folded fee_def]
  have rej: "trigger_outcome tv i po r s s'" if "reject_pending i c s3 = (r, s')" "book_same s s3" for c and s3 :: "'a trading_db_scheme"
    using reject_outcome[OF that(2,1)] by (auto simp: trigger_outcome_def)
  have fin: "trigger_outcome tv i po r s s'"
    if e: "execute_open now k a sy sd q x sl tp ctx (merge_target n sy sd (locked_positions k s2)) path ord rt al c f s2 = Inr (j, r', bal, s4)"
      and w: "r = OrderTriggered j m"
        "s' = set_pending i (\<lambda>x. x\<lparr>po_status := TRIGGERED, po_triggered_at := Some (tv_now tv), po_position := Some j\<rparr>) s4"
      and d: "sy = po_symbol po" "sd = po_side po" "q = py_repr (fl (po_qty po))" "path = ENTRY_PENDING_TRIGGER" "ord = Some i"
    for now sy sd q x sl tp ctx n path ord rt al c f j r' bal s4 m
  proof -
    have "filled k sy sd q path ord j s2 s4" "pending_orders s4 = pending_orders s2" "next_pending s4 = next_pending s2"
      using execute_open_filled[OF e refl] by simp_all
    moreover have "filled k sy sd q path ord j s s4" using filled_from[OF b] calculation(1) by blast
    ultimately show ?thesis using w d b assms(3) by (simp add: trigger_outcome_def filled_def book_same_def k_def)
  qed
  have "(\<exists>c. reject_pending i c s1 = (r, s')) \<or> (\<exists>c. reject_pending i c s2 = (r, s'))
    \<or> (\<exists>now x sl tp ctx n rt al c f j r' bal s4 m.
         execute_open now k a (po_symbol po) (po_side po) (py_repr (fl (po_qty po))) x sl tp ctx
           (merge_target n (po_symbol po) (po_side po) (locked_positions k s2)) ENTRY_PENDING_TRIGGER (Some i) rt al c f s2
           = Inr (j, r', bal, s4)
         \<and> r = OrderTriggered j m
         \<and> s' = set_pending i (\<lambda>x. x\<lparr>po_status := TRIGGERED, po_triggered_at := Some (tv_now tv), po_position := Some j\<rparr>) s4)"
    using u by (auto simp: g l split: if_splits option.splits sum.splits prod.splits) blast+
  then show ?thesis
  proof (elim disjE exE conjE)
    fix now x sl tp ctx n rt al c f j r' bal s4 m
    assume "execute_open now k a (po_symbol po) (po_side po) (py_repr (fl (po_qty po))) x sl tp ctx
           (merge_target n (po_symbol po) (po_side po) (locked_positions k s2)) ENTRY_PENDING_TRIGGER (Some i) rt al c f s2
           = Inr (j, r', bal, s4)"
      and "r = OrderTriggered j m"
      and "s' = set_pending i (\<lambda>x. x\<lparr>po_status := TRIGGERED, po_triggered_at := Some (tv_now tv), po_position := Some j\<rparr>) s4"
    then show ?thesis by (rule fin) (rule refl)+
  qed (rule rej[OF _ assms(2)] rej[OF _ b]; assumption)+
qed

lemma trigger_pending_effect:
  assumes "trigger_pending_order cfg tv i px s = Inr (r, s')"
  shows "r = NotPending \<and> s' = s
    \<or> (\<exists>po. pending_orders s i = Some po \<and> po_status po = PENDING \<and> trigger_outcome tv i po r s s')"
proof (cases "pending_orders s i")
  case (Some po)
  note u = assms[unfolded trigger_pending_order_def Let_def Some option.case]
  show ?thesis
  proof (cases "po_status po = PENDING")
    case True
    have rej: "trigger_outcome tv i po r s s'" if "reject_pending i c s3 = (r, s')" "book_same s s3" for c and s3 :: "'a trading_db_scheme"
      using reject_outcome[OF that(2,1)] by (auto simp: trigger_outcome_def)
    have "(\<exists>c. reject_pending i c s = (r, s')) \<or> (\<exists>c. reject_pending i c (take_risk_lock (tv_now tv) s) = (r, s'))
      \<or> (\<exists>a. fill_pending cfg tv i po a px (take_risk_lock (tv_now tv) s) = Inr (r, s'))
      \<or> r = OrderExpired \<and> s' = set_pending i (\<lambda>x. x\<lparr>po_status := EXPIRED\<rparr>) s"
      using u True by (auto split: if_splits option.splits)
    then have "trigger_outcome tv i po r s s'"
      using rej[OF _ book_same_refl] rej[OF _ book_same_lock] fill_pending_outcome[OF _ book_same_lock Some]
      by (elim disjE exE conjE) (auto simp: trigger_outcome_def)
    with Some True show ?thesis by blast
  qed (use u in auto)
qed (use assms in \<open>auto simp: trigger_pending_order_def\<close>)

end
