(* ===== verification/Closing.thy ===== *)
theory Closing
  imports Trading
begin

section \<open>Closing of positions (\<open>simulator/consumers.py\<close>, \<open>simulator/tasks.py\<close>)\<close>

text \<open>
  The transaction that closes a position, in full or in part: the trade, the ledger, the counterparty
  result of the broker, the settlement of a simulated hedge, the account's money, and the risk and
  behaviour engines. The offline daemon that enforces stop-out, stop loss and take profit is built on
  its twin in \<open>tasks.py\<close>. Messages, log lines, audit events and notifications are left out.
\<close>

subsection \<open>Requests and results\<close>

text \<open>What the caller remembers of the position; prices are floats, the time is in seconds.\<close>

record pos_mem =
  pm_id :: pk
  pm_symbol :: string
  pm_side :: side
  pm_sl :: "rat option"
  pm_tp :: "rat option"
  pm_opened :: int

text \<open>\<open>cq_equity\<close> and \<open>cq_balance\<close> are the caller's estimates before the lock.\<close>

record close_request =
  cq_pos :: pos_mem
  cq_price :: rat
  cq_reason :: string
  cq_balance :: rat
  cq_equity :: rat
  cq_context :: "pricing_context option"
  cq_qty :: "rat option"
  cq_currency :: string

datatype close_code = InvalidQty | QtyExceedsPosition | PnlUnavailable pnl_error

record closed =
  cd_balance :: rat
  cd_equity :: rat
  cd_status :: acc_status
  cd_peak :: rat
  cd_violations :: "violation_type list"
  cd_trade :: pk
  cd_realized :: rat
  cd_qty :: rat
  cd_remaining :: "rat option"

datatype close_result = AlreadyClosed | CloseRefused close_code | Closed closed

subsection \<open>The amounts\<close>

text \<open>
  The money after the close: the balance of the locked row plus the realized result, floored at zero;
  the floating result of the other positions is the difference of the caller's estimates.
\<close>

record close_money =
  cm_after :: rat
  cm_balance :: rat
  cm_equity :: rat
  cm_shortfall :: rat

definition close_amounts :: "trading_account option \<Rightarrow> close_request \<Rightarrow> rat \<Rightarrow> close_money" where
  "close_amounts acct cq r =
     (let nb = py_repr (cq_balance cq);
          floating = dec_ctx (py_repr (cq_equity cq) - nb);
          after = (case acct of None \<Rightarrow> nb | Some a \<Rightarrow> dec_ctx (balance a + r));
          safe = max after 0
      in \<lparr>cm_after = after, cm_balance = safe, cm_equity = max (dec_ctx (safe + floating)) 0,
          cm_shortfall = \<bar>min after 0\<bar>\<rparr>)"

definition closing_pnl :: "close_request \<Rightarrow> position \<Rightarrow> rat \<Rightarrow> pnl_result" where
  "closing_pnl cq p q =
     calculate_position_pnl (order_side_text (pm_side (cq_pos cq))) (PyDecimal (pos_avg p)) (PyFloat (cq_price cq))
       (PyDecimal q) (pm_symbol (cq_pos cq)) (cq_currency cq)"

definition closing_trade :: "int \<Rightarrow> pk \<Rightarrow> close_request \<Rightarrow> position \<Rightarrow> rat \<Rightarrow> rat \<Rightarrow> trade" where
  "closing_trade now k cq p q r =
     \<lparr>tr_account = k, tr_symbol = pm_symbol (cq_pos cq), tr_side = pm_side (cq_pos cq), tr_lots = col6 q,
      tr_entry = pos_avg p, tr_exit = Some (col6 (py_repr (cq_price cq))),
      tr_sl = map_option (\<lambda>x. col6 (py_repr x)) (pm_sl (cq_pos cq)),
      tr_tp = map_option (\<lambda>x. col6 (py_repr x)) (pm_tp (cq_pos cq)),
      tr_pnl = Some (col2 r), tr_opened_at = pm_opened (cq_pos cq) * 1000000, tr_closed_at = Some now\<rparr>"

definition trade_fits :: "close_request \<Rightarrow> rat \<Rightarrow> bool" where
  "trade_fits cq q \<longleftrightarrow> fits 10 q \<and> fits 18 (py_repr (cq_price cq))
     \<and> (case pm_sl (cq_pos cq) of None \<Rightarrow> True | Some x \<Rightarrow> fits 18 (py_repr x))
     \<and> (case pm_tp (cq_pos cq) of None \<Rightarrow> True | Some x \<Rightarrow> fits 18 (py_repr x))"

subsection \<open>The rows\<close>

definition add_trade :: "trade \<Rightarrow> trade_extra \<Rightarrow> 'a trading_db_scheme \<Rightarrow> pk \<times> 'a trading_db_scheme" where
  "add_trade t x s =
     (next_trade s, s\<lparr>trades := (trades s)(next_trade s \<mapsto> t),
        trade_extras := (trade_extras s)(next_trade s \<mapsto> x), next_trade := Suc (next_trade s)\<rparr>)"

definition realized_entry :: "int \<Rightarrow> pk \<Rightarrow> rat \<Rightarrow> rat \<Rightarrow> string \<Rightarrow> pk \<Rightarrow> ledger_entry" where
  "realized_entry now k r bal reason t =
     \<lparr>le_account = k, le_event = EV_REALIZED, le_amount = col2 r, le_balance_after = col2 bal,
      le_meta = [(''reason'', MStr reason), (''trade_id'', MKey t)], le_created_at = now\<rparr>"

definition guard_entry :: "int \<Rightarrow> pk \<Rightarrow> close_money \<Rightarrow> ledger_entry" where
  "guard_entry now k m =
     \<lparr>le_account = k, le_event = EV_ADJUST, le_amount = 0, le_balance_after = col2 (cm_balance m),
      le_meta = [(''reason'', MStr ''negative_balance_guard''), (''shortfall'', MNum (fl (cm_shortfall m)))],
      le_created_at = now\<rparr>"

text \<open>The hedge that was simulated when the position was opened, if there was one, is settled.\<close>

definition latest_liquidity :: "pk \<Rightarrow> 'a trading_db_scheme \<Rightarrow> pk option" where
  "latest_liquidity r s =
     (case sort_key (\<lambda>i. - lq_decided_at (the (liquidity_rows s i)))
             (rows_where (next_liquidity s) (liquidity_rows s) (\<lambda>x. lq_routing x = r)) of
        [] \<Rightarrow> None | i # _ \<Rightarrow> Some i)"

definition settle_liquidity ::
  "pk option \<Rightarrow> pk \<Rightarrow> string \<Rightarrow> rat \<Rightarrow> 'a trading_db_scheme \<Rightarrow> 'a trading_db_scheme" where
  "settle_liquidity routing t sy r s =
     (case routing of None \<Rightarrow> s
      | Some d \<Rightarrow> (case latest_liquidity d s of None \<Rightarrow> s
          | Some l \<Rightarrow> s\<lparr>settlements := settlements s @
              [\<lparr>lg_trade = t, lg_decision = l, lg_symbol = sy, lg_pnl = col2 (if r = 0 then 0 else - r)\<rparr>]\<rparr>))"

text \<open>Deleting a position clears the references to it.\<close>

definition forget :: "pk \<Rightarrow> pk option \<Rightarrow> pk option" where
  "forget i x = (if x = Some i then None else x)"

definition delete_position :: "pk \<Rightarrow> 'a trading_db_scheme \<Rightarrow> 'a trading_db_scheme" where
  "delete_position i s =
     s\<lparr>positions := (positions s)(i := None), position_extras := (position_extras s)(i := None),
       routing_rows := map_option (\<lambda>x. x\<lparr>rr_position := forget i (rr_position x)\<rparr>) \<circ> routing_rows s,
       desk_rows := map (\<lambda>x. x\<lparr>dk_position := forget i (dk_position x)\<rparr>) (desk_rows s),
       lot_events := map (\<lambda>x. x\<lparr>lx_position := forget i (lx_position x)\<rparr>) (lot_events s),
       liquidity_rows := map_option (\<lambda>x. x\<lparr>lq_position := forget i (lq_position x)\<rparr>) \<circ> liquidity_rows s\<rparr>"

definition shrink_position :: "pk \<Rightarrow> position \<Rightarrow> rat \<Rightarrow> 'a trading_db_scheme \<Rightarrow> 'a trading_db_scheme" where
  "shrink_position i p q s =
     (if q = pos_qty p then delete_position i s
      else s\<lparr>positions := (positions s)(i \<mapsto> p\<lparr>pos_qty := col6 (dec_ctx (pos_qty p - q))\<rparr>)\<rparr>)"

text \<open>
  The account after the close; \<open>None\<close> is an overflow of a column of the behaviour row. The object
  is what the caller sees of the status and the peak.
\<close>

definition settle_account ::
  "trade_view \<Rightarrow> pk \<Rightarrow> trading_account \<Rightarrow> close_money \<Rightarrow> 'a trading_db_scheme
   \<Rightarrow> (violation_type list \<times> trading_account \<times> 'a trading_db_scheme) option" where
  "settle_account tv k a m s =
     (let (a1, s1) = save_fields col_money k (tv_now tv) (a\<lparr>balance := cm_balance m, equity := cm_equity m\<rparr>) s;
          (vs, a2, s2) = check_and_enforce_risk (tv_now tv) k a1 s1
      in map_option (\<lambda>s3. (vs, a2, s3)) (update_intelligence (tv_pow tv) (tv_now tv) k a2 s2))"

definition record_close ::
  "trade_view \<Rightarrow> pk \<Rightarrow> close_request \<Rightarrow> pk \<Rightarrow> position \<Rightarrow> rat \<Rightarrow> rat \<Rightarrow> pnl_result \<Rightarrow> close_money
   \<Rightarrow> 'a trading_db_scheme \<Rightarrow> trade_fault + pk \<times> 'a trading_db_scheme" where
  "record_close tv k cq i p q r res m s =
     (let now = tv_now tv; x = position_extras s i; routing = (case x of None \<Rightarrow> None | Some e \<Rightarrow> px_routing e);
          row = closing_trade now k cq p q r;
          (t, s1) = add_trade row \<lparr>te_open = (case x of None \<Rightarrow> None | Some e \<Rightarrow> px_context e),
             te_close = cq_context cq, te_conversion = res, te_routing = routing\<rparr> s;
          s2 = add_ledger (realized_entry now k r (cm_balance m) (cq_reason cq) t) s1
      in case (if accounts s k = None then Inr s2
               else map_sum BooksFault snd (create_broker_counterparty_entry now (t, row) k r s2)) of
           Inl e \<Rightarrow> Inl e
         | Inr s3 \<Rightarrow>
            (let s4 = settle_liquidity routing t (tr_symbol row) r s3;
                 s5 = (if 0 < cm_shortfall m then add_ledger (guard_entry now k m) s4 else s4)
             in Inr (t, shrink_position i p q s5)))"

text \<open>\<open>gone\<close>: what the caller reports when the account's row is missing.\<close>

definition close_position ::
  "acc_status \<times> rat \<Rightarrow> trade_view \<Rightarrow> pk \<Rightarrow> close_request \<Rightarrow> 'a trading_db_scheme
   \<Rightarrow> trade_fault + close_result \<times> 'a trading_db_scheme" where
  "close_position gone tv k cq s =
     (let i = pm_id (cq_pos cq) in
      case (case positions s i of None \<Rightarrow> None | Some p \<Rightarrow> if pos_account p = k then Some p else None) of
        None \<Rightarrow> Inr (AlreadyClosed, s)
      | Some p \<Rightarrow>
         (let q = (case cq_qty cq of None \<Rightarrow> pos_qty p | Some x \<Rightarrow> x)
          in if q \<le> 0 then Inr (CloseRefused InvalidQty, s)
             else if pos_qty p < q then Inr (CloseRefused QtyExceedsPosition, s)
             else
               (let res = closing_pnl cq p q in
                case pr_account_amount res of
                  None \<Rightarrow> Inr (CloseRefused (PnlUnavailable (case pr_error res of Some e \<Rightarrow> e | None \<Rightarrow> NO_CONVERSION_RATE)), s)
                | Some x \<Rightarrow>
                   (let realized = fl x; r = py_repr realized; m = close_amounts (accounts s k) cq r
                    in if \<not> trade_fits cq q then Inl ColumnOverflow
                       else case record_close tv k cq i p q r res m s of
                         Inl e \<Rightarrow> Inl e
                       | Inr (t, s1) \<Rightarrow>
                          (case (case accounts s k of
                                   None \<Rightarrow> Some ([], fst gone, snd gone, s1)
                                 | Some a \<Rightarrow> map_option (\<lambda>(vs, a', s2). (vs, acc_status a', fl (peak_balance a'), s2))
                                      (settle_account tv k a m s1)) of
                             None \<Rightarrow> Inl ColumnOverflow
                           | Some (vs, st, peak, s2) \<Rightarrow>
                               Inr (Closed \<lparr>cd_balance = fl (cm_balance m), cd_equity = fl (cm_equity m), cd_status = st,
                                  cd_peak = peak, cd_violations = vs, cd_trade = t, cd_realized = realized,
                                  cd_qty = fl q, cd_remaining = (if q = pos_qty p then None
                                    else Some (fl (dec_ctx (pos_qty p - q))))\<rparr>, s2))))))"


subsection \<open>Effects\<close>

text \<open>
  Closing \<open>q\<close> of a position: the trade, and the position without the quantity. The lot events lose at
  most their reference to the position.
\<close>

definition closed_out ::
  "pk \<Rightarrow> close_request \<Rightarrow> rat \<Rightarrow> 'a trading_db_scheme \<Rightarrow> 'a trading_db_scheme \<Rightarrow> bool" where
  "closed_out k cq q s s' \<longleftrightarrow>
     (\<exists>p. positions s (pm_id (cq_pos cq)) = Some p \<and> pos_account p = k \<and> 0 < q \<and> q \<le> pos_qty p \<and> fits 10 q
       \<and> q = (case cq_qty cq of None \<Rightarrow> pos_qty p | Some x \<Rightarrow> x)
       \<and> positions s' = (positions s)(pm_id (cq_pos cq) :=
            (if q = pos_qty p then None else Some (p\<lparr>pos_qty := col6 (dec_ctx (pos_qty p - q))\<rparr>))))
     \<and> (\<exists>t. trades s' = (trades s)(next_trade s \<mapsto> t) \<and> tr_account t = k \<and> tr_symbol t = pm_symbol (cq_pos cq)
          \<and> tr_side t = pm_side (cq_pos cq) \<and> tr_lots t = col6 q)
     \<and> next_trade s' = Suc (next_trade s) \<and> next_position s' = next_position s
     \<and> pending_orders s' = pending_orders s \<and> next_pending s' = next_pending s
     \<and> (\<exists>f. lot_events s' = map (\<lambda>x. x\<lparr>lx_position := f (lx_position x)\<rparr>) (lot_events s))"

lemma book_same_add_ledger [simp]: "book_same s (add_ledger e s)"
  by (intro book_sameI) (simp_all add: add_ledger_def)

lemma book_same_update_account [simp]: "book_same s (update_account k f s)"
  by (intro book_sameI) (simp_all add: update_account_def split: option.split)

lemma book_same_save_fields [simp]: "book_same s (snd (save_fields c k now a s))"
  by (intro book_sameI) simp_all

lemma book_same_raise_peak: "raise_peak k a s = (a', s') \<Longrightarrow> book_same s s'"
  by (auto simp: raise_peak_def Let_def)

lemma book_same_enforce_check: "enforce_check now k a b l ty s = (vs, s') \<Longrightarrow> book_same s s'"
  by (auto simp: enforce_check_def record_violation_def book_same_def split: option.splits if_splits)

lemma book_same_punish: "punish now k st reason vs a s = (a', s') \<Longrightarrow> book_same s s'"
  by (auto simp: punish_def intro: book_same_trans[OF book_same_update_account book_same_add_ledger] split: if_splits)

lemma book_same_upsert [simp]: "book_same s (upsert_daily_snapshot d k a pnl s)"
  by (simp add: upsert_daily_snapshot_def book_same_def Let_def)

lemma book_same_check_and_enforce:
  assumes "check_and_enforce_risk now k a s = (vs, a', s')"
  shows "book_same s s'"
proof -
  obtain rule s0 where 0: "get_or_create_risk_rule k a s = (rule, s0)" by (rule prod.exhaust)
  obtain a1 s1 where 1: "raise_peak k a s0 = (a1, s1)" by (rule prod.exhaust)
  obtain v2 s2 where 2: "enforce_check now k a1 (drawdown_breach rule a1) (rr_max_drawdown rule) MAX_DRAWDOWN s1 = (v2, s2)"
    by (rule prod.exhaust)
  obtain v3 s3 where 3: "enforce_check now k a1 (daily_breach rule a1 (today_pnl now k s2)) (rr_max_daily_loss rule)
      MAX_DAILY_LOSS s2 = (v3, s3)" by (rule prod.exhaust)
  obtain a4 s4 where 4: "punish now k Suspendido ''auto_suspend'' (v2 @ v3) a1 s3 = (a4, s4)" by (rule prod.exhaust)
  have s': "s' = upsert_daily_snapshot (date_of now) k a4 (today_pnl now k s2) s4"
    using assms by (auto simp add: check_and_enforce_risk_def 0 1 2 3 4)
  have "book_same s s0" using book_same_rule[of s k a] by (simp add: 0)
  also note [trans] = book_same_trans
  note book_same_raise_peak[OF 1]
  also note book_same_enforce_check[OF 2]
  also note book_same_enforce_check[OF 3]
  also note book_same_punish[OF 4]
  also have "book_same s4 s'" by (simp add: s')
  finally show ?thesis .
qed

lemma book_same_intelligence:
  assumes "update_intelligence pow now k a s = Some s'"
  shows "book_same s s'"
proof -
  obtain c s1 where 1: "classify_behaviour (compute_metrics pow now k s) k a s = (c, s1)" by (rule prod.exhaust)
  have "book_same s s1"
    using 1 book_same_rule[of s k a]
    by (cases "get_or_create_risk_rule k a s") (auto simp: classify_behaviour_def split: option.splits)
  moreover have "book_same s1 s'"
    using assms by (auto simp: update_intelligence_def 1 Let_def book_same_def split: if_splits)
  ultimately show ?thesis by (rule book_same_trans)
qed

lemma book_same_settle_account:
  assumes "settle_account tv k a m s = Some (vs, a', s')"
  shows "book_same s s'"
proof -
  obtain a1 s1 where 1: "save_fields col_money k (tv_now tv) (a\<lparr>balance := cm_balance m, equity := cm_equity m\<rparr>) s = (a1, s1)"
    by (rule prod.exhaust)
  obtain vs2 a2 s2 where 2: "check_and_enforce_risk (tv_now tv) k a1 s1 = (vs2, a2, s2)" by (metis prod_cases3)
  have 3: "update_intelligence (tv_pow tv) (tv_now tv) k a2 s2 = Some s'"
    using assms by (auto simp add: settle_account_def 1 2)
  have "book_same s s1" using book_same_save_fields[of s col_money k "tv_now tv" "a\<lparr>balance := cm_balance m, equity := cm_equity m\<rparr>"]
    by (simp add: 1)
  then show ?thesis
    using book_same_check_and_enforce[OF 2] book_same_intelligence[OF 3] book_same_trans by blast
qed


lemma counterparty_simps:
  fixes s :: "'a trading_db_scheme"
  assumes "create_broker_counterparty_entry now kt k r s = Inr (x, s')"
  shows "positions s' = positions s" "next_position s' = next_position s" "trades s' = trades s"
    "next_trade s' = next_trade s" "lot_events s' = lot_events s" "pending_orders s' = pending_orders s"
    "next_pending s' = next_pending s" "accounts s' = accounts s" "ledger s' = ledger s"
    "liquidity_rows s' = liquidity_rows s" "position_extras s' = position_extras s"
  using assms
  by (cases "counterparty_rows (fst kt) (broker_ledger s)";
      auto simp: create_broker_counterparty_entry_def create_entry_def Let_def split: if_splits)+

lemma settle_liquidity_simps [simp]:
  "positions (settle_liquidity ro t sy r s) = positions s"
  "next_position (settle_liquidity ro t sy r s) = next_position s"
  "trades (settle_liquidity ro t sy r s) = trades s"
  "next_trade (settle_liquidity ro t sy r s) = next_trade s"
  "lot_events (settle_liquidity ro t sy r s) = lot_events s"
  "pending_orders (settle_liquidity ro t sy r s) = pending_orders s"
  "next_pending (settle_liquidity ro t sy r s) = next_pending s"
  "accounts (settle_liquidity ro t sy r s) = accounts s"
  "ledger (settle_liquidity ro t sy r s) = ledger s"
  "broker_ledger (settle_liquidity ro t sy r s) = broker_ledger s"
  by (simp_all add: settle_liquidity_def split: option.split)

lemma shrink_position_simps [simp]:
  "next_position (shrink_position i p q s) = next_position s"
  "trades (shrink_position i p q s) = trades s"
  "next_trade (shrink_position i p q s) = next_trade s"
  "pending_orders (shrink_position i p q s) = pending_orders s"
  "next_pending (shrink_position i p q s) = next_pending s"
  "accounts (shrink_position i p q s) = accounts s"
  "ledger (shrink_position i p q s) = ledger s"
  "broker_ledger (shrink_position i p q s) = broker_ledger s"
  "positions (shrink_position i p q s) = (positions s)(i := (if q = pos_qty p then None
     else Some (p\<lparr>pos_qty := col6 (dec_ctx (pos_qty p - q))\<rparr>)))"
  by (simp_all add: shrink_position_def delete_position_def)

lemma shrink_position_lots:
  "\<exists>f. lot_events (shrink_position i p q s) = map (\<lambda>x. x\<lparr>lx_position := f (lx_position x)\<rparr>) (lot_events s)"
proof (cases "q = pos_qty p")
  case False
  then have "lot_events (shrink_position i p q s) = map (\<lambda>x. x\<lparr>lx_position := id (lx_position x)\<rparr>) (lot_events s)"
    by (simp add: shrink_position_def)
  then show ?thesis by blast
qed (auto simp: shrink_position_def delete_position_def)

text \<open>The rows a close writes before the account is settled.\<close>

lemma record_close_rows:
  fixes s :: "'a trading_db_scheme"
  assumes "record_close tv k cq i p q r res m s = Inr (t, s')"
  shows "t = next_trade s" "trades s' = (trades s)(t \<mapsto> closing_trade (tv_now tv) k cq p q r)" "next_trade s' = Suc t"
    "positions s' = (positions s)(i := (if q = pos_qty p then None
       else Some (p\<lparr>pos_qty := col6 (dec_ctx (pos_qty p - q))\<rparr>)))"
    "next_position s' = next_position s" "pending_orders s' = pending_orders s" "next_pending s' = next_pending s"
    "accounts s' = accounts s"
    "\<exists>f. lot_events s' = map (\<lambda>x. x\<lparr>lx_position := f (lx_position x)\<rparr>) (lot_events s)"
    "ledger s' = ledger s @ [realized_entry (tv_now tv) k r (cm_balance m) (cq_reason cq) t]
       @ (if 0 < cm_shortfall m then [guard_entry (tv_now tv) k m] else [])"
proof -
  define now row ex s2 where "now = tv_now tv" and "row = closing_trade now k cq p q r"
    and "ex = \<lparr>te_open = (case position_extras s i of None \<Rightarrow> None | Some e \<Rightarrow> px_context e), te_close = cq_context cq,
      te_conversion = res, te_routing = (case position_extras s i of None \<Rightarrow> None | Some e \<Rightarrow> px_routing e)\<rparr>"
    and "s2 = add_ledger (realized_entry now k r (cm_balance m) (cq_reason cq) (next_trade s)) (snd (add_trade row ex s))"
  define ro where "ro = (case position_extras s i of None \<Rightarrow> None | Some e \<Rightarrow> px_routing e)"
  have a: "record_close tv k cq i p q r res m s =
      (case (if accounts s k = None then Inr s2
             else map_sum BooksFault snd (create_broker_counterparty_entry now (next_trade s, row) k r s2)) of
         Inl e \<Rightarrow> Inl e
       | Inr s3 \<Rightarrow> Inr (next_trade s, shrink_position i p q (let s4 = settle_liquidity ro (next_trade s) (tr_symbol row) r s3
             in if 0 < cm_shortfall m then add_ledger (guard_entry now k m) s4 else s4)))"
    unfolding record_close_def now_def row_def ex_def s2_def ro_def add_trade_def Let_def prod.case snd_conv by (rule refl)
  have "\<exists>s3. (s3 = s2 \<or> (\<exists>x kt. create_broker_counterparty_entry now kt k r s2 = Inr (x, s3))) \<and> t = next_trade s \<and>
      s' = shrink_position i p q (let s4 = settle_liquidity ro t (tr_symbol row) r s3
             in if 0 < cm_shortfall m then add_ledger (guard_entry now k m) s4 else s4)"
  proof (cases "accounts s k")
    case None
    then show ?thesis using assms[unfolded a] by auto
  next
    case (Some ac)
    obtain x s3 where e: "create_broker_counterparty_entry now (next_trade s, row) k r s2 = Inr (x, s3)"
      using assms[unfolded a] Some by (cases "create_broker_counterparty_entry now (next_trade s, row) k r s2") auto
    show ?thesis
    proof (intro exI[of _ s3] conjI)
      show "s3 = s2 \<or> (\<exists>x kt. create_broker_counterparty_entry now kt k r s2 = Inr (x, s3))" using e by blast
    qed (use assms[unfolded a] Some e in auto)
  qed
  then obtain s3 where 3: "s3 = s2 \<or> (\<exists>x kt. create_broker_counterparty_entry now kt k r s2 = Inr (x, s3))"
    and t: "t = next_trade s"
    and s': "s' = shrink_position i p q (let s4 = settle_liquidity ro t (tr_symbol row) r s3
             in if 0 < cm_shortfall m then add_ledger (guard_entry now k m) s4 else s4)" by blast
  have k: "positions s3 = positions s2" "next_position s3 = next_position s2" "trades s3 = trades s2"
    "next_trade s3 = next_trade s2" "lot_events s3 = lot_events s2" "pending_orders s3 = pending_orders s2"
    "next_pending s3 = next_pending s2" "accounts s3 = accounts s2" "ledger s3 = ledger s2"
    using 3 counterparty_simps[of now _ k r s2 _ s3] by blast+
  note e = s2_def add_trade_def add_ledger_def row_def now_def t
  show "t = next_trade s" by (rule t)
  show "trades s' = (trades s)(t \<mapsto> closing_trade (tv_now tv) k cq p q r)" "next_trade s' = Suc t"
    "positions s' = (positions s)(i := (if q = pos_qty p then None
       else Some (p\<lparr>pos_qty := col6 (dec_ctx (pos_qty p - q))\<rparr>)))"
    "next_position s' = next_position s" "pending_orders s' = pending_orders s" "next_pending s' = next_pending s"
    "accounts s' = accounts s"
    "ledger s' = ledger s @ [realized_entry (tv_now tv) k r (cm_balance m) (cq_reason cq) t]
       @ (if 0 < cm_shortfall m then [guard_entry (tv_now tv) k m] else [])"
    by (simp_all add: s' k e Let_def)
  show "\<exists>f. lot_events s' = map (\<lambda>x. x\<lparr>lx_position := f (lx_position x)\<rparr>) (lot_events s)"
  proof -
    define s4 where "s4 = (let s4 = settle_liquidity ro t (tr_symbol row) r s3
             in if 0 < cm_shortfall m then add_ledger (guard_entry now k m) s4 else s4)"
    have "lot_events s4 = lot_events s" by (simp add: s4_def k e Let_def)
    then show ?thesis using shrink_position_lots[of i p q s4] s' unfolding s4_def[symmetric] by simp
  qed
qed

lemma close_position_closed:
  fixes s :: "'a trading_db_scheme"
  assumes "close_position gone tv k cq s = Inr (Closed d, s')"
  shows "\<exists>p q x m t s1. positions s (pm_id (cq_pos cq)) = Some p \<and> pos_account p = k \<and> 0 < q \<and> q \<le> pos_qty p
    \<and> q = (case cq_qty cq of None \<Rightarrow> pos_qty p | Some y \<Rightarrow> y) \<and> trade_fits cq q
    \<and> pr_account_amount (closing_pnl cq p q) = Some x \<and> m = close_amounts (accounts s k) cq (py_repr (fl x))
    \<and> record_close tv k cq (pm_id (cq_pos cq)) p q (py_repr (fl x)) (closing_pnl cq p q) m s = Inr (t, s1)
    \<and> cd_balance d = fl (cm_balance m) \<and> cd_realized d = fl x \<and> cd_qty d = fl q \<and> cd_trade d = t
    \<and> (accounts s k = None \<and> s' = s1
       \<or> (\<exists>a vs a'. accounts s k = Some a \<and> settle_account tv k a m s1 = Some (vs, a', s') \<and> cd_status d = acc_status a'))"
proof -
  define i where "i = pm_id (cq_pos cq)"
  note u = assms[unfolded close_position_def Let_def, folded i_def]
  have "\<exists>p. positions s i = Some p \<and> pos_account p = k" using u by (auto split: option.splits if_splits)
  then obtain p where p: "positions s i = Some p" and a: "pos_account p = k" by blast
  define q where "q = (case cq_qty cq of None \<Rightarrow> pos_qty p | Some x \<Rightarrow> x)"
  define res where "res = closing_pnl cq p q"
  note u1 = u[unfolded p option.case a simp_thms if_True, folded q_def, folded res_def]
  have "\<not> q \<le> 0 \<and> \<not> pos_qty p < q \<and> (\<exists>x. pr_account_amount res = Some x)"
    using u1 by (auto split: option.splits if_splits)
  then obtain x where q: "\<not> q \<le> 0" "\<not> pos_qty p < q" and x: "pr_account_amount res = Some x" by blast
  define m where "m = close_amounts (accounts s k) cq (py_repr (fl x))"
  note u2 = u1[unfolded x option.case if_not_P[OF q(1)] if_not_P[OF q(2)], folded m_def]
  have f: "trade_fits cq q" using u2 by (cases "trade_fits cq q") auto
  obtain t s1 where c: "record_close tv k cq i p q (py_repr (fl x)) res m s = Inr (t, s1)"
    using u2 f by (cases "record_close tv k cq i p q (py_repr (fl x)) res m s") auto
  have "cd_balance d = fl (cm_balance m) \<and> cd_realized d = fl x \<and> cd_qty d = fl q \<and> cd_trade d = t
    \<and> (accounts s k = None \<and> s' = s1
       \<or> (\<exists>a vs a'. accounts s k = Some a \<and> settle_account tv k a m s1 = Some (vs, a', s') \<and> cd_status d = acc_status a'))"
    using u2 f by (auto simp: c split: option.splits)
  then show ?thesis
    using p a q x f c m_def res_def q_def unfolding i_def[symmetric]
    by (intro exI[of _ p] exI[of _ q] exI[of _ x] exI[of _ m] exI[of _ t] exI[of _ s1]) (simp add: not_le not_less)
qed

text \<open>A close is refused or late and changes nothing, or it closes the quantity.\<close>

lemma close_position_effect:
  fixes s :: "'a trading_db_scheme"
  assumes "close_position gone tv k cq s = Inr (r, s')"
  shows "(r = AlreadyClosed \<or> (\<exists>c. r = CloseRefused c)) \<and> s' = s
    \<or> (\<exists>d q. r = Closed d \<and> cd_qty d = fl q \<and> closed_out k cq q s s')"
proof (cases r)
  case (Closed d)
  define i where "i = pm_id (cq_pos cq)"
  obtain p q x m t s1 where p: "positions s i = Some p" "pos_account p = k" "0 < q" "q \<le> pos_qty p" "trade_fits cq q"
      "q = (case cq_qty cq of None \<Rightarrow> pos_qty p | Some y \<Rightarrow> y)"
    and d: "cd_qty d = fl q" and c: "record_close tv k cq i p q (py_repr (fl x)) (closing_pnl cq p q) m s = Inr (t, s1)"
    and s': "accounts s k = None \<and> s' = s1
       \<or> (\<exists>a vs a'. accounts s k = Some a \<and> settle_account tv k a m s1 = Some (vs, a', s') \<and> cd_status d = acc_status a')"
    using close_position_closed[OF assms[unfolded Closed]] unfolding i_def[symmetric] by (elim exE conjE) blast
  note w = record_close_rows[OF c]
  have b: "book_same s1 s'" using s' book_same_settle_account by auto
  have "closed_out k cq q s s'"
    unfolding closed_out_def i_def[symmetric]
  proof (intro conjI)
    show "\<exists>p. positions s i = Some p \<and> pos_account p = k \<and> 0 < q \<and> q \<le> pos_qty p \<and> fits 10 q
        \<and> q = (case cq_qty cq of None \<Rightarrow> pos_qty p | Some x \<Rightarrow> x)
        \<and> positions s' = (positions s)(i := (if q = pos_qty p then None
            else Some (p\<lparr>pos_qty := col6 (dec_ctx (pos_qty p - q))\<rparr>)))"
      using p w(4) b by (intro exI[of _ p]) (simp add: book_same_def trade_fits_def)
    show "\<exists>t. trades s' = (trades s)(next_trade s \<mapsto> t) \<and> tr_account t = k \<and> tr_symbol t = pm_symbol (cq_pos cq)
        \<and> tr_side t = pm_side (cq_pos cq) \<and> tr_lots t = col6 q"
      using w(1,2) b by (intro exI[of _ "closing_trade (tv_now tv) k cq p q (py_repr (fl x))"])
        (simp add: book_same_def closing_trade_def)
  qed (use w b in \<open>simp_all add: book_same_def\<close>)
  then show ?thesis using Closed d by blast
qed (use assms in \<open>auto simp: close_position_def Let_def split: option.splits sum.splits prod.splits if_splits\<close>)


subsection \<open>The books of a close\<close>

text \<open>What the engines after a close do to the account: no money moves.\<close>

definition money_kept :: "pk \<Rightarrow> 'a books_db_scheme \<Rightarrow> 'a books_db_scheme \<Rightarrow> bool" where
  "money_kept k s s' \<longleftrightarrow>
     (\<forall>r. accounts s k = Some r \<longrightarrow> (\<exists>r'. accounts s' k = Some r' \<and> balance r' = balance r \<and> equity r' = equity r))
     \<and> (\<forall>j. j \<noteq> k \<longrightarrow> accounts s' j = accounts s j)
     \<and> (\<exists>es. ledger s' = ledger s @ es \<and> (\<forall>e \<in> set es. le_amount e = 0)) \<and> broker_ledger s' = broker_ledger s"

lemma money_kept_trans: "money_kept k s t \<Longrightarrow> money_kept k t u \<Longrightarrow> money_kept k s u"
  by (fastforce simp: money_kept_def)

lemma money_keptI:
  "accounts s' = accounts s \<Longrightarrow> ledger s' = ledger s \<Longrightarrow> broker_ledger s' = broker_ledger s \<Longrightarrow> money_kept k s s'"
  by (simp add: money_kept_def)

lemma money_kept_update:
  assumes "\<And>r. balance (f r) = balance r \<and> equity (f r) = equity r"
  shows "money_kept k s (update_account k f s)"
  using assms by (cases "accounts s k") (auto simp: money_kept_def update_account_def)

lemma money_kept_ledger: "le_amount e = 0 \<Longrightarrow> money_kept k s (add_ledger e s)"
  by (simp add: money_kept_def add_ledger_def)

lemma money_kept_rule:
  fixes s :: "'a trading_db_scheme"
  shows "get_or_create_risk_rule k a s = (rule, s') \<Longrightarrow> money_kept k s s'"
  using get_or_create_rule_simps[of k a s] by (auto intro!: money_keptI)

lemma money_kept_raise_peak: "raise_peak k a s = (a', s') \<Longrightarrow> money_kept k s s'"
  by (auto simp: raise_peak_def Let_def intro!: money_kept_update)

lemma money_kept_enforce_check: "enforce_check now k a b l ty s = (vs, s') \<Longrightarrow> money_kept k s s'"
  by (auto simp: enforce_check_def record_violation_def intro!: money_keptI split: option.splits if_splits)

lemma money_kept_punish: "punish now k st reason vs a s = (a', s') \<Longrightarrow> money_kept k s s'"
  by (auto simp: punish_def intro!: money_keptI money_kept_trans[OF money_kept_update money_kept_ledger] split: if_splits)

lemma money_kept_upsert: "money_kept k s (upsert_daily_snapshot d k a pnl s)"
  by (simp add: upsert_daily_snapshot_def money_keptI Let_def)

lemma money_kept_check_and_enforce:
  fixes s :: "'a trading_db_scheme"
  assumes "check_and_enforce_risk now k a s = (vs, a', s')"
  shows "money_kept k s s'"
proof -
  obtain rule s0 where 0: "get_or_create_risk_rule k a s = (rule, s0)" by (rule prod.exhaust)
  obtain a1 s1 where 1: "raise_peak k a s0 = (a1, s1)" by (rule prod.exhaust)
  obtain v2 s2 where 2: "enforce_check now k a1 (drawdown_breach rule a1) (rr_max_drawdown rule) MAX_DRAWDOWN s1 = (v2, s2)"
    by (rule prod.exhaust)
  obtain v3 s3 where 3: "enforce_check now k a1 (daily_breach rule a1 (today_pnl now k s2)) (rr_max_daily_loss rule)
      MAX_DAILY_LOSS s2 = (v3, s3)" by (rule prod.exhaust)
  obtain a4 s4 where 4: "punish now k Suspendido ''auto_suspend'' (v2 @ v3) a1 s3 = (a4, s4)" by (rule prod.exhaust)
  have s': "s' = upsert_daily_snapshot (date_of now) k a4 (today_pnl now k s2) s4"
    using assms by (auto simp add: check_and_enforce_risk_def 0 1 2 3 4)
  note [trans] = money_kept_trans
  note money_kept_rule[OF 0]
  also note money_kept_raise_peak[OF 1]
  also note money_kept_enforce_check[OF 2]
  also note money_kept_enforce_check[OF 3]
  also note money_kept_punish[OF 4]
  also have "money_kept k s4 s'" by (simp add: s' money_kept_upsert)
  finally show ?thesis .
qed

lemma money_kept_intelligence:
  fixes s :: "'a trading_db_scheme"
  assumes "update_intelligence pow now k a s = Some s'"
  shows "money_kept k s s'"
proof -
  obtain c s1 where 1: "classify_behaviour (compute_metrics pow now k s) k a s = (c, s1)" by (rule prod.exhaust)
  have "money_kept k s s1"
    using 1 by (cases "get_or_create_risk_rule k a s")
      (auto simp: classify_behaviour_def intro: money_keptI money_kept_rule split: option.splits)
  moreover have "money_kept k s1 s'"
    using assms by (auto simp: update_intelligence_def 1 Let_def intro!: money_keptI split: if_splits)
  ultimately show ?thesis by (rule money_kept_trans)
qed

lemma check_rules_money:
  assumes "check_rules x k now a = (b, es)"
  shows "balance b = balance a" "equity b = equity a" "\<forall>e \<in> set es. le_amount e = 0"
proof -
  obtain a1 es1 where 1: "check_profit_target k now a = (a1, es1)" by (rule prod.exhaust)
  obtain a2 es2 where 2: "check_drawdown_rule k now a1 = (a2, es2)" by (rule prod.exhaust)
  have "\<forall>e \<in> set es1. le_amount e = 0"
    using 1 by (auto simp: check_profit_target_def adjust_entry_def split: option.splits phase.splits if_splits)
  moreover have "\<forall>e \<in> set es2. le_amount e = 0"
    using 2 by (auto simp: check_drawdown_rule_def adjust_entry_def split: if_splits)
  ultimately show "balance b = balance a" "equity b = equity a" "\<forall>e \<in> set es. le_amount e = 0"
    using assms check_profit_target_keeps[OF 1] check_drawdown_rule_keeps[OF 2]
    by (auto simp: check_rules_def 1 2 Let_def split: if_splits)
qed

lemma settle_account_money:
  fixes s :: "'a trading_db_scheme"
  assumes "settle_account tv k a m s = Some (vs, a', s')" "accounts s k = Some r"
  shows "\<exists>r'. accounts s' k = Some r' \<and> balance r' = col2 (cm_balance m) \<and> equity r' = col2 (cm_equity m)"
    and "\<forall>j. j \<noteq> k \<longrightarrow> accounts s' j = accounts s j"
    and "\<exists>es. ledger s' = ledger s @ es \<and> (\<forall>e \<in> set es. le_amount e = 0)" "broker_ledger s' = broker_ledger s"
proof -
  define a0 where "a0 = a\<lparr>balance := cm_balance m, equity := cm_equity m\<rparr>"
  obtain a1 s1 where 1: "save_fields col_money k (tv_now tv) a0 s = (a1, s1)"
    by (rule prod.exhaust)
  obtain vs2 a2 s2 where 2: "check_and_enforce_risk (tv_now tv) k a1 s1 = (vs2, a2, s2)" by (metis prod_cases3)
  have 3: "update_intelligence (tv_pow tv) (tv_now tv) k a2 s2 = Some s'"
    using assms by (auto simp add: settle_account_def 1 2 a0_def[symmetric])
  have k: "money_kept k s1 s'"
    by (rule money_kept_trans[OF money_kept_check_and_enforce[OF 2] money_kept_intelligence[OF 3]])
  obtain b es where b: "check_rules False k (tv_now tv) (sync_balances False a0) = (b, es)" by (rule prod.exhaust)
  have m: "balance b = cm_balance m" "equity b = cm_equity m" "\<forall>e \<in> set es. le_amount e = 0"
    using check_rules_money[OF b] by (simp_all add: sync_balances_def a0_def split: option.split)
  have s1: "accounts s1 = (accounts s)(k \<mapsto> col_money (store_account b) r)" "ledger s1 = ledger s @ es"
      "broker_ledger s1 = broker_ledger s"
    using 1 assms(2) by (auto simp: save_fields_def b update_account_def)
  show "\<exists>r'. accounts s' k = Some r' \<and> balance r' = col2 (cm_balance m) \<and> equity r' = col2 (cm_equity m)"
    using k s1 m by (auto simp: money_kept_def col_money_def store_account_def)
  show "\<forall>j. j \<noteq> k \<longrightarrow> accounts s' j = accounts s j" using k s1 by (auto simp: money_kept_def)
  show "\<exists>es. ledger s' = ledger s @ es \<and> (\<forall>e \<in> set es. le_amount e = 0)"
    using k s1 m by (auto simp: money_kept_def)
  show "broker_ledger s' = broker_ledger s" using k s1 by (auto simp: money_kept_def)
qed

lemma record_close_broker:
  fixes s :: "'a trading_db_scheme"
  assumes "record_close tv k cq i p q r res m s = Inr (t, s')" "accounts s k = Some a"
    "\<forall>e \<in> set (broker_ledger s). bl_trade e \<noteq> Some (next_trade s)"
  shows "\<exists>e. broker_ledger s' = broker_ledger s @ [e] \<and> bl_type e = REV_COUNTERPARTY_PNL \<and> bl_amount e = - col2 r
    \<and> bl_trade e = Some (next_trade s) \<and> bl_account e = Some k"
proof -
  define now row ex s2 where "now = tv_now tv" and "row = closing_trade now k cq p q r"
    and "ex = \<lparr>te_open = (case position_extras s i of None \<Rightarrow> None | Some e \<Rightarrow> px_context e), te_close = cq_context cq,
      te_conversion = res, te_routing = (case position_extras s i of None \<Rightarrow> None | Some e \<Rightarrow> px_routing e)\<rparr>"
    and "s2 = add_ledger (realized_entry now k r (cm_balance m) (cq_reason cq) (next_trade s)) (snd (add_trade row ex s))"
  define ro where "ro = (case position_extras s i of None \<Rightarrow> None | Some e \<Rightarrow> px_routing e)"
  have a: "record_close tv k cq i p q r res m s =
      (case (if accounts s k = None then Inr s2
             else map_sum BooksFault snd (create_broker_counterparty_entry now (next_trade s, row) k r s2)) of
         Inl e \<Rightarrow> Inl e
       | Inr s3 \<Rightarrow> Inr (next_trade s, shrink_position i p q (let s4 = settle_liquidity ro (next_trade s) (tr_symbol row) r s3
             in if 0 < cm_shortfall m then add_ledger (guard_entry now k m) s4 else s4)))"
    unfolding record_close_def now_def row_def ex_def s2_def ro_def add_trade_def Let_def prod.case snd_conv by (rule refl)
  have b: "broker_ledger s2 = broker_ledger s" by (simp add: s2_def add_trade_def add_ledger_def)
  obtain x s3 where e: "create_broker_counterparty_entry now (next_trade s, row) k r s2 = Inr (x, s3)"
    using assms(1)[unfolded a] assms(2) by (cases "create_broker_counterparty_entry now (next_trade s, row) k r s2") auto
  have "counterparty_rows (next_trade s) (broker_ledger s2) = []"
    using assms(3) b by (auto simp: counterparty_rows_def)
  then have "\<exists>e. broker_ledger s3 = broker_ledger s @ [e] \<and> bl_type e = REV_COUNTERPARTY_PNL \<and> bl_amount e = - col2 r
    \<and> bl_trade e = Some (next_trade s) \<and> bl_account e = Some k"
    using e b by (auto simp: create_broker_counterparty_entry_def create_entry_def Let_def blank_entry_def col2_def qhu.minus
        qhu.zero split: if_splits)
  moreover have "broker_ledger s' = broker_ledger s3" using assms(1)[unfolded a] assms(2) by (auto simp: e Let_def add_ledger_def)
  ultimately show ?thesis by simp
qed

lemma close_account_row:
  fixes s :: "'a trading_db_scheme"
  assumes "close_position gone tv k cq s = Inr (Closed d, s')" "accounts s k = Some a"
  shows "\<exists>a'. accounts s' k = Some a' \<and> balance a' = col2 (max (dec_ctx (balance a + py_repr (cd_realized d))) 0)"
    and "\<exists>t. trades s' (cd_trade d) = Some t \<and> tr_pnl t = Some (col2 (py_repr (cd_realized d)))"
proof -
  obtain p q x m t s1 where m: "m = close_amounts (accounts s k) cq (py_repr (fl x))"
    and c: "record_close tv k cq (pm_id (cq_pos cq)) p q (py_repr (fl x)) (closing_pnl cq p q) m s = Inr (t, s1)"
    and d: "cd_realized d = fl x" "cd_trade d = t" and s': "\<exists>vs a'. settle_account tv k a m s1 = Some (vs, a', s')"
    using close_position_closed[OF assms(1)] assms(2) by (elim exE conjE) auto
  note w = record_close_rows[OF c]
  obtain vs a0 where st: "settle_account tv k a m s1 = Some (vs, a0, s')" using s' by blast
  have "accounts s1 k = Some a" using w(8) assms(2) by simp
  from settle_account_money(1)[OF st this]
  show "\<exists>a'. accounts s' k = Some a' \<and> balance a' = col2 (max (dec_ctx (balance a + py_repr (cd_realized d))) 0)"
    by (auto simp: m assms(2) close_amounts_def Let_def d)
  show "\<exists>t. trades s' (cd_trade d) = Some t \<and> tr_pnl t = Some (col2 (py_repr (cd_realized d)))"
    using w(1,2) book_same_settle_account[OF st] d by (auto simp: book_same_def closing_trade_def)
qed


subsection \<open>A first close\<close>

text \<open>The first trade of an account, with a position that has no stop, is always booked.\<close>

lemma record_close_succeeds:
  fixes s :: "'a trading_db_scheme"
  assumes "\<forall>e \<in> set (broker_ledger s). bl_trade e \<noteq> Some (next_trade s)"
  shows "\<exists>s'. record_close tv k cq i p q r res m s = Inr (next_trade s, s')"
proof -
  have c: "\<exists>x s3. create_broker_counterparty_entry now (next_trade s, row) k r s2 = Inr (x, s3)"
    if "broker_ledger s2 = broker_ledger s" for now row and s2 :: "'a trading_db_scheme"
  proof -
    have "counterparty_rows (next_trade s) (broker_ledger s2) = []"
      using assms that by (auto simp: counterparty_rows_def)
    then show ?thesis using assms that
      by (auto simp: create_broker_counterparty_entry_def create_entry_def Let_def blank_entry_def bl_conflict_def same_source_def)
  qed
  show ?thesis
  proof (cases "accounts s k")
    case None
    then show ?thesis by (simp add: record_close_def add_trade_def Let_def)
  next
    case (Some a)
    define s2 where "s2 = add_ledger (realized_entry (tv_now tv) k r (cm_balance m) (cq_reason cq) (next_trade s))
      (snd (add_trade (closing_trade (tv_now tv) k cq p q r) \<lparr>te_open = (case position_extras s i of None \<Rightarrow> None | Some e \<Rightarrow> px_context e),
             te_close = cq_context cq, te_conversion = res,
             te_routing = (case position_extras s i of None \<Rightarrow> None | Some e \<Rightarrow> px_routing e)\<rparr> s))"
    have "broker_ledger s2 = broker_ledger s" by (simp add: s2_def add_trade_def add_ledger_def)
    from c[OF this, of "tv_now tv" "closing_trade (tv_now tv) k cq p q r"]
    obtain x s3 where e: "create_broker_counterparty_entry (tv_now tv) (next_trade s, closing_trade (tv_now tv) k cq p q r) k r s2
      = Inr (x, s3)" by blast
    show ?thesis using Some e unfolding s2_def by (simp add: record_close_def Let_def add_trade_def)
  qed
qed

lemma first_close:
  fixes s :: "'a trading_db_scheme"
  assumes p: "positions s (pm_id (cq_pos cq)) = Some p" "pos_account p = k"
    and q: "q = (case cq_qty cq of None \<Rightarrow> pos_qty p | Some x \<Rightarrow> x)" "0 < q" "q \<le> pos_qty p" "trade_fits cq q" "col6 q \<le> 10 ^ 5"
    and x: "pr_account_amount (closing_pnl cq p q) = Some x"
    and a: "accounts s k = Some a"
    and b: "\<forall>e \<in> set (broker_ledger s). bl_trade e \<noteq> Some (next_trade s)"
    and t: "trades s = Map.empty" "pm_sl (cq_pos cq) = None" "tv_pow tv = (\<lambda>_ _. 0)"
      "pm_opened (cq_pos cq) * 1000000 \<le> tv_now tv" "tv_now tv - pm_opened (cq_pos cq) * 1000000 \<le> 10 ^ 14"
  shows "\<exists>d s'. close_position gone tv k cq s = Inr (Closed d, s')"
proof -
  define m where "m = close_amounts (accounts s k) cq (py_repr (fl x))"
  define r where "r = py_repr (fl x)"
  obtain s1 where c: "record_close tv k cq (pm_id (cq_pos cq)) p q r (closing_pnl cq p q) m s = Inr (next_trade s, s1)"
    using record_close_succeeds[OF b] by blast
  note w = record_close_rows[OF c]
  have "\<exists>vs a' s2. settle_account tv k a m s1 = Some (vs, a', s2)"
  proof -
    obtain a1 s2 where 1: "save_fields col_money k (tv_now tv) (a\<lparr>balance := cm_balance m, equity := cm_equity m\<rparr>) s1 = (a1, s2)"
      by (rule prod.exhaust)
    obtain vs a2 s3 where 2: "check_and_enforce_risk (tv_now tv) k a1 s2 = (vs, a2, s3)" by (metis prod_cases3)
    have "book_same s1 s3"
      using book_same_trans[OF _ book_same_check_and_enforce[OF 2]] book_same_save_fields[of s1 col_money k "tv_now tv"
        "a\<lparr>balance := cm_balance m, equity := cm_equity m\<rparr>"] by (simp add: 1)
    then have "trades s3 = [next_trade s \<mapsto> closing_trade (tv_now tv) k cq p q r]" "next_trade s3 = Suc (next_trade s)"
      using w(2,3) t(1) by (simp_all add: book_same_def)
    then have "last_hundred k s3 = [closing_trade (tv_now tv) k cq p q r]"
      by (auto simp: last_hundred_def rows_where_def List.map_filter_def closing_trade_def)
    then have "\<exists>s'. update_intelligence (\<lambda>_ _. 0) (tv_now tv) k a2 s3 = Some s'"
      by (rule first_trade_classified[where c = "tv_now tv"])
        (use q t in \<open>simp_all add: closing_trade_def reward_risk_def col6_def qhu.nonneg\<close>)
    then show ?thesis by (auto simp: settle_account_def 1 2 t(3))
  qed
  then obtain vs a' s2 where st: "settle_account tv k a m s1 = Some (vs, a', s2)" by blast
  show ?thesis
    unfolding close_position_def Let_def
    using p q(2-4) x c st a by (simp add: q(1)[symmetric] m_def r_def not_le not_less)
qed

subsection \<open>An example account\<close>

text \<open>One purchase of \<open>EUR/USD\<close> by a dollar account with a balance of 100; it is closed at 1.\<close>

definition demo_trading :: "rat \<Rightarrow> rat \<Rightarrow> trading_db" where
  "demo_trading q e =
     \<lparr>accounts = [1 \<mapsto> demo_account], next_account = 2,
      positions = [0 \<mapsto> \<lparr>pos_account = 1, pos_symbol = ''EUR/USD'', pos_side = BUY, pos_qty = q, pos_avg = e,
                        pos_sl = None, pos_tp = None, pos_opened_at = 0\<rparr>],
      next_position = 1,
      ledger = [], wallets = Map.empty, user_wallet = Map.empty, next_wallet = 0, wallet_txs = [],
      transfers = Map.empty, next_transfer = 0, broker_ledger = [], trades = Map.empty, next_trade = 0,
      adjustments = [], risk_rules = Map.empty, violations = [], snapshots = Map.empty,
      scores = Map.empty, products = Map.empty, enrollments = Map.empty, funded_configs = Map.empty,
      account_terms_of = Map.empty, account_products = Map.empty, product_pricings = Map.empty,
      spread_configs = Map.empty, last_prices = Map.empty, routing_rows = Map.empty, desk_rows = [],
      score_details_of = Map.empty, pending_orders = Map.empty, next_pending = 0, lot_events = [],
      position_extras = Map.empty, trade_extras = Map.empty, next_routing = 0, liquidity_rows = Map.empty,
      next_liquidity = 0, settlements = [], rejections = [], risk_lock = None\<rparr>"

definition demo_view :: trade_view where
  "demo_view =
     \<lparr>tv_market = demo_market\<lparr>mk_now := 1000000000000\<rparr>, tv_feed = (\<lambda>_. (1, 1)), tv_cached = (\<lambda>_. Some (1, 1)),
      tv_spreads = \<lparr>ca_configs = Map.empty, ca_refreshed = None\<rparr>, tv_pow = (\<lambda>_ _. 0), tv_enrollments = 0\<rparr>"

definition demo_request :: "rat option \<Rightarrow> close_request" where
  "demo_request q =
     \<lparr>cq_pos = \<lparr>pm_id = 0, pm_symbol = ''EUR/USD'', pm_side = BUY, pm_sl = None, pm_tp = None, pm_opened = 0\<rparr>,
      cq_price = 1, cq_reason = ''manual'', cq_balance = 100, cq_equity = 100, cq_context = None,
      cq_qty = q, cq_currency = ''USD''\<rparr>"


lemma py_repr_short: "round_sig 10 1 (fl c) = c \<Longrightarrow> py_repr (fl c) = c"
proof -
  assume r: "round_sig 10 1 (fl c) = c"
  have "[1..<18] = 1 # [2..<18]" by (simp add: upt_rec)
  then show "py_repr (fl c) = c" using r by (simp only: py_repr_def find.simps if_True simp_thms option.case)
qed

lemma fl_half_cent: "fl (1 / 200) = 5764607523034235 / 1152921504606846976"
  by (subst fl_eval[of 5764607523034235 _ 60]) simp_all

lemma cent_reprs: "py_repr (fl (1 / 100)) = 1 / 100" "py_repr (fl (1 / 200)) = 1 / 200"
proof -
  have "round_sig 10 1 (fl (1 / 100)) = 1 / 100"
    unfolding fl_cent using round_sig_eval[of 10 1 1 "5764607523034235 / 576460752303423488" 2] by simp
  then show "py_repr (fl (1 / 100)) = 1 / 100" by (rule py_repr_short)
  have "round_sig 10 1 (fl (1 / 200)) = 1 / 200"
    unfolding fl_half_cent using round_sig_eval[of 10 1 5 "5764607523034235 / 1152921504606846976" 3] by simp
  then show "py_repr (fl (1 / 200)) = 1 / 200" by (rule py_repr_short)
qed

lemma demo_pnl:
  "pr_account_amount (closing_pnl (demo_request y) (the (positions (demo_trading q e) 0)) x)
     = Some (dec_mult (dec_mult (dec_ctx (1 - e)) x) 100000)"
proof -
  have s: "spec_EUR_USD \<in> set registry" by (simp add: registry_def)
  have n: "norm_key ''EUR/USD'' = norm_key (sp_symbol spec_EUR_USD)" by (simp add: spec_defs)
  have b: "is_buy ''buy''" by code_simp
  show ?thesis
    using position_pnl_dollars(2)[OF s n, of "PyFloat 1" 1 "''buy''" "PyDecimal e" "PyDecimal x"] b
    by (simp add: closing_pnl_def demo_request_def demo_trading_def order_side_text_def in_dollars_def
        calculate_quote_pnl_def spec_defs)
qed

lemma demo_closes:
  assumes "x = (case y of None \<Rightarrow> q | Some z \<Rightarrow> z)" "0 < x" "x \<le> q" "x \<le> 1"
  shows "\<exists>d s'. close_position (Activo, 0) demo_view 1 (demo_request y) (demo_trading q e) = Inr (Closed d, s')"
proof (rule first_close)
  show "positions (demo_trading q e) (pm_id (cq_pos (demo_request y))) = Some (the (positions (demo_trading q e) 0))"
    "pr_account_amount (closing_pnl (demo_request y) (the (positions (demo_trading q e) 0)) x)
     = Some (dec_mult (dec_mult (dec_ctx (1 - e)) x) 100000)"
    by (simp_all only: demo_pnl) (simp add: demo_trading_def demo_request_def)
  have c: "0 \<le> col6 x \<and> col6 x \<le> 1"
    using assms(2,4) quantize_hu_int_div[of 6 "10 ^ 6"] qhu.mono[of x 1 6] by (simp add: col6_def qhu.nonneg)
  have "col6 1 = 1" using quantize_hu_int_div[of 6 "10 ^ 6"] by (simp add: col6_def)
  then show "trade_fits (demo_request y) x" using c by (simp add: trade_fits_def fits_def demo_request_def)
  show "col6 x \<le> 10 ^ 5" using c by simp
  show "x = (case cq_qty (demo_request y) of None \<Rightarrow> pos_qty (the (positions (demo_trading q e) 0)) | Some z \<Rightarrow> z)"
    using assms(1) by (cases y) (simp_all add: demo_trading_def demo_request_def)
qed (use assms in \<open>simp_all add: demo_trading_def demo_request_def demo_view_def demo_market_def\<close>)


lemma col6_int_div: "col6 (of_int n / 10 ^ 6) = of_int n / 10 ^ 6"
  unfolding col6_def by (rule quantize_hu_int_div)

lemma micro_unit: "micro q \<Longrightarrow> 0 < q \<Longrightarrow> 1 / 10 ^ 6 \<le> q"
proof -
  assume "micro q" "0 < q"
  then obtain n where "q = of_nat n / 10 ^ 6" "n \<noteq> 0" by (auto simp: micro_def)
  then show ?thesis by (simp add: divide_right_mono)
qed

text \<open>Taking less than half a unit of the last place from a lot size leaves it as it is.\<close>

lemma dust_vanishes:
  assumes "micro q" "q < 10 ^ 12" "0 < x" "x < 1 / 2000000" "x \<le> q"
  shows "col6 (dec_ctx (q - x)) = q"
proof -
  obtain n where n: "q = of_nat n / 10 ^ 6" using assms(1) by (auto simp: micro_def)
  have n0: "n \<noteq> 0" using assms(3,5) n by (auto intro: ccontr)
  have "(of_nat n :: rat) < of_nat (10 ^ 18)" using assms(2) unfolding n by simp
  then have "n < 10 ^ 18" by (metis of_nat_less_iff)
  have f: "dec_ctx (q - 1 / 2000000) = q - 1 / 2000000"
  proof -
    have "\<bar>10 * int n - 5\<bar> < 10 ^ 28" using \<open>n < 10 ^ 18\<close> by simp
    from dec_ctx_fixed[OF this, of 7] show ?thesis by (simp add: n diff_divide_distrib)
  qed
  have g: "dec_ctx q = q" using micro_exact[OF assms(1)] assms(2) by simp
  have b: "q - 1 / 2000000 \<le> dec_ctx (q - x)" "dec_ctx (q - x) \<le> q"
    using dctx.mono[of "q - 1 / 2000000" "q - x"] dctx.mono[of "q - x" q] f g assms(3,4) by simp_all
  have "0 \<le> dec_ctx (q - x)" using assms(5) by (intro dctx.nonneg) simp
  moreover have "\<lfloor>dec_ctx (q - x) * 10 ^ 6 + 1 / 2\<rfloor> = int n"
    using b unfolding floor_eq_iff by (simp add: n)
  ultimately show ?thesis unfolding col6_def quantize_hu_def round_half_up_def by (simp add: n)
qed

text \<open>Less than half a unit is no lot at all.\<close>

lemma remnant_vanishes:
  assumes "0 \<le> y" "y \<le> 49 / 10 ^ 8"
  shows "col6 (dec_ctx y) = 0" "col6 y = 0"
proof -
  have f: "dec_ctx (49 / 10 ^ 8) = 49 / 10 ^ 8" using dec_ctx_fixed[of 49 8] by simp
  have b: "0 \<le> dec_ctx y" "dec_ctx y \<le> 49 / 10 ^ 8"
    using dctx.mono[OF assms(2)] f dctx.nonneg[OF assms(1)] by simp_all
  have z: "\<lfloor>v * 10 ^ 6 + 1 / 2\<rfloor> = 0" if "0 \<le> v" "v \<le> 49 / 10 ^ 8" for v :: rat
    using that unfolding floor_eq_iff by simp
  show "col6 (dec_ctx y) = 0" "col6 y = 0"
    using z[OF b] z[OF assms] b assms unfolding col6_def quantize_hu_def round_half_up_def by simp_all
qed


text \<open>
  C36. A partial close of less than half a millionth of a lot realizes its result and leaves the position
  as it was: the trade says zero lots, the quantity column keeps its value, and the account is paid (or charged). The
  request can be sent again and again.
\<close>

theorem dust_close_keeps_position:
  fixes s :: "'a trading_db_scheme"
  assumes "close_position gone tv k cq s = Inr (Closed d, s')" "accounts s k = Some a"
    and "positions s (pm_id (cq_pos cq)) = Some p" "micro (pos_qty p)" "pos_qty p < 10 ^ 12"
    and "cq_qty cq = Some x" "x < 49 / 10 ^ 8"
  shows "positions s' = positions s
    \<and> (\<exists>t. trades s' (next_trade s) = Some t \<and> tr_lots t = 0)
    \<and> (\<exists>a'. accounts s' k = Some a' \<and> balance a' = col2 (max (dec_ctx (balance a + py_repr (cd_realized d))) 0))"
proof -
  obtain q where q: "closed_out k cq q s s'"
    using close_position_effect[OF assms(1)] by auto
  then have x: "q = x" "0 < x" "x \<le> pos_qty p" using assms(3,6) by (auto simp: closed_out_def)
  have "1 / 10 ^ 6 \<le> pos_qty p" using micro_unit[OF assms(4)] x by simp
  then have "x \<noteq> pos_qty p" using assms(7) by auto
  moreover have "col6 (dec_ctx (pos_qty p - x)) = pos_qty p"
    using dust_vanishes[OF assms(4,5)] x assms(7) by simp
  ultimately have "positions s' = positions s"
    using q assms(3) x by (auto simp: closed_out_def)
  moreover have "\<exists>t. trades s' (next_trade s) = Some t \<and> tr_lots t = 0"
    using q x remnant_vanishes(2)[of x] assms(7) by (auto simp: closed_out_def)
  ultimately show ?thesis using close_account_row(1)[OF assms(1,2)] by blast
qed

theorem dust_close_keeps_position_witness:
  "\<exists>d s' a'. close_position (Activo, 0) demo_view 1 (demo_request (Some (4 / 10 ^ 7))) (demo_trading 1 (3 / 4)) = Inr (Closed d, s')
     \<and> positions s' = positions (demo_trading 1 (3 / 4)) \<and> accounts s' 1 = Some a' \<and> balance a' = 10001 / 100"
proof -
  let ?s = "demo_trading 1 (3 / 4)" and ?cq = "demo_request (Some (4 / 10 ^ 7))"
  obtain d s' where c: "close_position (Activo, 0) demo_view 1 ?cq ?s = Inr (Closed d, s')"
    using demo_closes[of "4 / 10 ^ 7" 1 "Some (4 / 10 ^ 7)" "3 / 4"] by auto
  have r: "cd_realized d = fl (1 / 100)"
  proof -
    have e: "dec_ctx (1 - 3 / 4) = 1 / 4" "dec_ctx (1 / 10 ^ 7) = 1 / 10 ^ 7" "dec_ctx (1 / 100) = 1 / 100"
      using dec_ctx_fixed[of 25 2] dec_ctx_fixed[of 1 7] dec_ctx_fixed[of 1 2] by simp_all
    have "dec_mult (dec_mult (dec_ctx (1 - 3 / 4)) (4 / 10 ^ 7)) 100000 = dec_ctx (dec_ctx (1 / 10 ^ 7) * 100000)"
      unfolding e(1) dec_mult_def by simp
    also have "\<dots> = 1 / 100" unfolding e(2) using e(3) by simp
    finally have "pr_account_amount (closing_pnl ?cq (the (positions ?s 0)) (4 / 10 ^ 7)) = Some (1 / 100)"
      unfolding demo_pnl by simp
    moreover obtain p q x where p: "positions ?s (pm_id (cq_pos ?cq)) = Some p"
        "q = (case cq_qty ?cq of None \<Rightarrow> pos_qty p | Some y \<Rightarrow> y)"
      and x: "pr_account_amount (closing_pnl ?cq p q) = Some x" "cd_realized d = fl x"
      using close_position_closed[OF c] by (elim exE conjE) blast
    moreover have "positions ?s (pm_id (cq_pos ?cq)) = Some (the (positions ?s 0))" "cq_qty ?cq = Some (4 / 10 ^ 7)"
      by (simp_all add: demo_trading_def demo_request_def)
    then have "p = the (positions ?s 0)" "q = 4 / 10 ^ 7" using p by (simp_all only: option.inject option.case)
    ultimately have "x = 1 / 100" using x(1) by (metis option.inject)
    then show ?thesis using x(2) by (simp only:)
  qed
  have m: "micro 1" unfolding micro_def by (rule exI[of _ "10 ^ 6"]) simp
  have "positions s' = positions ?s
    \<and> (\<exists>t. trades s' (next_trade ?s) = Some t \<and> tr_lots t = 0)
    \<and> (\<exists>a'. accounts s' 1 = Some a' \<and> balance a' = col2 (max (dec_ctx (balance demo_account + py_repr (cd_realized d))) 0))"
    by (rule dust_close_keeps_position[OF c, of demo_account "the (positions ?s 0)" "4 / 10 ^ 7"])
      (use m in \<open>simp_all add: demo_trading_def demo_request_def\<close>)
  moreover have "col2 (max (dec_ctx (balance demo_account + py_repr (cd_realized d))) 0) = 10001 / 100"
  proof -
    have e: "dec_ctx (10001 / 100) = 10001 / 100" "col2 (10001 / 100) = 10001 / 100"
      using dec_ctx_fixed[of 10001 2] col2_of_int_div[of 10001] by simp_all
    have "balance demo_account + 1 / 100 = 10001 / 100" by (simp add: demo_account_def)
    then show ?thesis unfolding r cent_reprs by (simp add: e)
  qed
  ultimately show ?thesis using c by auto
qed

text \<open>
  C37. A partial close that leaves less than half a millionth of a lot leaves a position of zero lots,
  which no request can close any more: without a quantity it is refused as zero, with one it exceeds the position.
\<close>

theorem remnant_close_strands_position:
  fixes s :: "'a trading_db_scheme"
  assumes "close_position gone tv k cq s = Inr (Closed d, s')"
    and "positions s (pm_id (cq_pos cq)) = Some p"
    and "cq_qty cq = Some x" "x < pos_qty p" "pos_qty p - x \<le> 49 / 10 ^ 8" "pm_id (cq_pos cq') = pm_id (cq_pos cq)"
  shows "(\<exists>p'. positions s' (pm_id (cq_pos cq)) = Some p' \<and> pos_qty p' = 0)
    \<and> close_position gone' tv' k cq' s' =
        Inr (CloseRefused (case cq_qty cq' of None \<Rightarrow> InvalidQty
               | Some y \<Rightarrow> if y \<le> 0 then InvalidQty else QtyExceedsPosition), s')"
proof -
  obtain q where q: "closed_out k cq q s s'"
    using close_position_effect[OF assms(1)] by auto
  then have x: "q = x" "pos_account p = k" using assms(2,3) by (auto simp: closed_out_def)
  have z: "col6 (dec_ctx (pos_qty p - x)) = 0" using assms(4,5) by (intro remnant_vanishes) simp_all
  have p: "positions s' (pm_id (cq_pos cq)) = Some (p\<lparr>pos_qty := 0\<rparr>)"
    using q assms(2,4) x z by (auto simp: closed_out_def)
  have "close_position gone' tv' k cq' s' =
        Inr (CloseRefused (case cq_qty cq' of None \<Rightarrow> InvalidQty
               | Some y \<Rightarrow> if y \<le> 0 then InvalidQty else QtyExceedsPosition), s')"
    unfolding close_position_def Let_def assms(6) p using x(2) by (auto split: option.split)
  then show ?thesis using p by simp
qed

theorem remnant_close_strands_position_witness:
  "\<exists>d s'. close_position (Activo, 0) demo_view 1 (demo_request (Some (9999999 / 10 ^ 7))) (demo_trading 1 1) = Inr (Closed d, s')
     \<and> close_position (Activo, 0) demo_view 1 (demo_request None) s' = Inr (CloseRefused InvalidQty, s')"
proof -
  let ?cq = "demo_request (Some (9999999 / 10 ^ 7))"
  obtain d s' where c: "close_position (Activo, 0) demo_view 1 ?cq (demo_trading 1 1) = Inr (Closed d, s')"
    using demo_closes[of "9999999 / 10 ^ 7" 1 "Some (9999999 / 10 ^ 7)" 1] by auto
  show ?thesis
    using c remnant_close_strands_position[OF c, of "the (positions (demo_trading 1 1) 0)" "9999999 / 10 ^ 7" "demo_request None"
        "(Activo, 0)" demo_view]
    by (auto simp: demo_request_def demo_trading_def)
qed



subsection \<open>Closes that fail or mislead\<close>

lemma reward_risk_cong:
  "tr_sl t = tr_sl u \<Longrightarrow> tr_tp t = tr_tp u \<Longrightarrow> tr_entry t = tr_entry u \<Longrightarrow> reward_risk t = reward_risk u"
  by (simp only: reward_risk_def)

lemma intelligence_accounts:
  fixes s :: "'a trading_db_scheme"
  assumes "update_intelligence pow now k a s = Some s'"
  shows "accounts s' = accounts s" "ledger s' = ledger s"
proof -
  obtain c s1 where 1: "classify_behaviour (compute_metrics pow now k s) k a s = (c, s1)" by (rule prod.exhaust)
  have "accounts s1 = accounts s \<and> ledger s1 = ledger s"
    using 1 get_or_create_rule_simps[of k a s] by (cases "get_or_create_risk_rule k a s")
      (auto simp: classify_behaviour_def split: option.splits)
  then show "accounts s' = accounts s" "ledger s' = ledger s"
    using assms by (auto simp: update_intelligence_def 1 Let_def split: if_splits)
qed

text \<open>The engine never punishes a margin account.\<close>

lemma enforce_margin_account:
  fixes s :: "'a trading_db_scheme"
  assumes "check_and_enforce_risk now k a s = (vs, a', s')" "is_retail a" "accounts s k = Some r"
  shows "acc_status a' = acc_status a" "\<exists>r'. accounts s' k = Some r' \<and> acc_status r' = acc_status r" "ledger s' = ledger s"
proof -
  obtain rule s0 where 0: "get_or_create_risk_rule k a s = (rule, s0)" by (rule prod.exhaust)
  obtain a1 s1 where 1: "raise_peak k a s0 = (a1, s1)" by (rule prod.exhaust)
  have s0: "accounts s0 = accounts s" "ledger s0 = ledger s" using get_or_create_rule_simps[of k a s] by (simp_all add: 0)
  have a1: "is_retail a1" "acc_status a1 = acc_status a" "ledger s1 = ledger s"
    "\<exists>r'. accounts s1 k = Some r' \<and> acc_status r' = acc_status r"
    using 1 assms(2,3) s0 by (auto simp: raise_peak_def Let_def is_retail_def update_account_def split: option.splits)
  have e: "enforce_check now k a1 x l ty u = ([], u)" for x l ty and u :: "'a trading_db_scheme"
    using a1(1) by (simp add: enforce_check_def split: option.split)
  have "a' = a1" "s' = upsert_daily_snapshot (date_of now) k a1 (today_pnl now k s1) s1"
    using assms(1) by (auto simp add: check_and_enforce_risk_def 0 1 e punish_def)
  then show "acc_status a' = acc_status a" "\<exists>r'. accounts s' k = Some r' \<and> acc_status r' = acc_status r" "ledger s' = ledger s"
    using a1 by (simp_all add: upsert_daily_snapshot_def Let_def)
qed


definition demo_far_request :: close_request where
  "demo_far_request = (demo_request None)\<lparr>cq_pos := (cq_pos (demo_request None))\<lparr>pm_sl := Some 65535, pm_tp := Some 196608\<rparr>\<rparr>"


text \<open>
  C39. A margin account that a close leaves without money stays active: the ledger gets the entry of a
  suspension and the caller is told \<open>Completado\<close>, but the update lists only balance and equity, so the row
  keeps its status.
\<close>

theorem wiped_account_stays_active:
  fixes s :: "'a trading_db_scheme"
  assumes "close_position gone tv k cq s = Inr (Closed d, s')" "accounts s k = Some a" "is_retail a"
    and "balance a + py_repr (cd_realized d) \<le> 0" "cq_equity cq = cq_balance cq"
  shows "(\<exists>a'. accounts s' k = Some a' \<and> balance a' = 0 \<and> acc_status a' = acc_status a)
    \<and> cd_status d = Completado
    \<and> adjust_entry k 0 ''Cuenta suspendida - balance agotado'' (tv_now tv) \<in> set (ledger s')"
proof -
  obtain p q x m t s1 where m: "m = close_amounts (accounts s k) cq (py_repr (fl x))"
    and c: "record_close tv k cq (pm_id (cq_pos cq)) p q (py_repr (fl x)) (closing_pnl cq p q) m s = Inr (t, s1)"
    and d: "cd_realized d = fl x" and s': "\<exists>vs a'. settle_account tv k a m s1 = Some (vs, a', s') \<and> cd_status d = acc_status a'"
    using close_position_closed[OF assms(1)] assms(2) by (elim exE conjE) auto
  obtain vs a0 where st: "settle_account tv k a m s1 = Some (vs, a0, s')" and a0: "cd_status d = acc_status a0" using s' by blast
  note w = record_close_rows[OF c]
  have "dec_ctx (balance a + py_repr (fl x)) \<le> 0" using assms(4) d dec_ctx_sign(1) by (simp add: not_less[symmetric])
  then have mm: "cm_balance m = 0" "cm_equity m = 0"
    using assms(2,5) by (simp_all add: m close_amounts_def Let_def)
  define b where "b = sync_balances False (a\<lparr>balance := 0, equity := 0\<rparr>)"
  have b: "balance b = 0" "equity b = 0" "acc_type b = acc_type a" "acc_status b = acc_status a"
    by (simp_all add: b_def sync_balances_def split: option.split)
  obtain b1 es where cr: "check_rules False k (tv_now tv) b = (b1, es)" by (rule prod.exhaust)
  have b1: "acc_status b1 = Completado" "acc_type b1 = acc_type a" "balance b1 = 0"
    "adjust_entry k 0 ''Cuenta suspendida - balance agotado'' (tv_now tv) \<in> set es"
  proof -
    have p: "check_profit_target k (tv_now tv) b = (b, [])"
      using b(3) assms(3) by (auto simp: check_profit_target_def is_retail_def MARGIN_ENGINE_TYPES_def split: option.split)
    have "check_drawdown_rule k (tv_now tv) b
        = (b\<lparr>acc_status := Suspendido\<rparr>, [adjust_entry k 0 ''Cuenta suspendida - balance agotado'' (tv_now tv)])"
      using b assms(3) by (simp add: check_drawdown_rule_def is_retail_def)
    then show "acc_status b1 = Completado" "acc_type b1 = acc_type a" "balance b1 = 0"
      "adjust_entry k 0 ''Cuenta suspendida - balance agotado'' (tv_now tv) \<in> set es"
      using cr b by (auto simp: check_rules_def p)
  qed
  obtain a1 s2 where 1: "save_fields col_money k (tv_now tv) (a\<lparr>balance := cm_balance m, equity := cm_equity m\<rparr>) s1 = (a1, s2)"
    by (rule prod.exhaust)
  have acc: "accounts s1 k = Some a" using w(8) assms(2) by simp
  have a1: "a1 = b1" "ledger s2 = ledger s1 @ es" "accounts s2 k = Some (col_money (store_account b1) a)"
    using 1 acc cr by (auto simp: save_fields_def mm b_def[symmetric] update_account_def)
  obtain vs2 a2 s3 where 2: "check_and_enforce_risk (tv_now tv) k a1 s2 = (vs2, a2, s3)" by (metis prod_cases3)
  have 3: "update_intelligence (tv_pow tv) (tv_now tv) k a2 s3 = Some s'" "a0 = a2"
    using st by (auto simp: settle_account_def 1 2)
  have "is_retail a1" using a1(1) b1(2) assms(3) by (simp add: is_retail_def)
  from enforce_margin_account[OF 2 this a1(3)]
  have e: "acc_status a2 = Completado" "\<exists>r'. accounts s' k = Some r' \<and> acc_status r' = acc_status a" "ledger s' = ledger s2"
    using intelligence_accounts[OF 3(1)] a1 b1 by (simp_all add: col_money_def)
  moreover have "\<exists>a'. accounts s' k = Some a' \<and> balance a' = 0"
    using settle_account_money(1)[OF st acc] mm by auto
  ultimately show ?thesis using a1 b1 a0 3(2) by auto
qed

theorem wiped_account_stays_active_witness:
  "\<exists>d s' a'. close_position (Activo, 0) demo_view 1 (demo_request None) (demo_trading 1 2) = Inr (Closed d, s')
     \<and> accounts s' 1 = Some a' \<and> balance a' = 0 \<and> acc_status a' = Activo \<and> cd_status d = Completado"
proof -
  let ?s = "demo_trading 1 2" and ?cq = "demo_request None"
  obtain d s' where c: "close_position (Activo, 0) demo_view 1 ?cq ?s = Inr (Closed d, s')"
    using demo_closes[of 1 1 None 2] by auto
  obtain p q x where p: "positions ?s (pm_id (cq_pos ?cq)) = Some p"
      "q = (case cq_qty ?cq of None \<Rightarrow> pos_qty p | Some y \<Rightarrow> y)"
    and x: "pr_account_amount (closing_pnl ?cq p q) = Some x" "cd_realized d = fl x"
    using close_position_closed[OF c] by (elim exE conjE) blast
  have "positions ?s (pm_id (cq_pos ?cq)) = Some (the (positions ?s 0))" "cq_qty ?cq = None" "pos_qty (the (positions ?s 0)) = 1"
    by (simp_all add: demo_trading_def demo_request_def)
  then have "p = the (positions ?s 0)" "q = 1" using p by (simp_all only: option.inject option.case)
  then have "x = dec_mult (dec_mult (dec_ctx (1 - 2)) 1) 100000" using x(1) demo_pnl[of None 1 2 1] by simp
  also have "\<dots> = - 100000" using dctx.minus[of 1] dctx.minus[of 100000] dec_ctx_int[of 1] dec_ctx_int[of 100000]
    by (simp add: dec_mult_def)
  finally have "py_repr (cd_realized d) = - 100000" by (simp add: x(2) fl_minus py_repr_minus)
  then show ?thesis
    using c wiped_account_stays_active[OF c, of demo_account]
    by (auto simp: demo_trading_def demo_request_def demo_account_def is_retail_def MARGIN_ENGINE_TYPES_def)
qed

end
