(* ===== verification/PositionDaemon.thy ===== *)
theory PositionDaemon
  imports Closing
begin

section \<open>The offline position daemon (\<open>simulator/tasks.py\<close>)\<close>

text \<open>
  Every few seconds the daemon reads all open positions of active accounts. With a quote for each of an
  account's symbols it first judges stop-out and liquidation and closes everything; otherwise, and
  when neither applies, it closes the positions whose stop loss or take profit is reached. An exception that no
  \<open>try\<close> surrounds ends the whole run: what was committed stays, the rest is not done.
\<close>

record daemon_run =
  dm_closed :: nat
  dm_skipped :: nat
  dm_aborted :: bool

definition close_position_sync ::
  "trade_view \<Rightarrow> pk \<Rightarrow> close_request \<Rightarrow> 'a trading_db_scheme \<Rightarrow> trade_fault + close_result \<times> 'a trading_db_scheme" where
  "close_position_sync tv k cq s = close_position (Activo, fl (max (py_repr (cq_balance cq)) 0)) tv k cq s"

definition account_currency :: "trading_account \<Rightarrow> string" where
  "account_currency a = (if currency a = '''' then ''USD'' else currency a)"

text \<open>The captured context says that no spread took part.\<close>

definition daemon_pricing_context :: pricing_context where
  "daemon_pricing_context = build_pricing_context (Some 0) (Some 0) None None None None"

subsection \<open>Equity and margin from the cached quotes\<close>

record offline_figures =
  of_equity_now :: rat
  of_margin :: rat
  of_floating :: rat

text \<open>\<open>None\<close>: an unknown symbol. Every position has a quote.\<close>

definition compute_offline_equity_margin ::
  "(string \<Rightarrow> (rat \<times> rat) option) \<Rightarrow> trading_account \<Rightarrow> position list \<Rightarrow> offline_figures option" where
  "compute_offline_equity_margin quotes a ps =
     (let floating = fresh_floating (account_currency a)
            (\<lambda>p. close_side (pos_side p) (the (quotes (pos_symbol p)))) ps
      in map_option (\<lambda>used. \<lparr>of_equity_now = fl (fl (balance a) + floating), of_margin = used, of_floating = floating\<rparr>)
           (fresh_margin (max 1 (int (leverage a))) (account_currency a) ps))"

subsection \<open>Suspension\<close>

definition suspension_entry :: "int \<Rightarrow> pk \<Rightarrow> rat \<Rightarrow> string \<Rightarrow> ledger_entry" where
  "suspension_entry now k bal reason =
     \<lparr>le_account = k, le_event = EV_ADJUST, le_amount = 0, le_balance_after = col2 bal,
      le_meta = [(''reason'', MStr reason)], le_created_at = now\<rparr>"

definition store_suspension :: "int \<Rightarrow> pk \<Rightarrow> trading_account \<Rightarrow> rat \<Rightarrow> string \<Rightarrow> 'a db_scheme \<Rightarrow> 'a db_scheme" where
  "store_suspension now k a bal reason s =
     add_ledger (suspension_entry now k bal reason)
       (snd (save_fields col_status k now (a\<lparr>acc_status := Suspendido\<rparr>) s))"

definition db_suspend_account_sync :: "int \<Rightarrow> pk \<Rightarrow> string \<Rightarrow> rat \<Rightarrow> 'a db_scheme \<Rightarrow> 'a db_scheme" where
  "db_suspend_account_sync now k reason bal s =
     (case accounts s k of None \<Rightarrow> s
      | Some a \<Rightarrow> if acc_status a = Suspendido then s else store_suspension now k a (py_repr bal) reason s)"

text \<open>The live path suspends without looking at the status, and logs the row's own balance.\<close>

definition db_suspend_account :: "int \<Rightarrow> pk \<Rightarrow> string \<Rightarrow> 'a db_scheme \<Rightarrow> 'a db_scheme" where
  "db_suspend_account now k reason s =
     (case accounts s k of None \<Rightarrow> s | Some a \<Rightarrow> store_suspension now k a (balance a) reason s)"

subsection \<open>Closing\<close>

definition daemon_request ::
  "string \<Rightarrow> rat \<Rightarrow> string \<Rightarrow> rat \<Rightarrow> rat \<Rightarrow> pk \<times> position \<Rightarrow> close_request" where
  "daemon_request ccy px reason new_balance new_equity row =
     (let (i, p) = row
      in \<lparr>cq_pos = \<lparr>pm_id = i, pm_symbol = pos_symbol p, pm_side = pos_side p, pm_sl = map_option fl (pos_sl p),
                   pm_tp = map_option fl (pos_tp p), pm_opened = pos_opened_at p div 1000000\<rparr>,
          cq_price = px, cq_reason = reason, cq_balance = new_balance, cq_equity = new_equity,
          cq_context = Some daemon_pricing_context, cq_qty = None, cq_currency = ccy\<rparr>)"

definition grid_price :: "string \<Rightarrow> rat \<Rightarrow> rat option" where
  "grid_price sy px = map_option (\<lambda>sp. py_round (nat (sp_price_decimals sp)) px) (get_spec sy)"

text \<open>The running state of \<open>_daemon_close_all\<close>: the last status, the balance, the floating result closed.\<close>

record close_all =
  ca_count :: nat
  ca_status :: "acc_status option"
  ca_balance :: rat
  ca_accum :: rat
  ca_aborted :: bool

definition close_one ::
  "trade_view \<Rightarrow> pk \<Rightarrow> string \<Rightarrow> (string \<Rightarrow> (rat \<times> rat) option) \<Rightarrow> string \<Rightarrow> rat \<Rightarrow> pk \<times> position
   \<Rightarrow> close_all \<times> 'a trading_db_scheme \<Rightarrow> close_all \<times> 'a trading_db_scheme" where
  "close_one tv k ccy quotes reason tf row cs =
     (let (c, s) = cs; (i, p) = row; px0 = close_side (pos_side p) (the (quotes (pos_symbol p)))
      in if ca_aborted c then (c, s)
         else case grid_price (pos_symbol p) px0 of
           None \<Rightarrow> (c\<lparr>ca_aborted := True\<rparr>, s)
         | Some px \<Rightarrow>
            (let realized = py_round 8 (position_float ccy px p); fp = position_float ccy px0 p;
                 nb = fl (ca_balance c + realized);
                 ne = py_round 2 (fl (nb + fl (fl (tf - ca_accum c) - fp)))
             in case close_position_sync tv k (daemon_request ccy px reason nb ne row) s of
                  Inl _ \<Rightarrow> (c, s)
                | Inr (AlreadyClosed, s') \<Rightarrow> (c, s')
                | Inr (CloseRefused _, s') \<Rightarrow> (c\<lparr>ca_aborted := True\<rparr>, s')
                | Inr (Closed d, s') \<Rightarrow>
                    (c\<lparr>ca_count := ca_count c + 1, ca_status := Some (cd_status d), ca_balance := cd_balance d,
                       ca_accum := fl (ca_accum c + fp)\<rparr>, s')))"

definition daemon_close_all ::
  "trade_view \<Rightarrow> pk \<Rightarrow> trading_account \<Rightarrow> (string \<Rightarrow> (rat \<times> rat) option) \<Rightarrow> string \<Rightarrow> rat
   \<Rightarrow> (pk \<times> position) list \<Rightarrow> 'a trading_db_scheme \<Rightarrow> close_all \<times> 'a trading_db_scheme" where
  "daemon_close_all tv k a quotes reason tf rows s =
     fold (close_one tv k (account_currency a) quotes reason tf) rows
       (\<lparr>ca_count = 0, ca_status = None, ca_balance = fl (balance a), ca_accum = 0, ca_aborted = False\<rparr>, s)"

subsection \<open>Stop-out and liquidation\<close>

datatype forced_exit = NoExit | Stopout | MarginCall

text \<open>A margin account is liquidated below half of its margin, whatever its own level.\<close>

definition forced_exit_of :: "trading_account \<Rightarrow> offline_figures \<Rightarrow> forced_exit" where
  "forced_exit_of a f =
     (if is_retail a
      then (if 0 < of_margin f \<and> fl (fl (of_equity_now f / of_margin f) * 100) < 50 then MarginCall else NoExit)
      else if check_equity_stopout (of_equity_now f) (fl (peak_balance a)) (acc_tier a) None (Some (acc_type a))
                (of_margin f) 50 then Stopout else NoExit)"

definition force_close ::
  "trade_view \<Rightarrow> pk \<Rightarrow> trading_account \<Rightarrow> (string \<Rightarrow> (rat \<times> rat) option) \<Rightarrow> offline_figures \<Rightarrow> forced_exit
   \<Rightarrow> (pk \<times> position) list \<Rightarrow> daemon_run \<times> 'a trading_db_scheme \<Rightarrow> daemon_run \<times> 'a trading_db_scheme" where
  "force_close tv k a quotes f x rows ds =
     (let (d, s) = ds; reason = (if x = Stopout then ''daemon_stopout'' else ''daemon_margin_call'');
          (c, s1) = daemon_close_all tv k a quotes reason (of_floating f) rows s
      in if ca_aborted c then (d\<lparr>dm_aborted := True\<rparr>, s1)
         else (d\<lparr>dm_closed := dm_closed d + ca_count c\<rparr>,
               if x = Stopout \<and> ca_status c \<noteq> Some Suspendido
               then db_suspend_account_sync (tv_now tv) k reason (ca_balance c) s1 else s1))"

subsection \<open>Stop loss and take profit\<close>

definition sl_hit :: "side \<Rightarrow> rat \<Rightarrow> rat option \<Rightarrow> bool" where
  "sl_hit sd px sl = (case sl of None \<Rightarrow> False | Some x \<Rightarrow> if sd = BUY then px \<le> fl x else fl x \<le> px)"

definition tp_hit :: "side \<Rightarrow> rat \<Rightarrow> rat option \<Rightarrow> bool" where
  "tp_hit sd px tp = (case tp of None \<Rightarrow> False | Some x \<Rightarrow> if sd = BUY then fl x \<le> px else px \<le> fl x)"

text \<open>The balance runs over the positions of the account; the equity reported is that balance.\<close>

definition check_stops ::
  "trade_view \<Rightarrow> pk \<Rightarrow> string \<Rightarrow> (string \<Rightarrow> (rat \<times> rat) option) \<Rightarrow> pk \<times> position
   \<Rightarrow> rat \<times> daemon_run \<times> 'a trading_db_scheme \<Rightarrow> rat \<times> daemon_run \<times> 'a trading_db_scheme" where
  "check_stops tv k ccy quotes row bds =
     (let (bal, d, s) = bds; (i, p) = row; sd = pos_side p
      in if dm_aborted d then bds
         else case quotes (pos_symbol p) of
           None \<Rightarrow> (bal, d\<lparr>dm_skipped := dm_skipped d + 1\<rparr>, s)
         | Some quote \<Rightarrow>
            (let px0 = close_side sd quote; tp = tp_hit sd px0 (pos_tp p)
             in if \<not> sl_hit sd px0 (pos_sl p) \<and> \<not> tp then bds
                else case grid_price (pos_symbol p) px0 of
                  None \<Rightarrow> (bal, d\<lparr>dm_aborted := True\<rparr>, s)
                | Some px \<Rightarrow>
                   (let nb = fl (bal + py_round 8 (position_float ccy px p))
                    in case close_position_sync tv k
                              (daemon_request ccy px (if tp then ''daemon_tp'' else ''daemon_sl'') nb nb row) s of
                         Inl _ \<Rightarrow> (bal, d, s)
                       | Inr (AlreadyClosed, s') \<Rightarrow> (bal, d, s')
                       | Inr (CloseRefused _, s') \<Rightarrow> (bal, d\<lparr>dm_aborted := True\<rparr>, s')
                       | Inr (Closed c, s') \<Rightarrow> (cd_balance c, d\<lparr>dm_closed := dm_closed d + 1\<rparr>, s'))))"

subsection \<open>The run\<close>

type_synonym account_rows = "pk \<times> trading_account \<times> (pk \<times> position) list"

definition scan_account ::
  "trade_view \<Rightarrow> account_rows \<Rightarrow> daemon_run \<times> 'a trading_db_scheme \<Rightarrow> daemon_run \<times> 'a trading_db_scheme" where
  "scan_account tv ar ds =
     (let (k, a, rows) = ar; (d, s) = ds; quotes = tv_cached tv; ps = map snd rows;
          stops = (\<lambda>_. let (_, d', s') = fold (check_stops tv k (account_currency a) quotes) rows (fl (balance a), d, s)
                       in (d', s'))
      in if dm_aborted d then ds
         else if \<not> list_all (\<lambda>p. quotes (pos_symbol p) \<noteq> None) ps then stops ()
         else case compute_offline_equity_margin quotes a ps of
           None \<Rightarrow> (d\<lparr>dm_aborted := True\<rparr>, s)
         | Some f \<Rightarrow> (case forced_exit_of a f of
              NoExit \<Rightarrow> stops () | x \<Rightarrow> force_close tv k a quotes f x rows ds))"

text \<open>The accounts are read once, in key order, with their positions.\<close>

definition active_rows :: "'a db_scheme \<Rightarrow> account_rows list" where
  "active_rows s =
     concat (map (\<lambda>k. case accounts s k of None \<Rightarrow> []
                      | Some a \<Rightarrow> if acc_status a = Activo \<and> open_positions k s \<noteq> [] then [(k, a, locked_positions k s)] else [])
            [0..<next_account s])"

definition scan_positions :: "trade_view \<Rightarrow> 'a trading_db_scheme \<Rightarrow> daemon_run \<times> 'a trading_db_scheme" where
  "scan_positions tv s =
     fold (scan_account tv) (active_rows s) (\<lparr>dm_closed = 0, dm_skipped = 0, dm_aborted = False\<rparr>, s)"


subsection \<open>What ends a run\<close>

lemma check_stops_aborted: "dm_aborted d \<Longrightarrow> check_stops tv k ccy quotes row (bal, d, s) = (bal, d, s)"
  by (simp add: check_stops_def Let_def split: prod.split)

lemma fold_check_stops_aborted: "dm_aborted d \<Longrightarrow> fold (check_stops tv k ccy quotes) rows (bal, d, s) = (bal, d, s)"
  by (induction rows) (simp_all add: check_stops_aborted)

lemma fold_scan_account_aborted: "dm_aborted d \<Longrightarrow> fold (scan_account tv) ars (d, s) = (d, s)"
  by (induction ars) (simp_all add: scan_account_def Let_def split: prod.split)

lemma close_one_aborted: "ca_aborted c \<Longrightarrow> close_one tv k ccy quotes reason tf row (c, s) = (c, s)"
  by (simp add: close_one_def Let_def split: prod.split)

lemma fold_close_one_aborted:
  "ca_aborted c \<Longrightarrow> fold (close_one tv k ccy quotes reason tf) rows (c, s) = (c, s)"
  by (induction rows) (simp_all add: close_one_aborted)

lemma active_rows_owned:
  assumes "(k, a, rows) \<in> set (active_rows s)" "(i, p) \<in> set rows"
  shows "accounts s k = Some a" "positions s i = Some p" "pos_account p = k"
  using assms locked_rows[of i p k s] by (auto simp: active_rows_def split: option.splits if_splits)

lemma zero_lot_refused:
  assumes "positions s i = Some p" "pos_account p = k" "pos_qty p = 0"
  shows "close_position_sync tv k (daemon_request ccy px reason nb ne (i, p)) s = Inr (CloseRefused InvalidQty, s)"
  using assms by (simp add: close_position_sync_def close_position_def daemon_request_def)

text \<open>
  C40. One position of zero lots whose stop or target is reached ends every run of the daemon when it is
  the first of the first account: the refusal of the close has no balance to read, the exception is outside every handler,
  nothing is closed, and the other positions and accounts are not looked at, run after run.
\<close>

theorem zero_lot_position_ends_scan:
  fixes s :: "'a trading_db_scheme"
  assumes "active_rows s = (k, a, (i, p) # rows) # rest" "pos_qty p = 0"
    and "tv_cached tv (pos_symbol p) = Some quote"
    and "sl_hit (pos_side p) (close_side (pos_side p) quote) (pos_sl p) \<or> tp_hit (pos_side p) (close_side (pos_side p) quote) (pos_tp p)"
  shows "scan_positions tv s = (\<lparr>dm_closed = 0, dm_skipped = 0, dm_aborted = True\<rparr>, s)"
proof -
  define d where "d = \<lparr>dm_closed = 0, dm_skipped = 0, dm_aborted = False\<rparr>"
  define d' where "d' = \<lparr>dm_closed = 0, dm_skipped = 0, dm_aborted = True\<rparr>"
  have da: "\<not> dm_aborted d" "dm_aborted d'" "d\<lparr>dm_aborted := True\<rparr> = d'" by (simp_all add: d_def d'_def)
  have p: "positions s i = Some p" "pos_account p = k" using active_rows_owned[of k a "(i, p) # rows" s i p] assms(1) by simp_all
  note z = zero_lot_refused[OF p assms(2)]
  have stops: "fold (check_stops tv k ccy (tv_cached tv)) ((i, p) # rows) (bal, d, s) = (bal, d', s)" for ccy bal
  proof -
    have "check_stops tv k ccy (tv_cached tv) (i, p) (bal, d, s) = (bal, d', s)"
      using assms(3,4) da by (auto simp: check_stops_def Let_def z split: option.split)
    then show ?thesis using fold_check_stops_aborted[OF da(2)] by simp
  qed
  have forced: "force_close tv k a (tv_cached tv) f x ((i, p) # rows) (d, s) = (d', s)" for f x
  proof -
    define c where "c = \<lparr>ca_count = 0, ca_status = None, ca_balance = fl (balance a), ca_accum = 0, ca_aborted = False\<rparr>"
    have one: "\<exists>c'. ca_aborted c' \<and> close_one tv k ccy (tv_cached tv) reason tf (i, p) (c, s) = (c', s)" for ccy reason tf
      by (simp add: close_one_def Let_def z c_def split: option.split)
    have "\<exists>c'. ca_aborted c' \<and> daemon_close_all tv k a (tv_cached tv) reason tf ((i, p) # rows) s = (c', s)" for reason tf
    proof -
      obtain c' where "ca_aborted c'" "close_one tv k (account_currency a) (tv_cached tv) reason tf (i, p) (c, s) = (c', s)"
        using one by blast
      then show ?thesis
        using fold_close_one_aborted[of c'] unfolding daemon_close_all_def c_def[symmetric] by (intro exI[of _ c']) simp
    qed
    then obtain c' where "ca_aborted c'" "daemon_close_all tv k a (tv_cached tv)
        (if x = Stopout then ''daemon_stopout'' else ''daemon_margin_call'') (of_floating f) ((i, p) # rows) s = (c', s)" by blast
    then show ?thesis using da by (simp add: force_close_def Let_def)
  qed
  have "scan_account tv (k, a, (i, p) # rows) (d, s) = (d', s)"
    using stops[of "account_currency a" "fl (balance a)"] forced da
    by (auto simp: scan_account_def Let_def split: option.split forced_exit.split simp del: fold_simps)
  then show ?thesis
    using fold_scan_account_aborted[OF da(2)] unfolding scan_positions_def assms(1) d_def[symmetric] d'_def[symmetric] by simp
qed

text \<open>An account with a zero-lot position, its stop reached, before an account with an ordinary one.\<close>

definition demo_stuck :: trading_db where
  "demo_stuck =
     (let p = the (positions (demo_trading 0 1) 0)
      in (demo_trading 0 1)\<lparr>accounts := [1 \<mapsto> demo_account, 2 \<mapsto> demo_account], next_account := 3,
          positions := [0 \<mapsto> p\<lparr>pos_sl := Some 2\<rparr>, 1 \<mapsto> p\<lparr>pos_account := 2, pos_qty := 1, pos_sl := Some 2\<rparr>],
          next_position := 2\<rparr>)"

theorem zero_lot_position_ends_scan_witness:
  "scan_positions demo_view demo_stuck = (\<lparr>dm_closed = 0, dm_skipped = 0, dm_aborted = True\<rparr>, demo_stuck)"
proof -
  let ?p = "the (positions demo_stuck 0)"
  have "active_rows demo_stuck = (1, demo_account, [(0, ?p)]) # [(2, demo_account, [(1, the (positions demo_stuck 1))])]"
    by (simp add: active_rows_def demo_stuck_def demo_trading_def locked_positions_def open_positions_def rows_where_def
        demo_account_def upt_rec Let_def)
  moreover have "sl_hit (pos_side ?p) (close_side (pos_side ?p) (1, 1)) (pos_sl ?p)"
    by (simp add: sl_hit_def demo_stuck_def demo_trading_def close_side_def)
  ultimately show ?thesis
    by (intro zero_lot_position_ends_scan[of _ 1 demo_account 0 ?p "[]" _ demo_view "(1, 1)"])
      (simp_all add: demo_view_def demo_stuck_def demo_trading_def)
qed

subsection \<open>Suspension\<close>

text \<open>
  C12. What a suspension stores. The daemon and the live path set the status and save; the rules of the
  save then replace it by \<open>Completado\<close> when the stored equity is not positive, which is not among the statuses the guard of a locked order refuses;
  only with equity left is the account stored as suspended. The ledger says suspended in both cases, money does not move,
  and an account the daemon finds suspended is left alone.
\<close>

theorem suspension_may_complete:
  fixes s :: "'a db_scheme"
  assumes "accounts s k = Some a"
  shows "(\<exists>a'. accounts (db_suspend_account now k reason s) k = Some a' \<and> balance a' = balance a
      \<and> acc_status a' = (if equity a \<le> 0 then Completado else Suspendido))
    \<and> suspension_entry now k (balance a) reason \<in> set (ledger (db_suspend_account now k reason s))
    \<and> Completado \<notin> set BLOCKED_STATUSES
    \<and> (db_suspend_account_sync now k reason bal s =
        (if acc_status a = Suspendido then s else store_suspension now k a (py_repr bal) reason s))
    \<and> (acc_status a \<noteq> Suspendido \<longrightarrow>
        accounts (db_suspend_account_sync now k reason bal s) = accounts (db_suspend_account now k reason s))"
proof -
  have st: "\<exists>a'. accounts (store_suspension now k a b reason s) = (accounts s)(k \<mapsto> a') \<and> balance a' = balance a
      \<and> acc_status a' = (if equity a \<le> 0 then Completado else Suspendido)" for b
  proof -
    obtain b1 es where cr: "check_rules False k now (sync_balances False (a\<lparr>acc_status := Suspendido\<rparr>)) = (b1, es)"
      by (rule prod.exhaust)
    have "acc_status b1 = (if equity a \<le> 0 then Completado else Suspendido)"
    proof -
      obtain b2 es2 where 2: "check_profit_target k now (sync_balances False (a\<lparr>acc_status := Suspendido\<rparr>)) = (b2, es2)"
        by (rule prod.exhaust)
      obtain b3 es3 where 3: "check_drawdown_rule k now b2 = (b3, es3)" by (rule prod.exhaust)
      have "acc_status b3 = Suspendido" "equity b3 = equity a"
        using 3 check_profit_target_keeps[OF 2] check_drawdown_rule_keeps[OF 3]
        by (auto simp: check_drawdown_rule_def sync_balances_def split: if_splits option.splits)
      then show ?thesis using cr by (auto simp: check_rules_def 2 3 Let_def split: if_splits)
    qed
    then show ?thesis
      using assms by (intro exI[of _ "a\<lparr>acc_status := (if equity a \<le> 0 then Completado else Suspendido)\<rparr>"])
        (simp add: store_suspension_def save_fields_def cr update_account_def col_status_def store_account_def)
  qed
  obtain a' where a': "accounts (store_suspension now k a (balance a) reason s) = (accounts s)(k \<mapsto> a')" "balance a' = balance a"
      "acc_status a' = (if equity a \<le> 0 then Completado else Suspendido)" using st by blast
  have l: "suspension_entry now k (balance a) reason \<in> set (ledger (db_suspend_account now k reason s))"
    using assms by (simp add: db_suspend_account_def store_suspension_def)
  have e: "accounts (store_suspension now k a b reason s) = accounts (store_suspension now k a b' reason s)" for b b'
    by (simp add: store_suspension_def)
  show ?thesis
    using assms a' l e[of "py_repr bal" "balance a"]
    by (simp add: db_suspend_account_def db_suspend_account_sync_def BLOCKED_STATUSES_def)
qed

theorem suspension_may_complete_witness:
  "\<exists>a'. accounts (db_suspend_account 0 1 ''stopout'' ((demo_trading 1 1)\<lparr>accounts := [1 \<mapsto> demo_account\<lparr>equity := 0\<rparr>]\<rparr>)) 1 = Some a'
     \<and> acc_status a' = Completado \<and> balance a' = 100"
  using suspension_may_complete[of "(demo_trading 1 1)\<lparr>accounts := [1 \<mapsto> demo_account\<lparr>equity := 0\<rparr>]\<rparr>" 1 "demo_account\<lparr>equity := 0\<rparr>"
      0 "''stopout''" 0]
  by (auto simp: demo_account_def)

end
