(* ===== verification/TradingRuns.thy ===== *)
theory TradingRuns
  imports PositionDaemon
begin

section \<open>Runs of the trading engine\<close>

text \<open>
  What connections, scans and daemons do to the order book is a sequence of transactions: market orders, the life of
  pending orders, closes and suspensions, in any order and with any clock, prices and arguments. Two
  invariants hold of every such run: an order is executed exactly once when it is triggered and never otherwise, and
  lots are neither lost nor made.
\<close>

subsection \<open>Events\<close>

datatype trading_event =
  MarketOrder pk session_terms string side rat rat "rat option" "rat option" rat "pricing_context option"
| PlacePending pk string side order_kind rat rat "rat option" "rat option" "int option"
| CancelPending pk pk
| EditPending pk pk "rat option" "rat option" "rat option" "rat option"
| TriggerPending pk rat
| ClosePosition pk "acc_status \<times> rat" close_request
| SuspendAccount pk string

text \<open>The caller's copy of a position was read from its row, whose symbol and side never change.\<close>

definition remembered :: "'a trading_db_scheme \<Rightarrow> close_request \<Rightarrow> close_request" where
  "remembered s cq =
     (case positions s (pm_id (cq_pos cq)) of None \<Rightarrow> cq
      | Some p \<Rightarrow> cq\<lparr>cq_pos := (cq_pos cq)\<lparr>pm_symbol := pos_symbol p, pm_side := pos_side p\<rparr>\<rparr>)"

definition committed :: "'a trading_db_scheme \<Rightarrow> trade_fault + 'b \<times> 'a trading_db_scheme \<Rightarrow> 'a trading_db_scheme" where
  "committed s r = (case r of Inl _ \<Rightarrow> s | Inr (_, s') \<Rightarrow> s')"

fun perform :: "trading_settings \<Rightarrow> trade_view \<times> trading_event \<Rightarrow> 'a trading_db_scheme \<Rightarrow> 'a trading_db_scheme" where
  "perform cfg (tv, MarketOrder k sn sy sd qty px sl tp commission ctx) s =
     committed s (open_position_atomic cfg tv k sn sy sd qty px sl tp commission ctx s)"
| "perform cfg (tv, PlacePending k sy sd kind qty trig sl tp expires) s =
     committed s (create_pending_order (tv_now tv) k sy sd kind qty trig sl tp expires s)"
| "perform cfg (tv, CancelPending k i) s = snd (cancel_pending_order (tv_now tv) k i s)"
| "perform cfg (tv, EditPending k i trig qty sl tp) s = committed s (update_pending_order k i trig qty sl tp s)"
| "perform cfg (tv, TriggerPending i px) s = committed s (trigger_pending_order cfg tv i px s)"
| "perform cfg (tv, ClosePosition k gone cq) s = committed s (close_position gone tv k (remembered s cq) s)"
| "perform cfg (tv, SuspendAccount k reason) s = db_suspend_account (tv_now tv) k reason s"

definition run :: "trading_settings \<Rightarrow> (trade_view \<times> trading_event) list \<Rightarrow> 'a trading_db_scheme \<Rightarrow> 'a trading_db_scheme" where
  "run cfg es s = fold (perform cfg) es s"

lemma run_induct:
  assumes "I s" "\<And>e s. e \<in> set es \<Longrightarrow> I s \<Longrightarrow> I (perform cfg e s)"
  shows "I (run cfg es s)"
  using assms unfolding run_def by (induction es arbitrary: s) auto

subsection \<open>What an event may do\<close>

lemma book_same_suspend: "book_same s (db_suspend_account now k reason s)"
proof -
  have "book_same s (store_suspension now k a b reason s)" for a b
    unfolding store_suspension_def
    by (rule book_same_trans[OF book_same_save_fields[of s col_status k now "a\<lparr>acc_status := Suspendido\<rparr>"] book_same_add_ledger])
  then show ?thesis by (simp add: db_suspend_account_def split: option.split)
qed

datatype effect = Nothing | Executed pk string side rat "pk option" pk | Taken pk close_request rat | OrderSet pk pending_order

text \<open>Every event leaves the book alone, executes a quantity, closes one, or writes an order.\<close>

inductive does :: "effect \<Rightarrow> 'a trading_db_scheme \<Rightarrow> 'a trading_db_scheme \<Rightarrow> bool" where
  idle: "book_same s s' \<Longrightarrow> does Nothing s s'"
| manual: "filled k sy sd q ENTRY_MANUAL_WS None i s s' \<Longrightarrow> pending_orders s' = pending_orders s
    \<Longrightarrow> next_pending s' = next_pending s \<Longrightarrow> does (Executed k sy sd q None i) s s'"
| trigger: "pending_orders s j = Some po \<Longrightarrow> po_status po = PENDING
    \<Longrightarrow> filled (po_account po) (po_symbol po) (po_side po) (py_repr (fl (po_qty po))) ENTRY_PENDING_TRIGGER (Some j) i s s'
    \<Longrightarrow> next_pending s' = next_pending s
    \<Longrightarrow> pending_orders s' = (pending_orders s)(j \<mapsto> po\<lparr>po_status := TRIGGERED, po_triggered_at := Some now, po_position := Some i\<rparr>)
    \<Longrightarrow> does (Executed (po_account po) (po_symbol po) (po_side po) (py_repr (fl (po_qty po))) (Some j) i) s s'"
| take: "closed_out k cq q s s'
    \<Longrightarrow> (\<And>p. positions s (pm_id (cq_pos cq)) = Some p \<Longrightarrow> pm_symbol (cq_pos cq) = pos_symbol p \<and> pm_side (cq_pos cq) = pos_side p)
    \<Longrightarrow> does (Taken k cq q) s s'"
| order: "book_same (s\<lparr>pending_orders := (pending_orders s)(i \<mapsto> po)\<rparr>) s'
    \<Longrightarrow> pending_orders s i = Some po0 \<Longrightarrow> po_status po0 = PENDING \<Longrightarrow> po_status po \<noteq> TRIGGERED
    \<Longrightarrow> does (OrderSet i po) s s'"
| create: "book_same (s\<lparr>pending_orders := (pending_orders s)(next_pending s \<mapsto> po), next_pending := Suc (next_pending s)\<rparr>) s'
    \<Longrightarrow> po_status po = PENDING \<Longrightarrow> does (OrderSet (next_pending s) po) s s'"

inductive_cases doesE: "does e s s'"

text \<open>Quantities in six decimals, as the columns store them.\<close>

definition six_qty :: "rat \<Rightarrow> bool" where
  "six_qty q \<longleftrightarrow> micro q \<and> py_repr (fl q) = q"

definition six_float :: "rat \<Rightarrow> bool" where
  "six_float x \<longleftrightarrow> fl x = x \<and> micro (py_repr x)"

fun six_places :: "trading_event \<Rightarrow> bool" where
  "six_places (MarketOrder k sn sy sd qty px sl tp commission ctx) = six_float qty"
| "six_places (PlacePending k sy sd kind qty trig sl tp expires) = six_float qty"
| "six_places (EditPending k i trig qty sl tp) = (case qty of None \<Rightarrow> True | Some x \<Rightarrow> six_float x)"
| "six_places (ClosePosition k gone cq) = (case cq_qty cq of None \<Rightarrow> True | Some x \<Rightarrow> micro x)"
| "six_places e = True"

fun six_effect :: "'a trading_db_scheme \<Rightarrow> effect \<Rightarrow> bool" where
  "six_effect s (Executed k sy sd q None i) = micro q"
| "six_effect s (Taken k cq q) = (case cq_qty cq of None \<Rightarrow> True | Some x \<Rightarrow> micro x)"
| "six_effect s (OrderSet i po) = (po_status po = PENDING \<longrightarrow> six_qty (po_qty po)
     \<or> (\<exists>po0. pending_orders s i = Some po0 \<and> po_status po0 = PENDING \<and> po_qty po = col6 (po_qty po0)))"
| "six_effect s e = True"

lemma col6_micro: "micro q \<Longrightarrow> col6 q = q"
proof -
  assume "micro q"
  then obtain n where q: "q = of_nat n / 10 ^ 6" by (auto simp: micro_def)
  show "col6 q = q" unfolding q using col6_int_div[of "int n"] by simp
qed

lemma six_float_qty: "six_float x \<Longrightarrow> six_qty (col6 (py_repr x)) \<and> col6 (py_repr x) = py_repr x"
  using fl_py_repr[of x] col6_micro[of "py_repr x"] by (simp add: six_float_def six_qty_def)

lemma perform_does:
  fixes s :: "'a trading_db_scheme"
  shows "\<exists>e'. does e' s (perform cfg (tv, e) s) \<and> (six_places e \<longrightarrow> six_effect s e')"
proof -
  have keep: "\<exists>e'. does e' s s \<and> (P \<longrightarrow> six_effect s e')" for P
    using does.idle[OF book_same_refl[of s]] by fastforce
  show ?thesis
  proof (cases e)
    case (MarketOrder k sn sy sd qty px sl tp commission ctx)
    show ?thesis
    proof (cases "open_position_atomic cfg tv k sn sy sd qty px sl tp commission ctx s")
      case (Inl f)
      then show ?thesis using keep by (simp add: MarketOrder committed_def)
    next
      case (Inr rs)
      obtain r s' where rs: "rs = (r, s')" by (rule prod.exhaust)
      from open_position_effect[OF Inr[unfolded rs]] show ?thesis
      proof (elim disjE exE conjE)
        assume "book_same s s'"
        then show ?thesis using does.idle by (fastforce simp: MarketOrder committed_def Inr rs)
      next
        fix i m bal rt
        assume "filled k sy sd (py_repr qty) ENTRY_MANUAL_WS None i s s'" "pending_orders s' = pending_orders s"
          "next_pending s' = next_pending s"
        from does.manual[OF this] show ?thesis
          by (intro exI[of _ "Executed k sy sd (py_repr qty) None i"]) (simp add: MarketOrder committed_def Inr rs six_float_def)
      qed
    qed
  next
    case (PlacePending k sy sd kind qty trig sl tp expires)
    show ?thesis
    proof (cases "pending_fits (py_repr qty) (py_repr trig) sl tp")
      case False
      then show ?thesis using keep by (simp add: PlacePending committed_def create_pending_order_def)
    next
      case True
      define po where "po = \<lparr>po_account = k, po_symbol = sy, po_side = sd, po_kind = kind, po_qty = col6 (py_repr qty),
             po_trigger = col6 (py_repr trig), po_sl = map_option col6 sl, po_tp = map_option col6 tp,
             po_status = PENDING, po_created_at = tv_now tv, po_expires_at = expires, po_triggered_at = None,
             po_cancelled_at = None, po_position = None\<rparr>"
      define s' where "s' = s\<lparr>pending_orders := (pending_orders s)(next_pending s \<mapsto> po), next_pending := Suc (next_pending s)\<rparr>"
      have "perform cfg (tv, e) s = s'"
        using True by (simp add: PlacePending committed_def create_pending_order_def s'_def po_def Let_def)
      moreover have "does (OrderSet (next_pending s) po) s s'" unfolding s'_def by (rule does.create) (simp_all add: po_def)
      ultimately show ?thesis
        using six_float_qty[of qty] by (intro exI[of _ "OrderSet (next_pending s) po"]) (auto simp: PlacePending po_def)
    qed
  next
    case (CancelPending k i)
    show ?thesis
    proof (cases "\<exists>po. pending_orders s i = Some po \<and> po_account po = k \<and> po_status po = PENDING")
      case False
      then show ?thesis using keep
        by (auto simp: CancelPending cancel_pending_order_def own_pending_def split: option.split)
    next
      case True
      then obtain po where po: "pending_orders s i = Some po" "po_account po = k" "po_status po = PENDING" by blast
      define po' where "po' = po\<lparr>po_status := CANCELLED, po_cancelled_at := Some (tv_now tv)\<rparr>"
      have "perform cfg (tv, e) s = s\<lparr>pending_orders := (pending_orders s)(i \<mapsto> po')\<rparr>"
        using po by (simp add: CancelPending cancel_pending_order_def own_pending_def set_pending_def update_row_def po'_def)
      moreover have "does (OrderSet i po') s (s\<lparr>pending_orders := (pending_orders s)(i \<mapsto> po')\<rparr>)"
        by (rule does.order[OF book_same_refl po(1,3)]) (simp add: po'_def)
      ultimately show ?thesis by (intro exI[of _ "OrderSet i po'"]) (simp add: po'_def)
    qed
  next
    case (EditPending k i trig qty sl tp)
    show ?thesis
    proof (cases "perform cfg (tv, e) s = s")
      case True
      then show ?thesis using keep by simp
    next
      case False
      then have "own_pending k i s \<noteq> None"
        by (cases "own_pending k i s") (simp_all add: EditPending committed_def update_pending_order_def)
      then obtain po where own: "own_pending k i s = Some po" by blast
      then have po1: "pending_orders s i = Some po" by (auto simp: own_pending_def split: option.splits if_splits)
      define q where "q = (case qty of None \<Rightarrow> po_qty po | Some x \<Rightarrow> py_repr x)"
      define tr where "tr = (case trig of None \<Rightarrow> po_trigger po | Some x \<Rightarrow> py_repr x)"
      define l where "l = (case sl of None \<Rightarrow> po_sl po | Some x \<Rightarrow> Some (py_repr x))"
      define u where "u = (case tp of None \<Rightarrow> po_tp po | Some x \<Rightarrow> Some (py_repr x))"
      have eq: "perform cfg (tv, e) s = committed s (if po_status po \<noteq> PENDING then Inr (PendingNotPending, s)
          else if \<not> pending_fits q tr l u then Inl ColumnOverflow
          else Inr (PendingDone, set_pending i (\<lambda>x. x\<lparr>po_qty := col6 q, po_trigger := col6 tr,
                      po_sl := map_option col6 l, po_tp := map_option col6 u\<rparr>) s))"
        unfolding EditPending perform.simps update_pending_order_def own option.case Let_def q_def tr_def l_def u_def by (rule refl)
      have po2: "po_status po = PENDING" using False unfolding eq by (auto simp: committed_def split: if_splits)
      define po' where "po' = po\<lparr>po_qty := col6 q, po_trigger := col6 tr, po_sl := map_option col6 l, po_tp := map_option col6 u\<rparr>"
      have fit: "pending_fits q tr l u" using False po2 unfolding eq by (auto simp: committed_def split: if_splits)
      have e: "perform cfg (tv, e) s = s\<lparr>pending_orders := (pending_orders s)(i \<mapsto> po')\<rparr>"
        unfolding eq using po1 po2 fit by (simp add: committed_def set_pending_def update_row_def po'_def)
      have po: "pending_orders s i = Some po" "po_status po = PENDING" "po_status po' = PENDING"
          "po_qty po' = col6 (case qty of None \<Rightarrow> po_qty po | Some x \<Rightarrow> py_repr x)"
        using po1 po2 by (simp_all add: po'_def q_def)
      have "does (OrderSet i po') s (s\<lparr>pending_orders := (pending_orders s)(i \<mapsto> po')\<rparr>)"
        by (rule does.order[OF book_same_refl po(1,2)]) (simp add: po(3))
      then show ?thesis
        using po six_float_qty[of "the qty"] unfolding e
        by (cases qty; intro exI[of _ "OrderSet i po'"]) (simp_all add: EditPending)
    qed
  next
    case (TriggerPending i px)
    show ?thesis
    proof (cases "trigger_pending_order cfg tv i px s")
      case (Inl f)
      then show ?thesis using keep[of True] by (simp add: TriggerPending committed_def)
    next
      case (Inr rs)
      obtain r s' where rs: "rs = (r, s')" by (rule prod.exhaust)
      have s': "perform cfg (tv, e) s = s'" by (simp add: TriggerPending committed_def Inr rs)
      from trigger_pending_effect[OF Inr[unfolded rs]] show ?thesis
      proof (elim disjE exE conjE)
        assume "s' = s"
        then show ?thesis using keep s' by simp
      next
        fix po
        assume po: "pending_orders s i = Some po" "po_status po = PENDING" and o: "trigger_outcome tv i po r s s'"
        have set: "does (OrderSet i (po\<lparr>po_status := st\<rparr>)) s s'"
          if "book_same (set_pending i (\<lambda>x. x\<lparr>po_status := st\<rparr>) s) s'" "st \<noteq> TRIGGERED" for st
        proof (rule does.order[OF _ po])
          show "book_same (s\<lparr>pending_orders := (pending_orders s)(i \<mapsto> po\<lparr>po_status := st\<rparr>)\<rparr>) s'"
            using that(1) po by (simp add: set_pending_def update_row_def)
        qed (use that in simp)
        show ?thesis
        proof (cases r)
          case OrderExpired
          then show ?thesis using o set[of EXPIRED] s' by (intro exI[of _ "OrderSet i (po\<lparr>po_status := EXPIRED\<rparr>)"])
            (simp add: trigger_outcome_def)
        next
          case (OrderRejected c)
          then show ?thesis using o set[of REJECTED] s' by (intro exI[of _ "OrderSet i (po\<lparr>po_status := REJECTED\<rparr>)"])
            (simp add: trigger_outcome_def)
        next
          case (OrderTriggered j m)
          then show ?thesis using o s' does.trigger[OF po, of j s' "tv_now tv"]
            by (intro exI[of _ "Executed (po_account po) (po_symbol po) (po_side po) (py_repr (fl (po_qty po))) (Some i) j"])
              (simp add: trigger_outcome_def)
        qed (use o in \<open>simp add: trigger_outcome_def\<close>)
      qed
    qed
  next
    case (ClosePosition k gone cq)
    show ?thesis
    proof (cases "close_position gone tv k (remembered s cq) s")
      case (Inl f)
      then show ?thesis using keep by (simp add: ClosePosition committed_def)
    next
      case (Inr rs)
      obtain r s' where rs: "rs = (r, s')" by (rule prod.exhaust)
      have s': "perform cfg (tv, e) s = s'" by (simp add: ClosePosition committed_def Inr rs)
      from close_position_effect[OF Inr[unfolded rs]] show ?thesis
      proof (elim disjE exE conjE)
        fix d q assume c: "closed_out k (remembered s cq) q s s'"
        have "does (Taken k (remembered s cq) q) s s'"
          by (rule does.take[OF c]) (simp add: remembered_def split: option.splits)
        then show ?thesis using s'
          by (intro exI[of _ "Taken k (remembered s cq) q"]) (simp add: ClosePosition remembered_def split: option.splits)
      qed (use keep s' in auto)
    qed
  next
    case (SuspendAccount k reason)
    then show ?thesis using does.idle[OF book_same_suspend[of s "tv_now tv" k reason]]
      by (intro exI[of _ Nothing]) simp
  qed
qed

subsection \<open>An order is executed exactly when it is triggered\<close>

definition executions :: "pk \<Rightarrow> 'a trading_db_scheme \<Rightarrow> lot_event list" where
  "executions j s = filter (\<lambda>x. lx_order x = Some j) (lot_events s)"

definition order_state_ok :: "pk \<Rightarrow> 'a trading_db_scheme \<Rightarrow> bool" where
  "order_state_ok j s \<longleftrightarrow>
     (case pending_orders s j of
        None \<Rightarrow> executions j s = []
      | Some po \<Rightarrow> j < next_pending s \<and>
          (if po_status po = TRIGGERED
           then (\<exists>x. executions j s = [x] \<and> lx_account x = po_account po \<and> lx_symbol x = po_symbol po \<and> lx_side x = po_side po
                   \<and> lx_qty x = col6 (py_repr (fl (po_qty po))) \<and> lx_path x = ENTRY_PENDING_TRIGGER)
           else executions j s = []))"

definition orders_ok :: "'a trading_db_scheme \<Rightarrow> bool" where
  "orders_ok s \<longleftrightarrow> (\<forall>j. order_state_ok j s)"

lemma executions_moved:
  assumes "lot_events s' = map (\<lambda>x. x\<lparr>lx_position := f (lx_position x)\<rparr>) (lot_events s)"
  shows "executions j s' = map (\<lambda>x. x\<lparr>lx_position := f (lx_position x)\<rparr>) (executions j s)"
  using assms by (simp add: executions_def filter_map comp_def)

lemma filled_executions:
  assumes "filled k sy sd q path ord i s s'"
  shows "\<exists>x. lot_events s' = lot_events s @ [x] \<and> lx_account x = k \<and> lx_symbol x = sy \<and> lx_side x = sd \<and> lx_qty x = col6 q
      \<and> lx_path x = path \<and> lx_order x = ord"
  using assms by (auto simp: filled_def)

text \<open>An order that is not pending stays as it is; the others keep the invariant.\<close>

lemma does_orders:
  assumes "does e s s'" "orders_ok s"
  shows "orders_ok s'" "pending_orders s j = Some po \<Longrightarrow> po_status po \<noteq> PENDING \<Longrightarrow> pending_orders s' j = Some po"
proof -
  have ok: "order_state_ok j s" for j using assms(2) by (simp add: orders_ok_def)
  have same: "order_state_ok j s'"
    if "pending_orders s' j = pending_orders s j" "next_pending s \<le> next_pending s'" "executions j s' = executions j s" for j
    using ok[of j] that by (auto simp: order_state_ok_def split: option.splits)
  have free: "pending_orders s (next_pending s) = None"
    using ok[of "next_pending s"] by (auto simp: order_state_ok_def split: option.splits)
  have "orders_ok s' \<and> (\<forall>j po. pending_orders s j = Some po \<longrightarrow> po_status po \<noteq> PENDING \<longrightarrow> pending_orders s' j = Some po)"
    using assms(1)
  proof (cases rule: does.cases)
    case idle
    then show ?thesis using same by (auto simp: orders_ok_def book_same_def executions_def)
  next
    case (manual k sy sd q i)
    then obtain x where "lot_events s' = lot_events s @ [x]" "lx_order x = None" using filled_executions by blast
    then show ?thesis using manual same by (simp add: orders_ok_def executions_def)
  next
    case (trigger j po i now)
    obtain x where x: "lot_events s' = lot_events s @ [x]" "lx_account x = po_account po" "lx_symbol x = po_symbol po"
        "lx_side x = po_side po" "lx_qty x = col6 (py_repr (fl (po_qty po)))" "lx_path x = ENTRY_PENDING_TRIGGER" "lx_order x = Some j"
      using filled_executions[OF trigger(4)] by blast
    have "order_state_ok h s'" for h
    proof (cases "h = j")
      case True
      have "executions j s = []" "j < next_pending s" using ok[of j] trigger(2,3) by (auto simp: order_state_ok_def)
      then show ?thesis using x trigger True by (simp add: order_state_ok_def executions_def)
    qed (use x trigger same in \<open>auto simp: executions_def\<close>)
    then show ?thesis using trigger by (auto simp: orders_ok_def)
  next
    case (take k cq q)
    then obtain f where f: "lot_events s' = map (\<lambda>x. x\<lparr>lx_position := f (lx_position x)\<rparr>) (lot_events s)"
        and p: "pending_orders s' = pending_orders s" "next_pending s' = next_pending s" by (auto simp: closed_out_def)
    have "order_state_ok j s'" for j
      using ok[of j] p unfolding order_state_ok_def executions_moved[OF f] by (auto split: option.splits if_splits)
    then show ?thesis using p by (simp add: orders_ok_def)
  next
    case (order i po po0)
    have "order_state_ok j s'" for j
    proof (cases "j = i")
      case True
      have "executions i s = []" "i < next_pending s" using ok[of i] order(3,4) by (auto simp: order_state_ok_def)
      then show ?thesis using order True by (simp add: order_state_ok_def executions_def book_same_def)
    qed (use order same in \<open>auto simp: book_same_def executions_def\<close>)
    then show ?thesis using order by (auto simp: orders_ok_def book_same_def)
  next
    case (create po)
    have "order_state_ok j s'" for j
    proof (cases "j = next_pending s")
      case True
      have "executions j s = []" using ok[of j] free True by (simp add: order_state_ok_def)
      then show ?thesis using create True by (simp add: order_state_ok_def executions_def book_same_def)
    qed (use create same in \<open>auto simp: book_same_def executions_def\<close>)
    then show ?thesis using create free by (auto simp: orders_ok_def book_same_def)
  qed
  then show "orders_ok s'" "pending_orders s j = Some po \<Longrightarrow> po_status po \<noteq> PENDING \<Longrightarrow> pending_orders s' j = Some po"
    by blast+
qed

lemma perform_orders:
  assumes "orders_ok s"
  shows "orders_ok (perform cfg e s)"
    and "pending_orders s j = Some po \<Longrightarrow> po_status po \<noteq> PENDING \<Longrightarrow> pending_orders (perform cfg e s) j = Some po"
proof -
  obtain tv ev where e: "e = (tv, ev)" by (rule prod.exhaust)
  obtain e' where "does e' s (perform cfg e s)" using perform_does[of s cfg tv ev] e by blast
  from does_orders[OF this assms] show "orders_ok (perform cfg e s)"
    "pending_orders s j = Some po \<Longrightarrow> po_status po \<noteq> PENDING \<Longrightarrow> pending_orders (perform cfg e s) j = Some po" by blast+
qed

text \<open>
  C2. Orders are executed once: after any run of orders, edits, cancellations, triggers, closes and
  suspensions, in any interleaving of connections and daemons and with any prices, a triggered order has exactly one execution, of its
  account, symbol, side and quantity, every other order has none, and an order that is no longer pending never
  changes.
\<close>

theorem orders_executed_once:
  fixes s :: "'a trading_db_scheme"
  assumes "orders_ok s"
  shows "orders_ok (run cfg es s)
    \<and> (\<forall>j po. pending_orders s j = Some po \<and> po_status po \<noteq> PENDING \<longrightarrow> pending_orders (run cfg es s) j = Some po)"
proof -
  let ?I = "\<lambda>t. orders_ok t \<and> (\<forall>j po. pending_orders s j = Some po \<and> po_status po \<noteq> PENDING \<longrightarrow> pending_orders t j = Some po)"
  show ?thesis
  proof (rule run_induct[of ?I])
    show "?I s" using assms by simp
  next
    fix e t assume "?I t"
    then show "?I (perform cfg e t)" using perform_orders[of t] by blast
  qed
qed


subsection \<open>Lots are conserved\<close>

definition table_sum :: "nat \<Rightarrow> 'r table \<Rightarrow> ('r \<Rightarrow> rat) \<Rightarrow> rat" where
  "table_sum n t f = (\<Sum>i<n. case t i of None \<Rightarrow> 0 | Some x \<Rightarrow> f x)"

definition on_book :: "pk \<Rightarrow> string \<Rightarrow> side \<Rightarrow> position \<Rightarrow> rat" where
  "on_book k sy sd p = (if pos_account p = k \<and> pos_symbol p = sy \<and> pos_side p = sd then pos_qty p else 0)"

definition sold_off :: "pk \<Rightarrow> string \<Rightarrow> side \<Rightarrow> trade \<Rightarrow> rat" where
  "sold_off k sy sd t = (if tr_account t = k \<and> tr_symbol t = sy \<and> tr_side t = sd then tr_lots t else 0)"

definition open_lots :: "pk \<Rightarrow> string \<Rightarrow> side \<Rightarrow> 'a trading_db_scheme \<Rightarrow> rat" where
  "open_lots k sy sd s = table_sum (next_position s) (positions s) (on_book k sy sd)"

definition closed_lots :: "pk \<Rightarrow> string \<Rightarrow> side \<Rightarrow> 'a trading_db_scheme \<Rightarrow> rat" where
  "closed_lots k sy sd s = table_sum (next_trade s) (trades s) (sold_off k sy sd)"

definition executed_lots :: "pk \<Rightarrow> string \<Rightarrow> side \<Rightarrow> 'a trading_db_scheme \<Rightarrow> rat" where
  "executed_lots k sy sd s =
     sum_list (map (\<lambda>x. if lx_account x = k \<and> lx_symbol x = sy \<and> lx_side x = sd then lx_qty x else 0) (lot_events s))"

text \<open>Keys are below the counters, and quantities have six decimals and fit their column.\<close>

definition lots_ok :: "'a trading_db_scheme \<Rightarrow> bool" where
  "lots_ok s \<longleftrightarrow>
     (\<forall>i p. positions s i = Some p \<longrightarrow> i < next_position s \<and> micro (pos_qty p) \<and> pos_qty p < 10 ^ 12)
     \<and> (\<forall>j po. pending_orders s j = Some po \<longrightarrow> j < next_pending s \<and> (po_status po = PENDING \<longrightarrow> six_qty (po_qty po)))"

definition lots_conserved :: "'a trading_db_scheme \<Rightarrow> bool" where
  "lots_conserved s \<longleftrightarrow> (\<forall>k sy sd. executed_lots k sy sd s = open_lots k sy sd s + closed_lots k sy sd s)"

lemma table_sum_Suc: "table_sum (Suc n) t f = table_sum n t f + (case t n of None \<Rightarrow> 0 | Some x \<Rightarrow> f x)"
  by (simp add: table_sum_def)

lemma table_sum_above: "n \<le> i \<Longrightarrow> table_sum n (t(i := y)) f = table_sum n t f"
  unfolding table_sum_def by (intro sum.cong) auto

lemma table_sum_update:
  "i < n \<Longrightarrow> table_sum n (t(i := y)) f =
     table_sum n t f - (case t i of None \<Rightarrow> 0 | Some x \<Rightarrow> f x) + (case y of None \<Rightarrow> 0 | Some x \<Rightarrow> f x)"
proof (induction n)
  case (Suc n)
  then show ?case using table_sum_above[of n i t y f] by (cases "i = n") (simp_all add: table_sum_Suc fun_upd_def)
qed simp

text \<open>With quantities in six decimals, a merge adds and a partial close subtracts exactly.\<close>

lemma merged_lots:
  assumes "micro x" "x < 10 ^ 12" "micro q" "fits 18 (col6 (dec_ctx (x + q)))"
  shows "col6 (dec_ctx (x + q)) = x + q" "x + q < 10 ^ 12"
proof -
  have m: "micro (x + q)" using assms(1,3) by (rule micro_add)
  have c: "col6 (of_int n) = of_int n" for n using col6_int_div[of "n * 10 ^ 6"] by simp
  have mono: "col6 u \<le> col6 v" if "u \<le> v" for u v using that unfolding col6_def by (rule qhu.mono)
  have l: "x + q < 10 ^ 20"
  proof (rule ccontr)
    assume "\<not> x + q < 10 ^ 20"
    then have "dec_ctx (of_int (10 ^ 20)) \<le> dec_ctx (x + q)" by (intro dctx.mono) simp
    then have "(10 :: rat) ^ 20 \<le> dec_ctx (x + q)" using dec_ctx_int[of "10 ^ 20"] by simp
    from mono[OF this] have "(10 :: rat) ^ 20 \<le> col6 (dec_ctx (x + q))" using c[of "10 ^ 20"] by simp
    from mono[OF this] show False using assms(4) c[of "10 ^ 20"] by (simp add: fits_def)
  qed
  then have "dec_ctx (x + q) = x + q" by (rule micro_exact[OF m])
  then show e: "col6 (dec_ctx (x + q)) = x + q" using col6_micro[OF m] by simp
  show "x + q < 10 ^ 12" using assms(4) e col6_micro[OF m] by (simp add: fits_def)
qed

lemma reduced_lots:
  assumes "micro x" "x < 10 ^ 12" "micro q" "q \<le> x"
  shows "col6 (dec_ctx (x - q)) = x - q" "micro (x - q)"
proof -
  obtain k l where kl: "x = of_nat k / 10 ^ 6" "q = of_nat l / 10 ^ 6" using assms(1,3) by (auto simp: micro_def)
  have "l \<le> k" using assms(4) unfolding kl by (simp add: divide_le_cancel)
  then show m: "micro (x - q)" unfolding micro_def kl by (intro exI[of _ "k - l"]) (simp add: of_nat_diff diff_divide_distrib)
  show "col6 (dec_ctx (x - q)) = x - q"
    using micro_diff_exact[OF assms(1,3)] assms(2,4) col6_micro[OF m] by simp
qed

lemma filled_lots:
  fixes s :: "'a trading_db_scheme"
  assumes "filled k sy sd q path ord i s s'" "lots_ok s" "micro q"
  shows "\<forall>i p. positions s' i = Some p \<longrightarrow> i < next_position s' \<and> micro (pos_qty p) \<and> pos_qty p < 10 ^ 12"
    and "open_lots k' sy' sd' s' = open_lots k' sy' sd' s + (if k = k' \<and> sy = sy' \<and> sd = sd' then q else 0)"
    and "executed_lots k' sy' sd' s' = executed_lots k' sy' sd' s + (if k = k' \<and> sy = sy' \<and> sd = sd' then q else 0)"
    and "closed_lots k' sy' sd' s' = closed_lots k' sy' sd' s"
proof -
  have ok: "\<forall>i p. positions s i = Some p \<longrightarrow> i < next_position s \<and> micro (pos_qty p) \<and> pos_qty p < 10 ^ 12"
    using assms(2) by (simp add: lots_ok_def)
  have q: "col6 q = q" using assms(3) by (rule col6_micro)
  obtain p where p: "positions s' = (positions s)(i \<mapsto> p)" "pos_account p = k" "pos_symbol p = sy" "pos_side p = sd"
      "fits 18 (pos_qty p)"
    and c: "i = next_position s \<and> next_position s' = Suc i \<and> pos_qty p = col6 q
       \<or> i < next_position s \<and> next_position s' = next_position s
         \<and> (\<exists>p0. positions s i = Some p0 \<and> pos_account p0 = k \<and> pos_symbol p0 = sy \<and> pos_side p0 = sd
              \<and> pos_qty p = col6 (dec_ctx (pos_qty p0 + q)))"
    using assms(1) unfolding filled_def by blast
  have main: "micro (pos_qty p) \<and> pos_qty p < 10 ^ 12 \<and> i < next_position s' \<and> next_position s \<le> next_position s'
    \<and> open_lots k' sy' sd' s' = open_lots k' sy' sd' s + (if k = k' \<and> sy = sy' \<and> sd = sd' then q else 0)"
    using c
  proof (elim disjE exE conjE)
    assume n: "i = next_position s" "next_position s' = Suc i" "pos_qty p = col6 q"
    moreover have "positions s i = None" using ok n(1) by (cases "positions s i") auto
    moreover have "q < 10 ^ 12" using p(5) n(3) q by (simp add: fits_def)
    ultimately show ?thesis
      using p q assms(3) by (simp add: open_lots_def table_sum_Suc table_sum_above on_book_def)
  next
    fix p0
    assume n: "i < next_position s" "next_position s' = next_position s" and p0: "positions s i = Some p0" "pos_account p0 = k"
      "pos_symbol p0 = sy" "pos_side p0 = sd" and pq: "pos_qty p = col6 (dec_ctx (pos_qty p0 + q))"
    have o: "micro (pos_qty p0)" "pos_qty p0 < 10 ^ 12" using ok p0(1) by blast+
    note m = merged_lots[OF o assms(3) p(5)[unfolded pq]]
    have "micro (pos_qty p0 + q)" using o(1) assms(3) by (rule micro_add)
    then show ?thesis
      using n p p0 pq m by (simp add: open_lots_def table_sum_update on_book_def)
  qed
  note main
  moreover obtain x where x: "lot_events s' = lot_events s @ [x]" "lx_account x = k" "lx_symbol x = sy" "lx_side x = sd" "lx_qty x = col6 q"
    using filled_executions[OF assms(1)] by blast
  ultimately show "open_lots k' sy' sd' s' = open_lots k' sy' sd' s + (if k = k' \<and> sy = sy' \<and> sd = sd' then q else 0)"
    "executed_lots k' sy' sd' s' = executed_lots k' sy' sd' s + (if k = k' \<and> sy = sy' \<and> sd = sd' then q else 0)"
    using q by (simp_all add: executed_lots_def)
  show "\<forall>i p. positions s' i = Some p \<longrightarrow> i < next_position s' \<and> micro (pos_qty p) \<and> pos_qty p < 10 ^ 12"
  proof (intro allI impI)
    fix j r assume r: "positions s' j = Some r"
    show "j < next_position s' \<and> micro (pos_qty r) \<and> pos_qty r < 10 ^ 12"
    proof (cases "j = i")
      case True
      then show ?thesis using r p(1) main by simp
    next
      case False
      then show ?thesis using r p(1) main ok by (metis fun_upd_other less_le_trans)
    qed
  qed
  show "closed_lots k' sy' sd' s' = closed_lots k' sy' sd' s"
    using assms(1) by (simp add: filled_def closed_lots_def)
qed

lemma taken_lots:
  fixes s :: "'a trading_db_scheme"
  assumes "closed_out k cq q s s'" "lots_ok s" "case cq_qty cq of None \<Rightarrow> True | Some x \<Rightarrow> micro x"
    and "\<And>p. positions s (pm_id (cq_pos cq)) = Some p \<Longrightarrow> pm_symbol (cq_pos cq) = pos_symbol p \<and> pm_side (cq_pos cq) = pos_side p"
  shows "\<forall>i p. positions s' i = Some p \<longrightarrow> i < next_position s' \<and> micro (pos_qty p) \<and> pos_qty p < 10 ^ 12"
    and "executed_lots k' sy' sd' s' = executed_lots k' sy' sd' s"
    and "open_lots k' sy' sd' s' + closed_lots k' sy' sd' s' = open_lots k' sy' sd' s + closed_lots k' sy' sd' s"
proof -
  define i where "i = pm_id (cq_pos cq)"
  obtain p where p: "positions s i = Some p" "pos_account p = k" "0 < q" "q \<le> pos_qty p"
      "q = (case cq_qty cq of None \<Rightarrow> pos_qty p | Some x \<Rightarrow> x)"
    and ps: "positions s' = (positions s)(i := (if q = pos_qty p then None else Some (p\<lparr>pos_qty := col6 (dec_ctx (pos_qty p - q))\<rparr>)))"
    using assms(1) unfolding closed_out_def i_def[symmetric] by (elim conjE exE) blast
  obtain t where t: "trades s' = (trades s)(next_trade s \<mapsto> t)" "tr_account t = k" "tr_symbol t = pos_symbol p"
      "tr_side t = pos_side p" "tr_lots t = col6 q"
  proof -
    obtain t where "trades s' = (trades s)(next_trade s \<mapsto> t)" "tr_account t = k" "tr_symbol t = pm_symbol (cq_pos cq)"
      "tr_side t = pm_side (cq_pos cq)" "tr_lots t = col6 q"
      using assms(1) unfolding closed_out_def by (elim conjE exE) blast
    moreover have "pm_symbol (cq_pos cq) = pos_symbol p" "pm_side (cq_pos cq) = pos_side p"
      using assms(4)[of p] p(1) by (simp_all add: i_def)
    ultimately show ?thesis using that by simp
  qed
  have n: "next_trade s' = Suc (next_trade s)" "next_position s' = next_position s"
    using assms(1) by (simp_all add: closed_out_def)
  have o: "i < next_position s" "micro (pos_qty p)" "pos_qty p < 10 ^ 12" using assms(2) p(1) by (auto simp: lots_ok_def)
  have mq: "micro q" using p(5) o(2) assms(3) by (auto split: option.splits)
  note r = reduced_lots[OF o(2,3) mq p(4)]
  show "\<forall>i p. positions s' i = Some p \<longrightarrow> i < next_position s' \<and> micro (pos_qty p) \<and> pos_qty p < 10 ^ 12"
  proof (intro allI impI)
    fix j u assume u: "positions s' j = Some u"
    show "j < next_position s' \<and> micro (pos_qty u) \<and> pos_qty u < 10 ^ 12"
    proof (cases "j = i")
      case True
      have "pos_qty p - q < 10 ^ 12" using o(3) p(3) by simp
      then show ?thesis using True u ps r o(1) n(2) by (auto split: if_splits)
    next
      case False
      then have "positions s j = Some u" using u ps by simp
      then show ?thesis using assms(2) n(2) by (auto simp: lots_ok_def)
    qed
  qed
  have "open_lots k' sy' sd' s' = open_lots k' sy' sd' s - on_book k' sy' sd' (p\<lparr>pos_qty := q\<rparr>)"
    using o(1) p(1) r(1) by (auto simp: open_lots_def n ps table_sum_update on_book_def)
  moreover have "closed_lots k' sy' sd' s' = closed_lots k' sy' sd' s + on_book k' sy' sd' (p\<lparr>pos_qty := q\<rparr>)"
    using t p(2) col6_micro[OF mq] by (simp add: closed_lots_def n table_sum_Suc table_sum_above sold_off_def on_book_def)
  ultimately show "open_lots k' sy' sd' s' + closed_lots k' sy' sd' s' = open_lots k' sy' sd' s + closed_lots k' sy' sd' s"
    by simp
  obtain f where "lot_events s' = map (\<lambda>x. x\<lparr>lx_position := f (lx_position x)\<rparr>) (lot_events s)"
    using assms(1) by (auto simp: closed_out_def)
  then show "executed_lots k' sy' sd' s' = executed_lots k' sy' sd' s" by (simp add: executed_lots_def comp_def cong: if_cong)
qed

lemma book_same_lots:
  assumes "book_same s s'"
  shows "open_lots k sy sd s' = open_lots k sy sd s" "closed_lots k sy sd s' = closed_lots k sy sd s"
    "executed_lots k sy sd s' = executed_lots k sy sd s"
  using assms by (simp_all add: book_same_def open_lots_def closed_lots_def executed_lots_def)

lemma does_lots:
  fixes s :: "'a trading_db_scheme"
  assumes "does e s s'" "six_effect s e" "lots_ok s" "lots_conserved s"
  shows "lots_ok s' \<and> lots_conserved s'"
  using assms(1)
proof (cases rule: does.cases)
  case idle
  then show ?thesis using assms(3,4) book_same_lots[OF idle(2)]
    by (simp add: lots_ok_def lots_conserved_def book_same_def)
next
  case (manual k sy sd q i)
  note f = filled_lots[OF manual(2) assms(3)]
  have "micro q" using assms(2) manual(1) by simp
  with f assms(3,4) manual show ?thesis by (simp add: lots_ok_def lots_conserved_def)
next
  case (trigger j po i now)
  have q: "six_qty (po_qty po)" and j: "j < next_pending s" using assms(3) trigger(2,3) by (auto simp: lots_ok_def)
  then have "micro (py_repr (fl (po_qty po)))" by (simp add: six_qty_def)
  note f = filled_lots[OF trigger(4) assms(3) this]
  have "\<forall>h x. pending_orders s' h = Some x \<longrightarrow> h < next_pending s' \<and> (po_status x = PENDING \<longrightarrow> six_qty (po_qty x))"
    using assms(3) trigger j by (auto simp: lots_ok_def)
  with f assms(4) show ?thesis by (simp add: lots_ok_def lots_conserved_def)
next
  case (take k cq q)
  have "case cq_qty cq of None \<Rightarrow> True | Some x \<Rightarrow> micro x" using assms(2) take(1) by simp
  note f = taken_lots[OF take(2) assms(3) this take(3)]
  have "pending_orders s' = pending_orders s" "next_pending s' = next_pending s" using take(2) by (simp_all add: closed_out_def)
  with f assms(3,4) show ?thesis by (simp add: lots_ok_def lots_conserved_def)
next
  case (order i po po0)
  have "six_qty (po_qty po)" if "po_status po = PENDING"
  proof -
    have "six_qty (po_qty po0)" using assms(3) order(3,4) by (auto simp: lots_ok_def)
    then show ?thesis using assms(2) order that col6_micro[of "po_qty po0"] by (auto simp: six_qty_def)
  qed
  moreover have "i < next_pending s" using assms(3) order(3) by (auto simp: lots_ok_def)
  moreover have "lots_conserved s'" using assms(4) book_same_lots[OF order(2)]
    by (simp add: lots_conserved_def open_lots_def closed_lots_def executed_lots_def)
  ultimately show ?thesis using assms(3) order(2) by (auto simp: lots_ok_def book_same_def)
next
  case (create po)
  have free: "pending_orders s (next_pending s) = None"
    using assms(3) by (cases "pending_orders s (next_pending s)") (auto simp: lots_ok_def)
  have "six_qty (po_qty po)" using assms(2) create free by simp
  moreover have "lots_conserved s'" using assms(4) book_same_lots[OF create(2)]
    by (simp add: lots_conserved_def open_lots_def closed_lots_def executed_lots_def)
  ultimately show ?thesis using assms(3) create(2) by (auto simp: lots_ok_def book_same_def less_SucI)
qed



subsection \<open>What is opened was checked\<close>

lemma approve_None:
  assumes "approve cfg tv k a snap sy sd qty px e used is_new n rule s = Inr (None, sp)"
  shows "get_spec sy = Some sp"
    and "og_error (compute_atomic_open_guard sy qty px (acc_status a) snap sp e used is_new n (rr_max_positions rule) (currency a)) = None"
    and "\<exists>d. validate_new_order (tg_risk cfg) (tv_market tv) k sy (order_side_text sd) (PyFloat qty)
      (Some (PyFloat px)) (Some (sp_contract_size sp)) (Some (acc_type a)) s = Inr d \<and> ld_allowed d"
  using assms by (auto simp: approve_def split: option.splits sum.splits if_splits)

lemma opened_approved:
  assumes "open_position_atomic cfg tv k sn sy sd qty price sl tp commission ctx s = Inr (Opened i merged bal r, s')"
  shows "\<exists>a sp used e rule s1. accounts s k = Some a
    \<and> fresh_margin (max 1 (as_leverage (st_snap sn))) (currency a) (map snd (locked_positions k s)) = Some used
    \<and> get_or_create_risk_rule k a (take_risk_lock (tv_now tv) s) = (rule, s1)
    \<and> (sy = ''XAU/USD'' \<longrightarrow> gold_trading_for_account cfg k a (terms_of k (take_risk_lock (tv_now tv) s)))
    \<and> (\<forall>p \<in> set (map snd (locked_positions k s)).
         usable_price (resolve_symbol_price (tv_market tv) (last_prices s) (pos_symbol p)))
    \<and> e = fl (fl (balance a) + fresh_floating (currency a)
         (\<lambda>p. open_price tv (resolve_symbol_price (tv_market tv) (last_prices s) (pos_symbol p)) p) (map snd (locked_positions k s)))
    \<and> approve cfg tv k a (st_snap sn) sy sd qty price e used (\<not> merged) (length (locked_positions k s)) rule s1 = Inr (None, sp)"
proof -
  define s0 where "s0 = take_risk_lock (tv_now tv) s"
  have l: "locked_positions k s0 = locked_positions k s" unfolding s0_def by (rule locked_positions_cong) simp_all
  note u = assms[unfolded open_position_atomic_def Let_def, folded s0_def, unfolded l]
  obtain a where a: "accounts s0 k = Some a" using u by (cases "accounts s0 k") auto
  have gold: "sy = ''XAU/USD'' \<longrightarrow> gold_trading_for_account cfg k a (terms_of k s0)"
    using u a by (auto split: if_splits)
  then have ng: "\<not> (sy = ''XAU/USD'' \<and> \<not> gold_trading_for_account cfg k a (terms_of k s0))" by blast
  note u1 = u[unfolded a option.case if_not_P[OF ng]]
  define ps where "ps = map snd (locked_positions k s)"
  obtain used where used: "fresh_margin (max 1 (as_leverage (st_snap sn))) (currency a) ps = Some used"
    using u1 unfolding ps_def
    by (cases "fresh_margin (max 1 (as_leverage (st_snap sn))) (currency a) (map snd (locked_positions k s))") auto
  obtain rule s1 where g: "get_or_create_risk_rule k a s0 = (rule, s1)" by (rule prod.exhaust)
  have lp: "last_prices s1 = last_prices s"
    using get_or_create_rule_simps(12)[of k a s0, unfolded g snd_conv] by (simp add: s0_def take_risk_lock_def)
  note u2 = u1[folded ps_def, unfolded used g option.case prod.case lp]
  have prices: "list_all (\<lambda>p. usable_price (resolve_symbol_price (tv_market tv) (last_prices s) (pos_symbol p))) ps"
    using u2 by (auto split: if_splits)
  define e where "e = fl (fl (balance a) + fresh_floating (currency a)
         (\<lambda>p. open_price tv (resolve_symbol_price (tv_market tv) (last_prices s) (pos_symbol p)) p) ps)"
  define tgt where "tgt = merge_target (st_netting sn) sy sd (locked_positions k s)"
  obtain sp where ap: "approve cfg tv k a (st_snap sn) sy sd qty price e used (tgt = None) (length (locked_positions k s)) rule s1
      = Inr (None, sp)" and m: "merged \<longleftrightarrow> tgt \<noteq> None"
    using u2 prices unfolding e_def[symmetric] tgt_def[symmetric]
    by (auto split: sum.splits prod.splits option.splits)
  have nm: "(\<not> merged) = (tgt = None)" using m by (cases tgt) auto
  have acc: "accounts s k = Some a" using a by (simp add: s0_def)
  show ?thesis
    unfolding s0_def[symmetric]
    using acc used g gold prices e_def ap nm
    by (intro exI[of _ a] exI[of _ sp] exI[of _ used] exI[of _ e] exI[of _ rule] exI[of _ s1]) (simp add: ps_def list_all_iff)
qed

text \<open>
  C4. Nothing is opened unchecked: when a market order reports a position, then under the locks the account was
  not blocked, gold was permitted, every open position had a price to trust, the quantity was at least the minimum and the
  symbol permitted, the order's margin and all margin were within the caps for the equity read there, a new
  position was within the account's number of positions, and the broker's limits allowed the order; and the quantity is executed once.
\<close>

theorem opened_position_was_checked:
  assumes "open_position_atomic cfg tv k sn sy sd qty price sl tp commission ctx s = Inr (Opened i merged bal r, s')"
  shows "\<exists>a sp used e rule s1 required d. accounts s k = Some a \<and> acc_status a \<notin> set BLOCKED_STATUSES
    \<and> (sy = ''XAU/USD'' \<longrightarrow> gold_trading_for_account cfg k a (terms_of k (take_risk_lock (tv_now tv) s)))
    \<and> (\<forall>p \<in> set (map snd (locked_positions k s)).
         usable_price (resolve_symbol_price (tv_market tv) (last_prices s) (pos_symbol p)))
    \<and> get_spec sy = Some sp \<and> sp_min_lot sp \<le> qty
    \<and> (case as_allowed (st_snap sn) of None \<Rightarrow> True | Some xs \<Rightarrow> sy \<in> set xs)
    \<and> (case as_max_lot (st_snap sn) of None \<Rightarrow> True | Some x \<Rightarrow> qty \<le> x)
    \<and> fresh_margin (max 1 (as_leverage (st_snap sn))) (currency a) (map snd (locked_positions k s)) = Some used
    \<and> e = fl (fl (balance a) + fresh_floating (currency a)
         (\<lambda>p. open_price tv (resolve_symbol_price (tv_market tv) (last_prices s) (pos_symbol p)) p) (map snd (locked_positions k s)))
    \<and> calculate_required_margin sy (PyFloat price) (PyFloat qty)
        (effective_leverage (st_snap sn) (sp_max_leverage sp)) (currency a) = Inr required
    \<and> of_equity required e \<le> as_max_per_trade (st_snap sn) \<and> of_equity (fl (used + required)) e \<le> as_max_total (st_snap sn)
    \<and> get_or_create_risk_rule k a (take_risk_lock (tv_now tv) s) = (rule, s1)
    \<and> (merged \<or> length (open_positions k s) < rr_max_positions rule)
    \<and> validate_new_order (tg_risk cfg) (tv_market tv) k sy (order_side_text sd) (PyFloat qty)
        (Some (PyFloat price)) (Some (sp_contract_size sp)) (Some (acc_type a)) s1 = Inr d \<and> ld_allowed d
    \<and> filled k sy sd (py_repr qty) ENTRY_MANUAL_WS None i s s'"
proof -
  obtain a sp used e rule s1 where a: "accounts s k = Some a"
      "fresh_margin (max 1 (as_leverage (st_snap sn))) (currency a) (map snd (locked_positions k s)) = Some used"
      "get_or_create_risk_rule k a (take_risk_lock (tv_now tv) s) = (rule, s1)"
      "sy = ''XAU/USD'' \<longrightarrow> gold_trading_for_account cfg k a (terms_of k (take_risk_lock (tv_now tv) s))"
      "\<forall>p \<in> set (map snd (locked_positions k s)).
         usable_price (resolve_symbol_price (tv_market tv) (last_prices s) (pos_symbol p))"
      "e = fl (fl (balance a) + fresh_floating (currency a)
         (\<lambda>p. open_price tv (resolve_symbol_price (tv_market tv) (last_prices s) (pos_symbol p)) p) (map snd (locked_positions k s)))"
    and ap: "approve cfg tv k a (st_snap sn) sy sd qty price e used (\<not> merged) (length (locked_positions k s)) rule s1 = Inr (None, sp)"
    using opened_approved[OF assms] by (elim exE conjE) blast
  note p = approve_None[OF ap]
  obtain required where r: "calculate_required_margin sy (PyFloat price) (PyFloat qty)
        (effective_leverage (st_snap sn) (sp_max_leverage sp)) (currency a) = Inr required"
    and m: "margin_check sy qty e used required (st_snap sn) (as_max_per_trade (st_snap sn)) (as_max_total (st_snap sn)) = None"
    and g: "acc_status a \<notin> set BLOCKED_STATUSES" "check_lot_size qty sp = None"
      "\<not> merged \<longrightarrow> length (locked_positions k s) < rr_max_positions rule"
    using atomic_guard_ok[OF p(2)] by blast
  note mc = margin_check_None[OF m]
  have n: "merged \<or> length (open_positions k s) < rr_max_positions rule" using g(3) by (auto simp: locked_positions_def)
  have q: "sp_min_lot sp \<le> qty" using g(2) by (auto simp: check_lot_size_def split: if_splits)
  have f: "filled k sy sd (py_repr qty) ENTRY_MANUAL_WS None i s s'" using open_position_effect[OF assms] by auto
  from p(3) obtain d where d: "validate_new_order (tg_risk cfg) (tv_market tv) k sy (order_side_text sd) (PyFloat qty)
      (Some (PyFloat price)) (Some (sp_contract_size sp)) (Some (acc_type a)) s1 = Inr d" "ld_allowed d" by blast
  show ?thesis
    by (rule exI[of _ a], rule exI[of _ sp], rule exI[of _ used], rule exI[of _ e], rule exI[of _ rule], rule exI[of _ s1],
        rule exI[of _ required], rule exI[of _ d], intro conjI) (fact a p(1) r mc g n q f d)+
qed


subsection \<open>An opening\<close>

text \<open>A dollar account with a balance of 128000 and no position buys a lot of \<open>EUR/USD\<close> at 1.\<close>

definition demo_settings :: trading_settings where
  "demo_settings =
     \<lparr>tg_risk = default_risk_settings, PENDING_ORDER_SPREAD_FEE_ENABLED = False, ROUTING_ENGINE_ENABLED = False,
      ROUTING_ENGINE_SYMBOLS = [], ROUTING_ENGINE_ACCOUNT_TYPES = [], MASSIVE_GOLD_DATA_ENABLED = False,
      GOLD_REAL_TRADING_ENABLED = False, GOLD_DEMO_ACCOUNT_IDS = ''''\<rparr>"

definition demo_buyer :: trading_account where
  "demo_buyer = demo_account\<lparr>balance := 128000, equity := 128000, peak_balance := 128000\<rparr>"

definition demo_rich :: trading_db where
  "demo_rich = (demo_trading 1 1)\<lparr>accounts := [1 \<mapsto> demo_buyer],
     positions := Map.empty, next_position := 0\<rparr>"

definition demo_session :: session_terms where
  "demo_session =
     \<lparr>st_netting = True, st_snap = \<lparr>as_leverage = 100, as_allowed = None, as_max_lot = Some 5, as_margin_call = None,
        as_max_per_trade = 10, as_max_total = 50\<rparr>, st_markup = 0, st_type = RETAIL\<rparr>"

definition demo_zero :: breakdown where
  "demo_zero = breakdown_of 0 empty_aggregate"

lemma demo_zero_figures:
  "bx_long_quantity demo_zero = 0" "bx_short_quantity demo_zero = 0" "bx_gross_quantity demo_zero = 0"
  "bx_gross_notional demo_zero = 0" "bx_net_notional demo_zero = 0"
  "open_position_count demo_zero = 0" "pricing_coverage_pct demo_zero = 100"
  by (simp_all add: demo_zero_def breakdown_of_def empty_aggregate_def Let_def dec_add_def pricing_coverage_def)

lemma empty_book:
  fixes s :: "'a exposure_db_scheme"
  assumes "positions s = Map.empty"
  shows "broker_exposure_snapshot mv (Some RISK_SCOPE_REAL) s = Inr demo_zero"
    "broker_exposure_for_symbol mv sy (Some RISK_SCOPE_REAL) s = Inr demo_zero"
    "broker_exposure_for_account mv k (Some RISK_SCOPE_REAL) s = Inr demo_zero"
proof -
  have sel: "selected_positions x s = []" for x
    using assms by (simp add: selected_positions_def List.map_filter_def)
  have c: "calculate_broker_exposure mv x s = Inr demo_zero" if "sel_scope x = Some RISK_SCOPE_REAL" for x
    using that by (simp add: calculate_broker_exposure_def sel demo_zero_def aggregate_positions_def)
  show "broker_exposure_snapshot mv (Some RISK_SCOPE_REAL) s = Inr demo_zero"
    "broker_exposure_for_symbol mv sy (Some RISK_SCOPE_REAL) s = Inr demo_zero"
    "broker_exposure_for_account mv k (Some RISK_SCOPE_REAL) s = Inr demo_zero"
    by (simp_all add: broker_exposure_snapshot_def broker_exposure_for_symbol_def broker_exposure_for_account_def c no_filter_def)
qed

lemma first_order_allowed:
  fixes s :: "'a exposure_db_scheme"
  assumes "positions s = Map.empty"
  shows "\<exists>d. validate_new_order default_risk_settings mv 1 ''EUR/USD'' ''buy'' (PyFloat 1) (Some (PyFloat 1))
         (Some (sp_contract_size spec_EUR_USD)) (Some RETAIL) s = Inr d \<and> ld_allowed d"
proof -
  have u: "upper ''buy'' = ''BUY''" by code_simp
  have sc: "risk_scope_for_account_type (Some RETAIL) = Some RISK_SCOPE_REAL"
    by (simp add: risk_scope_for_account_type_def REAL_MONEY_ACCOUNT_TYPES_def)
  have j: "resolve_broker_exposure_for_validation default_risk_settings mv 1 (Some RISK_SCOPE_REAL) s = Inr demo_zero"
    by (simp add: resolve_broker_exposure_for_validation_def should_use_dealing_desk_adjusted_exposure_def default_risk_settings_def
        empty_book[OF assms])
  have cs: "to_decimal (sp_contract_size spec_EUR_USD) = Some 100000" by (simp add: spec_defs)
  have t: "validate_total_limit default_risk_settings ''buy'' 1 demo_zero (Some (PyFloat 1)) (Some (sp_contract_size spec_EUR_USD))
     = Inr (lot_checks default_risk_settings ''buy'' 1 demo_zero @
         [limit_check_of MAX_GROSS_NOTIONAL False (Some 0) (Some 100000) 1000000000000,
          limit_check_of MAX_NET_NOTIONAL False (Some 0) (Some 100000) 1000000000000])"
    using u dec_ctx_int[of 1]
    by (simp add: validate_total_limit_def pricing_incomplete_def demo_zero_figures notional_checks_def dec_mult_def cs
        dec_add_def dec_small Let_def default_risk_settings_def)
  obtain m where m: "projected_margin mv 1 ''EUR/USD'' 1 (Some (PyFloat 1)) (Some (sp_contract_size spec_EUR_USD))
      (Some RISK_SCOPE_REAL) s = Inr m"
    by (simp add: projected_margin_def empty_book[OF assms] cs del: One_nat_def split: option.splits)
  have one: "dec_ctx 1 = 1" using dec_ctx_int[of 1] by simp
  show ?thesis
    unfolding validate_new_order_def validate_symbol_limit_def validate_account_limit_def sc Let_def
    by (simp add: j t m empty_book[OF assms] decide_limits_allowed del: One_nat_def)
       (simp add: limit_check_of_def demo_zero_figures lot_checks_def validate_position_limit_def
          default_risk_settings_def Let_def u dec_add_def one)
qed

lemma eur_usd_order:
  "og_error (compute_atomic_open_guard ''EUR/USD'' 1 1 Activo (st_snap demo_session) spec_EUR_USD 128000 0 True 0 n ''USD'')
     = (if n = 0 then Some TooManyPositions else None)"
proof -
  have m: "calculate_required_margin ''EUR/USD'' (PyFloat 1) (PyFloat 1) 100 ''USD'' = Inr 1000"
  proof -
    have "spec_EUR_USD \<in> set registry" by (simp add: registry_def)
    moreover have "norm_key ''EUR/USD'' = norm_key (sp_symbol spec_EUR_USD)" by (simp add: spec_defs)
    moreover have "to_decimal (sp_contract_size spec_EUR_USD) = Some 100000" by (simp add: spec_defs)
    ultimately show ?thesis
      using margin_notional_dollars[of spec_EUR_USD "''EUR/USD''" "PyFloat 1" 1 "PyFloat 1" 1 100000]
        dec_ctx_int[of 1] dec_ctx_int[of 100000] dec_ctx_int[of 1000]
      by (simp add: calculate_required_margin_def in_dollars_def dec_mult_def spec_defs)
  qed
  have l: "effective_leverage (st_snap demo_session) (sp_max_leverage spec_EUR_USD) = 100"
    by (simp add: effective_leverage_def spec_defs demo_session_def)
  have q: "check_lot_size 1 spec_EUR_USD = None"
    by (simp add: check_lot_size_def spec_defs fl_cent fl_eval[of 7036874417766400 _ 46] not_less flt.nonneg)
  have f: "fl (1 / 128) = 1 / 128" "fl (25 / 32) = 25 / 32"
    by (subst fl_eval[of "2 ^ 52" _ 59] fl_eval[of 7036874417766400 _ 53]; simp)+
  have lv: "margin_level 128000 1000 = 12800" "of_equity 1000 128000 = 25 / 32"
    by (simp_all add: f margin_level_def of_equity_def floor_equity_def fl_cent)
  show ?thesis
    using m l
    by (simp add: q lv compute_atomic_open_guard_def compute_pretrade_margin_guard_def margin_check_def Let_def
        or_num_def BLOCKED_STATUSES_def demo_session_def)
qed


lemma demo_buyer_simps:
  "acc_status demo_buyer = Activo" "currency demo_buyer = ''USD''" "acc_type demo_buyer = RETAIL"
  "balance demo_buyer = 128000" "leverage demo_buyer = 50" "rr_max_positions (default_rule demo_buyer) = 20"
  "spread_pips_snapshot demo_buyer = None" "commission_per_lot_snapshot demo_buyer = None"
proof -
  show "acc_status demo_buyer = Activo" "currency demo_buyer = ''USD''" "acc_type demo_buyer = RETAIL"
    "balance demo_buyer = 128000" "leverage demo_buyer = 50" "spread_pips_snapshot demo_buyer = None"
    "commission_per_lot_snapshot demo_buyer = None"
    by (simp_all add: demo_buyer_def demo_account_def)
  have "is_retail demo_buyer" by (simp add: demo_buyer_def demo_account_def is_retail_def MARGIN_ENGINE_TYPES_def)
  then show "rr_max_positions (default_rule demo_buyer) = 20"
    by (simp add: default_rule_def account_limits_def retail_limits_def Let_def)
qed

lemma first_execution:
  fixes s :: "'a trading_db_scheme"
  assumes "positions s = Map.empty" "next_position s = 0"
  shows "\<exists>s'. execute_open now 1 demo_buyer ''EUR/USD'' BUY 1 1 None None ctx None path ord False al 0 0 s
      = Inr (0, None, 128000, s')"
proof -
  have c6: "col6 1 = 1" using col6_int_div[of "10 ^ 6"] by simp
  have d: "dec_ctx 128000 = 128000" "quantize_he 2 128000 = 128000"
    using dec_ctx_int[of 128000] quantize_he_int_div[of 2 12800000] by simp_all
  have ch: "post_charges al k demo_buyer sy i 0 0 now s = Inr (128000, s)" for k sy i now and s :: "'a trading_db_scheme"
    by (simp add: post_charges_def allocate_opening_charges_def demo_buyer_simps d)
  show ?thesis
    by (simp add: execute_open_def place_position_def new_position_def position_fits_def fits_def c6 add_lot_event_def ch assms Let_def)
qed

lemma eur_usd_spec: "get_spec ''EUR/USD'' = Some spec_EUR_USD"
proof -
  have "get_spec (sp_symbol spec_EUR_USD) = Some spec_EUR_USD" by (rule get_spec_registered) (simp add: registry_def)
  then show ?thesis by (simp add: spec_defs)
qed

lemma demo_opens:
  "\<exists>s'. open_position_atomic demo_settings demo_view 1 demo_session ''EUR/USD'' BUY 1 1 None None 0 None demo_rich
     = Inr (Opened 0 False 128000 None, s')"
proof -
  let ?a = demo_buyer
  define s0 where "s0 = take_risk_lock (tv_now demo_view) demo_rich"
  define s1 where "s1 = s0\<lparr>risk_rules := (risk_rules s0)(1 \<mapsto> store_rule (default_rule ?a))\<rparr>"
  have rich: "accounts demo_rich = [1 \<mapsto> ?a]" "positions demo_rich = Map.empty" "next_position demo_rich = 0"
    "risk_rules demo_rich = Map.empty"
    by (simp_all add: demo_rich_def demo_trading_def)
  have s0: "accounts s0 1 = Some ?a" "locked_positions 1 s0 = []" "risk_rules s0 1 = None"
    using rich by (simp_all add: s0_def take_risk_lock_def locked_positions_def open_positions_def rows_where_def)
  have g: "get_or_create_risk_rule 1 ?a s0 = (default_rule ?a, s1)" using s0(3) by (simp add: get_or_create_risk_rule_def s1_def)
  have p1: "positions s1 = Map.empty" "next_position s1 = 0" using rich by (simp_all add: s1_def s0_def take_risk_lock_def)
  obtain d where d: "validate_new_order default_risk_settings (tv_market demo_view) 1 ''EUR/USD'' ''buy'' (PyFloat 1) (Some (PyFloat 1))
         (Some (sp_contract_size spec_EUR_USD)) (Some RETAIL) s1 = Inr d" "ld_allowed d"
    using first_order_allowed[of s1 "tv_market demo_view"] p1(1) by blast
  have ap: "approve demo_settings demo_view 1 ?a (st_snap demo_session) ''EUR/USD'' BUY 1 1 128000 0 True 0 (default_rule ?a) s1
      = Inr (None, spec_EUR_USD)"
    using eur_usd_order[of 20] d
    by (simp add: approve_def eur_usd_spec demo_buyer_simps order_side_text_def demo_settings_def del: One_nat_def)
  have r: "should_activate_routing_decision demo_settings sy ty = False" for sy ty
    by (simp add: should_activate_routing_decision_def demo_settings_def)
  have pips: "opening_pips demo_view demo_session ''EUR/USD'' None = 0"
    by (simp add: opening_pips_def demo_view_def demo_session_def get_cached_config_def)
  have fl0: "fresh_floating ccy f [] = 0" "fresh_margin l ccy [] = Some 0" for ccy f l
    by (simp_all add: fresh_floating_def fresh_margin_def)
  show ?thesis
    unfolding open_position_atomic_def Let_def s0_def[symmetric]
    using first_execution[OF p1, of "tv_now demo_view" None ENTRY_MANUAL_WS None True]
    by (auto simp: s0 g fl0 demo_buyer_simps ap r pips merge_target_def decimal_charge_def simp del: One_nat_def)
qed


text \<open>The same purchase as a pending order, triggered at 1.\<close>

definition demo_order :: pending_order where
  "demo_order =
     \<lparr>po_account = 1, po_symbol = ''EUR/USD'', po_side = BUY, po_kind = LIMIT, po_qty = 1, po_trigger = 1, po_sl = None,
      po_tp = None, po_status = PENDING, po_created_at = 0, po_expires_at = None, po_triggered_at = None,
      po_cancelled_at = None, po_position = None\<rparr>"

definition demo_waiting :: trading_db where
  "demo_waiting = demo_rich\<lparr>pending_orders := [0 \<mapsto> demo_order], next_pending := 1\<rparr>"

lemma eur_usd_pending:
  "og_error (compute_atomic_open_guard ''EUR/USD'' 1 1 Activo (snap_of_row demo_buyer blank_terms) spec_EUR_USD 128000 0 True 0 20 ''USD'')
     = None"
proof -
  have m: "calculate_required_margin ''EUR/USD'' (PyFloat 1) (PyFloat 1) 50 ''USD'' = Inr 2000"
  proof -
    have "spec_EUR_USD \<in> set registry" by (simp add: registry_def)
    moreover have "norm_key ''EUR/USD'' = norm_key (sp_symbol spec_EUR_USD)" by (simp add: spec_defs)
    moreover have "to_decimal (sp_contract_size spec_EUR_USD) = Some 100000" by (simp add: spec_defs)
    ultimately show ?thesis
      using margin_notional_dollars[of spec_EUR_USD "''EUR/USD''" "PyFloat 1" 1 "PyFloat 1" 1 100000]
        dec_ctx_int[of 1] dec_ctx_int[of 100000] dec_ctx_int[of 2000]
      by (simp add: calculate_required_margin_def in_dollars_def dec_mult_def spec_defs)
  qed
  have l: "effective_leverage (snap_of_row demo_buyer blank_terms) (sp_max_leverage spec_EUR_USD) = 50"
    by (simp add: effective_leverage_def spec_defs snap_of_row_def demo_buyer_simps)
  have q: "check_lot_size 1 spec_EUR_USD = None"
    by (simp add: check_lot_size_def spec_defs fl_cent fl_eval[of 7036874417766400 _ 46] not_less flt.nonneg)
  have f: "fl (1 / 64) = 1 / 64" "fl (25 / 16) = 25 / 16"
    by (subst fl_eval[of "2 ^ 52" _ 58] fl_eval[of 7036874417766400 _ 52]; simp)+
  have lv: "margin_level 128000 2000 = 6400" "of_equity 2000 128000 = 25 / 16"
    by (simp_all add: f margin_level_def of_equity_def floor_equity_def fl_cent)
  have sn: "as_allowed (snap_of_row demo_buyer blank_terms) = None" "as_max_lot (snap_of_row demo_buyer blank_terms) = None"
      "as_margin_call (snap_of_row demo_buyer blank_terms) = None" "as_max_per_trade (snap_of_row demo_buyer blank_terms) = 10"
      "as_max_total (snap_of_row demo_buyer blank_terms) = 50"
    by (simp_all add: snap_of_row_def blank_terms_def DEFAULT_MAX_MARGIN_PER_TRADE_PCT_def DEFAULT_MAX_TOTAL_MARGIN_PCT_def)
  show ?thesis
    using m l sn
    by (simp add: q lv compute_atomic_open_guard_def compute_pretrade_margin_guard_def margin_check_def Let_def
        or_num_def BLOCKED_STATUSES_def)
qed

lemma demo_triggers:
  "\<exists>s'. trigger_pending_order demo_settings demo_view 0 1 demo_waiting = Inr (OrderTriggered 0 False, s')"
proof -
  let ?a = demo_buyer
  define s0 where "s0 = take_risk_lock (tv_now demo_view) demo_waiting"
  define s1 where "s1 = s0\<lparr>risk_rules := (risk_rules s0)(1 \<mapsto> store_rule (default_rule ?a))\<rparr>"
  have w: "accounts demo_waiting = [1 \<mapsto> ?a]" "positions demo_waiting = Map.empty" "next_position demo_waiting = 0"
    "risk_rules demo_waiting = Map.empty" "account_terms_of demo_waiting = Map.empty" "enrollments demo_waiting = Map.empty"
    by (simp_all add: demo_waiting_def demo_rich_def demo_trading_def)
  have s0: "accounts s0 1 = Some ?a" "locked_positions 1 s0 = []" "risk_rules s0 1 = None" "terms_of 1 s0 = blank_terms"
    "enrollments s0 = Map.empty"
    using w by (simp_all add: s0_def take_risk_lock_def locked_positions_def open_positions_def rows_where_def terms_of_def)
  have g: "get_or_create_risk_rule 1 ?a s0 = (default_rule ?a, s1)" using s0(3) by (simp add: get_or_create_risk_rule_def s1_def)
  have p1: "positions s1 = Map.empty" "next_position s1 = 0" using w by (simp_all add: s1_def s0_def take_risk_lock_def)
  obtain d where d: "validate_new_order default_risk_settings (tv_market demo_view) 1 ''EUR/USD'' ''buy'' (PyFloat 1) (Some (PyFloat 1))
         (Some (sp_contract_size spec_EUR_USD)) (Some RETAIL) s1 = Inr d" "ld_allowed d"
    using first_order_allowed[of s1 "tv_market demo_view"] p1(1) by blast
  have ap: "approve demo_settings demo_view 1 ?a (snap_of_row ?a blank_terms) ''EUR/USD'' BUY 1 1 128000 0 True 0 (default_rule ?a) s1
      = Inr (None, spec_EUR_USD)"
    using eur_usd_pending d
    by (simp add: approve_def eur_usd_spec demo_buyer_simps order_side_text_def demo_settings_def del: One_nat_def)
  have fl0: "fresh_floating ccy f [] = 0" "fresh_margin l ccy [] = Some 0" for ccy f l
    by (simp_all add: fresh_floating_def fresh_margin_def)
  have pr: "build_commercial_pricing_profile (resolve_commercial_pricing_fields 0 1 ?a blank_terms s1) ''EUR/USD'' (tv_spreads demo_view)
      = fallback_fields (Some RETAIL)"
    by (simp add: resolve_commercial_pricing_fields_def blank_terms_def demo_buyer_simps find_challenge_product_def rows_where_def
        build_commercial_pricing_profile_def get_cached_config_def demo_view_def crossed_bounds_def fallback_fields_def Let_def or_else_def)
  have cm: "commission_for (fallback_fields (Some RETAIL)) spec_EUR_USD 1 1 = 0"
    by (simp add: commission_for_def fallback_fields_def spec_defs)
  have fee: "PENDING_ORDER_SPREAD_FEE_ENABLED demo_settings = False" "tv_enrollments demo_view = 0"
    by (simp_all add: demo_settings_def demo_view_def)
  have "validate_sl_tp ''buy'' WsNone WsNone 1 = None" by (simp add: validate_sl_tp_def bad_price_def price_is_def)
  moreover have "\<exists>s'. fill_pending demo_settings demo_view 0 demo_order ?a 1 s0 = Inr (OrderTriggered 0 False, s')"
    unfolding fill_pending_def Let_def
    using first_execution[OF p1, of "tv_now demo_view" None ENTRY_PENDING_TRIGGER "Some 0" False]
    by (auto simp: demo_order_def s0 g fl0 fee demo_buyer_simps ap pr cm merge_target_def decimal_charge_def simp del: One_nat_def)
  moreover have "pending_orders demo_waiting 0 = Some demo_order" by (simp add: demo_waiting_def)
  ultimately show ?thesis
    unfolding trigger_pending_order_def Let_def s0_def[symmetric]
    by (auto simp: demo_order_def order_side_text_def stop_value_def s0 simp del: One_nat_def)
qed


subsection \<open>The runs of the examples\<close>

lemma demo_rich_empty:
  "positions demo_rich = Map.empty" "next_position demo_rich = 0" "lot_events demo_rich = []" "next_trade demo_rich = 0"
  "pending_orders demo_rich = Map.empty" "next_pending demo_rich = 0"
  by (simp_all add: demo_rich_def demo_trading_def)

lemma demo_waiting_empty:
  "lot_events demo_waiting = []" "next_pending demo_waiting = 1" "pending_orders demo_waiting = [0 \<mapsto> demo_order]"
  by (simp_all add: demo_waiting_def demo_rich_def demo_trading_def)

lemma six_one: "six_float 1" "col6 (py_repr (fl 1)) = 1" "col6 1 = 1"
proof -
  have "micro 1" unfolding micro_def by (rule exI[of _ "10 ^ 6"]) simp
  then show "six_float 1" "col6 1 = 1" "col6 (py_repr (fl 1)) = 1"
    using fl_int[of 1] col6_micro[of 1] by (simp_all add: six_float_def)
qed

lemma demo_orders_ok: "orders_ok demo_waiting"
  by (simp add: orders_ok_def order_state_ok_def executions_def demo_waiting_empty demo_order_def)

theorem orders_executed_once_witness:
  "orders_ok demo_waiting
   \<and> (let s' = run demo_settings [(demo_view, TriggerPending 0 1), (demo_view, TriggerPending 0 1)] demo_waiting in
       (\<exists>po x. pending_orders s' 0 = Some po \<and> po_status po = TRIGGERED \<and> executions 0 s' = [x] \<and> lx_qty x = 1))"
proof -
  obtain s1 where t: "trigger_pending_order demo_settings demo_view 0 1 demo_waiting = Inr (OrderTriggered 0 False, s1)"
    using demo_triggers by blast
  have s1: "run demo_settings [(demo_view, TriggerPending 0 1)] demo_waiting = s1"
    by (simp add: run_def committed_def t)
  define es where "es = [(demo_view, TriggerPending 0 1)]"
  define s2 where "s2 = run demo_settings es s1"
  have s2: "run demo_settings [(demo_view, TriggerPending 0 1), (demo_view, TriggerPending 0 1)] demo_waiting = s2"
    by (simp add: run_def committed_def t s2_def es_def)
  have po: "pending_orders s1 0 = Some (demo_order\<lparr>po_status := TRIGGERED, po_triggered_at := Some (tv_now demo_view),
      po_position := Some 0\<rparr>)"
    using trigger_pending_effect[OF t] by (auto simp: trigger_outcome_def demo_waiting_empty)
  have ok: "orders_ok s1" using orders_executed_once[OF demo_orders_ok, of demo_settings "[(demo_view, TriggerPending 0 1)]"] s1 by simp
  from orders_executed_once[OF ok, of demo_settings es] have "order_state_ok 0 s2"
    "pending_orders s2 0 = Some (demo_order\<lparr>po_status := TRIGGERED, po_triggered_at := Some (tv_now demo_view),
      po_position := Some 0\<rparr>)"
    using po by (simp_all add: s2_def orders_ok_def)
  then show ?thesis
    unfolding s2 using demo_orders_ok by (auto simp: order_state_ok_def demo_order_def six_one)
qed

lemma demo_lots_ok: "lots_ok demo_rich" "lots_conserved demo_rich"
  by (simp_all add: lots_ok_def lots_conserved_def demo_rich_empty executed_lots_def open_lots_def closed_lots_def table_sum_def)

lemma demo_fill:
  assumes "open_position_atomic demo_settings demo_view 1 demo_session ''EUR/USD'' BUY 1 1 None None 0 None demo_rich
     = Inr (Opened 0 False 128000 None, s')"
  shows "filled 1 ''EUR/USD'' BUY 1 ENTRY_MANUAL_WS None 0 demo_rich s'"
  using open_position_effect[OF assms] by auto


theorem opened_position_was_checked_witness:
  "\<exists>s' a sp. open_position_atomic demo_settings demo_view 1 demo_session ''EUR/USD'' BUY 1 1 None None 0 None demo_rich
       = Inr (Opened 0 False 128000 None, s')
     \<and> accounts demo_rich 1 = Some a \<and> acc_status a \<notin> set BLOCKED_STATUSES
     \<and> get_spec ''EUR/USD'' = Some sp \<and> sp_min_lot sp \<le> 1 \<and> filled 1 ''EUR/USD'' BUY 1 ENTRY_MANUAL_WS None 0 demo_rich s'"
proof -
  obtain s1 where t: "open_position_atomic demo_settings demo_view 1 demo_session ''EUR/USD'' BUY 1 1 None None 0 None demo_rich
     = Inr (Opened 0 False 128000 None, s1)"
    using demo_opens by blast
  from opened_position_was_checked[OF t, unfolded py_repr_1] t show ?thesis by (elim exE conjE, intro exI conjI) assumption+
qed

end
