(* ===== verification/Spec2Isabelle.thy ===== *)
theory Spec2Isabelle
  imports PayoutInbox ChallengeEngine TradingRuns
begin

section \<open>The broker back end of trx simulator\<close>

text \<open>
  The repository is a Django application that runs a retail and prop-firm broker:
  client wallets, trading accounts, challenge accounts with phases, profit and margin
  figures, risk limits, withdrawals with e-mail codes and approvals, payouts over an
  external provider with webhooks and reconciliation, and the broker's own ledger. The
  development models the part that moves money or decides about it, as state-passing
  functions over explicit tables, and proves what each part promises.

  \<^bold>\<open>How the code is modelled.\<close> A table of the database is a map from primary keys to
  rows or, when it is append-only, the list of its rows, oldest first. The database is a
  record which the components extend with their tables: \<open>db\<close>, \<open>wallet_db\<close>, \<open>books_db\<close>,
  and from there on the one hand \<open>otp_db\<close>, \<open>payout_db\<close>, \<open>funded_db\<close>, \<open>inbox_db\<close> and on
  the other \<open>risk_db\<close>, \<open>challenge_db\<close>, \<open>pricing_db\<close>, \<open>exposure_db\<close>, \<open>intel_db\<close>, \<open>trading_db\<close>. A view, task or service function is one definition
  from its arguments and the database to its result and the new database; a raise is
  \<open>Inl\<close>, and a rolled back transaction leaves the database out of the \<open>Inl\<close> (a function
  that keeps writes before raising returns both). \<open>now\<close> is the clock, in microseconds. A call
  that commits between two transactions is split into its phases, so that other requests
  may run between them. Numbers are rationals with the rounding of each operation
  written out: \<open>Decimal\<close> quotients to 28 digits, \<open>float\<close> to 53 bits, columns to their
  decimals (theory \<open>Numerics\<close>).

  \<^bold>\<open>Theories and sources.\<close> (paths below \<open>src/\<close>)

    \<^item> \<open>Prelude\<close>, \<open>Numerics\<close>, \<open>Calendar\<close>: tables, texts, the locale \<open>rounding\<close> with its
      interpretations for \<open>quantize\<close>, \<open>Decimal\<close> and \<open>float\<close>, dates.
    \<^item> \<open>Accounts\<close>: \<open>TradingAccount\<close> with \<open>save\<close> and \<open>check_rules\<close>, \<open>Position\<close>,
      \<open>LedgerEntry\<close> (\<open>simulator/models.py\<close>).
    \<^item> \<open>WalletLedger\<close>: \<open>simulator/wallet_ledger.py\<close>, all operations. Wallets reconcile with
      their transactions over every sequence of operations; transfers move exactly their amount or nothing.
    \<^item> \<open>BrokerBook\<close>: \<open>broker_ledger.py\<close>, \<open>challenge_revenue.py\<close>,
      \<open>withdrawal_economics.py\<close>, \<open>provider_cost_economics.py\<close>, \<open>broker_economic_adjustment.py\<close>,
      \<open>broker_pnl.py\<close>. The locale \<open>revenue_writer\<close> states when a writer books a
      source at most once and is interpreted on each writer. The JSON column \<open>meta\<close> of
      a broker row is left out.
    \<^item> \<open>WithdrawalOtp\<close>: \<open>withdrawal_otp.py\<close>. Codes are bounded in guesses, expire, and never revive.
    \<^item> \<open>Withdrawals\<close>: the withdrawal steps of \<open>views.py\<close> and \<open>admin.py\<close> (finalize, two
      approvals, reject).
    \<^item> \<open>PayoutStateMachine\<close>, \<open>FundedPayouts\<close>, \<open>PayoutProviders\<close>, \<open>PayoutOrchestrator\<close>:
      \<open>payout_state_machine.py\<close>, \<open>funded_payouts.py\<close>, \<open>payout_providers.py\<close>,
      \<open>payout_orchestrator.py\<close>, the payout callback of \<open>views.py\<close> and the replay task of \<open>tasks.py\<close>.
    \<^item> \<open>PayoutSafety\<close>, \<open>PayoutRuns\<close>, \<open>PayoutInbox\<close>: what holds over every interleaving of the
      payout handlers (money is conserved, one payout per withdrawal, two
      approvers), and the behaviour of the webhook inbox.
    \<^item> \<open>Instruments\<close>: \<open>market_data/symbol_specs.py\<close>, \<open>market_data/instruments\<close>,
      \<open>market_data/catalog\<close>: the registry, symbol normalisation, profiles, drift reports.
    \<^item> \<open>PnlEngine\<close>: \<open>simulator/pnl_engine.py\<close>: profit and margin with currency conversion.
    \<^item> \<open>RiskEngine\<close>: \<open>simulator/risk_engine.py\<close>: limits, the gate before an order, the evaluation after
      a close, the stop-out, the margin figures and the trader classes.
    \<^item> \<open>ChallengeEngine\<close>: \<open>simulator/challenge_engine.py\<close>: phases, promotions, failures;
      an invariant over all runs and a refinement of the abstract course of a challenge.
    \<^item> \<open>OrderGuards\<close>: the checks \<open>consumers.py\<close> makes before and inside the opening of an
      order: stops, freshness of the price, lots, margin before and under the lock.
    \<^item> \<open>ProviderRouter\<close>: \<open>market_data/routing\<close>, \<open>market_data/contracts\<close>: route plans, the circuit breaker
      of a provider, the selection of a provider, the acceptance of ticks.
    \<^item> \<open>MarketSessions\<close>: \<open>market_data/sessions\<close>: the trading calendars and order policies.
    \<^item> \<open>Pricing\<close>: \<open>pricing_context.py\<close>, \<open>commercial_pricing.py\<close>, \<open>dynamic_spread.py\<close>,
      \<open>spread_engine.py\<close>, \<open>opening_charges.py\<close> and the price functions of \<open>consumers.py\<close>: spread, commission and how they are booked.
    \<^item> \<open>BrokerExposure\<close>, \<open>BrokerRisk\<close>: \<open>broker_exposure.py\<close>, \<open>broker_risk.py\<close>: the aggregate of all
      open positions and the nine limits a new order must keep.
    \<^item> \<open>Intelligence\<close>: \<open>intelligence_engine.py\<close>: the behaviour metrics and classes of a trader, as
      stored after each close.
    \<^item> \<open>Trading\<close>: the transactions of \<open>consumers.py\<close> that open positions, for market orders and triggered
      pending orders, the life of a pending order and the scan of \<open>tasks.py\<close> that triggers it.
    \<^item> \<open>Closing\<close>: the transaction that closes a position in full or in part, with the books it keeps.
    \<^item> \<open>PositionDaemon\<close>: the offline scan of \<open>tasks.py\<close> (stop-out, liquidation, stops and targets) and suspension.
    \<^item> \<open>TradingRuns\<close>: every interleaving of these transactions: lots are conserved, orders are
      executed once, and what is opened was checked.

  \<^bold>\<open>Interaction.\<close> The withdrawal view debits the wallet through \<open>WalletLedger\<close> after a code of
  \<open>WithdrawalOtp\<close> was verified; the orchestrator creates attempts of \<open>PayoutStateMachine\<close> and
  refunds through \<open>WalletLedger\<close>; the callback settles them and books revenue in
  \<open>BrokerBook\<close>. \<open>RiskEngine\<close> reads the ledger the accounts write and uses \<open>PnlEngine\<close> for margin;
  \<open>ChallengeEngine\<close> opens accounts of \<open>Accounts\<close> with the rules that \<open>RiskEngine\<close> enforces. An opening
  in \<open>Trading\<close> is decided by \<open>OrderGuards\<close> and \<open>BrokerRisk\<close>, priced by \<open>Pricing\<close> and booked in
  \<open>BrokerBook\<close>; a close in \<open>Closing\<close> is valued by \<open>PnlEngine\<close>, followed by \<open>RiskEngine\<close> and \<open>Intelligence\<close>.

  \<^bold>\<open>Bounds and termination.\<close> Every definition is total: loops recurse over the list of rows
  they work on, so no fuel is needed. The retry delay of the inbox is shown to be
  bounded and to end after the configured number of retries.

  \<^bold>\<open>Parameters.\<close> The payment provider's answers, the keyed hash of a code, what other
  processes commit during a provider call, the cached live prices and the C library's \<open>pow\<close> are arguments of the definitions that use them.

  \<^bold>\<open>Not modelled.\<close> Rendering, forms, sockets, scheduling and e-mail; audit rows; the connections to the
  price feeds; the introducing-broker and treasury workflows; read-only reports. Concurrency
  inside one transaction is not modelled: the locks the code takes make the
  transactions of one row sequential, and the retries after an \<open>IntegrityError\<close> do not occur in
  a sequential run. Exponent range, infinities and NaN of numbers are left out.
\<close>

end
